(* ===== verification/Prelude.thy ===== *)
theory Prelude
  imports Main "HOL-Library.Word"
begin

text \<open>
  The shared base of the development: the machine integers of the Rust sources, the
  result type of fallible code, the standard-library collection the components keep
  their state in (\<^verbatim>\<open>HashMap\<close>), the interface contracts several components share
  (key-value stores, exclusive pools, transition systems), and the generic lemmas their
  proofs use.

  A \<^verbatim>\<open>HashMap\<close> is an association list with distinct keys. The order in which Rust
  iterates over a map is unspecified; the list order is one such order, and no property
  of the development depends on it (they are stated on lookups, on sets or on counts).
\<close>

section \<open>Collections of lemmas\<close>

named_theorems hmap_simps "lookup and key laws of the hash map model"
named_theorems str_simps "laws of the string operations"
named_theorems inv_intros "preservation of component invariants"

section \<open>Machine integers and results\<close>

type_synonym u8 = "8 word"
type_synonym u16 = "16 word"
type_synonym u32 = "32 word"
type_synonym u64 = "64 word"
type_synonym u128 = "128 word"

type_synonym bytes = "u8 list"

text \<open>\<^verbatim>\<open>Result<T, E>\<close>: the error is the left summand.\<close>

type_synonym ('e, 'a) result = "'e + 'a"

abbreviation Err :: "'e \<Rightarrow> ('e, 'a) result" where
  "Err e \<equiv> Inl e"

abbreviation Ok :: "'a \<Rightarrow> ('e, 'a) result" where
  "Ok a \<equiv> Inr a"

definition is_ok :: "('e, 'a) result \<Rightarrow> bool" where
  "is_ok r = (case r of Inl _ \<Rightarrow> False | Inr _ \<Rightarrow> True)"

text \<open>The \<^verbatim>\<open>?\<close> operator.\<close>

definition and_then :: "('e, 'a) result \<Rightarrow> ('a \<Rightarrow> ('e, 'b) result) \<Rightarrow> ('e, 'b) result" where
  "and_then r f = (case r of Inl e \<Rightarrow> Inl e | Inr a \<Rightarrow> f a)"

text \<open>
  The same for code that acts on a host: a computation gives a result and the state of
  the world after it, and an error stops the sequence where it happened.
\<close>

definition bindE ::
  "('e, 'a) result \<times> 'w \<Rightarrow> ('a \<Rightarrow> 'w \<Rightarrow> ('e, 'b) result \<times> 'w) \<Rightarrow> ('e, 'b) result \<times> 'w" where
  "bindE r k = (case r of (Inl e, w) \<Rightarrow> (Inl e, w) | (Inr a, w) \<Rightarrow> k a w)"

text \<open>\<^verbatim>\<open>Result::map_err\<close> and \<^verbatim>\<open>context\<close> on a result.\<close>

definition map_err :: "('e \<Rightarrow> 'f) \<Rightarrow> ('e, 'a) result \<Rightarrow> ('f, 'a) result" where
  "map_err f r = (case r of Inl e \<Rightarrow> Inl (f e) | Inr a \<Rightarrow> Inr a)"

text \<open>\<^verbatim>\<open>Option::context\<close> and \<^verbatim>\<open>ok_or_else\<close>.\<close>

definition ok_or :: "'a option \<Rightarrow> 'e \<Rightarrow> ('e, 'a) result" where
  "ok_or x e = (case x of None \<Rightarrow> Inl e | Some a \<Rightarrow> Inr a)"

text \<open>\<^verbatim>\<open>saturating_sub\<close>, \<^verbatim>\<open>checked_mul\<close> and \<^verbatim>\<open>div_ceil(2)\<close> on \<^verbatim>\<open>u32\<close>.\<close>

definition saturating_sub :: "'w::len word \<Rightarrow> 'w word \<Rightarrow> 'w word" where
  "saturating_sub a b = (if b \<le> a then a - b else 0)"

definition checked_mul :: "'w::len word \<Rightarrow> 'w word \<Rightarrow> 'w word option" where
  "checked_mul a b = (if unat a * unat b < 2 ^ LENGTH('w) then Some (a * b) else None)"

definition div_ceil2 :: "u32 \<Rightarrow> u32" where
  "div_ceil2 a = (if a mod 2 = 0 then a div 2 else a div 2 + 1)"

section \<open>The hash map model\<close>

type_synonym ('k, 'v) hmap = "('k \<times> 'v) list"

abbreviation hm_empty :: "('k, 'v) hmap" where
  "hm_empty \<equiv> []"

definition hm_get :: "('k, 'v) hmap \<Rightarrow> 'k \<Rightarrow> 'v option" where
  "hm_get m k = map_of m k"

definition hm_remove :: "'k \<Rightarrow> ('k, 'v) hmap \<Rightarrow> ('k, 'v) hmap" where
  "hm_remove k m = filter (\<lambda>e. fst e \<noteq> k) m"

definition hm_insert :: "'k \<Rightarrow> 'v \<Rightarrow> ('k, 'v) hmap \<Rightarrow> ('k, 'v) hmap" where
  "hm_insert k v m = (k, v) # hm_remove k m"

definition hm_contains_key :: "('k, 'v) hmap \<Rightarrow> 'k \<Rightarrow> bool" where
  "hm_contains_key m k = (hm_get m k \<noteq> None)"

definition hm_values :: "('k, 'v) hmap \<Rightarrow> 'v list" where
  "hm_values m = map snd m"

definition hm_keys :: "('k, 'v) hmap \<Rightarrow> 'k list" where
  "hm_keys m = map fst m"

definition hm_wf :: "('k, 'v) hmap \<Rightarrow> bool" where
  "hm_wf m = distinct (map fst m)"

section \<open>Interface contracts\<close>

text \<open>
  A key-value store: what every component that keeps a \<^verbatim>\<open>HashMap\<close> relies on. The
  abstract value of a store is its lookup function.
\<close>

locale kv_store =
  fixes empty :: "'m"
    and insert :: "'k \<Rightarrow> 'v \<Rightarrow> 'm \<Rightarrow> 'm"
    and remove :: "'k \<Rightarrow> 'm \<Rightarrow> 'm"
    and get :: "'m \<Rightarrow> 'k \<Rightarrow> 'v option"
    and entries :: "'m \<Rightarrow> ('k \<times> 'v) set"
    and wf :: "'m \<Rightarrow> bool"
  assumes get_empty: "get empty k = None"
    and get_insert: "get (insert k v m) k' = (if k' = k then Some v else get m k')"
    and get_remove: "get (remove k m) k' = (if k' = k then None else get m k')"
    and entries_get: "wf m \<Longrightarrow> (k, v) \<in> entries m \<longleftrightarrow> get m k = Some v"
    and wf_empty: "wf empty"
    and wf_insert: "wf m \<Longrightarrow> wf (insert k v m)"
    and wf_remove: "wf m \<Longrightarrow> wf (remove k m)"
begin

lemma entries_insert:
  assumes "wf m"
  shows "entries (insert k v m) = {(k, v)} \<union> {e \<in> entries m. fst e \<noteq> k}"
proof -
  have "(k', v') \<in> entries (insert k v m) \<longleftrightarrow> (k', v') \<in> {(k, v)} \<union> {e \<in> entries m. fst e \<noteq> k}"
    for k' v'
    using assms by (auto simp: entries_get wf_insert get_insert)
  then show ?thesis by auto
qed

lemma entries_remove:
  assumes "wf m"
  shows "entries (remove k m) = {e \<in> entries m. fst e \<noteq> k}"
proof -
  have "(k', v') \<in> entries (remove k m) \<longleftrightarrow> (k', v') \<in> {e \<in> entries m. fst e \<noteq> k}" for k' v'
    using assms by (auto simp: entries_get wf_remove get_remove)
  then show ?thesis by auto
qed

text \<open>Inserting under a fresh key and removing it again leaves the store's contents alone.\<close>

lemma get_remove_insert_fresh:
  "get m k = None \<Longrightarrow> get (remove k (insert k v m)) k' = get m k'"
  by (simp add: get_remove get_insert)

lemma entries_functional:
  "wf m \<Longrightarrow> (k, v) \<in> entries m \<Longrightarrow> (k, v') \<in> entries m \<Longrightarrow> v = v'"
  by (simp add: entries_get)

end

lemma hm_get_insert [simp, hmap_simps]:
  "hm_get (hm_insert k v m) k' = (if k' = k then Some v else hm_get m k')"
  by (induction m) (auto simp: hm_get_def hm_insert_def hm_remove_def)

lemma hm_get_remove [simp, hmap_simps]:
  "hm_get (hm_remove k m) k' = (if k' = k then None else hm_get m k')"
  by (induction m) (auto simp: hm_get_def hm_remove_def)

lemma hm_get_empty [simp]: "hm_get [] k = None"
  by (simp add: hm_get_def)

lemma hm_wf_remove [simp, intro]: "hm_wf m \<Longrightarrow> hm_wf (hm_remove k m)"
  by (auto simp: hm_wf_def hm_remove_def distinct_map inj_on_def)

lemma hm_wf_insert [simp, intro]: "hm_wf m \<Longrightarrow> hm_wf (hm_insert k v m)"
  using hm_wf_remove [of m k] by (auto simp: hm_wf_def hm_insert_def hm_remove_def)

lemma hm_wf_empty [simp]: "hm_wf []"
  by (simp add: hm_wf_def)

lemma hm_get_set: "hm_wf m \<Longrightarrow> (k, v) \<in> set m \<longleftrightarrow> hm_get m k = Some v"
  by (auto simp: hm_wf_def hm_get_def)

interpretation hm: kv_store hm_empty hm_insert hm_remove hm_get "\<lambda>m. set m" hm_wf
  by unfold_locales (auto simp: hm_get_set)

lemma hm_contains_key_simps [simp]:
  "hm_contains_key (hm_insert k v m) k' \<longleftrightarrow> k' = k \<or> hm_contains_key m k'"
  "hm_contains_key (hm_remove k m) k' \<longleftrightarrow> k' \<noteq> k \<and> hm_contains_key m k'"
  "\<not> hm_contains_key [] k"
  by (auto simp: hm_contains_key_def)

lemma hm_values_get: "hm_wf m \<Longrightarrow> v \<in> set (hm_values m) \<longleftrightarrow> (\<exists>k. hm_get m k = Some v)"
  by (force simp: hm_values_def simp flip: hm_get_set)

lemma hm_keys_get: "k \<in> set (hm_keys m) \<longleftrightarrow> hm_get m k \<noteq> None"
  by (force simp: hm_keys_def hm_get_def map_of_eq_None_iff)

section \<open>Exclusive pools\<close>

text \<open>
  The contract of an allocator that several virtual machines draw from: what is held
  under different owners never conflicts. The IPv6 range allocator and the manager's
  IPv4 addresses provide it.
\<close>

locale exclusive_pool =
  fixes inv :: "'s \<Rightarrow> bool"
    and held :: "'s \<Rightarrow> 'o \<Rightarrow> 'r option"
    and conflict :: "'r \<Rightarrow> 'r \<Rightarrow> bool"
    and grant :: "'s \<Rightarrow> 'o \<Rightarrow> 'r \<Rightarrow> 's"
    and revoke :: "'s \<Rightarrow> 'o \<Rightarrow> 's"
    and grantable :: "'s \<Rightarrow> 'r \<Rightarrow> bool"
  assumes exclusive: "inv s \<Longrightarrow> held s a = Some r \<Longrightarrow> held s b = Some q \<Longrightarrow> a \<noteq> b \<Longrightarrow> \<not> conflict r q"
    and inv_grant: "inv s \<Longrightarrow> grantable s r \<Longrightarrow> inv (grant s a r)"
    and inv_revoke: "inv s \<Longrightarrow> inv (revoke s a)"
    and held_grant: "held (grant s a r) b = (if b = a then Some r else held s b)"
    and held_revoke: "held (revoke s a) b = (if b = a then None else held s b)"
    and grantable_free: "inv s \<Longrightarrow> grantable s r \<Longrightarrow> held s a = Some q \<Longrightarrow> \<not> conflict r q"
    and grantable_antimono: "inv s \<Longrightarrow> grantable s r \<Longrightarrow> grantable (revoke s a) r"
begin

inductive run :: "'s \<Rightarrow> 's \<Rightarrow> bool" where
  run_refl: "run s s"
| run_grant: "run s t \<Longrightarrow> grantable t r \<Longrightarrow> run s (grant t a r)"
| run_revoke: "run s t \<Longrightarrow> run s (revoke t a)"

lemma run_inv: "run s t \<Longrightarrow> inv s \<Longrightarrow> inv t"
  by (induction rule: run.induct) (auto intro: inv_grant inv_revoke)

text \<open>Whatever sequence of grants and releases ran, two owners never hold conflicting resources.\<close>

lemma run_exclusive:
  "run s t \<Longrightarrow> inv s \<Longrightarrow> held t a = Some r \<Longrightarrow> held t b = Some q \<Longrightarrow> a \<noteq> b \<Longrightarrow> \<not> conflict r q"
  using exclusive run_inv by metis

lemma grant_revoke_held: "held s a = None \<Longrightarrow> held (revoke (grant s a r) a) b = held s b"
  by (simp add: held_grant held_revoke)

end

section \<open>Transition systems\<close>

text \<open>
  A component driven by requests: a step function on its state, and an invariant every
  request keeps. The lemma lifts the one-step fact to whole request sequences.
\<close>

locale request_system =
  fixes step :: "'s \<Rightarrow> 'q \<Rightarrow> 's"
    and inv :: "'s \<Rightarrow> bool"
  assumes step_inv: "inv s \<Longrightarrow> inv (step s q)"
begin

lemma run_inv: "inv s \<Longrightarrow> inv (foldl step s qs)"
  by (induction qs arbitrary: s) (auto intro: step_inv)

lemma run_prefix_inv: "inv s \<Longrightarrow> inv (foldl step s (take n qs))"
  by (rule run_inv)

end

section \<open>Shared lemmas\<close>

lemma is_ok_simps [simp]: "is_ok (Inr a)" "\<not> is_ok (Inl e)"
  by (simp_all add: is_ok_def)

lemma is_ok_Ex: "is_ok r \<longleftrightarrow> (\<exists>a. r = Inr a)"
  by (auto simp: is_ok_def split: sum.splits)

lemma and_then_simps [simp]:
  "and_then (Inl e) f = Inl e"
  "and_then (Inr a) f = f a"
  by (simp_all add: and_then_def)

lemma and_then_Ok: "and_then r f = Inr b \<longleftrightarrow> (\<exists>a. r = Inr a \<and> f a = Inr b)"
  by (cases r) auto

lemma bindE_simps [simp]:
  "bindE (Inl e, w) k = (Inl e, w)"
  "bindE (Inr a, w) k = k a w"
  by (simp_all add: bindE_def)

lemma bindE_Ok:
  "bindE r k = (Inr b, w') \<longleftrightarrow> (\<exists>a w. r = (Inr a, w) \<and> k a w = (Inr b, w'))"
  by (auto simp: bindE_def split: prod.splits sum.splits)

lemma bindE_assoc: "bindE (bindE r f) g = bindE r (\<lambda>a s. bindE (f a s) g)"
  by (auto simp: bindE_def split: prod.splits sum.splits)

lemma bindE_cong: "r = r' \<Longrightarrow> (\<And>a s. r' = (Ok a, s) \<Longrightarrow> f a s = g a s) \<Longrightarrow> bindE r f = bindE r' g"
  by (auto simp: bindE_def split: prod.splits sum.splits)

lemma bindE_rule:
  assumes "\<And>e w. r = (Inl e, w) \<Longrightarrow> P (Inl e, w)" "\<And>a w. r = (Inr a, w) \<Longrightarrow> P (k a w)"
  shows "P (bindE r k)"
  using assms by (cases r; cases "fst r") (auto simp: bindE_def)

text \<open>What the first part establishes and every continuation keeps holds of the world afterwards.\<close>

lemma bindE_world: "P (snd r) \<Longrightarrow> (\<And>a w. P w \<Longrightarrow> P (snd (k a w))) \<Longrightarrow> P (snd (bindE r k))"
  by (cases r; cases "fst r") auto

lemma map_err_simps [simp]: "map_err f (Inl e) = Inl (f e)" "map_err f (Inr a) = Inr a"
  by (simp_all add: map_err_def)

lemma map_err_Ok [simp]: "map_err f r = Inr a \<longleftrightarrow> r = Inr a"
  by (cases r) auto

lemma Ok_map_err [simp]: "Inr a = map_err f r \<longleftrightarrow> r = Inr a"
  by (cases r) auto

lemma ok_or_Ok [simp]: "ok_or x e = Inr a \<longleftrightarrow> x = Some a"
  by (cases x) (auto simp: ok_or_def)

lemma ok_or_simps [simp]:
  "ok_or None e = Inl e"
  "ok_or (Some a) e = Inr a"
  by (simp_all add: ok_or_def)

lemma in_map_filter: "y \<in> set (List.map_filter f xs) \<longleftrightarrow> (\<exists>x \<in> set xs. f x = Some y)"
  by (force simp: List.map_filter_def)

lemma case_option_Some_iff:
  "(case x of None \<Rightarrow> None | Some a \<Rightarrow> f a) = Some y \<longleftrightarrow> (\<exists>a. x = Some a \<and> f a = Some y)"
  by (cases x) auto

lemma if_Some_iff: "(if b then x else None) = Some y \<longleftrightarrow> b \<and> x = Some y"
  by simp

lemmas map_filter_simps = in_map_filter case_option_Some_iff if_Some_iff

lemma unat_saturating_sub: "unat (saturating_sub a b) = unat a - unat b"
  by (auto simp: saturating_sub_def unat_sub word_le_nat_alt)

lemma saturating_sub_le: "saturating_sub a b \<le> a"
  by (simp add: word_le_nat_alt unat_saturating_sub)

lemma unat_u32_less: "unat (a :: u32) < 4294967296"
  using unsigned_less [of a, where ?'a = nat] by simp

lemma unat_div_ceil2: "unat (div_ceil2 a) = (unat a + 1) div 2"
proof -
  have m: "a mod 2 = 0 \<longleftrightarrow> unat a mod 2 = 0"
    by (simp add: word_unat_eq_iff unat_mod)
  have "unat a div 2 + 1 < 4294967296"
    using unat_u32_less [of a] by linarith
  then have "unat (a div 2 + 1) = unat a div 2 + 1"
    by (simp add: unat_word_ariths)
  then show ?thesis
    using m by (simp add: div_ceil2_def unat_div) presburger
qed

lemma unat_add_no_overflow:
  "unat a + unat b < 2 ^ LENGTH('w) \<Longrightarrow> unat (a + b :: 'w::len word) = unat a + unat b"
  by (simp add: unat_word_ariths)

end
