(* ===== verification/Filesystem.thy ===== *)
theory Filesystem
  imports Rust_Strings
begin

text \<open>
  Files as the sources use them through \<^verbatim>\<open>std::fs\<close> and \<^verbatim>\<open>std::path\<close>. A file system maps
  paths to contents and modification times. Every step may fail for a reason outside the
  program (no space, no permission): the fault oracle of \<open>io_env\<close> decides, and a failing
  write may have stored a prefix of its data. A sequence of steps stops at the first
  error, as the \<^verbatim>\<open>?\<close> operator makes it stop, and a crash leaves the state after some
  prefix of it.
\<close>

section \<open>Paths\<close>

type_synonym path = string

definition path_join :: "path \<Rightarrow> path \<Rightarrow> path" where
  "path_join base p =
     (if starts_with p ''/'' then p
      else if base = [] \<or> last base = CHR ''/'' then base @ p
      else base @ ''/'' @ p)"

text \<open>The part after the last separator, and the part before it.\<close>

definition after_last :: "char \<Rightarrow> string \<Rightarrow> string" where
  "after_last c s = rev (takeWhile (\<lambda>x. x \<noteq> c) (rev s))"

definition before_last :: "char \<Rightarrow> string \<Rightarrow> string option" where
  "before_last c s =
     (if c \<in> set s then Some (rev (tl (dropWhile (\<lambda>x. x \<noteq> c) (rev s)))) else None)"

text \<open>\<^verbatim>\<open>Path::parent\<close>, trailing and repeated separators normalised away.\<close>

definition path_parent :: "path \<Rightarrow> path option" where
  "path_parent p =
     (let q = trim_end_matches CHR ''/'' p
      in if q = [] then None
         else case before_last CHR ''/'' q of
                None \<Rightarrow> Some []
              | Some d \<Rightarrow> (let d' = trim_end_matches CHR ''/'' d in Some (if d' = [] then ''/'' else d')))"

definition file_name :: "path \<Rightarrow> string" where
  "file_name p = after_last CHR ''/'' p"

text \<open>\<^verbatim>\<open>Path::extension\<close>: a name that only starts with a dot has none.\<close>

definition path_extension :: "path \<Rightarrow> string option" where
  "path_extension p =
     (let n = file_name p
      in case before_last CHR ''.'' n of
           None \<Rightarrow> None
         | Some stem \<Rightarrow> if stem = [] then None else Some (after_last CHR ''.'' n))"

section \<open>State and steps\<close>

datatype io_error = NotFound | IoError string

record file_node =
  contents :: string
  mtime :: nat

record filesystem =
  fs_files :: "(path, file_node) hmap"
  fs_dirs :: "path list"
  fs_clock :: nat

datatype fs_step =
    Mkdir path
  | Create path
  | WriteAll path string
  | SyncAll path
  | Rename path path
  | RemoveFile path
  | SetMode path nat

record io_env =
  step_fault :: "filesystem \<Rightarrow> fs_step \<Rightarrow> (nat \<times> string) option"
  read_fault :: "filesystem \<Rightarrow> path \<Rightarrow> string option"
  dir_fault :: "filesystem \<Rightarrow> path \<Rightarrow> string option"

definition fs_content :: "filesystem \<Rightarrow> path \<Rightarrow> string option" where
  "fs_content fs p = map_option contents (hm_get (fs_files fs) p)"

definition fs_put :: "path \<Rightarrow> string \<Rightarrow> filesystem \<Rightarrow> filesystem" where
  "fs_put p s fs = fs\<lparr>fs_files := hm_insert p \<lparr>contents = s, mtime = fs_clock fs\<rparr> (fs_files fs),
     fs_clock := Suc (fs_clock fs)\<rparr>"

definition fs_append :: "path \<Rightarrow> string \<Rightarrow> filesystem \<Rightarrow> filesystem" where
  "fs_append p s fs = (case fs_content fs p of None \<Rightarrow> fs | Some c \<Rightarrow> fs_put p (c @ s) fs)"

fun fs_apply :: "fs_step \<Rightarrow> filesystem \<Rightarrow> (io_error, unit) result \<times> filesystem" where
  "fs_apply (Mkdir p) fs = (Ok (), if p \<in> set (fs_dirs fs) then fs else fs\<lparr>fs_dirs := p # fs_dirs fs\<rparr>)"
| "fs_apply (Create p) fs = (Ok (), fs_put p [] fs)"
| "fs_apply (WriteAll p s) fs = (Ok (), fs_append p s fs)"
| "fs_apply (SyncAll p) fs = (Ok (), fs)"
| "fs_apply (Rename p q) fs =
     (case hm_get (fs_files fs) p of
        None \<Rightarrow> (Err NotFound, fs)
      | Some n \<Rightarrow> (Ok (), fs\<lparr>fs_files := hm_insert q n (hm_remove p (fs_files fs))\<rparr>))"
| "fs_apply (RemoveFile p) fs =
     (case hm_get (fs_files fs) p of
        None \<Rightarrow> (Err NotFound, fs)
      | Some _ \<Rightarrow> (Ok (), fs\<lparr>fs_files := hm_remove p (fs_files fs)\<rparr>))"
| "fs_apply (SetMode p m) fs = (Ok (), fs)"

definition fs_fail :: "nat \<Rightarrow> fs_step \<Rightarrow> filesystem \<Rightarrow> filesystem" where
  "fs_fail n st fs = (case st of WriteAll p s \<Rightarrow> fs_append p (take n s) fs | _ \<Rightarrow> fs)"

definition fs_exec :: "io_env \<Rightarrow> fs_step \<Rightarrow> filesystem \<Rightarrow> (io_error, unit) result \<times> filesystem" where
  "fs_exec I st fs =
     (case step_fault I fs st of
        Some (n, msg) \<Rightarrow> (Err (IoError msg), fs_fail n st fs)
      | None \<Rightarrow> fs_apply st fs)"

fun run_steps :: "io_env \<Rightarrow> fs_step list \<Rightarrow> filesystem \<Rightarrow> (io_error, unit) result \<times> filesystem" where
  "run_steps I [] fs = (Ok (), fs)"
| "run_steps I (st # sts) fs = bindE (fs_exec I st fs) (\<lambda>_ fs'. run_steps I sts fs')"

section \<open>The operations of the standard library\<close>

definition fs_write :: "io_env \<Rightarrow> path \<Rightarrow> string \<Rightarrow> filesystem \<Rightarrow> (io_error, unit) result \<times> filesystem" where
  "fs_write I p s fs = run_steps I [Create p, WriteAll p s] fs"

definition remove_file :: "io_env \<Rightarrow> path \<Rightarrow> filesystem \<Rightarrow> (io_error, unit) result \<times> filesystem" where
  "remove_file I p fs = fs_exec I (RemoveFile p) fs"

definition read_to_string :: "io_env \<Rightarrow> path \<Rightarrow> filesystem \<Rightarrow> (io_error, string) result" where
  "read_to_string I p fs =
     (case read_fault I fs p of
        Some msg \<Rightarrow> Err (IoError msg)
      | None \<Rightarrow> ok_or (fs_content fs p) NotFound)"

definition path_exists :: "path \<Rightarrow> filesystem \<Rightarrow> bool" where
  "path_exists p fs = (fs_content fs p \<noteq> None \<or> p \<in> set (fs_dirs fs))"

definition modified :: "path \<Rightarrow> filesystem \<Rightarrow> nat option" where
  "modified p fs = map_option mtime (hm_get (fs_files fs) p)"

text \<open>\<^verbatim>\<open>read_dir\<close>: the files right below the directory, in some order.\<close>

definition read_dir :: "io_env \<Rightarrow> path \<Rightarrow> filesystem \<Rightarrow> (io_error, path list) result" where
  "read_dir I d fs =
     (case dir_fault I fs d of
        Some msg \<Rightarrow> Err (IoError msg)
      | None \<Rightarrow>
          if d \<in> set (fs_dirs fs)
          then Ok (filter (\<lambda>p. path_parent p = Some d) (hm_keys (fs_files fs)))
          else Err NotFound)"

text \<open>
  File contents are bytes, written as characters: \<^verbatim>\<open>std::fs::read\<close> and \<^verbatim>\<open>write\<close> of byte
  vectors go through this bijection.
\<close>

definition bytes_of_string :: "string \<Rightarrow> bytes" where
  "bytes_of_string s = map (\<lambda>c. of_nat (of_char c)) s"

definition string_of_bytes :: "bytes \<Rightarrow> string" where
  "string_of_bytes bs = map (\<lambda>b. char_of (unat b)) bs"

definition fs_read :: "io_env \<Rightarrow> path \<Rightarrow> filesystem \<Rightarrow> (io_error, bytes) result" where
  "fs_read I p fs = and_then (read_to_string I p fs) (\<lambda>s. Ok (bytes_of_string s))"

section \<open>The world of a program\<close>

text \<open>
  The file system and the rest of what a program acts on (a type variable): the state of
  other programs, the network.
\<close>

record 'x world =
  w_fs :: filesystem
  w_ext :: 'x

text \<open>File operations and operations on the rest, on the whole world.\<close>

definition on_fs ::
  "('e \<Rightarrow> 'f) \<Rightarrow> (filesystem \<Rightarrow> ('e, 'a) result \<times> filesystem) \<Rightarrow> 'x world \<Rightarrow> ('f, 'a) result \<times> 'x world" where
  "on_fs ctx op w = (case op (w_fs w) of (r, fs') \<Rightarrow> (map_err ctx r, w\<lparr>w_fs := fs'\<rparr>))"

definition on_ext ::
  "('e \<Rightarrow> 'f) \<Rightarrow> ('x \<Rightarrow> ('e, 'a) result \<times> 'x) \<Rightarrow> 'x world \<Rightarrow> ('f, 'a) result \<times> 'x world" where
  "on_ext ctx op w = (case op (w_ext w) of (r, x') \<Rightarrow> (map_err ctx r, w\<lparr>w_ext := x'\<rparr>))"

text \<open>\<^verbatim>\<open>let _ = ...\<close>: the result is dropped, the effect is not.\<close>

definition ignore :: "('e, 'a) result \<times> 'w \<Rightarrow> 'w" where
  "ignore r = snd r"

section \<open>Laws\<close>

lemma fs_content_put [simp]: "fs_content (fs_put p s fs) q = (if q = p then Some s else fs_content fs q)"
  by (simp add: fs_content_def fs_put_def)

lemma fs_content_append [simp]:
  "fs_content (fs_append p s fs) q =
     (if q = p then map_option (\<lambda>c. c @ s) (fs_content fs p) else fs_content fs q)"
  by (simp add: fs_append_def split: option.splits)

lemma run_steps_append:
  "run_steps I (as @ bs) fs = bindE (run_steps I as fs) (\<lambda>_ fs'. run_steps I bs fs')"
proof (induction as arbitrary: fs)
  case (Cons a as)
  then show ?case by (auto simp: bindE_def split: prod.splits sum.splits)
qed simp

lemma fs_dirs_put [simp]: "fs_dirs (fs_put p s fs) = fs_dirs fs"
  by (simp add: fs_put_def)

lemma fs_dirs_append [simp]: "fs_dirs (fs_append p s fs) = fs_dirs fs"
  by (simp add: fs_append_def split: option.splits)

text \<open>A step changes the contents of no file but the one it names.\<close>

fun step_targets :: "fs_step \<Rightarrow> path set" where
  "step_targets (Create p) = {p}"
| "step_targets (WriteAll p s) = {p}"
| "step_targets (Rename p q) = {p, q}"
| "step_targets (RemoveFile p) = {p}"
| "step_targets _ = {}"

lemma fs_exec_frame: "q \<notin> step_targets st \<Longrightarrow> fs_content (snd (fs_exec I st fs)) q = fs_content fs q"
  by (cases st)
     (auto simp: fs_exec_def fs_fail_def fs_content_def fs_put_def fs_append_def split: option.splits prod.splits)

lemma run_steps_frame:
  "\<forall>st \<in> set sts. q \<notin> step_targets st \<Longrightarrow> fs_content (snd (run_steps I sts fs)) q = fs_content fs q"
proof (induction sts arbitrary: fs)
  case (Cons st sts)
  then have "fs_content (snd (fs_exec I st fs)) q = fs_content fs q" by (simp add: fs_exec_frame)
  with Cons show ?case
    by (cases "fs_exec I st fs"; cases "fst (fs_exec I st fs)") auto
qed simp

lemma fs_write_Ok: "fs_write I p s fs = (Ok (), fs') \<Longrightarrow> fs_content fs' q = (if q = p then Some s else fs_content fs q)"
  by (auto simp: fs_write_def fs_exec_def bindE_Ok split: option.splits)

lemma on_fs_Ok:
  "on_fs ctx op w = (Inr a, w') \<longleftrightarrow> (\<exists>fs'. op (w_fs w) = (Inr a, fs') \<and> w' = w\<lparr>w_fs := fs'\<rparr>)"
  by (cases "op (w_fs w)") (auto simp: on_fs_def)

text \<open>An environment in which no operation fails for an outside reason.\<close>

definition reliable_io :: "io_env \<Rightarrow> bool" where
  "reliable_io I \<longleftrightarrow> (\<forall>fs st. step_fault I fs st = None) \<and> (\<forall>fs p. read_fault I fs p = None)"

lemma reliable_write: "reliable_io I \<Longrightarrow> fs_write I p s fs = (Ok (), fs_append p s (fs_put p [] fs))"
  by (simp add: reliable_io_def fs_write_def fs_exec_def bindE_def)

lemma reliable_read: "reliable_io I \<Longrightarrow> read_to_string I p fs = ok_or (fs_content fs p) NotFound"
  by (simp add: reliable_io_def read_to_string_def)

definition calm_io :: io_env where
  "calm_io = \<lparr>step_fault = (\<lambda>_ _. None), read_fault = (\<lambda>_ _. None), dir_fault = (\<lambda>_ _. None)\<rparr>"

lemma calm_io_reliable [simp]: "reliable_io calm_io"
  by (simp add: reliable_io_def calm_io_def)

text \<open>A file operation on the world touches its own file and nothing of the rest.\<close>

lemma on_fs_frame:
  "q \<notin> step_targets st \<Longrightarrow> fs_content (w_fs (snd (on_fs c (fs_exec I st) w))) q = fs_content (w_fs w) q"
  using fs_exec_frame [of q st I "w_fs w"] by (cases "fs_exec I st (w_fs w)") (simp add: on_fs_def)

lemma on_fs_ext [simp]: "w_ext (snd (on_fs c f w)) = w_ext w"
  by (cases "f (w_fs w)") (simp add: on_fs_def)

lemma on_ext_fs [simp]: "w_fs (snd (on_ext c f w)) = w_fs w"
  by (cases "f (w_ext w)") (simp add: on_ext_def)

lemma on_ext_Ok:
  "on_ext ctx op w = (Inr a, w') \<longleftrightarrow> (\<exists>x'. op (w_ext w) = (Inr a, x') \<and> w' = w\<lparr>w_ext := x'\<rparr>)"
  by (cases "op (w_ext w)") (auto simp: on_ext_def)

lemma bytes_of_string_of_bytes [simp]: "bytes_of_string (string_of_bytes bs) = bs"
proof -
  have "of_nat (of_char (char_of (unat b) :: char)) = b" for b :: u8
    using unat_u8_less [of b] by simp
  then show ?thesis by (simp add: bytes_of_string_def string_of_bytes_def comp_def)
qed

lemma string_of_bytes_of_string [simp]: "string_of_bytes (bytes_of_string s) = s"
proof -
  have "char_of (unat (of_nat (of_char c) :: u8)) = c" for c :: char
    by (simp add: unat_of_nat of_char_mod_256)
  then show ?thesis by (simp add: bytes_of_string_def string_of_bytes_def comp_def)
qed

lemma string_of_bytes_Nil [simp]: "string_of_bytes bs = [] \<longleftrightarrow> bs = []"
  by (simp add: string_of_bytes_def)

lemma after_last_append: "c \<notin> set b \<Longrightarrow> after_last c (a @ c # b) = b"
proof -
  assume "c \<notin> set b"
  then have "takeWhile (\<lambda>x. x \<noteq> c) (rev b @ c # rev a) = rev b @ takeWhile (\<lambda>x. x \<noteq> c) (c # rev a)"
    by (intro takeWhile_append2) auto
  then show ?thesis by (simp add: after_last_def)
qed

lemma before_last_append: "c \<notin> set b \<Longrightarrow> before_last c (a @ c # b) = Some a"
proof -
  assume "c \<notin> set b"
  then have "dropWhile (\<lambda>x. x \<noteq> c) (rev b @ c # rev a) = dropWhile (\<lambda>x. x \<noteq> c) (c # rev a)"
    by (intro dropWhile_append2) auto
  then show ?thesis by (simp add: before_last_def)
qed

lemma before_last_None: "before_last c s = None \<longleftrightarrow> c \<notin> set s"
  by (simp add: before_last_def)

end
