(* ===== verification/Json.thy ===== *)
theory Json
  imports Rust_Strings
begin

text \<open>
  JSON values as the sources handle them (\<^verbatim>\<open>serde_json::Value\<close>): the public enum and the
  accessors the code calls. Reading and writing JSON text is the library's and stays a
  parameter of the components that do it. An object keeps its members as a list; the code
  only looks members up. A number that is no integer is kept by its text.
\<close>

datatype json =
    JNull
  | JBool bool
  | JInt int
  | JFloat string
  | JStr string
  | JArr "json list"
  | JObj "(string \<times> json) list"

text \<open>\<^verbatim>\<open>Value::get\<close> with a string index: \<open>None\<close> on anything but an object.\<close>

fun jget :: "json \<Rightarrow> string \<Rightarrow> json option" where
  "jget (JObj ms) k = map_of ms k"
| "jget _ k = None"

text \<open>\<^verbatim>\<open>value["key"]\<close>: null when the member is missing.\<close>

definition jindex :: "json \<Rightarrow> string \<Rightarrow> json" where
  "jindex j k = (case jget j k of None \<Rightarrow> JNull | Some v \<Rightarrow> v)"

fun as_str :: "json \<Rightarrow> string option" where
  "as_str (JStr s) = Some s"
| "as_str _ = None"

fun as_array :: "json \<Rightarrow> json list option" where
  "as_array (JArr xs) = Some xs"
| "as_array _ = None"

fun as_bool :: "json \<Rightarrow> bool option" where
  "as_bool (JBool b) = Some b"
| "as_bool _ = None"

fun as_u64 :: "json \<Rightarrow> u64 option" where
  "as_u64 (JInt n) = (if 0 \<le> n \<and> n < 2 ^ 64 then Some (word_of_int n) else None)"
| "as_u64 _ = None"

fun is_null :: "json \<Rightarrow> bool" where
  "is_null JNull = True"
| "is_null _ = False"

text \<open>The chain \<^verbatim>\<open>v.get(k).and_then(|x| x.as_str())\<close> and its kin.\<close>

definition jget_str :: "json \<Rightarrow> string \<Rightarrow> string option" where
  "jget_str j k = Option.bind (jget j k) as_str"

definition jget_array :: "json \<Rightarrow> string \<Rightarrow> json list option" where
  "jget_array j k = Option.bind (jget j k) as_array"

definition jget_u64 :: "json \<Rightarrow> string \<Rightarrow> u64 option" where
  "jget_u64 j k = Option.bind (jget j k) as_u64"

definition unwrap_or :: "'a option \<Rightarrow> 'a \<Rightarrow> 'a" where
  "unwrap_or x d = (case x of None \<Rightarrow> d | Some a \<Rightarrow> a)"

lemma jget_str_Obj [simp]:
  "jget_str (JObj ms) k = Option.bind (map_of ms k) as_str"
  by (simp add: jget_str_def)

lemma jget_array_Obj [simp]:
  "jget_array (JObj ms) k = Option.bind (map_of ms k) as_array"
  by (simp add: jget_array_def)

lemma jget_u64_Obj [simp]:
  "jget_u64 (JObj ms) k = Option.bind (map_of ms k) as_u64"
  by (simp add: jget_u64_def)

lemma jget_str_Some: "jget_str j k = Some s \<longleftrightarrow> jget j k = Some (JStr s)"
  by (cases "jget j k"; cases "the (jget j k)") (auto simp: jget_str_def)

lemma jget_array_Some: "jget_array j k = Some xs \<longleftrightarrow> jget j k = Some (JArr xs)"
  by (cases "jget j k"; cases "the (jget j k)") (auto simp: jget_array_def)

lemma as_u64_of_word: "as_u64 (JInt (uint (p :: u16))) = Some (ucast p)"
proof -
  have "uint p < 2 ^ 16" using uint_bounded [of p] by simp
  then show ?thesis by simp
qed

lemma ucast_u16_u64_eq: "(ucast (p :: u16) :: u64) = ucast q \<longleftrightarrow> p = q"
  by (simp add: word_uint_eq_iff uint_up_ucast is_up_def source_size_def target_size_def word_size)

lemma unwrap_or_simps [simp]: "unwrap_or None d = d" "unwrap_or (Some a) d = a"
  by (simp_all add: unwrap_or_def)

end
