(* ===== verification/Network_Types.thy ===== *)
theory Network_Types
  imports Rust_Strings
begin

text \<open>
  The shared types of the network crate (\<^verbatim>\<open>crates/aleph-network/src/types.rs\<close>): the
  transport protocol with its printing and parsing, and one port forward.
\<close>

datatype protocol = Tcp | Udp

record port_forward =
  pf_vm_id :: string
  pf_host_port :: u16
  pf_vm_port :: u16
  pf_protocol :: protocol

fun protocol_to_string :: "protocol \<Rightarrow> string" where
  "protocol_to_string Tcp = ''tcp''"
| "protocol_to_string Udp = ''udp''"

datatype protocol_error = UnknownProtocol string

definition protocol_from_str :: "string \<Rightarrow> (protocol_error, protocol) result" where
  "protocol_from_str s =
     (let l = to_lowercase s
      in if l = ''tcp'' then Ok Tcp
         else if l = ''udp'' then Ok Udp
         else Err (UnknownProtocol s))"

lemma lower_char_idem: "lower_char (lower_char c) = lower_char c"
  by (auto simp: lower_char_def is_ascii_uppercase_def)

lemma to_lowercase_idem [simp]: "to_lowercase (to_lowercase s) = to_lowercase s"
  by (simp add: to_lowercase_def lower_char_idem)

lemma to_lowercase_protocol: "to_lowercase (protocol_to_string p) = protocol_to_string p"
  by (cases p) (simp_all add: to_lowercase_def lower_char_def is_ascii_uppercase_def)

lemma protocol_to_string_inj [simp]: "protocol_to_string p = protocol_to_string q \<longleftrightarrow> p = q"
  by (cases p; cases q) simp_all

lemma protocol_from_str_Ok:
  "protocol_from_str s = Ok p \<longleftrightarrow> to_lowercase s = protocol_to_string p"
  by (cases p) (auto simp: protocol_from_str_def Let_def)

end
