(* ===== verification/Nft_Rules.thy ===== *)
theory Nft_Rules
  imports Json Network_Types
begin

text \<open>
  The generators and matchers of nftables JSON commands
  (\<^verbatim>\<open>crates/aleph-network/src/nftables/chains.rs\<close> and \<^verbatim>\<open>rules.rs\<close>). A ruleset is the
  list of entries \<^verbatim>\<open>nft -j list ruleset\<close> prints. Every generator
  \<^verbatim>\<open>add_..._if_not_present\<close> meets the contract \<open>ensure_entry\<close>: it adds its entry exactly
  when no entry matches, and what it adds is matched from then on, whatever further
  members (the handle) nft lists with it.
\<close>

section \<open>Chains\<close>

text \<open>The pattern \<^verbatim>\<open>entry.get(kind).map(p).unwrap_or(false)\<close>.\<close>

definition entry_is :: "string \<Rightarrow> (json \<Rightarrow> bool) \<Rightarrow> json \<Rightarrow> bool" where
  "entry_is kind p entry = (case jget entry kind of None \<Rightarrow> False | Some v \<Rightarrow> p v)"

definition is_chain :: "string \<Rightarrow> string \<Rightarrow> string \<Rightarrow> json \<Rightarrow> bool" where
  "is_chain family table name c =
     (jget_str c ''family'' = Some family \<and> jget_str c ''table'' = Some table \<and>
      jget_str c ''name'' = Some name)"

definition chain_exists :: "json list \<Rightarrow> string \<Rightarrow> string \<Rightarrow> string \<Rightarrow> bool" where
  "chain_exists ruleset family table name = list_ex (entry_is ''chain'' (is_chain family table name)) ruleset"

definition chain_obj :: "string \<Rightarrow> string \<Rightarrow> string \<Rightarrow> json" where
  "chain_obj family table name =
     JObj [(''family'', JStr family), (''table'', JStr table), (''name'', JStr name)]"

text \<open>\<^verbatim>\<open>json!({"add": {kind: obj}})\<close>\<close>

definition add_cmd :: "string \<Rightarrow> json \<Rightarrow> json" where
  "add_cmd kind obj = JObj [(''add'', JObj [(kind, obj)])]"

definition delete_cmd :: "string \<Rightarrow> json \<Rightarrow> json" where
  "delete_cmd kind obj = JObj [(''delete'', JObj [(kind, obj)])]"

definition add_chain_if_not_present :: "json list \<Rightarrow> string \<Rightarrow> string \<Rightarrow> string \<Rightarrow> json list" where
  "add_chain_if_not_present ruleset family table chain_name =
     (if chain_exists ruleset family table chain_name then []
      else [add_cmd ''chain'' (chain_obj family table chain_name)])"

section \<open>Rules\<close>

definition rule_obj :: "string \<Rightarrow> string \<Rightarrow> string \<Rightarrow> json list \<Rightarrow> json" where
  "rule_obj family table chain exprs =
     JObj [(''family'', JStr family), (''table'', JStr table), (''chain'', JStr chain), (''expr'', JArr exprs)]"

definition rule_of_chain :: "string \<Rightarrow> string \<Rightarrow> string \<Rightarrow> (json \<Rightarrow> bool) \<Rightarrow> json \<Rightarrow> bool" where
  "rule_of_chain family table chain p r =
     (jget_str r ''family'' = Some family \<and> jget_str r ''table'' = Some table \<and>
      jget_str r ''chain'' = Some chain \<and> p r)"

definition any_expr :: "json \<Rightarrow> (json \<Rightarrow> bool) \<Rightarrow> bool" where
  "any_expr rule p = (case jget_array rule ''expr'' of None \<Rightarrow> False | Some exprs \<Rightarrow> list_ex p exprs)"

definition rule_jumps_to :: "json \<Rightarrow> string \<Rightarrow> bool" where
  "rule_jumps_to rule target =
     any_expr rule (\<lambda>expr. case jget expr ''jump'' of None \<Rightarrow> False
       | Some jump \<Rightarrow> jget_str jump ''target'' = Some target)"

definition has_jump_to :: "json \<Rightarrow> string \<Rightarrow> bool" where
  "has_jump_to rule target = rule_jumps_to rule target"

definition ct_key :: "json \<Rightarrow> string option" where
  "ct_key e =
     Option.bind (jget e ''match'') (\<lambda>m. Option.bind (jget m ''left'') (\<lambda>l.
       Option.bind (jget l ''ct'') (\<lambda>ct. jget_str ct ''key'')))"

definition has_conntrack_accept :: "json \<Rightarrow> bool" where
  "has_conntrack_accept rule =
     (any_expr rule (\<lambda>e. ct_key e = Some ''state'') \<and>
      any_expr rule (\<lambda>e. jget e ''accept'' \<noteq> None))"

definition has_masquerade :: "json \<Rightarrow> bool" where
  "has_masquerade rule = any_expr rule (\<lambda>e. jget e ''masquerade'' \<noteq> None)"

text \<open>The \<^verbatim>\<open>match\<close> of an expression on a meta key (\<^verbatim>\<open>iifname\<close>, \<^verbatim>\<open>oifname\<close>).\<close>

definition matches_meta :: "string \<Rightarrow> string \<Rightarrow> json \<Rightarrow> bool" where
  "matches_meta key name e =
     (case jget e ''match'' of None \<Rightarrow> False | Some m \<Rightarrow>
      (case jget m ''left'' of None \<Rightarrow> False | Some left \<Rightarrow>
       (case jget left ''meta'' of None \<Rightarrow> False | Some meta \<Rightarrow>
          jget_str meta ''key'' = Some key \<and> jget_str m ''right'' = Some name)))"

definition has_iifname_oifname_accept :: "json \<Rightarrow> string \<Rightarrow> string \<Rightarrow> bool" where
  "has_iifname_oifname_accept rule iifname oifname =
     (any_expr rule (matches_meta ''iifname'' iifname) \<and>
      any_expr rule (matches_meta ''oifname'' oifname) \<and>
      any_expr rule (\<lambda>e. jget e ''accept'' \<noteq> None))"

definition match_expr :: "string \<Rightarrow> json \<Rightarrow> json \<Rightarrow> json" where
  "match_expr op left right =
     JObj [(''match'', JObj [(''op'', JStr op), (''left'', left), (''right'', right)])]"

definition meta_match :: "string \<Rightarrow> string \<Rightarrow> json" where
  "meta_match key name = match_expr ''=='' (JObj [(''meta'', JObj [(''key'', JStr key)])]) (JStr name)"

definition dport_match :: "protocol \<Rightarrow> u16 \<Rightarrow> json" where
  "dport_match proto port =
     match_expr ''=='' (JObj [(''payload'', JObj [(''protocol'', JStr (protocol_to_string proto)),
       (''field'', JStr ''dport'')])]) (JInt (uint port))"

definition accept_expr :: json where
  "accept_expr = JObj [(''accept'', JNull)]"

definition jump_exprs :: "string \<Rightarrow> json list" where
  "jump_exprs to_chain = [JObj [(''jump'', JObj [(''target'', JStr to_chain)])]]"

definition conntrack_exprs :: "json list" where
  "conntrack_exprs =
     [match_expr ''in'' (JObj [(''ct'', JObj [(''key'', JStr ''state'')])])
        (JArr [JStr ''established'', JStr ''related'']), accept_expr]"

definition masquerade_exprs :: "string \<Rightarrow> string \<Rightarrow> json list" where
  "masquerade_exprs iifname oifname =
     [meta_match ''iifname'' iifname, meta_match ''oifname'' oifname, JObj [(''masquerade'', JNull)]]"

definition forward_accept_exprs :: "string \<Rightarrow> string \<Rightarrow> json list" where
  "forward_accept_exprs iifname oifname =
     [meta_match ''iifname'' iifname, meta_match ''oifname'' oifname, accept_expr]"

text \<open>The shared shape of the four rule generators.\<close>

definition add_rule_unless ::
  "json list \<Rightarrow> string \<Rightarrow> string \<Rightarrow> string \<Rightarrow> (json \<Rightarrow> bool) \<Rightarrow> json list \<Rightarrow> json list" where
  "add_rule_unless ruleset family table chain p exprs =
     (if list_ex (entry_is ''rule'' (rule_of_chain family table chain p)) ruleset then []
      else [add_cmd ''rule'' (rule_obj family table chain exprs)])"

definition add_jump_if_not_present ::
  "json list \<Rightarrow> string \<Rightarrow> string \<Rightarrow> string \<Rightarrow> string \<Rightarrow> json list" where
  "add_jump_if_not_present ruleset family table from_chain to_chain =
     add_rule_unless ruleset family table from_chain (\<lambda>r. has_jump_to r to_chain) (jump_exprs to_chain)"

definition add_conntrack_if_not_present :: "json list \<Rightarrow> string \<Rightarrow> string \<Rightarrow> string \<Rightarrow> json list" where
  "add_conntrack_if_not_present ruleset family table chain =
     add_rule_unless ruleset family table chain has_conntrack_accept conntrack_exprs"

definition add_masquerade_if_not_present ::
  "json list \<Rightarrow> string \<Rightarrow> string \<Rightarrow> string \<Rightarrow> string \<Rightarrow> string \<Rightarrow> json list" where
  "add_masquerade_if_not_present ruleset family table chain iifname oifname =
     add_rule_unless ruleset family table chain has_masquerade (masquerade_exprs iifname oifname)"

definition add_forward_accept_if_not_present ::
  "json list \<Rightarrow> string \<Rightarrow> string \<Rightarrow> string \<Rightarrow> string \<Rightarrow> string \<Rightarrow> json list" where
  "add_forward_accept_if_not_present ruleset family table chain iifname oifname =
     add_rule_unless ruleset family table chain (\<lambda>r. has_iifname_oifname_accept r iifname oifname)
       (forward_accept_exprs iifname oifname)"

definition dnat_rule ::
  "string \<Rightarrow> string \<Rightarrow> string \<Rightarrow> u16 \<Rightarrow> string \<Rightarrow> u16 \<Rightarrow> protocol \<Rightarrow> json" where
  "dnat_rule family table chain host_port dest_ip dest_port proto =
     add_cmd ''rule'' (rule_obj family table chain
       [dport_match proto host_port,
        JObj [(''dnat'', JObj [(''addr'', JStr dest_ip), (''port'', JInt (uint dest_port))])]])"

definition port_accept_rule :: "string \<Rightarrow> string \<Rightarrow> string \<Rightarrow> u16 \<Rightarrow> protocol \<Rightarrow> json" where
  "port_accept_rule family table chain port proto =
     add_cmd ''rule'' (rule_obj family table chain [dport_match proto port, accept_expr])"

definition expr_payload :: "json \<Rightarrow> (json \<times> json) option" where
  "expr_payload expr =
     Option.bind (jget expr ''match'') (\<lambda>m. Option.bind (jget m ''left'') (\<lambda>left.
       Option.bind (jget left ''payload'') (\<lambda>payload. Some (m, payload))))"

definition is_dnat_rule_matching :: "json \<Rightarrow> string \<Rightarrow> u16 \<Rightarrow> u16 \<Rightarrow> protocol \<Rightarrow> bool" where
  "is_dnat_rule_matching rule chain host_port vm_port proto =
     (if jget_str rule ''chain'' \<noteq> Some chain then False
      else case jget_array rule ''expr'' of None \<Rightarrow> False
      | Some exprs \<Rightarrow>
          list_ex (\<lambda>expr. case expr_payload expr of None \<Rightarrow> False
            | Some (m, payload) \<Rightarrow>
                jget_str payload ''field'' = Some ''dport'' \<and>
                jget_str payload ''protocol'' = Some (protocol_to_string proto) \<and>
                jget_u64 m ''right'' = Some (ucast host_port)) exprs \<and>
          list_ex (\<lambda>expr. jget expr ''dnat'' \<noteq> None) exprs)"

definition expr_uses_port :: "u16 \<Rightarrow> json \<Rightarrow> bool" where
  "expr_uses_port port expr =
     ((case expr_payload expr of None \<Rightarrow> False
       | Some (m, payload) \<Rightarrow> jget_u64 m ''right'' = Some (ucast port) \<and>
           jget_str payload ''field'' = Some ''dport'') \<or>
      (case jget expr ''dnat'' of None \<Rightarrow> False
       | Some dnat \<Rightarrow> jget_u64 dnat ''port'' = Some (ucast port)))"

definition port_in_use :: "json list \<Rightarrow> u16 \<Rightarrow> bool" where
  "port_in_use ruleset port =
     list_ex (\<lambda>entry. case jget entry ''rule'' of None \<Rightarrow> False
       | Some rule \<Rightarrow> any_expr rule (expr_uses_port port)) ruleset"

section \<open>The contract of the generators\<close>

text \<open>
  What nft lists for an added object: an entry of its kind whose members include those of
  the object.
\<close>

definition extends_obj :: "json \<Rightarrow> json \<Rightarrow> bool" where
  "extends_obj o' obj = (case obj of JObj ms \<Rightarrow> list_all (\<lambda>m. jget o' (fst m) = Some (snd m)) ms | _ \<Rightarrow> False)"

fun lists_as :: "string \<Rightarrow> json \<Rightarrow> json \<Rightarrow> bool" where
  "lists_as kind obj (JObj [(k, o')]) = (k = kind \<and> extends_obj o' obj)"
| "lists_as kind obj _ = False"

lemma lists_asE:
  assumes "lists_as kind obj e"
  obtains o' where "e = JObj [(kind, o')]" "extends_obj o' obj"
  using assms by (auto elim: lists_as.elims(2))

locale ensure_entry =
  fixes gen :: "json list \<Rightarrow> json list"
    and matches :: "json \<Rightarrow> bool"
    and kind :: string
    and obj :: json
  assumes gen_eq: "gen rs = (if list_ex matches rs then [] else [add_cmd kind obj])"
    and listed_matches: "lists_as kind obj e \<Longrightarrow> matches e"
begin

lemma gen_Nil_iff: "gen rs = [] \<longleftrightarrow> list_ex matches rs"
  by (simp add: gen_eq)

lemma gen_adds: "set (gen rs) \<subseteq> {add_cmd kind obj}"
  by (simp add: gen_eq)

text \<open>
  Once the entries of an earlier listing are kept and what was added is listed, the
  generator has nothing left to add.
\<close>

lemma gen_idempotent:
  assumes "set rs \<subseteq> set rs'"
    and "\<And>k ob. add_cmd k ob \<in> set (gen rs) \<Longrightarrow> \<exists>e \<in> set rs'. lists_as k ob e"
  shows "gen rs' = []"
proof (cases "list_ex matches rs")
  case True
  with assms(1) show ?thesis by (auto simp: gen_eq list_ex_iff)
next
  case False
  then obtain e where "e \<in> set rs'" "lists_as kind obj e"
    using assms(2) [of kind obj] by (auto simp: gen_eq)
  then show ?thesis using listed_matches by (auto simp: gen_eq list_ex_iff)
qed

end

lemma lists_as_chain:
  "lists_as ''chain'' (chain_obj family table name) e \<Longrightarrow> entry_is ''chain'' (is_chain family table name) e"
  by (auto simp: extends_obj_def chain_obj_def entry_is_def is_chain_def jget_str_def elim!: lists_asE)

lemma lists_as_rule:
  assumes "lists_as ''rule'' (rule_obj family table chain exprs) e"
    and "\<And>r. jget_array r ''expr'' = Some exprs \<Longrightarrow> p r"
  shows "entry_is ''rule'' (rule_of_chain family table chain p) e"
  using assms
  by (auto simp: extends_obj_def rule_obj_def entry_is_def rule_of_chain_def jget_str_def jget_array_def
      elim!: lists_asE)

lemma any_expr_Some: "jget_array r ''expr'' = Some exprs \<Longrightarrow> any_expr r p = list_ex p exprs"
  by (simp add: any_expr_def)

interpretation chain_gen: ensure_entry
    "\<lambda>rs. add_chain_if_not_present rs family table name"
    "entry_is ''chain'' (is_chain family table name)" "''chain''" "chain_obj family table name"
  for family table name
  by unfold_locales (auto simp: add_chain_if_not_present_def chain_exists_def lists_as_chain)

interpretation jump_gen: ensure_entry
    "\<lambda>rs. add_jump_if_not_present rs family table from_chain to_chain"
    "entry_is ''rule'' (rule_of_chain family table from_chain (\<lambda>r. has_jump_to r to_chain))"
    "''rule''" "rule_obj family table from_chain (jump_exprs to_chain)"
  for family table from_chain to_chain
  by unfold_locales
     (auto simp: add_jump_if_not_present_def add_rule_unless_def has_jump_to_def rule_jumps_to_def
       any_expr_Some jump_exprs_def intro!: lists_as_rule)

interpretation conntrack_gen: ensure_entry
    "\<lambda>rs. add_conntrack_if_not_present rs family table chain"
    "entry_is ''rule'' (rule_of_chain family table chain has_conntrack_accept)"
    "''rule''" "rule_obj family table chain conntrack_exprs"
  for family table chain
  by unfold_locales
     (auto simp: add_conntrack_if_not_present_def add_rule_unless_def has_conntrack_accept_def
       any_expr_Some conntrack_exprs_def ct_key_def match_expr_def accept_expr_def intro!: lists_as_rule)

interpretation masquerade_gen: ensure_entry
    "\<lambda>rs. add_masquerade_if_not_present rs family table chain iifname oifname"
    "entry_is ''rule'' (rule_of_chain family table chain has_masquerade)"
    "''rule''" "rule_obj family table chain (masquerade_exprs iifname oifname)"
  for family table chain iifname oifname
  by unfold_locales
     (auto simp: add_masquerade_if_not_present_def add_rule_unless_def has_masquerade_def
       any_expr_Some masquerade_exprs_def intro!: lists_as_rule)

interpretation forward_gen: ensure_entry
    "\<lambda>rs. add_forward_accept_if_not_present rs family table chain iifname oifname"
    "entry_is ''rule'' (rule_of_chain family table chain (\<lambda>r. has_iifname_oifname_accept r iifname oifname))"
    "''rule''" "rule_obj family table chain (forward_accept_exprs iifname oifname)"
  for family table chain iifname oifname
  by unfold_locales
     (auto simp: add_forward_accept_if_not_present_def add_rule_unless_def has_iifname_oifname_accept_def
       any_expr_Some forward_accept_exprs_def meta_match_def match_expr_def matches_meta_def accept_expr_def
       intro!: lists_as_rule)

section \<open>Recognising port forwards\<close>

text \<open>
  What nft lists for a DNAT rule is recognised by the matcher for exactly its own chain,
  host port and protocol.
\<close>

lemma expr_payload_dport:
  "expr_payload (dport_match proto port) =
     Some (JObj [(''op'', JStr ''==''), (''left'', JObj [(''payload'', JObj [(''protocol'', JStr (protocol_to_string proto)),
         (''field'', JStr ''dport'')])]), (''right'', JInt (uint port))],
       JObj [(''protocol'', JStr (protocol_to_string proto)), (''field'', JStr ''dport'')])"
  by (simp add: expr_payload_def dport_match_def match_expr_def)

lemma dnat_rule_obj:
  "dnat_rule family table chain hp ip vp proto = add_cmd ''rule'' (rule_obj family table chain
     [dport_match proto hp, JObj [(''dnat'', JObj [(''addr'', JStr ip), (''port'', JInt (uint vp))])]])"
  by (simp add: dnat_rule_def)

lemma is_dnat_rule_matching_iff:
  assumes "lists_as ''rule'' (rule_obj family table chain
     [dport_match proto hp, JObj [(''dnat'', JObj [(''addr'', JStr ip), (''port'', JInt (uint vp))])]]) e"
    and "jget e ''rule'' = Some r"
  shows "is_dnat_rule_matching r chain' hp' vp' proto' \<longleftrightarrow> chain' = chain \<and> hp' = hp \<and> proto' = proto"
proof -
  have r: "jget_str r ''chain'' = Some chain"
    "jget_array r ''expr'' = Some [dport_match proto hp,
       JObj [(''dnat'', JObj [(''addr'', JStr ip), (''port'', JInt (uint vp))])]]"
    using assms by (auto simp: extends_obj_def rule_obj_def jget_str_def jget_array_def elim!: lists_asE)
  have nop: "expr_payload (JObj [(''dnat'', x)]) = None" for x
    by (simp add: expr_payload_def)
  have "jget (dport_match proto hp) ''dnat'' = None"
    by (simp add: dport_match_def match_expr_def)
  then show ?thesis
    unfolding is_dnat_rule_matching_def
    using as_u64_of_word [of hp]
    by (auto simp: r expr_payload_dport nop ucast_u16_u64_eq simp del: as_u64.simps)
qed

end
