(* ===== verification/Nftables.thy ===== *)
theory Nftables
  imports Nft_Rules
begin

text \<open>
  The nftables manager (\<^verbatim>\<open>crates/aleph-network/src/nftables/mod.rs\<close>): supervisor chains,
  the chains of each VM, port forwards, and their removal. The \<^verbatim>\<open>nft\<close> program is an
  argument of the operations: \<open>nft_output\<close> is what listing a family prints (exit status
  and standard output, read as JSON), \<open>nft_apply\<close> is what feeding it a batch does to the
  host. Both may fail to start. The host's state is a type variable; no property assumes
  more of it than the named hypotheses say.
\<close>

record 'w nft_env =
  nft_output :: "'w \<Rightarrow> string \<Rightarrow> (string, bool \<times> json option) result"
  nft_apply :: "'w \<Rightarrow> json \<Rightarrow> (string, bool \<times> string) result \<times> 'w"

datatype nft_error =
    NftSpawn string
  | NftFailed string
  | UnsupportedHook string
  | SupervisorChainMissing string
  | VmChainMissing string

record nft_manager =
  nft_prefix :: string
  nft_external_interface :: string
  nft_ipv6_enabled :: bool

definition nft_manager_new :: "string \<Rightarrow> string \<Rightarrow> bool \<Rightarrow> nft_manager" where
  "nft_manager_new prefix external_interface ipv6_enabled =
     \<lparr>nft_prefix = prefix, nft_external_interface = external_interface, nft_ipv6_enabled = ipv6_enabled\<rparr>"

section \<open>Chain names\<close>

definition supervisor_nat_chain :: "nft_manager \<Rightarrow> string" where
  "supervisor_nat_chain n = nft_prefix n @ ''-supervisor-nat''"

definition supervisor_filter_chain :: "nft_manager \<Rightarrow> string" where
  "supervisor_filter_chain n = nft_prefix n @ ''-supervisor-filter''"

definition supervisor_prerouting_chain :: "nft_manager \<Rightarrow> string" where
  "supervisor_prerouting_chain n = nft_prefix n @ ''-supervisor-prerouting''"

definition vm_nat_chain :: "nft_manager \<Rightarrow> string \<Rightarrow> string" where
  "vm_nat_chain n vm_id = nft_prefix n @ ''-vm-nat-'' @ vm_id"

definition vm_filter_chain :: "nft_manager \<Rightarrow> string \<Rightarrow> string" where
  "vm_filter_chain n vm_id = nft_prefix n @ ''-vm-filter-'' @ vm_id"

section \<open>Running nft\<close>

text \<open>One family's entries: none when nft fails or its output is not the expected JSON.\<close>

definition family_entries :: "bool \<times> json option \<Rightarrow> json list" where
  "family_entries out =
     (if fst out
      then (case snd out of None \<Rightarrow> []
            | Some parsed \<Rightarrow> (case jget_array parsed ''nftables'' of None \<Rightarrow> [] | Some es \<Rightarrow> es))
      else [])"

fun list_families :: "'w nft_env \<Rightarrow> 'w \<Rightarrow> string list \<Rightarrow> (nft_error, json list) result" where
  "list_families E w [] = Ok []"
| "list_families E w (f # fs) =
     and_then (map_err NftSpawn (nft_output E w f)) (\<lambda>out.
     and_then (list_families E w fs) (\<lambda>rest. Ok (family_entries out @ rest)))"

definition execute_list_ruleset :: "'w nft_env \<Rightarrow> 'w \<Rightarrow> (nft_error, json list) result" where
  "execute_list_ruleset E w = list_families E w [''ip'', ''ip6'']"

definition execute_nft_commands :: "'w nft_env \<Rightarrow> json list \<Rightarrow> 'w \<Rightarrow> (nft_error, unit) result \<times> 'w" where
  "execute_nft_commands E commands w =
     (if commands = [] then (Ok (), w)
      else case nft_apply E w (JObj [(''nftables'', JArr commands)]) of
             (Inl e, w') \<Rightarrow> (Err (NftSpawn e), w')
           | (Inr (ok, stderr), w') \<Rightarrow> if ok then (Ok (), w') else (Err (NftFailed (trim stderr)), w'))"

section \<open>Searching the ruleset\<close>

definition find_base_chain_name :: "json list \<Rightarrow> string \<Rightarrow> string \<Rightarrow> string \<Rightarrow> string" where
  "find_base_chain_name ruleset family table hook =
     (case List.find (entry_is ''chain'' (\<lambda>c.
              jget_str c ''family'' = Some family \<and> jget_str c ''table'' = Some table \<and>
              jget_str c ''hook'' = Some hook \<and> jget_str c ''name'' \<noteq> None)) ruleset of
        Some entry \<Rightarrow> the (jget_str (jindex entry ''chain'') ''name'')
      | None \<Rightarrow> to_uppercase hook)"

definition get_table_for_chain :: "json list \<Rightarrow> string \<Rightarrow> string \<Rightarrow> string option" where
  "get_table_for_chain ruleset family chain_name =
     (case List.find (entry_is ''chain'' (\<lambda>c.
              jget_str c ''family'' = Some family \<and> jget_str c ''name'' = Some chain_name)) ruleset of
        Some entry \<Rightarrow> jget_str (jindex entry ''chain'') ''table''
      | None \<Rightarrow> None)"

definition base_chain_defaults :: "string \<Rightarrow> (string \<times> string \<times> int) option" where
  "base_chain_defaults hook =
     (if hook = ''postrouting'' then Some (''nat'', ''nat'', 100)
      else if hook = ''prerouting'' then Some (''nat'', ''nat'', -100)
      else if hook = ''forward'' then Some (''filter'', ''filter'', 0)
      else None)"

definition base_chain_commands :: "string \<Rightarrow> string \<Rightarrow> string \<Rightarrow> string \<Rightarrow> int \<Rightarrow> json list" where
  "base_chain_commands family table hook chain_type priority =
     [add_cmd ''table'' (JObj [(''family'', JStr family), (''name'', JStr table)]),
      add_cmd ''chain'' (JObj [(''family'', JStr family), (''table'', JStr table),
        (''name'', JStr (to_uppercase hook)), (''type'', JStr chain_type), (''hook'', JStr hook),
        (''prio'', JInt priority), (''policy'', JStr ''accept'')])]"

definition find_or_create_table_for_hook ::
  "'w nft_env \<Rightarrow> json list \<Rightarrow> string \<Rightarrow> string \<Rightarrow> 'w \<Rightarrow> (nft_error, string) result \<times> 'w" where
  "find_or_create_table_for_hook E ruleset hook family w =
     (case List.find (entry_is ''chain'' (\<lambda>c.
              jget_str c ''family'' = Some family \<and> jget_str c ''hook'' = Some hook \<and>
              jget_str c ''table'' \<noteq> None)) ruleset of
        Some entry \<Rightarrow> (Ok (the (jget_str (jindex entry ''chain'') ''table'')), w)
      | None \<Rightarrow>
          (case base_chain_defaults hook of
             None \<Rightarrow> (Err (UnsupportedHook hook), w)
           | Some (table, chain_type, priority) \<Rightarrow>
               bindE (execute_nft_commands E (base_chain_commands family table hook chain_type priority) w)
                 (\<lambda>_ w'. (Ok table, w'))))"

section \<open>Initialisation\<close>

definition init_commands :: "nft_manager \<Rightarrow> json list \<Rightarrow> string \<Rightarrow> string \<Rightarrow> string \<Rightarrow> json list" where
  "init_commands n ruleset nat_table filter_table prerouting_table =
     (let sup_nat = supervisor_nat_chain n;
          sup_filter = supervisor_filter_chain n;
          sup_pre = supervisor_prerouting_chain n
      in add_chain_if_not_present ruleset ''ip'' nat_table sup_nat @
         add_jump_if_not_present ruleset ''ip'' nat_table
           (find_base_chain_name ruleset ''ip'' nat_table ''postrouting'') sup_nat @
         add_chain_if_not_present ruleset ''ip'' filter_table sup_filter @
         add_jump_if_not_present ruleset ''ip'' filter_table
           (find_base_chain_name ruleset ''ip'' filter_table ''forward'') sup_filter @
         add_conntrack_if_not_present ruleset ''ip'' filter_table sup_filter @
         add_chain_if_not_present ruleset ''ip'' prerouting_table sup_pre @
         add_jump_if_not_present ruleset ''ip'' prerouting_table
           (find_base_chain_name ruleset ''ip'' prerouting_table ''prerouting'') sup_pre)"

definition init_commands6 :: "nft_manager \<Rightarrow> json list \<Rightarrow> string \<Rightarrow> json list" where
  "init_commands6 n ruleset ip6_filter_table =
     (let sup_filter6 = supervisor_filter_chain n
      in add_chain_if_not_present ruleset ''ip6'' ip6_filter_table sup_filter6 @
         add_jump_if_not_present ruleset ''ip6'' ip6_filter_table
           (find_base_chain_name ruleset ''ip6'' ip6_filter_table ''forward'') sup_filter6 @
         add_conntrack_if_not_present ruleset ''ip6'' ip6_filter_table sup_filter6)"

definition nft_initialize :: "'w nft_env \<Rightarrow> nft_manager \<Rightarrow> 'w \<Rightarrow> (nft_error, unit) result \<times> 'w" where
  "nft_initialize E n w =
     bindE (execute_list_ruleset E w, w) (\<lambda>ruleset0 w.
     bindE (find_or_create_table_for_hook E ruleset0 ''postrouting'' ''ip'' w) (\<lambda>nat_table w.
     bindE (find_or_create_table_for_hook E ruleset0 ''forward'' ''ip'' w) (\<lambda>filter_table w.
     bindE (find_or_create_table_for_hook E ruleset0 ''prerouting'' ''ip'' w) (\<lambda>prerouting_table w.
     bindE (execute_list_ruleset E w, w) (\<lambda>ruleset w.
     let commands = init_commands n ruleset nat_table filter_table prerouting_table in
     if nft_ipv6_enabled n then
       bindE (execute_list_ruleset E w, w) (\<lambda>ruleset6 w.
       bindE (find_or_create_table_for_hook E ruleset6 ''forward'' ''ip6'' w) (\<lambda>ip6_filter_table w.
       bindE (execute_list_ruleset E w, w) (\<lambda>ruleset6' w.
         execute_nft_commands E (commands @ init_commands6 n ruleset6' ip6_filter_table) w)))
     else execute_nft_commands E commands w)))))"

section \<open>Per-VM chains\<close>

definition setup_vm_commands :: "nft_manager \<Rightarrow> json list \<Rightarrow> string \<Rightarrow> string \<Rightarrow> string \<Rightarrow> string \<Rightarrow> json list" where
  "setup_vm_commands n ruleset nat_table filter_table vm_id tap_device =
     (let vm_nat = vm_nat_chain n vm_id;
          vm_filter = vm_filter_chain n vm_id
      in add_chain_if_not_present ruleset ''ip'' nat_table vm_nat @
         add_jump_if_not_present ruleset ''ip'' nat_table (supervisor_nat_chain n) vm_nat @
         add_masquerade_if_not_present ruleset ''ip'' nat_table vm_nat tap_device (nft_external_interface n) @
         add_chain_if_not_present ruleset ''ip'' filter_table vm_filter @
         add_jump_if_not_present ruleset ''ip'' filter_table (supervisor_filter_chain n) vm_filter @
         add_forward_accept_if_not_present ruleset ''ip'' filter_table vm_filter tap_device
           (nft_external_interface n))"

definition setup_vm_commands6 :: "nft_manager \<Rightarrow> json list \<Rightarrow> string \<Rightarrow> string \<Rightarrow> json list" where
  "setup_vm_commands6 n ruleset vm_id tap_device =
     (if nft_ipv6_enabled n then
        (case get_table_for_chain ruleset ''ip6'' (supervisor_filter_chain n) of
           None \<Rightarrow> []
         | Some ip6_filter_table \<Rightarrow>
             (let vm_filter6 = vm_filter_chain n vm_id
              in add_chain_if_not_present ruleset ''ip6'' ip6_filter_table vm_filter6 @
                 add_jump_if_not_present ruleset ''ip6'' ip6_filter_table (supervisor_filter_chain n) vm_filter6 @
                 add_forward_accept_if_not_present ruleset ''ip6'' ip6_filter_table vm_filter6 tap_device
                   (nft_external_interface n)))
      else [])"

definition setup_vm :: "'w nft_env \<Rightarrow> nft_manager \<Rightarrow> string \<Rightarrow> string \<Rightarrow> 'w \<Rightarrow> (nft_error, unit) result \<times> 'w" where
  "setup_vm E n vm_id tap_device w =
     bindE (execute_list_ruleset E w, w) (\<lambda>ruleset w.
     bindE (ok_or (get_table_for_chain ruleset ''ip'' (supervisor_nat_chain n))
        (SupervisorChainMissing (supervisor_nat_chain n)), w) (\<lambda>nat_table w.
     bindE (ok_or (get_table_for_chain ruleset ''ip'' (supervisor_filter_chain n))
        (SupervisorChainMissing (supervisor_filter_chain n)), w) (\<lambda>filter_table w.
     execute_nft_commands E
       (setup_vm_commands n ruleset nat_table filter_table vm_id tap_device @
        setup_vm_commands6 n ruleset vm_id tap_device) w)))"

section \<open>Removal\<close>

definition delete_jump_commands :: "json list \<Rightarrow> string \<Rightarrow> json list" where
  "delete_jump_commands ruleset chain_name =
     List.map_filter (\<lambda>entry.
       case jget entry ''rule'' of None \<Rightarrow> None
       | Some rule \<Rightarrow>
           if rule_jumps_to rule chain_name then
             (case jget rule ''handle'' of None \<Rightarrow> None
              | Some handle \<Rightarrow> Some (delete_cmd ''rule'' (JObj
                  [(''family'', JStr (unwrap_or (as_str (jindex rule ''family'')) ''ip'')),
                   (''table'', JStr (unwrap_or (as_str (jindex rule ''table'')) '''')),
                   (''chain'', JStr (unwrap_or (as_str (jindex rule ''chain'')) '''')),
                   (''handle'', handle)])))
           else None) ruleset"

definition delete_chain_commands :: "json list \<Rightarrow> string \<Rightarrow> json list" where
  "delete_chain_commands ruleset chain_name =
     List.map_filter (\<lambda>entry.
       case jget entry ''chain'' of None \<Rightarrow> None
       | Some chain \<Rightarrow>
           if jget_str chain ''name'' = Some chain_name then
             Some (delete_cmd ''chain'' (JObj
               [(''family'', JStr (unwrap_or (as_str (jindex chain ''family'')) ''ip'')),
                (''table'', JStr (unwrap_or (as_str (jindex chain ''table'')) '''')),
                (''name'', JStr chain_name)]))
           else None) ruleset"

definition remove_chain_everywhere :: "'w nft_env \<Rightarrow> string \<Rightarrow> 'w \<Rightarrow> (nft_error, unit) result \<times> 'w" where
  "remove_chain_everywhere E chain_name w =
     bindE (execute_list_ruleset E w, w) (\<lambda>ruleset w.
       execute_nft_commands E
         (delete_jump_commands ruleset chain_name @ delete_chain_commands ruleset chain_name) w)"

definition nft_teardown :: "'w nft_env \<Rightarrow> nft_manager \<Rightarrow> 'w \<Rightarrow> (nft_error, unit) result \<times> 'w" where
  "nft_teardown E n w =
     bindE (remove_chain_everywhere E (supervisor_nat_chain n) w) (\<lambda>_ w.
     bindE (remove_chain_everywhere E (supervisor_filter_chain n) w) (\<lambda>_ w.
     remove_chain_everywhere E (supervisor_prerouting_chain n) w))"

definition teardown_vm :: "'w nft_env \<Rightarrow> nft_manager \<Rightarrow> string \<Rightarrow> 'w \<Rightarrow> (nft_error, unit) result \<times> 'w" where
  "teardown_vm E n vm_id w =
     bindE (remove_chain_everywhere E (vm_nat_chain n vm_id) w) (\<lambda>_ w.
     remove_chain_everywhere E (vm_filter_chain n vm_id) w)"

section \<open>Port forwards\<close>

text \<open>\<^verbatim>\<open>Ipv4Addr::to_string\<close>: the four octets in decimal.\<close>

type_synonym ipv4 = "u8 \<times> u8 \<times> u8 \<times> u8"

definition show_ipv4 :: "ipv4 \<Rightarrow> string" where
  "show_ipv4 ip = (case ip of (a, b, c, d) \<Rightarrow>
     join_with ''.'' [show_word a, show_word b, show_word c, show_word d])"

definition nft_add_port_forward ::
  "'w nft_env \<Rightarrow> nft_manager \<Rightarrow> string \<Rightarrow> ipv4 \<Rightarrow> u16 \<Rightarrow> u16 \<Rightarrow> protocol \<Rightarrow> 'w \<Rightarrow>
   (nft_error, unit) result \<times> 'w" where
  "nft_add_port_forward E n vm_id guest_ip host_port vm_port proto w =
     bindE (execute_list_ruleset E w, w) (\<lambda>ruleset w.
     bindE (ok_or (get_table_for_chain ruleset ''ip'' (supervisor_prerouting_chain n))
        (SupervisorChainMissing (supervisor_prerouting_chain n)), w) (\<lambda>prerouting_table w.
     bindE (ok_or (get_table_for_chain ruleset ''ip'' (vm_filter_chain n vm_id))
        (VmChainMissing (vm_filter_chain n vm_id)), w) (\<lambda>filter_table w.
     execute_nft_commands E
       [dnat_rule ''ip'' prerouting_table (supervisor_prerouting_chain n) host_port (show_ipv4 guest_ip)
          vm_port proto,
        port_accept_rule ''ip'' filter_table (vm_filter_chain n vm_id) vm_port proto] w)))"

definition delete_dnat_commands :: "nft_manager \<Rightarrow> json list \<Rightarrow> u16 \<Rightarrow> u16 \<Rightarrow> protocol \<Rightarrow> json list" where
  "delete_dnat_commands n ruleset host_port vm_port proto =
     List.map_filter (\<lambda>entry.
       case jget entry ''rule'' of None \<Rightarrow> None
       | Some rule \<Rightarrow>
           if is_dnat_rule_matching rule (supervisor_prerouting_chain n) host_port vm_port proto then
             (case jget rule ''handle'' of None \<Rightarrow> None
              | Some handle \<Rightarrow> Some (delete_cmd ''rule'' (JObj
                  [(''family'', JStr (unwrap_or (as_str (jindex rule ''family'')) ''ip'')),
                   (''table'', JStr (unwrap_or (as_str (jindex rule ''table'')) '''')),
                   (''chain'', JStr (supervisor_prerouting_chain n)),
                   (''handle'', handle)])))
           else None) ruleset"

definition nft_remove_port_forward ::
  "'w nft_env \<Rightarrow> nft_manager \<Rightarrow> u16 \<Rightarrow> u16 \<Rightarrow> protocol \<Rightarrow> 'w \<Rightarrow> (nft_error, unit) result \<times> 'w" where
  "nft_remove_port_forward E n host_port vm_port proto w =
     bindE (execute_list_ruleset E w, w) (\<lambda>ruleset w.
       execute_nft_commands E (delete_dnat_commands n ruleset host_port vm_port proto) w)"

definition is_port_in_use :: "'w nft_env \<Rightarrow> u16 \<Rightarrow> 'w \<Rightarrow> (nft_error, bool) result" where
  "is_port_in_use E port w =
     and_then (execute_list_ruleset E w) (\<lambda>ruleset. Ok (port_in_use ruleset port))"

section \<open>What nft promises\<close>

text \<open>
  A batch of additions that nft accepts: the entries listed before stay, in their order;
  each added object is listed; and nothing else is. (The ruleset is not changed by another
  process in between, and holds no packet counters.)
\<close>

fun well_formed_add :: "json \<Rightarrow> bool" where
  "well_formed_add (JObj [(a, JObj [(kind, JObj ms)])]) =
     (a = ''add'' \<and> distinct (map fst ms) \<and>
      (map_of ms ''family'' = Some (JStr ''ip'') \<or> map_of ms ''family'' = Some (JStr ''ip6'')))"
| "well_formed_add _ = False"

definition listing_after_add :: "json list \<Rightarrow> json list \<Rightarrow> json list \<Rightarrow> bool" where
  "listing_after_add cmds rs rs' \<longleftrightarrow>
     filter (\<lambda>e. e \<in> set rs) rs' = rs \<and>
     (\<forall>e \<in> set rs' - set rs. \<exists>kind obj. add_cmd kind obj \<in> set cmds \<and> lists_as kind obj e) \<and>
     (\<forall>kind obj. add_cmd kind obj \<in> set cmds \<longrightarrow> (\<exists>e \<in> set rs'. lists_as kind obj e))"

definition nft_add_law :: "'w nft_env \<Rightarrow> bool" where
  "nft_add_law E \<longleftrightarrow>
     (\<forall>w rs cmds w'. execute_list_ruleset E w = Ok rs \<longrightarrow> list_all well_formed_add cmds \<longrightarrow>
        execute_nft_commands E cmds w = (Ok (), w') \<longrightarrow>
        (\<exists>rs'. execute_list_ruleset E w' = Ok rs' \<and> listing_after_add cmds rs rs'))"

text \<open>
  A batch of deletions that nft accepts: what the commands designate is gone, nothing is
  new, and of the rest only rules inside a deleted chain are gone as well.
\<close>

fun designates :: "json \<Rightarrow> json \<Rightarrow> bool" where
  "designates (JObj [(d, JObj [(kind, obj)])]) (JObj [(k, o')]) = (d = ''delete'' \<and> k = kind \<and> extends_obj o' obj)"
| "designates _ _ = False"

definition inside_deleted_chain :: "json list \<Rightarrow> json \<Rightarrow> bool" where
  "inside_deleted_chain cmds e \<longleftrightarrow>
     (\<exists>f t n. delete_cmd ''chain'' (JObj [(''family'', JStr f), (''table'', JStr t), (''name'', JStr n)]) \<in> set cmds \<and>
        entry_is ''rule'' (rule_of_chain f t n (\<lambda>_. True)) e)"

definition listing_after_delete :: "json list \<Rightarrow> json list \<Rightarrow> json list \<Rightarrow> bool" where
  "listing_after_delete cmds rs rs' \<longleftrightarrow>
     set rs' \<subseteq> {e \<in> set rs. \<forall>c \<in> set cmds. \<not> designates c e} \<and>
     {e \<in> set rs. (\<forall>c \<in> set cmds. \<not> designates c e) \<and> \<not> inside_deleted_chain cmds e} \<subseteq> set rs'"

definition is_delete :: "json \<Rightarrow> bool" where
  "is_delete c = (case c of JObj [(d, _)] \<Rightarrow> d = ''delete'' | _ \<Rightarrow> False)"

definition nft_delete_law :: "'w nft_env \<Rightarrow> bool" where
  "nft_delete_law E \<longleftrightarrow>
     (\<forall>w rs cmds w'. execute_list_ruleset E w = Ok rs \<longrightarrow> list_all is_delete cmds \<longrightarrow>
        execute_nft_commands E cmds w = (Ok (), w') \<longrightarrow>
        (\<exists>rs'. execute_list_ruleset E w' = Ok rs' \<and> listing_after_delete cmds rs rs'))"

text \<open>The shape of a listed entry: one member, with the strings that place it.\<close>

definition placed :: "json \<Rightarrow> string list \<Rightarrow> bool" where
  "placed ob ks = list_all (\<lambda>k. jget_str ob k \<noteq> None) ks"

fun entry_ok :: "json \<Rightarrow> bool" where
  "entry_ok (JObj [(kind, ob)]) =
     ((kind = ''chain'' \<longrightarrow> placed ob [''family'', ''table'', ''name'']) \<and>
      (kind = ''rule'' \<longrightarrow> placed ob [''family'', ''table'', ''chain''] \<and> jget ob ''handle'' \<noteq> None))"
| "entry_ok _ = False"

section \<open>Names do not clash\<close>

lemma vm_chains_inj [simp]:
  "vm_nat_chain n a = vm_nat_chain n b \<longleftrightarrow> a = b"
  "vm_filter_chain n a = vm_filter_chain n b \<longleftrightarrow> a = b"
  by (simp_all add: vm_nat_chain_def vm_filter_chain_def)

lemma chains_distinct [simp]:
  "vm_nat_chain n a \<noteq> vm_filter_chain n b"
  "vm_nat_chain n a \<noteq> supervisor_nat_chain n"
  "vm_nat_chain n a \<noteq> supervisor_filter_chain n"
  "vm_nat_chain n a \<noteq> supervisor_prerouting_chain n"
  "vm_filter_chain n a \<noteq> supervisor_nat_chain n"
  "vm_filter_chain n a \<noteq> supervisor_filter_chain n"
  "vm_filter_chain n a \<noteq> supervisor_prerouting_chain n"
  by (simp_all add: vm_nat_chain_def vm_filter_chain_def supervisor_nat_chain_def
      supervisor_filter_chain_def supervisor_prerouting_chain_def)

lemmas chains_distinct_sym [simp] = chains_distinct [symmetric]

section \<open>Additions\<close>

text \<open>The commands the manager adds: chains of given names, and rules.\<close>

inductive adds_to :: "string set \<Rightarrow> json \<Rightarrow> bool" for names where
  "name \<in> names \<Longrightarrow> f \<in> {''ip'', ''ip6''} \<Longrightarrow> adds_to names (add_cmd ''chain'' (chain_obj f t name))"
| "f \<in> {''ip'', ''ip6''} \<Longrightarrow> adds_to names (add_cmd ''rule'' (rule_obj f t ch exprs))"

inductive_cases adds_to_chainE: "adds_to names (add_cmd kind obj)"

lemma adds_to_well_formed: "adds_to names c \<Longrightarrow> well_formed_add c"
  by (erule adds_to.cases) (auto simp: add_cmd_def chain_obj_def rule_obj_def)

lemma add_cmd_inj [simp]: "add_cmd k a = add_cmd l b \<longleftrightarrow> k = l \<and> a = b"
  by (simp add: add_cmd_def)

lemma gen_adds_to:
  assumes "f \<in> {''ip'', ''ip6''}"
  shows "nm \<in> names \<Longrightarrow> c \<in> set (add_chain_if_not_present rs f t nm) \<Longrightarrow> adds_to names c"
    and "c \<in> set (add_jump_if_not_present rs f t a b) \<Longrightarrow> adds_to names c"
    and "c \<in> set (add_conntrack_if_not_present rs f t a) \<Longrightarrow> adds_to names c"
    and "c \<in> set (add_masquerade_if_not_present rs f t a i o') \<Longrightarrow> adds_to names c"
    and "c \<in> set (add_forward_accept_if_not_present rs f t a i o') \<Longrightarrow> adds_to names c"
  using assms chain_gen.gen_adds [of rs f t nm] jump_gen.gen_adds [of rs f t a b]
    conntrack_gen.gen_adds [of rs f t a] masquerade_gen.gen_adds [of rs f t a i o']
    forward_gen.gen_adds [of rs f t a i o']
  by (blast intro: adds_to.intros)+

lemmas gen_adds_ip = gen_adds_to [of "''ip''", OF insertI1]
lemmas gen_adds_ip6 = gen_adds_to [of "''ip6''", OF insertI2 [OF singletonI]]

lemma setup_vm_adds_to:
  "c \<in> set (setup_vm_commands n rs nt ft vm tap) \<Longrightarrow> adds_to {vm_nat_chain n vm, vm_filter_chain n vm} c"
  "c \<in> set (setup_vm_commands6 n rs vm tap) \<Longrightarrow> adds_to {vm_nat_chain n vm, vm_filter_chain n vm} c"
proof -
  let ?N = "{vm_nat_chain n vm, vm_filter_chain n vm}"
  have N: "vm_nat_chain n vm \<in> ?N" "vm_filter_chain n vm \<in> ?N" by simp_all
  show "c \<in> set (setup_vm_commands n rs nt ft vm tap) \<Longrightarrow> adds_to ?N c"
    unfolding setup_vm_commands_def Let_def set_append Un_iff
    using gen_adds_ip [where names = ?N] N by meson
  assume c: "c \<in> set (setup_vm_commands6 n rs vm tap)"
  then obtain tab where "nft_ipv6_enabled n"
      "get_table_for_chain rs ''ip6'' (supervisor_filter_chain n) = Some tab"
    by (cases "nft_ipv6_enabled n"; cases "get_table_for_chain rs ''ip6'' (supervisor_filter_chain n)")
       (simp_all add: setup_vm_commands6_def)
  with c show "adds_to ?N c"
    unfolding setup_vm_commands6_def Let_def
    using gen_adds_ip6(2-) [where names = ?N] gen_adds_ip6(1) [OF N(2)] by simp meson
qed

lemma find_filter: "(\<And>e. e \<in> set xs \<Longrightarrow> P e \<Longrightarrow> Q e) \<Longrightarrow> List.find P (filter Q xs) = List.find P xs"
  by (induction xs) auto

lemma lists_as_name:
  "lists_as ''chain'' (chain_obj f t nm) e \<Longrightarrow> entry_is ''chain'' p e \<Longrightarrow>
   (\<And>c. p c \<Longrightarrow> jget_str c ''name'' = Some nm') \<Longrightarrow> nm' = nm"
  by (force simp: extends_obj_def chain_obj_def entry_is_def jget_str_def elim!: lists_asE)

lemma lists_as_rule_not_chain: "lists_as ''rule'' ob e \<Longrightarrow> \<not> entry_is ''chain'' p e"
  by (auto simp: entry_is_def elim!: lists_asE)

text \<open>A chain that none of the added commands names is found in the same table as before.\<close>

lemma get_table_for_chain_stable:
  assumes l: "listing_after_add cmds rs rs'" and a: "\<forall>c \<in> set cmds. adds_to names c" and nm: "nm \<notin> names"
  shows "get_table_for_chain rs' f nm = get_table_for_chain rs f nm"
proof -
  let ?P = "entry_is ''chain'' (\<lambda>c. jget_str c ''family'' = Some f \<and> jget_str c ''name'' = Some nm)"
  have "e \<in> set rs" if e: "e \<in> set rs'" "?P e" for e
  proof (rule ccontr)
    assume "e \<notin> set rs"
    then obtain kind ob where k: "add_cmd kind ob \<in> set cmds" "lists_as kind ob e"
      using l e(1) unfolding listing_after_add_def by blast
    with a have "adds_to names (add_cmd kind ob)" by blast
    then show False
    proof (rule adds_to_chainE)
      fix name fam t assume "add_cmd kind ob = add_cmd ''chain'' (chain_obj fam t name)" "name \<in> names"
      then show False using k(2) e(2) nm lists_as_name [of fam t name e _ nm] by auto
    next
      fix fam t ch exprs assume "add_cmd kind ob = add_cmd ''rule'' (rule_obj fam t ch exprs)"
      then show False using k(2) e(2) lists_as_rule_not_chain by auto
    qed
  qed
  then have "List.find ?P (filter (\<lambda>e. e \<in> set rs) rs') = List.find ?P rs'"
    by (intro find_filter) auto
  then show ?thesis
    using l by (simp add: get_table_for_chain_def listing_after_add_def)
qed

lemma listing_after_add_D:
  assumes "listing_after_add cmds rs rs'"
  shows "set rs \<subseteq> set rs'"
    and "add_cmd kind ob \<in> set cmds \<Longrightarrow> \<exists>e \<in> set rs'. lists_as kind ob e"
  using assms unfolding listing_after_add_def by (metis filter_is_subset, blast)

lemma setup_vm_commands_idempotent:
  assumes "listing_after_add cmds rs rs'"
    and "set (setup_vm_commands n rs nt ft vm tap) \<subseteq> set cmds"
  shows "setup_vm_commands n rs' nt ft vm tap = []"
proof -
  note d = listing_after_add_D [OF assms(1)]
  have sub: "c \<in> set cmds" if "c \<in> set (setup_vm_commands n rs nt ft vm tap)" for c
    using that assms(2) by blast
  show ?thesis
    unfolding setup_vm_commands_def Let_def append_is_Nil_conv
    by (intro conjI chain_gen.gen_idempotent [OF d(1)] jump_gen.gen_idempotent [OF d(1)]
        masquerade_gen.gen_idempotent [OF d(1)] forward_gen.gen_idempotent [OF d(1)] d(2) sub)
       (simp_all add: setup_vm_commands_def Let_def)
qed

lemma setup_vm_commands6_idempotent:
  assumes "listing_after_add cmds rs rs'" "\<forall>c \<in> set cmds. adds_to {vm_nat_chain n vm, vm_filter_chain n vm} c"
    and "set (setup_vm_commands6 n rs vm tap) \<subseteq> set cmds"
  shows "setup_vm_commands6 n rs' vm tap = []"
proof -
  note d = listing_after_add_D [OF assms(1)]
  have t: "get_table_for_chain rs' ''ip6'' (supervisor_filter_chain n) =
      get_table_for_chain rs ''ip6'' (supervisor_filter_chain n)"
    by (rule get_table_for_chain_stable [OF assms(1,2)]) simp
  have sub: "c \<in> set cmds" if "c \<in> set (setup_vm_commands6 n rs vm tap)" for c
    using that assms(3) by blast
  show ?thesis
  proof (cases "nft_ipv6_enabled n \<and> get_table_for_chain rs ''ip6'' (supervisor_filter_chain n) \<noteq> None")
    case True
    then obtain tab where tab: "get_table_for_chain rs ''ip6'' (supervisor_filter_chain n) = Some tab"
      "nft_ipv6_enabled n" by auto
    show ?thesis
      unfolding setup_vm_commands6_def t tab(1) Let_def
      using tab(2)
      by (simp, intro conjI chain_gen.gen_idempotent [OF d(1)] jump_gen.gen_idempotent [OF d(1)]
          forward_gen.gen_idempotent [OF d(1)] d(2) sub)
         (simp_all add: setup_vm_commands6_def tab Let_def)
  qed (auto simp: setup_vm_commands6_def t)
qed

text \<open>The outcome of a successful \<open>setup_vm\<close>: the tables found and the commands accepted.\<close>

lemma setup_vm_Ok:
  assumes "setup_vm E n vm tap w = (Ok (), w')"
  obtains rs nt ft where "execute_list_ruleset E w = Ok rs"
    "get_table_for_chain rs ''ip'' (supervisor_nat_chain n) = Some nt"
    "get_table_for_chain rs ''ip'' (supervisor_filter_chain n) = Some ft"
    "execute_nft_commands E (setup_vm_commands n rs nt ft vm tap @ setup_vm_commands6 n rs vm tap) w = (Ok (), w')"
  using assms by (auto simp: setup_vm_def bindE_Ok)

lemma setup_vm_listing:
  assumes "nft_add_law E" "execute_list_ruleset E w = Ok rs"
    and "execute_nft_commands E (setup_vm_commands n rs nt ft vm tap @ setup_vm_commands6 n rs vm tap) w = (Ok (), w')"
  obtains rs' where "execute_list_ruleset E w' = Ok rs'"
    "listing_after_add (setup_vm_commands n rs nt ft vm tap @ setup_vm_commands6 n rs vm tap) rs rs'"
    "\<forall>c \<in> set (setup_vm_commands n rs nt ft vm tap @ setup_vm_commands6 n rs vm tap).
       adds_to {vm_nat_chain n vm, vm_filter_chain n vm} c"
proof -
  let ?cmds = "setup_vm_commands n rs nt ft vm tap @ setup_vm_commands6 n rs vm tap"
  have a: "\<forall>c \<in> set ?cmds. adds_to {vm_nat_chain n vm, vm_filter_chain n vm} c"
    using setup_vm_adds_to by (metis Un_iff set_append)
  then have "list_all well_formed_add ?cmds"
    using adds_to_well_formed by (simp only: list_all_iff) blast
  with assms a that show ?thesis unfolding nft_add_law_def by blast
qed

section \<open>A concrete nft\<close>

text \<open>
  An nft over an in-memory ruleset, to evaluate the operations on: additions append an
  entry unless it is there, deletions drop what they designate.
\<close>

fun mem_family :: "string \<Rightarrow> json \<Rightarrow> bool" where
  "mem_family f (JObj [(k, ob)]) = (jget_str ob ''family'' = Some f)"
| "mem_family f _ = False"

fun mem_run :: "json list \<Rightarrow> json \<Rightarrow> json list" where
  "mem_run w (JObj [(a, JObj [(k, ob)])]) =
     (if a = ''add'' then (if JObj [(k, ob)] \<in> set w then w else w @ [JObj [(k, ob)]])
      else filter (\<lambda>e. \<not> designates (JObj [(a, JObj [(k, ob)])]) e) w)"
| "mem_run w _ = w"

definition mem_nft :: "(json list) nft_env" where
  "mem_nft = \<lparr>nft_output = (\<lambda>w f. Ok (True, Some (JObj [(''nftables'', JArr (filter (mem_family f) w))]))),
     nft_apply = (\<lambda>w b. (Ok (True, ''''), foldl mem_run w (unwrap_or (jget_array b ''nftables'') [])))\<rparr>"

lemma mem_list: "execute_list_ruleset mem_nft w = Ok (filter (mem_family ''ip'') w @ filter (mem_family ''ip6'') w)"
  by (simp add: execute_list_ruleset_def mem_nft_def family_entries_def)

lemma mem_exec: "execute_nft_commands mem_nft cmds w = (Ok (), foldl mem_run w cmds)"
  by (simp add: execute_nft_commands_def mem_nft_def)

lemma well_formed_addE:
  assumes "well_formed_add c"
  obtains kind ms f where "c = add_cmd kind (JObj ms)" "distinct (map fst ms)"
    "map_of ms ''family'' = Some (JStr f)" "f = ''ip'' \<or> f = ''ip6''"
  using assms by (auto simp: add_cmd_def elim: well_formed_add.elims(2))

lemma mem_run_add:
  "mem_run w (add_cmd kind ob) = (if JObj [(kind, ob)] \<in> set w then w else w @ [JObj [(kind, ob)]])"
  by (simp add: add_cmd_def)

lemma mem_add_sub: "list_all well_formed_add cmds \<Longrightarrow> set w \<subseteq> set (foldl mem_run w cmds)"
proof (induction cmds arbitrary: w)
  case (Cons c cs)
  then have "set w \<subseteq> set (mem_run w c)" by (auto elim!: well_formed_addE simp: mem_run_add)
  with Cons show ?case by fastforce
qed simp

lemma mem_add_new:
  "list_all well_formed_add cmds \<Longrightarrow> e \<in> set (foldl mem_run w cmds) \<Longrightarrow>
   e \<in> set w \<or> (\<exists>kind ob. add_cmd kind ob \<in> set cmds \<and> e = JObj [(kind, ob)])"
proof (induction cmds arbitrary: w)
  case (Cons c cs)
  then obtain kind ob where c: "c = add_cmd kind ob" by (auto elim!: well_formed_addE)
  from Cons.prems have "e \<in> set (mem_run w c) \<or> (\<exists>kind ob. add_cmd kind ob \<in> set cs \<and> e = JObj [(kind, ob)])"
    using Cons.IH [of "mem_run w c"] by simp
  moreover have "set (mem_run w c) \<subseteq> insert (JObj [(kind, ob)]) (set w)" by (auto simp: c mem_run_add)
  ultimately show ?case using c by auto
qed simp

lemma mem_add_filter:
  "list_all well_formed_add cmds \<Longrightarrow> filter (\<lambda>e. p e \<and> e \<in> set w) (foldl mem_run w cmds) = filter p w"
proof -
  assume "list_all well_formed_add cmds"
  then obtain zs where "foldl mem_run w cmds = w @ zs" "set zs \<inter> set w = {}"
  proof (induction cmds arbitrary: thesis rule: rev_induct)
    case (snoc c cs)
    from snoc.prems(2) obtain zs where zs: "foldl mem_run w cs = w @ zs" "set zs \<inter> set w = {}"
      using snoc.IH by auto
    from snoc.prems(2) obtain kind ob where "c = add_cmd kind ob" by (auto elim!: well_formed_addE)
    then show ?case
      using snoc.prems(1) [of zs] snoc.prems(1) [of "zs @ [JObj [(kind, ob)]]"] zs
      by (cases "JObj [(kind, ob)] \<in> set w \<or> JObj [(kind, ob)] \<in> set zs") (auto simp: mem_run_add)
  qed simp
  moreover from this have "filter (\<lambda>e. p e \<and> e \<in> set w) zs = []" by (auto simp: filter_empty_conv)
  moreover have "filter (\<lambda>e. p e \<and> e \<in> set w) w = filter p w" by (intro filter_cong) auto
  ultimately show ?thesis by simp
qed

lemma mem_nft_add_law: "nft_add_law mem_nft"
  unfolding nft_add_law_def mem_list mem_exec
proof (intro allI impI, clarsimp)
  fix w cmds assume wf: "list_all well_formed_add cmds"
  let ?w' = "foldl mem_run w cmds"
  let ?L = "\<lambda>w. filter (mem_family ''ip'') w @ filter (mem_family ''ip6'') w"
  have in_L: "e \<in> set (?L w) \<longleftrightarrow> e \<in> set w" if "mem_family f e" "f = ''ip'' \<or> f = ''ip6''" for e f w
    using that by auto
  have "filter (\<lambda>e. e \<in> set (?L w)) (filter (mem_family f) ?w') = filter (mem_family f) w"
    if "f = ''ip'' \<or> f = ''ip6''" for f
  proof -
    have "filter (\<lambda>e. e \<in> set (?L w)) (filter (mem_family f) ?w') = filter (\<lambda>e. mem_family f e \<and> e \<in> set w) ?w'"
      unfolding filter_filter using in_L [OF _ that] by (intro filter_cong) auto
    then show ?thesis using mem_add_filter [OF wf] by simp
  qed
  then have 1: "filter (\<lambda>e. e \<in> set (?L w)) (?L ?w') = ?L w" by simp
  have ext: "extends_obj (JObj ms) (JObj ms)" if "distinct (map fst ms)" for ms
    using that by (auto simp: extends_obj_def list_all_iff)
  have shape: "\<exists>ms f. ob = JObj ms \<and> distinct (map fst ms) \<and> map_of ms ''family'' = Some (JStr f) \<and> (f = ''ip'' \<or> f = ''ip6'')"
    if "add_cmd kind ob \<in> set cmds" for kind ob
  proof -
    have "well_formed_add (add_cmd kind ob)" using wf that by (simp add: list_all_iff)
    then show ?thesis by (rule well_formed_addE) auto
  qed
  have 2: "\<exists>kind ob. add_cmd kind ob \<in> set cmds \<and> lists_as kind ob e" if "e \<in> set (?L ?w') - set (?L w)" for e
  proof -
    have "e \<in> set ?w'" "e \<notin> set w" using that by auto
    then obtain kind ob where k: "add_cmd kind ob \<in> set cmds" "e = JObj [(kind, ob)]"
      using mem_add_new [OF wf] by blast
    with shape [OF k(1)] ext show ?thesis by auto
  qed
  have 3: "\<exists>e \<in> set (?L ?w'). lists_as kind ob e" if "add_cmd kind ob \<in> set cmds" for kind ob
  proof -
    have "JObj [(kind, ob)] \<in> set ?w'" using that wf
    proof (induction cmds arbitrary: w)
      case (Cons c cs)
      show ?case
      proof (cases "c = add_cmd kind ob")
        case True
        then have "JObj [(kind, ob)] \<in> set (mem_run w c)" by (simp add: mem_run_add)
        then show ?thesis using mem_add_sub [of cs "mem_run w c"] Cons.prems by auto
      qed (use Cons in auto)
    qed simp
    with shape [OF that] ext show ?thesis
      by (intro bexI [of _ "JObj [(kind, ob)]"]) auto
  qed
  show "listing_after_add cmds (?L w) (?L ?w')"
    unfolding listing_after_add_def using 1 2 3 by blast
qed

section \<open>Deletions\<close>

lemma delete_jump_designates:
  assumes "e \<in> set rs" "entry_ok e" "entry_is ''rule'' (\<lambda>r. rule_jumps_to r nm) e"
  shows "\<exists>c \<in> set (delete_jump_commands rs nm). designates c e"
proof -
  from assms(2,3) obtain r where e: "e = JObj [(''rule'', r)]" "rule_jumps_to r nm"
    by (auto simp: entry_is_def elim!: entry_ok.elims(2) split: if_splits option.splits)
  with assms(2) obtain f t c h where r: "jget_str r ''family'' = Some f" "jget_str r ''table'' = Some t"
      "jget_str r ''chain'' = Some c" "jget r ''handle'' = Some h"
    by (auto simp: placed_def)
  let ?c = "delete_cmd ''rule'' (JObj [(''family'', JStr f), (''table'', JStr t), (''chain'', JStr c), (''handle'', h)])"
  have "?c \<in> set (delete_jump_commands rs nm)"
    using assms(1) e r
    by (force simp: delete_jump_commands_def map_filter_simps jget_str_Some jindex_def)
  moreover have "designates ?c e"
    using r by (simp add: e(1) delete_cmd_def extends_obj_def jget_str_Some)
  ultimately show ?thesis by blast
qed

lemma delete_chain_designates:
  assumes "e \<in> set rs" "entry_ok e" "entry_is ''chain'' (\<lambda>c. jget_str c ''name'' = Some nm) e"
  shows "\<exists>c \<in> set (delete_chain_commands rs nm). designates c e"
proof -
  from assms(2,3) obtain r where e: "e = JObj [(''chain'', r)]" "jget_str r ''name'' = Some nm"
    by (auto simp: entry_is_def elim!: entry_ok.elims(2) split: if_splits option.splits)
  with assms(2) obtain f t where r: "jget_str r ''family'' = Some f" "jget_str r ''table'' = Some t"
    by (auto simp: placed_def)
  let ?c = "delete_cmd ''chain'' (JObj [(''family'', JStr f), (''table'', JStr t), (''name'', JStr nm)])"
  have "?c \<in> set (delete_chain_commands rs nm)"
    using assms(1) e r
    by (force simp: delete_chain_commands_def map_filter_simps jget_str_Some jindex_def)
  moreover have "designates ?c e"
    using r e(2) by (simp add: e(1) delete_cmd_def extends_obj_def jget_str_Some)
  ultimately show ?thesis by blast
qed

text \<open>
  An entry belongs to a chain when it is the chain, a jump to it, or a rule inside it.
  Handles are unique: two rules of the same family, table and chain with the same handle
  are one.
\<close>

definition belongs_to :: "string \<Rightarrow> json \<Rightarrow> bool" where
  "belongs_to nm e \<longleftrightarrow> entry_is ''chain'' (\<lambda>c. jget_str c ''name'' = Some nm) e \<or>
     entry_is ''rule'' (\<lambda>r. rule_jumps_to r nm \<or> jget_str r ''chain'' = Some nm) e"

definition handles_unique :: "json list \<Rightarrow> bool" where
  "handles_unique rs \<longleftrightarrow>
     (\<forall>e \<in> set rs. \<forall>e' \<in> set rs. \<forall>r r'. jget e ''rule'' = Some r \<longrightarrow> jget e' ''rule'' = Some r' \<longrightarrow>
        jget r ''family'' = jget r' ''family'' \<longrightarrow> jget r ''table'' = jget r' ''table'' \<longrightarrow>
        jget r ''chain'' = jget r' ''chain'' \<longrightarrow> jget r ''handle'' = jget r' ''handle'' \<longrightarrow> e = e')"

lemma designated_jump:
  assumes "c \<in> set (delete_jump_commands rs nm)" "designates c e" "e \<in> set rs"
    and "list_all entry_ok rs" "handles_unique rs"
  shows "belongs_to nm e"
proof -
  obtain e0 r0 h where e0: "e0 \<in> set rs" "jget e0 ''rule'' = Some r0" "rule_jumps_to r0 nm" "jget r0 ''handle'' = Some h"
    and c: "c = delete_cmd ''rule'' (JObj
       [(''family'', JStr (unwrap_or (as_str (jindex r0 ''family'')) ''ip'')),
        (''table'', JStr (unwrap_or (as_str (jindex r0 ''table'')) '''')),
        (''chain'', JStr (unwrap_or (as_str (jindex r0 ''chain'')) '''')), (''handle'', h)])"
    using assms(1)
    by (auto simp: delete_jump_commands_def map_filter_simps)
  have "entry_ok e0" using assms(4) e0(1) by (simp add: list_all_iff)
  then have p: "placed r0 [''family'', ''table'', ''chain'']"
    using e0(2) by (auto elim!: entry_ok.elims(2) split: if_splits)
  from assms(2) c obtain r where r: "e = JObj [(''rule'', r)]" "extends_obj r (JObj
       [(''family'', JStr (unwrap_or (as_str (jindex r0 ''family'')) ''ip'')),
        (''table'', JStr (unwrap_or (as_str (jindex r0 ''table'')) '''')),
        (''chain'', JStr (unwrap_or (as_str (jindex r0 ''chain'')) '''')), (''handle'', h)])"
    by (auto simp: delete_cmd_def elim!: designates.elims(2))
  have "jget r k = jget r0 k" if "k \<in> {''family'', ''table'', ''chain'', ''handle''}" for k
    using that r(2) p e0(4) by (auto simp: extends_obj_def placed_def jget_str_Some jindex_def)
  then have "e = e0"
    using assms(5) e0(1,2) assms(3) r(1) unfolding handles_unique_def by auto
  with e0 show ?thesis by (simp add: belongs_to_def entry_is_def)
qed

lemma designated_chain:
  assumes "c \<in> set (delete_chain_commands rs nm)" "designates c e"
  shows "belongs_to nm e"
  using assms
  by (auto simp: delete_chain_commands_def map_filter_simps delete_cmd_def belongs_to_def entry_is_def
      extends_obj_def jget_str_Some elim!: designates.elims(2))

lemma delete_jump_shape: "c \<in> set (delete_jump_commands rs nm) \<Longrightarrow> \<exists>ob. c = delete_cmd ''rule'' ob"
  by (auto simp: delete_jump_commands_def map_filter_simps)

lemma delete_chain_shape:
  "c \<in> set (delete_chain_commands rs nm) \<Longrightarrow>
   \<exists>f t. c = delete_cmd ''chain'' (JObj [(''family'', JStr f), (''table'', JStr t), (''name'', JStr nm)])"
  by (auto simp: delete_chain_commands_def map_filter_simps)

lemma delete_cmd_inj [simp]: "delete_cmd k a = delete_cmd l b \<longleftrightarrow> k = l \<and> a = b"
  by (simp add: delete_cmd_def)

lemma inside_deleted:
  assumes "inside_deleted_chain (delete_jump_commands rs nm @ delete_chain_commands rs nm) e"
  shows "belongs_to nm e"
proof -
  obtain f t n where c: "delete_cmd ''chain'' (JObj [(''family'', JStr f), (''table'', JStr t), (''name'', JStr n)])
      \<in> set (delete_jump_commands rs nm @ delete_chain_commands rs nm)"
    and e: "entry_is ''rule'' (rule_of_chain f t n (\<lambda>_. True)) e"
    using assms by (auto simp: inside_deleted_chain_def)
  from c have "n = nm"
    using delete_jump_shape [of _ rs nm] delete_chain_shape [of _ rs nm] by fastforce
  with e show ?thesis by (auto simp: belongs_to_def entry_is_def rule_of_chain_def split: option.splits)
qed

lemma deletes_are_deletes:
  "list_all is_delete (delete_jump_commands rs nm @ delete_chain_commands rs nm)"
  using delete_jump_shape [of _ rs nm] delete_chain_shape [of _ rs nm]
  by (fastforce simp: list_all_iff delete_cmd_def is_delete_def)

lemma remove_chain_result:
  assumes law: "nft_delete_law E" and rs: "execute_list_ruleset E w = Ok rs" "list_all entry_ok rs" "handles_unique rs"
    and ok: "remove_chain_everywhere E nm w = (Ok (), w')"
  obtains rs' where "execute_list_ruleset E w' = Ok rs'" "set rs' \<subseteq> set rs"
    "\<forall>e \<in> set rs'. \<not> entry_is ''chain'' (\<lambda>c. jget_str c ''name'' = Some nm) e \<and>
       \<not> entry_is ''rule'' (\<lambda>r. rule_jumps_to r nm) e"
    "\<forall>e \<in> set rs. \<not> belongs_to nm e \<longrightarrow> e \<in> set rs'"
proof -
  let ?cmds = "delete_jump_commands rs nm @ delete_chain_commands rs nm"
  have "execute_nft_commands E ?cmds w = (Ok (), w')"
    using ok rs(1) by (simp add: remove_chain_everywhere_def)
  with law rs(1) deletes_are_deletes obtain rs'
    where l: "execute_list_ruleset E w' = Ok rs'" "listing_after_delete ?cmds rs rs'"
    unfolding nft_delete_law_def by blast
  then have sub: "set rs' \<subseteq> set rs" by (auto simp: listing_after_delete_def)
  have gone: "\<forall>e \<in> set rs'. \<forall>c \<in> set ?cmds. \<not> designates c e"
    using l(2) by (auto simp: listing_after_delete_def)
  have "\<not> entry_is ''chain'' (\<lambda>c. jget_str c ''name'' = Some nm) e \<and> \<not> entry_is ''rule'' (\<lambda>r. rule_jumps_to r nm) e"
    if "e \<in> set rs'" for e
    using that sub gone rs(2) delete_jump_designates [of e rs nm] delete_chain_designates [of e rs nm]
    by (auto simp: list_all_iff)
  moreover have "e \<in> set rs'" if "e \<in> set rs" "\<not> belongs_to nm e" for e
    using that l(2) designated_jump [OF _ _ that(1) rs(2,3)] designated_chain inside_deleted
    unfolding listing_after_delete_def by auto
  ultimately show ?thesis using that l(1) sub by blast
qed

lemma mem_run_delete: "is_delete c \<Longrightarrow> mem_run w c = filter (\<lambda>e. \<not> designates c e) w"
proof (cases "(w, c)" rule: mem_run.cases)
  case (1 w' a k ob)
  then show "is_delete c \<Longrightarrow> ?thesis" by (auto simp: is_delete_def)
qed auto

lemma mem_delete_all:
  "list_all is_delete cmds \<Longrightarrow> foldl mem_run w cmds = filter (\<lambda>e. \<forall>c \<in> set cmds. \<not> designates c e) w"
  by (induction cmds arbitrary: w) (auto simp: mem_run_delete conj_commute intro: filter_cong)

lemma mem_nft_delete_law: "nft_delete_law mem_nft"
  unfolding nft_delete_law_def mem_list mem_exec
  by (auto simp: listing_after_delete_def mem_delete_all)

section \<open>Properties\<close>

text \<open>
  C6: setting up a VM's chains is idempotent. After a successful \<^verbatim>\<open>setup_vm\<close> the VM's NAT
  and filter chains exist in the tables of the supervisor chains, and a second call finds
  everything in place: it succeeds without changing the host.
\<close>

theorem setup_vm_idempotent:
  assumes "nft_add_law E" "setup_vm E n vm tap w = (Ok (), w')"
  shows "setup_vm E n vm tap w' = (Ok (), w') \<and>
    (\<exists>rs nt ft. execute_list_ruleset E w' = Ok rs \<and>
       get_table_for_chain rs ''ip'' (supervisor_nat_chain n) = Some nt \<and>
       get_table_for_chain rs ''ip'' (supervisor_filter_chain n) = Some ft \<and>
       chain_exists rs ''ip'' nt (vm_nat_chain n vm) \<and> chain_exists rs ''ip'' ft (vm_filter_chain n vm))"
proof -
  obtain rs nt ft where rs: "execute_list_ruleset E w = Ok rs"
      "get_table_for_chain rs ''ip'' (supervisor_nat_chain n) = Some nt"
      "get_table_for_chain rs ''ip'' (supervisor_filter_chain n) = Some ft"
      "execute_nft_commands E (setup_vm_commands n rs nt ft vm tap @ setup_vm_commands6 n rs vm tap) w = (Ok (), w')"
    by (rule setup_vm_Ok [OF assms(2)])
  obtain rs' where rs': "execute_list_ruleset E w' = Ok rs'"
      "listing_after_add (setup_vm_commands n rs nt ft vm tap @ setup_vm_commands6 n rs vm tap) rs rs'"
      "\<forall>c \<in> set (setup_vm_commands n rs nt ft vm tap @ setup_vm_commands6 n rs vm tap).
         adds_to {vm_nat_chain n vm, vm_filter_chain n vm} c"
    by (rule setup_vm_listing [OF assms(1) rs(1,4)])
  have none: "setup_vm_commands n rs' nt ft vm tap = []" "setup_vm_commands6 n rs' vm tap = []"
    using setup_vm_commands_idempotent [OF rs'(2)] setup_vm_commands6_idempotent [OF rs'(2,3)] by simp_all
  have tables: "get_table_for_chain rs' ''ip'' (supervisor_nat_chain n) = Some nt"
    "get_table_for_chain rs' ''ip'' (supervisor_filter_chain n) = Some ft"
    using get_table_for_chain_stable [OF rs'(2,3)] rs(2,3) by simp_all
  have "chain_exists rs' ''ip'' nt (vm_nat_chain n vm) \<and> chain_exists rs' ''ip'' ft (vm_filter_chain n vm)"
    using none(1) by (simp add: setup_vm_commands_def Let_def chain_gen.gen_Nil_iff chain_exists_def)
  with none tables rs'(1) show ?thesis
    by (simp add: setup_vm_def execute_nft_commands_def)
qed

definition demo_nft :: nft_manager where
  "demo_nft = nft_manager_new ''aleph'' ''eth0'' False"

definition demo_base :: "json list" where
  "demo_base =
     [JObj [(''chain'', chain_obj ''ip'' ''nat'' ''aleph-supervisor-nat'')],
      JObj [(''chain'', chain_obj ''ip'' ''filter'' ''aleph-supervisor-filter'')]]"

theorem setup_vm_idempotent_witness:
  "let w' = snd (setup_vm mem_nft demo_nft ''vm1'' ''tap-vm1'' demo_base)
   in setup_vm mem_nft demo_nft ''vm1'' ''tap-vm1'' w' = (Ok (), w') \<and> length w' = 8"
proof -
  let ?w' = "snd (setup_vm mem_nft demo_nft ''vm1'' ''tap-vm1'' demo_base)"
  have "fst (setup_vm mem_nft demo_nft ''vm1'' ''tap-vm1'' demo_base) = Ok ()" by code_simp
  then have s: "setup_vm mem_nft demo_nft ''vm1'' ''tap-vm1'' demo_base = (Ok (), ?w')"
    by (metis prod.collapse)
  have "setup_vm mem_nft demo_nft ''vm1'' ''tap-vm1'' ?w' = (Ok (), ?w')"
    using setup_vm_idempotent [OF mem_nft_add_law s] by (rule conjunct1)
  moreover have "length ?w' = 8" by code_simp
  ultimately show ?thesis unfolding Let_def by (rule conjI)
qed

text \<open>
  C10: tearing a VM down removes its NAT and filter chains and every jump to them, and
  nothing else: every entry that is neither one of the two chains, nor a jump to one, nor
  a rule inside one is still listed.
\<close>

theorem teardown_vm_exact:
  assumes "nft_delete_law E" "execute_list_ruleset E w = Ok rs" "list_all entry_ok rs" "handles_unique rs"
    and "teardown_vm E n vm w = (Ok (), w')"
  shows "\<exists>rs'. execute_list_ruleset E w' = Ok rs' \<and> set rs' \<subseteq> set rs \<and>
    (\<forall>e \<in> set rs'. \<forall>nm \<in> {vm_nat_chain n vm, vm_filter_chain n vm}.
       \<not> entry_is ''chain'' (\<lambda>c. jget_str c ''name'' = Some nm) e \<and>
       \<not> entry_is ''rule'' (\<lambda>r. rule_jumps_to r nm) e) \<and>
    (\<forall>e \<in> set rs. \<not> belongs_to (vm_nat_chain n vm) e \<longrightarrow> \<not> belongs_to (vm_filter_chain n vm) e \<longrightarrow> e \<in> set rs')"
proof -
  obtain w1 where w1: "remove_chain_everywhere E (vm_nat_chain n vm) w = (Ok (), w1)"
      "remove_chain_everywhere E (vm_filter_chain n vm) w1 = (Ok (), w')"
    using assms(5) by (auto simp: teardown_vm_def bindE_Ok)
  obtain rs1 where rs1: "execute_list_ruleset E w1 = Ok rs1" "set rs1 \<subseteq> set rs"
      "\<forall>e \<in> set rs1. \<not> entry_is ''chain'' (\<lambda>c. jget_str c ''name'' = Some (vm_nat_chain n vm)) e \<and>
         \<not> entry_is ''rule'' (\<lambda>r. rule_jumps_to r (vm_nat_chain n vm)) e"
      "\<forall>e \<in> set rs. \<not> belongs_to (vm_nat_chain n vm) e \<longrightarrow> e \<in> set rs1"
    by (rule remove_chain_result [OF assms(1-4) w1(1)])
  have "list_all entry_ok rs1" using assms(3) rs1(2) by (auto simp: list_all_iff)
  moreover have "handles_unique rs1" using assms(4) rs1(2) unfolding handles_unique_def by blast
  ultimately obtain rs2 where rs2: "execute_list_ruleset E w' = Ok rs2" "set rs2 \<subseteq> set rs1"
      "\<forall>e \<in> set rs2. \<not> entry_is ''chain'' (\<lambda>c. jget_str c ''name'' = Some (vm_filter_chain n vm)) e \<and>
         \<not> entry_is ''rule'' (\<lambda>r. rule_jumps_to r (vm_filter_chain n vm)) e"
      "\<forall>e \<in> set rs1. \<not> belongs_to (vm_filter_chain n vm) e \<longrightarrow> e \<in> set rs2"
    by (rule remove_chain_result [OF assms(1) rs1(1) _ _ w1(2)])
  show ?thesis
    using rs2 rs1 by (intro exI [of _ rs2]) blast
qed

definition demo_ruleset :: "json list" where
  "demo_ruleset =
     [JObj [(''chain'', chain_obj ''ip'' ''nat'' ''aleph-vm-nat-vm1'')],
      JObj [(''chain'', chain_obj ''ip'' ''nat'' ''aleph-vm-nat-vm2'')],
      JObj [(''rule'', JObj [(''family'', JStr ''ip''), (''table'', JStr ''nat''), (''chain'', JStr ''aleph-supervisor-nat''),
         (''handle'', JInt 7), (''expr'', JArr (jump_exprs ''aleph-vm-nat-vm1''))])],
      JObj [(''rule'', JObj [(''family'', JStr ''ip''), (''table'', JStr ''nat''), (''chain'', JStr ''aleph-supervisor-nat''),
         (''handle'', JInt 8), (''expr'', JArr (jump_exprs ''aleph-vm-nat-vm2''))])]]"

theorem teardown_vm_exact_witness:
  "\<exists>rs'. execute_list_ruleset mem_nft (snd (teardown_vm mem_nft demo_nft ''vm1'' demo_ruleset)) = Ok rs' \<and>
     JObj [(''chain'', chain_obj ''ip'' ''nat'' ''aleph-vm-nat-vm2'')] \<in> set rs' \<and> length rs' = 2"
proof -
  let ?w' = "snd (teardown_vm mem_nft demo_nft ''vm1'' demo_ruleset)"
  have list: "execute_list_ruleset mem_nft demo_ruleset = Ok demo_ruleset" by code_simp
  have ok: "list_all entry_ok demo_ruleset" by code_simp
  have uniq: "handles_unique demo_ruleset"
    by (simp add: handles_unique_def demo_ruleset_def chain_obj_def)
  have "fst (teardown_vm mem_nft demo_nft ''vm1'' demo_ruleset) = Ok ()" by code_simp
  then have t: "teardown_vm mem_nft demo_nft ''vm1'' demo_ruleset = (Ok (), ?w')" by (metis prod.collapse)
  obtain rs' where rs': "execute_list_ruleset mem_nft ?w' = Ok rs'"
      "\<forall>e \<in> set demo_ruleset. \<not> belongs_to (vm_nat_chain demo_nft ''vm1'') e \<longrightarrow>
         \<not> belongs_to (vm_filter_chain demo_nft ''vm1'') e \<longrightarrow> e \<in> set rs'"
    using teardown_vm_exact [OF mem_nft_delete_law list ok uniq t] by blast
  have "execute_list_ruleset mem_nft ?w' = Ok (drop 3 demo_ruleset)
      \<or> length (case execute_list_ruleset mem_nft ?w' of Inr r \<Rightarrow> r | Inl _ \<Rightarrow> []) = 2" by code_simp
  moreover have "length (drop 3 demo_ruleset) = 1" by (simp add: demo_ruleset_def)
  moreover have "execute_list_ruleset mem_nft ?w' \<noteq> Ok (drop 3 demo_ruleset)" by code_simp
  ultimately have "length rs' = 2" using rs'(1) by simp
  moreover have "JObj [(''chain'', chain_obj ''ip'' ''nat'' ''aleph-vm-nat-vm2'')] \<in> set rs'"
    using rs'(2) by (auto simp: demo_ruleset_def belongs_to_def entry_is_def chain_obj_def demo_nft_def
        nft_manager_new_def vm_nat_chain_def vm_filter_chain_def)
  ultimately show ?thesis using rs'(1) by blast
qed

lemma get_table_of_existing:
  assumes "list_all entry_ok rs" "chain_exists rs f t nm"
  shows "get_table_for_chain rs f nm \<noteq> None"
proof -
  let ?P = "entry_is ''chain'' (\<lambda>c. jget_str c ''family'' = Some f \<and> jget_str c ''name'' = Some nm)"
  have "\<exists>e \<in> set rs. ?P e"
    using assms(2) by (force simp: chain_exists_def list_ex_iff entry_is_def is_chain_def split: option.splits)
  then obtain e where e: "List.find ?P rs = Some e"
    using find_None_iff [of ?P rs] by (cases "List.find ?P rs") auto
  then have "e \<in> set rs" "?P e" by (auto simp: find_Some_iff)
  with assms(1) have "entry_ok e" by (auto simp: list_all_iff)
  with \<open>?P e\<close> obtain c where c: "jget e ''chain'' = Some c" "placed c [''family'', ''table'', ''name'']"
    by (auto simp: entry_is_def elim!: entry_ok.elims(2) split: option.splits if_splits)
  then show ?thesis
    by (auto simp: get_table_for_chain_def e jindex_def placed_def)
qed

lemma designated_dnat:
  assumes "c \<in> set (delete_dnat_commands n rs hp vp proto)" "designates c e" "e \<in> set rs"
    and "list_all entry_ok rs" "handles_unique rs" "e = JObj [(''rule'', r)]"
  shows "is_dnat_rule_matching r (supervisor_prerouting_chain n) hp vp proto"
proof -
  obtain e0 r0 h where e0: "e0 \<in> set rs" "jget e0 ''rule'' = Some r0"
      "is_dnat_rule_matching r0 (supervisor_prerouting_chain n) hp vp proto" "jget r0 ''handle'' = Some h"
    and c: "c = delete_cmd ''rule'' (JObj
       [(''family'', JStr (unwrap_or (as_str (jindex r0 ''family'')) ''ip'')),
        (''table'', JStr (unwrap_or (as_str (jindex r0 ''table'')) '''')),
        (''chain'', JStr (supervisor_prerouting_chain n)), (''handle'', h)])"
    using assms(1) by (auto simp: delete_dnat_commands_def map_filter_simps)
  have ch: "jget_str r0 ''chain'' = Some (supervisor_prerouting_chain n)"
    using e0(3) by (auto simp: is_dnat_rule_matching_def split: if_splits)
  have "entry_ok e0" using assms(4) e0(1) by (simp add: list_all_iff)
  then have p: "placed r0 [''family'', ''table'', ''chain'']"
    using e0(2) by (auto elim!: entry_ok.elims(2) split: if_splits)
  from assms(2,6) c have ext: "extends_obj r (JObj
       [(''family'', JStr (unwrap_or (as_str (jindex r0 ''family'')) ''ip'')),
        (''table'', JStr (unwrap_or (as_str (jindex r0 ''table'')) '''')),
        (''chain'', JStr (supervisor_prerouting_chain n)), (''handle'', h)])"
    by (auto simp: delete_cmd_def)
  have "jget r k = jget r0 k" if "k \<in> {''family'', ''table'', ''chain'', ''handle''}" for k
    using that ext p e0(4) ch by (auto simp: extends_obj_def placed_def jget_str_Some jindex_def)
  then have "e = e0"
    using assms(3,5,6) e0(1,2) unfolding handles_unique_def by auto
  with e0 assms(6) show ?thesis by simp
qed

lemma base_chain_adds: "f \<in> {''ip'', ''ip6''} \<Longrightarrow> list_all well_formed_add (base_chain_commands f t hook ty prio)"
  by (auto simp: base_chain_commands_def add_cmd_def)

lemma find_or_create_grows:
  assumes "nft_add_law E" "execute_list_ruleset E w = Ok rs" "f \<in> {''ip'', ''ip6''}"
    and "find_or_create_table_for_hook E rs0 hook f w = (Ok t, w')" "execute_list_ruleset E w' = Ok rs'"
  shows "set rs \<subseteq> set rs'"
proof (cases "w' = w")
  case False
  then obtain cmds where "execute_nft_commands E cmds w = (Ok (), w')" "list_all well_formed_add cmds"
    using assms(3,4) base_chain_adds
    by (auto simp: find_or_create_table_for_hook_def bindE_Ok split: option.splits prod.splits)
  with assms(1,2,5) have "listing_after_add cmds rs rs'"
    unfolding nft_add_law_def by (metis sum.inject(2))
  then show ?thesis by (rule listing_after_add_D)
qed (use assms in simp)

lemma init_adds:
  "c \<in> set (init_commands n rs nt ft pt) \<Longrightarrow>
     adds_to {supervisor_nat_chain n, supervisor_filter_chain n, supervisor_prerouting_chain n} c"
  "c \<in> set (init_commands6 n rs t6) \<Longrightarrow>
     adds_to {supervisor_nat_chain n, supervisor_filter_chain n, supervisor_prerouting_chain n} c"
proof -
  let ?N = "{supervisor_nat_chain n, supervisor_filter_chain n, supervisor_prerouting_chain n}"
  have N: "supervisor_nat_chain n \<in> ?N" "supervisor_filter_chain n \<in> ?N" "supervisor_prerouting_chain n \<in> ?N"
    by simp_all
  show "c \<in> set (init_commands n rs nt ft pt) \<Longrightarrow> adds_to ?N c"
    unfolding init_commands_def Let_def set_append Un_iff
    using gen_adds_ip(2-) [where names = ?N] gen_adds_ip(1) [OF N(1)] gen_adds_ip(1) [OF N(2)]
      gen_adds_ip(1) [OF N(3)] by meson
  show "c \<in> set (init_commands6 n rs t6) \<Longrightarrow> adds_to ?N c"
    unfolding init_commands6_def Let_def set_append Un_iff
    using gen_adds_ip6(2-) [where names = ?N] gen_adds_ip6(1) [OF N(2)] by meson
qed

text \<open>Initialisation ends with one batch that holds the IPv4 commands of an earlier, smaller listing.\<close>

lemma nft_initialize_batch:
  assumes "nft_add_law E" "nft_initialize E n w = (Ok (), w')"
  obtains rs rs1 nt ft pt cmds w1 where "execute_list_ruleset E w1 = Ok rs1" "set rs \<subseteq> set rs1"
    "set (init_commands n rs nt ft pt) \<subseteq> set cmds" "list_all well_formed_add cmds"
    "execute_nft_commands E cmds w1 = (Ok (), w')"
proof -
  obtain nt ft pt rs wa where a: "execute_list_ruleset E wa = Ok rs"
    and k: "(if nft_ipv6_enabled n then
       bindE (execute_list_ruleset E wa, wa) (\<lambda>ruleset6 w.
       bindE (find_or_create_table_for_hook E ruleset6 ''forward'' ''ip6'' w) (\<lambda>ip6_filter_table w.
       bindE (execute_list_ruleset E w, w) (\<lambda>ruleset6' w.
         execute_nft_commands E (init_commands n rs nt ft pt @ init_commands6 n ruleset6' ip6_filter_table) w)))
     else execute_nft_commands E (init_commands n rs nt ft pt) wa) = (Ok (), w')"
    using assms(2) unfolding nft_initialize_def Let_def by (auto simp: bindE_Ok)
  have wf: "list_all well_formed_add (init_commands n rs nt ft pt)"
    "list_all well_formed_add (init_commands6 n rs6 t6)" for rs6 t6
    using init_adds adds_to_well_formed unfolding list_all_iff by blast+
  show ?thesis
  proof (cases "nft_ipv6_enabled n")
    case True
    then obtain t6 w1 rs6 where b: "find_or_create_table_for_hook E rs ''forward'' ''ip6'' wa = (Ok t6, w1)"
        "execute_list_ruleset E w1 = Ok rs6"
        "execute_nft_commands E (init_commands n rs nt ft pt @ init_commands6 n rs6 t6) w1 = (Ok (), w')"
      using k a by (auto simp: bindE_Ok)
    have "set rs \<subseteq> set rs6"
      by (rule find_or_create_grows [OF assms(1) a _ b(1,2)]) simp
    with b wf that [of w1 rs6 rs nt ft pt "init_commands n rs nt ft pt @ init_commands6 n rs6 t6"]
    show ?thesis by (simp add: list_all_append)
  next
    case False
    with k a wf that [of wa rs rs nt ft pt "init_commands n rs nt ft pt"] show ?thesis by simp
  qed
qed

text \<open>
  Initialisation prepares what \<^verbatim>\<open>setup_vm\<close> relies on. After it succeeds, the three
  supervisor chains exist, the filter chain accepts established connections, and, every
  listed chain naming its table, setting up a VM never fails for want of a supervisor
  chain.
\<close>

theorem nft_initialize_enables_setup:
  assumes "nft_add_law E" "nft_initialize E n w = (Ok (), w')"
  shows "\<exists>rs nt ft pt. execute_list_ruleset E w' = Ok rs \<and>
     chain_exists rs ''ip'' nt (supervisor_nat_chain n) \<and>
     chain_exists rs ''ip'' ft (supervisor_filter_chain n) \<and>
     chain_exists rs ''ip'' pt (supervisor_prerouting_chain n) \<and>
     add_conntrack_if_not_present rs ''ip'' ft (supervisor_filter_chain n) = [] \<and>
     (list_all entry_ok rs \<longrightarrow>
        (\<forall>vm tap c. fst (setup_vm E n vm tap w') \<noteq> Err (SupervisorChainMissing c)))"
proof -
  obtain rs rs1 nt ft pt cmds w1 where b: "execute_list_ruleset E w1 = Ok rs1" "set rs \<subseteq> set rs1"
      "set (init_commands n rs nt ft pt) \<subseteq> set cmds" "list_all well_formed_add cmds"
      "execute_nft_commands E cmds w1 = (Ok (), w')"
    by (rule nft_initialize_batch [OF assms])
  with assms(1) obtain rs' where rs': "execute_list_ruleset E w' = Ok rs'" "listing_after_add cmds rs1 rs'"
    unfolding nft_add_law_def by blast
  note d = listing_after_add_D [OF rs'(2)]
  have sub: "set rs \<subseteq> set rs'" using b(2) d(1) by blast
  have cmds: "c \<in> set cmds" if "c \<in> set (init_commands n rs nt ft pt)" for c
    using that b(3) by blast
  have "add_chain_if_not_present rs' ''ip'' nt (supervisor_nat_chain n) = []"
    "add_chain_if_not_present rs' ''ip'' ft (supervisor_filter_chain n) = []"
    "add_chain_if_not_present rs' ''ip'' pt (supervisor_prerouting_chain n) = []"
    and ct: "add_conntrack_if_not_present rs' ''ip'' ft (supervisor_filter_chain n) = []"
    by (rule chain_gen.gen_idempotent [OF sub] conntrack_gen.gen_idempotent [OF sub],
        rule d(2), rule cmds, simp add: init_commands_def Let_def)+
  then have ex: "chain_exists rs' ''ip'' nt (supervisor_nat_chain n)"
    "chain_exists rs' ''ip'' ft (supervisor_filter_chain n)"
    "chain_exists rs' ''ip'' pt (supervisor_prerouting_chain n)"
    by (simp_all add: chain_gen.gen_Nil_iff chain_exists_def)
  have found: "get_table_for_chain rs' ''ip'' nm \<noteq> None" if "list_all entry_ok rs'" "chain_exists rs' ''ip'' t nm" for t nm
    using that by (rule get_table_of_existing)
  have "\<forall>vm tap c. fst (setup_vm E n vm tap w') \<noteq> Err (SupervisorChainMissing c)" if "list_all entry_ok rs'"
    using found [OF that ex(1)] found [OF that ex(2)] rs'(1)
    by (auto simp: setup_vm_def execute_nft_commands_def split: prod.splits sum.splits if_splits)
  with rs'(1) ex ct show ?thesis by blast
qed

definition demo_hooks :: "json list" where
  "demo_hooks = map (\<lambda>(t, nm, h). JObj [(''chain'', JObj [(''family'', JStr ''ip''), (''table'', JStr t),
       (''name'', JStr nm), (''hook'', JStr h)])])
     [(''nat'', ''POST'', ''postrouting''), (''nat'', ''PRE'', ''prerouting''), (''filter'', ''FWD'', ''forward'')]"

theorem nft_initialize_enables_setup_witness:
  "\<exists>rs nt. execute_list_ruleset mem_nft (snd (nft_initialize mem_nft demo_nft demo_hooks)) = Ok rs \<and>
     chain_exists rs ''ip'' nt ''aleph-supervisor-nat''"
proof -
  have "fst (nft_initialize mem_nft demo_nft demo_hooks) = Ok ()" by code_simp
  then have "nft_initialize mem_nft demo_nft demo_hooks =
      (Ok (), snd (nft_initialize mem_nft demo_nft demo_hooks))" by (metis prod.collapse)
  from nft_initialize_enables_setup [OF mem_nft_add_law this] show ?thesis
    by (auto simp: demo_nft_def nft_manager_new_def supervisor_nat_chain_def)
qed

text \<open>
  Removing a port forward deletes exactly its DNAT rule. In a listing, the entry nft
  shows for the DNAT rule of some forward is designated by the generated deletions if and
  only if host port and protocol are the ones to remove; the accept rule that was added
  with it is never designated, so it stays in the VM's filter chain.
\<close>

theorem remove_port_forward_exact:
  assumes "lists_as ''rule'' (rule_obj ''ip'' t (supervisor_prerouting_chain n)
      [dport_match proto hp, JObj [(''dnat'', JObj [(''addr'', JStr ip), (''port'', JInt (uint vp))])]]) e"
    and "lists_as ''rule'' (rule_obj ''ip'' ft (vm_filter_chain n vm) [dport_match proto vp, accept_expr]) a"
    and "e \<in> set rs" "list_all entry_ok rs" "handles_unique rs"
  shows "((\<exists>c \<in> set (delete_dnat_commands n rs hp' vp' proto'). designates c e) \<longleftrightarrow> hp' = hp \<and> proto' = proto) \<and>
     \<not> (\<exists>c \<in> set (delete_dnat_commands n rs hp' vp' proto'). designates c a)"
proof -
  obtain r where r: "e = JObj [(''rule'', r)]" "jget r ''family'' = Some (JStr ''ip'')" "jget r ''table'' = Some (JStr t)"
      "jget r ''chain'' = Some (JStr (supervisor_prerouting_chain n))"
    using assms(1) by (auto simp: extends_obj_def rule_obj_def elim!: lists_asE)
  have match: "is_dnat_rule_matching r (supervisor_prerouting_chain n) hp' vp' proto' \<longleftrightarrow> hp' = hp \<and> proto' = proto"
    using is_dnat_rule_matching_iff [OF assms(1), of r] r(1) by simp
  have "entry_ok e" using assms(3,4) by (simp add: list_all_iff)
  then obtain h where h: "jget r ''handle'' = Some h" by (auto simp: r(1))
  have "\<not> designates c a" if "c \<in> set (delete_dnat_commands n rs hp' vp' proto')" for c
    using that assms(2)
    by (auto simp: delete_dnat_commands_def map_filter_simps delete_cmd_def extends_obj_def rule_obj_def
        elim!: lists_asE)
  moreover have "(\<exists>c \<in> set (delete_dnat_commands n rs hp' vp' proto'). designates c e) \<longleftrightarrow> hp' = hp \<and> proto' = proto"
  proof
    assume "hp' = hp \<and> proto' = proto"
    with match r h assms(3)
    have "delete_cmd ''rule'' (JObj [(''family'', JStr ''ip''), (''table'', JStr t),
        (''chain'', JStr (supervisor_prerouting_chain n)), (''handle'', h)]) \<in> set (delete_dnat_commands n rs hp' vp' proto')"
      by (force simp: delete_dnat_commands_def map_filter_simps jindex_def)
    then show "\<exists>c \<in> set (delete_dnat_commands n rs hp' vp' proto'). designates c e"
      using r h by (intro bexI) (auto simp: delete_cmd_def extends_obj_def)
  next
    assume "\<exists>c \<in> set (delete_dnat_commands n rs hp' vp' proto'). designates c e"
    then have "is_dnat_rule_matching r (supervisor_prerouting_chain n) hp' vp' proto'"
      using designated_dnat [OF _ _ assms(3-5) r(1)] by blast
    with match show "hp' = hp \<and> proto' = proto" by simp
  qed
  ultimately show ?thesis by blast
qed

definition demo_forward :: json where
  "demo_forward = JObj [(''rule'', JObj [(''family'', JStr ''ip''), (''table'', JStr ''nat''),
     (''chain'', JStr (supervisor_prerouting_chain demo_nft)), (''handle'', JInt 9),
     (''expr'', JArr [dport_match Tcp 8080,
        JObj [(''dnat'', JObj [(''addr'', JStr ''10.0.0.2''), (''port'', JInt (uint (80 :: u16)))])]])])]"

definition demo_accept :: json where
  "demo_accept = JObj [(''rule'', JObj [(''family'', JStr ''ip''), (''table'', JStr ''filter''),
     (''chain'', JStr (vm_filter_chain demo_nft ''vm1'')), (''handle'', JInt 10),
     (''expr'', JArr [dport_match Tcp 80, accept_expr])])]"

theorem remove_port_forward_exact_witness:
  "(\<exists>c \<in> set (delete_dnat_commands demo_nft [demo_forward, demo_accept] 8080 80 Tcp). designates c demo_forward) \<and>
   \<not> (\<exists>c \<in> set (delete_dnat_commands demo_nft [demo_forward, demo_accept] 8080 80 Udp). designates c demo_forward)"
proof -
  have 1: "lists_as ''rule'' (rule_obj ''ip'' ''nat'' (supervisor_prerouting_chain demo_nft)
      [dport_match Tcp 8080, JObj [(''dnat'', JObj [(''addr'', JStr ''10.0.0.2''), (''port'', JInt (uint (80 :: u16)))])]])
      demo_forward"
    by (simp add: demo_forward_def rule_obj_def extends_obj_def)
  have 2: "lists_as ''rule'' (rule_obj ''ip'' ''filter'' (vm_filter_chain demo_nft ''vm1'')
      [dport_match Tcp 80, accept_expr]) demo_accept"
    by (simp add: demo_accept_def rule_obj_def extends_obj_def)
  have ok: "list_all entry_ok [demo_forward, demo_accept]"
    by (simp add: demo_forward_def demo_accept_def placed_def)
  have uniq: "handles_unique [demo_forward, demo_accept]"
    by (simp add: handles_unique_def demo_forward_def demo_accept_def)
  have mem: "demo_forward \<in> set [demo_forward, demo_accept]" by simp
  show ?thesis
    using remove_port_forward_exact [OF 1 2 mem ok uniq, of 8080 80 Tcp]
      remove_port_forward_exact [OF 1 2 mem ok uniq, of 8080 80 Udp] by simp
qed

end
