(* ===== verification/Ipv6_Allocator.thy ===== *)
theory Ipv6_Allocator
  imports Rust_Strings
begin

unbundle bit_operations_syntax

text \<open>
  The IPv6 range allocator (\<^verbatim>\<open>crates/aleph-network/src/ipv6/range_allocator.rs\<close>). The
  network type and the random numbers come from the \<^verbatim>\<open>ipnet\<close> and \<^verbatim>\<open>rand\<close> crates:
  their functions are the fields of \<open>ipv6_lib\<close>, an argument of the operations, and what
  the allocator relies on is \<open>ipv6_lib_ok\<close> (a network starts no later than it ends; a
  draw from a non-empty range lies in it). Both crates panic where their documentation
  says so; a panic is an error value of its own.
\<close>

record ipv6net =
  addr :: u128
  prefix_len :: u8

record ipv6_lib =
  network :: "ipv6net \<Rightarrow> u128"
  broadcast :: "ipv6net \<Rightarrow> u128"
  net_new :: "u128 \<Rightarrow> u8 \<Rightarrow> ipv6net option"
  random_range :: "nat \<Rightarrow> u64 \<Rightarrow> u64 \<Rightarrow> u64"

definition ipv6_lib_ok :: "ipv6_lib \<Rightarrow> bool" where
  "ipv6_lib_ok L \<longleftrightarrow> (\<forall>n. network L n \<le> broadcast L n) \<and>
     (\<forall>i lo hi. lo < hi \<longrightarrow> lo \<le> random_range L i lo hi \<and> random_range L i lo hi < hi)"

datatype alloc6_error =
    NotInPool ipv6net ipv6net
  | OverlapsExisting ipv6net
  | InvalidPrefix
  | NoFreeAddress ipv6net
  | Panic6 string

record ipv6_alloc =
  pool :: ipv6net
  default_prefix :: u8
  allocations :: "(string, ipv6net) hmap"

definition alloc6_new :: "ipv6net \<Rightarrow> u8 \<Rightarrow> ipv6_alloc" where
  "alloc6_new p dp = \<lparr>pool = p, default_prefix = dp, allocations = hm_empty\<rparr>"

definition contains6 :: "ipv6_lib \<Rightarrow> ipv6_alloc \<Rightarrow> ipv6net \<Rightarrow> bool" where
  "contains6 L s net =
     (let pool_start = network L (pool s);
          pool_end = broadcast L (pool s);
          net_start = network L net;
          net_end = broadcast L net
      in net_start \<ge> pool_start \<and> net_end \<le> pool_end)"

definition overlaps6 :: "ipv6_lib \<Rightarrow> ipv6_alloc \<Rightarrow> ipv6net \<Rightarrow> bool" where
  "overlaps6 L s net =
     (let net_start = network L net;
          net_end = broadcast L net
      in list_ex (\<lambda>existing.
           let ex_start = network L existing; ex_end = broadcast L existing
           in net_start \<le> ex_end \<and> net_end \<ge> ex_start) (hm_values (allocations s)))"

text \<open>
  One attempt of the search draws an offset between 1 and the number of host addresses
  (or the largest \<^verbatim>\<open>u64\<close>); the loop makes at most 100 of them. The number of host
  bits is \<^verbatim>\<open>128 - prefix_len\<close>: with no host bit the range \<^verbatim>\<open>1..1\<close> is empty and the
  draw panics, and with 128 of them the shift \<^verbatim>\<open>1u128 << 128\<close> overflows. The generator is a parameter, its
  draws given by the number of the attempt and the bounds; no property says anything of their values.
\<close>

definition random_offset :: "ipv6_lib \<Rightarrow> nat \<Rightarrow> u128 \<Rightarrow> (alloc6_error, u128) result" where
  "random_offset L i host_count =
     (let hi = (if host_count \<le> 0xFFFFFFFFFFFFFFFF then ucast host_count
                else 0xFFFFFFFFFFFFFFFF :: u64)
      in if 1 < hi then Ok (ucast (random_range L i 1 hi)) else Err (Panic6 ''empty range''))"

fun try_addresses :: "ipv6_lib \<Rightarrow> ipv6_alloc \<Rightarrow> u128 \<Rightarrow> u128 \<Rightarrow> nat \<Rightarrow> nat \<Rightarrow> (alloc6_error, ipv6net) result" where
  "try_addresses L s pool_start host_count i 0 = Err (NoFreeAddress (pool s))"
| "try_addresses L s pool_start host_count i (Suc left) =
     and_then (random_offset L i host_count) (\<lambda>offset.
       and_then (ok_or (net_new L (pool_start + offset) (default_prefix s)) InvalidPrefix) (\<lambda>net.
         if contains6 L s net \<and> \<not> overlaps6 L s net then Ok net
         else try_addresses L s pool_start host_count (Suc i) left))"

definition random_address :: "ipv6_lib \<Rightarrow> ipv6_alloc \<Rightarrow> (alloc6_error, ipv6net) result" where
  "random_address L s =
     (let pool_start = network L (pool s);
          host_bits = 128 - prefix_len (pool s)
      in if host_bits \<ge> 128 then Err (Panic6 ''shift overflow'')
         else try_addresses L s pool_start (push_bit (unat host_bits) 1) 0 100)"

definition allocate6 ::
  "ipv6_lib \<Rightarrow> ipv6_alloc \<Rightarrow> string \<Rightarrow> ipv6net option \<Rightarrow> (alloc6_error, ipv6net) result \<times> ipv6_alloc" where
  "allocate6 L s vm_id requested =
     (let choice =
        (case requested of
           Some net \<Rightarrow>
             if \<not> contains6 L s net then Err (NotInPool net (pool s))
             else if overlaps6 L s net then Err (OverlapsExisting net)
             else Ok net
         | None \<Rightarrow> random_address L s)
      in case choice of
           Inl e \<Rightarrow> (Err e, s)
         | Inr net \<Rightarrow> (Ok net, s\<lparr>allocations := hm_insert vm_id net (allocations s)\<rparr>))"

definition release6 :: "ipv6_alloc \<Rightarrow> string \<Rightarrow> ipv6net option \<times> ipv6_alloc" where
  "release6 s vm_id =
     (hm_get (allocations s) vm_id, s\<lparr>allocations := hm_remove vm_id (allocations s)\<rparr>)"

text \<open>The calls a client can make, and the state after a sequence of them.\<close>

datatype alloc6_call = Allocate6 string "ipv6net option" | Release6 string

fun alloc6_step :: "ipv6_lib \<Rightarrow> ipv6_alloc \<Rightarrow> alloc6_call \<Rightarrow> ipv6_alloc" where
  "alloc6_step L s (Allocate6 vm_id requested) = snd (allocate6 L s vm_id requested)"
| "alloc6_step L s (Release6 vm_id) = snd (release6 s vm_id)"

section \<open>The invariant: within the pool, pairwise disjoint\<close>

text \<open>Two networks conflict when they share an address.\<close>

definition conflict6 :: "ipv6_lib \<Rightarrow> ipv6net \<Rightarrow> ipv6net \<Rightarrow> bool" where
  "conflict6 L a b \<longleftrightarrow> network L a \<le> broadcast L b \<and> network L b \<le> broadcast L a"

definition alloc6_held :: "ipv6_alloc \<Rightarrow> string \<Rightarrow> ipv6net option" where
  "alloc6_held s vm_id = hm_get (allocations s) vm_id"

definition alloc6_inv :: "ipv6_lib \<Rightarrow> ipv6_alloc \<Rightarrow> bool" where
  "alloc6_inv L s \<longleftrightarrow> hm_wf (allocations s) \<and>
     (\<forall>vm n. alloc6_held s vm = Some n \<longrightarrow> contains6 L s n) \<and>
     (\<forall>vm vm' n n'. alloc6_held s vm = Some n \<and> alloc6_held s vm' = Some n' \<and> vm \<noteq> vm'
        \<longrightarrow> \<not> conflict6 L n n')"

definition grant6 :: "ipv6_alloc \<Rightarrow> string \<Rightarrow> ipv6net \<Rightarrow> ipv6_alloc" where
  "grant6 s vm_id net = s\<lparr>allocations := hm_insert vm_id net (allocations s)\<rparr>"

definition grantable6 :: "ipv6_lib \<Rightarrow> ipv6_alloc \<Rightarrow> ipv6net \<Rightarrow> bool" where
  "grantable6 L s net \<longleftrightarrow> contains6 L s net \<and> \<not> overlaps6 L s net"

text \<open>Sharing an address is what the interval test decides.\<close>

lemma conflict6_shared_address:
  assumes "ipv6_lib_ok L"
  shows "conflict6 L a b \<longleftrightarrow>
    (\<exists>x. network L a \<le> x \<and> x \<le> broadcast L a \<and> network L b \<le> x \<and> x \<le> broadcast L b)"
proof
  assume c: "conflict6 L a b"
  have "network L a \<le> broadcast L a" "network L b \<le> broadcast L b"
    using assms by (auto simp: ipv6_lib_ok_def)
  with c show "\<exists>x. network L a \<le> x \<and> x \<le> broadcast L a \<and> network L b \<le> x \<and> x \<le> broadcast L b"
    by (intro exI [of _ "max (network L a) (network L b)"]) (auto simp: conflict6_def)
qed (auto simp: conflict6_def intro: order_trans)

lemma conflict6_sym: "conflict6 L a b \<longleftrightarrow> conflict6 L b a"
  by (auto simp: conflict6_def)

lemma overlaps6_held:
  "hm_wf (allocations s) \<Longrightarrow>
   overlaps6 L s net \<longleftrightarrow> (\<exists>vm n. alloc6_held s vm = Some n \<and> conflict6 L net n)"
  by (auto simp: overlaps6_def Let_def list_ex_iff Bex_def hm_values_get alloc6_held_def conflict6_def)

lemma contains6_grant [simp]: "contains6 L (grant6 s vm r) n = contains6 L s n"
  by (simp add: contains6_def grant6_def)

lemma contains6_release [simp]: "contains6 L (snd (release6 s vm)) n = contains6 L s n"
  by (simp add: contains6_def release6_def)

lemma alloc6_held_grant: "alloc6_held (grant6 s a r) b = (if b = a then Some r else alloc6_held s b)"
  by (simp add: alloc6_held_def grant6_def)

lemma alloc6_held_release:
  "alloc6_held (snd (release6 s a)) b = (if b = a then None else alloc6_held s b)"
  by (simp add: alloc6_held_def release6_def)

lemma alloc6_wf_ops [simp]:
  "hm_wf (allocations s) \<Longrightarrow> hm_wf (allocations (grant6 s a r))"
  "hm_wf (allocations s) \<Longrightarrow> hm_wf (allocations (snd (release6 s a)))"
  by (auto simp: grant6_def release6_def)

lemma alloc6_inv_grant [inv_intros]:
  "alloc6_inv L s \<Longrightarrow> grantable6 L s r \<Longrightarrow> alloc6_inv L (grant6 s a r)"
  unfolding alloc6_inv_def grantable6_def
  by (auto simp: alloc6_held_grant overlaps6_held conflict6_sym [of L r])

lemma alloc6_inv_release [inv_intros]: "alloc6_inv L s \<Longrightarrow> alloc6_inv L (snd (release6 s a))"
  unfolding alloc6_inv_def by (auto simp: alloc6_held_release)

interpretation ipv6: exclusive_pool
  "alloc6_inv L" alloc6_held "conflict6 L" grant6 "\<lambda>s a. snd (release6 s a)" "grantable6 L" for L
proof (unfold_locales, goal_cases)
  case (1 s a r b q)
  then show ?case by (auto simp: alloc6_inv_def)
next
  case (6 s r a q)
  then show ?case by (auto simp: alloc6_inv_def grantable6_def overlaps6_held)
next
  case (7 s r a)
  then show ?case
    by (auto simp: alloc6_inv_def grantable6_def overlaps6_held alloc6_held_release split: if_splits)
qed (auto simp: alloc6_held_grant alloc6_held_release intro: inv_intros)

section \<open>The operations follow the contract\<close>

lemma try_addresses_Ok:
  "try_addresses L s ps hc i k = Ok net \<Longrightarrow> grantable6 L s net"
  by (induction L s ps hc i k rule: try_addresses.induct)
     (auto simp: and_then_Ok grantable6_def split: if_splits)

lemma random_address_Ok: "random_address L s = Ok net \<Longrightarrow> grantable6 L s net"
  by (auto simp: random_address_def Let_def split: if_splits intro: try_addresses_Ok)

lemma allocate6_Ok:
  assumes "allocate6 L s vm req = (Ok net, s')"
  shows "grantable6 L s net" "s' = grant6 s vm net" "req \<noteq> None \<Longrightarrow> req = Some net"
  using assms
  by (auto simp: allocate6_def Let_def grant6_def grantable6_def
      split: option.splits sum.splits if_splits dest: random_address_Ok [unfolded grantable6_def])

lemma allocate6_Err: "allocate6 L s vm req = (Err e, s') \<Longrightarrow> s' = s"
  by (auto simp: allocate6_def Let_def split: sum.splits)

lemma allocate6_cases:
  obtains (Ok) net where "allocate6 L s vm req = (Ok net, grant6 s vm net)" "grantable6 L s net"
  | (Err) e where "allocate6 L s vm req = (Err e, s)"
proof (cases "allocate6 L s vm req")
  case (Pair r s')
  then show ?thesis
    by (cases r) (use that allocate6_Ok allocate6_Err in metis)+
qed

lemma allocate6_run: "ipv6.run L s t \<Longrightarrow> ipv6.run L s (snd (allocate6 L t vm req))"
  by (cases rule: allocate6_cases [of L t vm req]) (auto intro: ipv6.run.intros)

lemma alloc6_step_inv [inv_intros]: "alloc6_inv L s \<Longrightarrow> alloc6_inv L (alloc6_step L s c)"
proof (cases c)
  case (Allocate6 vm req)
  assume "alloc6_inv L s"
  then show ?thesis
    by (cases rule: allocate6_cases [of L s vm req]) (auto simp: Allocate6 intro: inv_intros)
qed (auto intro: inv_intros)

interpretation alloc6_calls: request_system "alloc6_step L" "alloc6_inv L" for L
  by unfold_locales (rule alloc6_step_inv)

lemma alloc6_inv_new [simp]: "alloc6_inv L (alloc6_new p dp)"
  by (simp add: alloc6_inv_def alloc6_new_def alloc6_held_def)

lemma allocate6_requested:
  "hm_wf (allocations s) \<Longrightarrow>
   fst (allocate6 L s vm (Some net)) = Ok n \<longleftrightarrow>
     n = net \<and> contains6 L s net \<and> (\<forall>vm' n'. alloc6_held s vm' = Some n' \<longrightarrow> \<not> conflict6 L net n')"
  by (auto simp: allocate6_def Let_def overlaps6_held)

text \<open>The address arithmetic of prefixes, as one instance of the library functions.\<close>

definition prefix_lib :: ipv6_lib where
  "prefix_lib = \<lparr>
     network = (\<lambda>n. addr n AND NOT (mask (128 - unat (prefix_len n)))),
     broadcast = (\<lambda>n. addr n OR mask (128 - unat (prefix_len n))),
     net_new = (\<lambda>a p. if p \<le> 128 then Some \<lparr>addr = a, prefix_len = p\<rparr> else None),
     random_range = (\<lambda>i lo hi. lo)\<rparr>"

lemma prefix_lib_ok: "ipv6_lib_ok prefix_lib"
proof -
  have "a AND NOT m \<le> a OR m" for a m :: u128
    by (meson le_word_or2 order_trans word_and_le2)
  then show ?thesis by (simp add: ipv6_lib_ok_def prefix_lib_def)
qed

section \<open>Properties\<close>

text \<open>
  C9: whatever sequence of allocations and releases a fresh allocator has served, every
  range it holds lies inside the pool and no address belongs to the ranges of two
  different VMs.
\<close>

theorem alloc6_ranges_disjoint:
  assumes "ipv6_lib_ok L" and "s = foldl (alloc6_step L) (alloc6_new p dp) calls"
    and "alloc6_held s vm = Some n"
  shows "contains6 L s n \<and>
    (\<forall>vm' n' x. vm' \<noteq> vm \<and> alloc6_held s vm' = Some n' \<and> network L n \<le> x \<and> x \<le> broadcast L n
       \<longrightarrow> \<not> (network L n' \<le> x \<and> x \<le> broadcast L n'))"
proof -
  have inv: "alloc6_inv L s"
    unfolding assms(2) by (rule alloc6_calls.run_inv) simp
  then have "contains6 L s n" using assms(3) by (auto simp: alloc6_inv_def)
  moreover have "\<not> conflict6 L n n'" if "vm' \<noteq> vm" "alloc6_held s vm' = Some n'" for vm' n'
    using ipv6.exclusive [OF inv assms(3) that(2)] that(1) by metis
  ultimately show ?thesis
    using conflict6_shared_address [OF assms(1)] by blast
qed

theorem alloc6_ranges_disjoint_witness:
  "let p = \<lparr>addr = 0x20010db8000000000000000000000000, prefix_len = 48\<rparr>;
       n = \<lparr>addr = 0x20010db8000000000000000000000001, prefix_len = 128\<rparr>;
       s = foldl (alloc6_step prefix_lib) (alloc6_new p 128) [Allocate6 ''vm-1'' (Some n)]
   in alloc6_held s ''vm-1'' = Some n \<and> contains6 prefix_lib s n"
proof -
  let ?p = "\<lparr>addr = 0x20010db8000000000000000000000000, prefix_len = 48\<rparr> :: ipv6net"
  let ?n = "\<lparr>addr = 0x20010db8000000000000000000000001, prefix_len = 128\<rparr> :: ipv6net"
  let ?s = "foldl (alloc6_step prefix_lib) (alloc6_new ?p 128) [Allocate6 ''vm-1'' (Some ?n)]"
  have held: "alloc6_held ?s ''vm-1'' = Some ?n"
    by code_simp
  from alloc6_ranges_disjoint [OF prefix_lib_ok refl held] held show ?thesis
    by (simp add: Let_def)
qed

text \<open>
  A requested range is granted exactly when it lies in the pool and shares no address
  with a range in use; the grant is the requested range, it is what the VM then holds,
  other VMs keep theirs, and a refused request changes nothing.
\<close>

theorem allocate6_requested_exact:
  assumes "ipv6_lib_ok L" and "alloc6_inv L s"
  shows "case allocate6 L s vm (Some net) of
      (Inr n, s') \<Rightarrow> n = net \<and> contains6 L s net
        \<and> (\<forall>vm' n' x. alloc6_held s vm' = Some n' \<and> network L net \<le> x \<and> x \<le> broadcast L net
             \<longrightarrow> \<not> (network L n' \<le> x \<and> x \<le> broadcast L n'))
        \<and> alloc6_held s' = (alloc6_held s)(vm \<mapsto> net)
    | (Inl e, s') \<Rightarrow> s' = s \<and>
        (\<not> contains6 L s net \<or> (\<exists>vm' n'. alloc6_held s vm' = Some n' \<and> conflict6 L net n'))"
proof -
  have wf: "hm_wf (allocations s)" using assms(2) by (simp add: alloc6_inv_def)
  note req = allocate6_requested [OF wf, of L vm net]
  show ?thesis
  proof (cases rule: allocate6_cases [of L s vm "Some net"])
    case (Ok n)
    have held: "alloc6_held (grant6 s vm n) = (alloc6_held s)(vm \<mapsto> n)"
      by (auto simp: alloc6_held_grant)
    from req [of n] Ok(1) have "n = net \<and> contains6 L s net \<and>
        (\<forall>vm' n'. alloc6_held s vm' = Some n' \<longrightarrow> \<not> conflict6 L net n')" by simp
    then show ?thesis
      using Ok(1) held by (auto simp: conflict6_shared_address [OF assms(1)])
  next
    case (Err e)
    then have "fst (allocate6 L s vm (Some net)) \<noteq> Ok net" by simp
    with req [of net] Err show ?thesis by auto
  qed
qed

theorem allocate6_requested_exact_witness:
  "let p = \<lparr>addr = 0x20010db8000000000000000000000000, prefix_len = 48\<rparr>;
       n = \<lparr>addr = 0x20010db9000000000000000000000001, prefix_len = 128\<rparr>
   in snd (allocate6 prefix_lib (alloc6_new p 128) ''vm-1'' (Some n)) = alloc6_new p 128
      \<and> \<not> contains6 prefix_lib (alloc6_new p 128) n"
proof -
  let ?p = "\<lparr>addr = 0x20010db8000000000000000000000000, prefix_len = 48\<rparr> :: ipv6net"
  let ?n = "\<lparr>addr = 0x20010db9000000000000000000000001, prefix_len = 128\<rparr> :: ipv6net"
  have inv: "alloc6_inv prefix_lib (alloc6_new ?p 128)" by simp
  have "\<not> contains6 prefix_lib (alloc6_new ?p 128) ?n" by code_simp
  with allocate6_requested_exact [OF prefix_lib_ok inv, of ?n "''vm-1''"]
  show ?thesis by (auto simp: Let_def split: prod.splits sum.splits)
qed

text \<open>
  A pool of a single address (a /128) cannot serve a request without a requested
  range: whatever the library draws, the allocation panics on the empty range of offsets
  and the allocator's state stays as it was.
\<close>

theorem allocate6_single_address_pool_panics:
  assumes "prefix_len (pool s) = 128"
  shows "allocate6 L s vm None = (Err (Panic6 ''empty range''), s)"
proof -
  have hundred: "(100 :: nat) = Suc 99" by simp
  have "try_addresses L s ps 1 0 100 = Err (Panic6 ''empty range'')" for ps
    unfolding hundred by (simp only: try_addresses.simps) (simp add: random_offset_def)
  then show ?thesis
    using assms by (simp add: allocate6_def random_address_def Let_def)
qed

theorem allocate6_single_address_pool_panics_witness:
  "fst (allocate6 prefix_lib (alloc6_new \<lparr>addr = 1, prefix_len = 128\<rparr> 128) ''vm-1'' None)
     = Err (Panic6 ''empty range'')"
  by (subst allocate6_single_address_pool_panics) (simp_all add: alloc6_new_def)

end
