(* ===== verification/Host.thy ===== *)
theory Host
  imports Filesystem Nftables Ipv6_Allocator
begin

text \<open>
  The host a compute node acts on, and the operations that act on it directly:
  \<^verbatim>\<open>bridge.rs\<close> and \<^verbatim>\<open>ndp_proxy.rs\<close> of \<^verbatim>\<open>crates/aleph-network/src\<close>, \<^verbatim>\<open>network/tap.rs\<close> and
  \<^verbatim>\<open>systemd.rs\<close> of \<^verbatim>\<open>crates/aleph-compute-node/src\<close>. Other programs (\<^verbatim>\<open>ip\<close>, \<^verbatim>\<open>systemctl\<close>,
  \<^verbatim>\<open>systemd-run\<close>, \<^verbatim>\<open>veritysetup\<close>, \<^verbatim>\<open>nft\<close>) are parameters: \<open>h_run\<close> gives the outcome of running
  a program (it may fail to start; otherwise its exit status, standard output and standard
  error) and the host after it. The state those programs keep is a type variable.
\<close>

record 'x host =
  h_io :: io_env
  h_nft :: "'x nft_env"
  h_run :: "string \<Rightarrow> string list \<Rightarrow> 'x world \<Rightarrow> (string, bool \<times> string \<times> string) result \<times> 'x world"
  h_now :: "'x world \<Rightarrow> u64"

datatype host_error =
    ExecFailed string string
  | CommandFailed string "string list" string
  | FileFailed string io_error
  | NftError nft_error

section \<open>Bridge and TAP devices\<close>

definition run_ip :: "'x host \<Rightarrow> string list \<Rightarrow> 'x world \<Rightarrow> (host_error, unit) result \<times> 'x world" where
  "run_ip H args w =
     (case h_run H ''ip'' args w of
        (Inl e, w') \<Rightarrow> (Err (ExecFailed ''ip'' e), w')
      | (Inr (ok, out, stderr), w') \<Rightarrow>
          if ok then (Ok (), w') else (Err (CommandFailed ''ip'' args (trim stderr)), w'))"

definition ensure_bridge ::
  "'x host \<Rightarrow> string \<Rightarrow> ipv4 \<Rightarrow> u8 \<Rightarrow> 'x world \<Rightarrow> (host_error, unit) result \<times> 'x world" where
  "ensure_bridge H bridge ip plen w =
     (let w1 = ignore (run_ip H [''link'', ''add'', bridge, ''type'', ''bridge''] w);
          addr = show_ipv4 ip @ ''/'' @ show_word plen;
          w2 = ignore (run_ip H [''addr'', ''add'', addr, ''dev'', bridge] w1)
      in run_ip H [''link'', ''set'', bridge, ''up''] w2)"

definition mac_for_vm_ip :: "ipv4 \<Rightarrow> string" where
  "mac_for_vm_ip ip = (case ip of (a, b, c, d) \<Rightarrow>
     ''52:54:00:'' @ hex2 b @ '':'' @ hex2 c @ '':'' @ hex2 d)"

definition ipv4_to_u32 :: "ipv4 \<Rightarrow> u32" where
  "ipv4_to_u32 ip = (case ip of (a, b, c, d) \<Rightarrow>
     ucast a * 0x1000000 + ucast b * 0x10000 + ucast c * 0x100 + ucast d)"

definition u32_to_ipv4 :: "u32 \<Rightarrow> ipv4" where
  "u32_to_ipv4 n =
     (ucast (n div 0x1000000), ucast (n div 0x10000), ucast (n div 0x100), ucast n)"

definition last_octet :: "ipv4 \<Rightarrow> u8" where
  "last_octet ip = (case ip of (a, b, c, d) \<Rightarrow> d)"

definition allocate_vm_ip :: "ipv4 \<Rightarrow> u8 \<Rightarrow> ipv4" where
  "allocate_vm_ip gateway_ip offset = u32_to_ipv4 (ipv4_to_u32 gateway_ip + ucast offset)"

definition write_dhcp_reservation ::
  "'x host \<Rightarrow> path \<Rightarrow> string \<Rightarrow> string \<Rightarrow> ipv4 \<Rightarrow> 'x world \<Rightarrow> (host_error, unit) result \<times> 'x world" where
  "write_dhcp_reservation H hostsdir vm_id mac ip w =
     (let p = path_join hostsdir vm_id;
          content = mac @ '','' @ show_ipv4 ip @ [CHR 0x0A]
      in on_fs (FileFailed p) (fs_write (h_io H) p content) w)"

definition remove_dhcp_reservation :: "'x host \<Rightarrow> path \<Rightarrow> string \<Rightarrow> 'x world \<Rightarrow> 'x world" where
  "remove_dhcp_reservation H hostsdir vm_id w =
     (let p = path_join hostsdir vm_id in ignore (on_fs (FileFailed p) (remove_file (h_io H) p) w))"

definition create_tap ::
  "'x host \<Rightarrow> string \<Rightarrow> string \<Rightarrow> 'x world \<Rightarrow> (host_error, unit) result \<times> 'x world" where
  "create_tap H tap_name bridge w =
     bindE (run_ip H [''tuntap'', ''add'', ''dev'', tap_name, ''mode'', ''tap''] w) (\<lambda>_ w.
     bindE (run_ip H [''link'', ''set'', tap_name, ''up''] w) (\<lambda>_ w.
     run_ip H [''link'', ''set'', tap_name, ''master'', bridge] w))"

definition delete_tap :: "'x host \<Rightarrow> string \<Rightarrow> 'x world \<Rightarrow> (host_error, unit) result \<times> 'x world" where
  "delete_tap H tap_name w = run_ip H [''link'', ''delete'', tap_name] w"

text \<open>
  Printing IPv6 addresses and networks is the standard library's and ipnet's
  (\<^verbatim>\<open>Display\<close>): parameters where the text is used.
\<close>

record ipv6_text =
  show_ipv6 :: "u128 \<Rightarrow> string"
  parse_ipv6 :: "string \<Rightarrow> u128 option"

definition show_ipv6net :: "ipv6_text \<Rightarrow> ipv6net \<Rightarrow> string" where
  "show_ipv6net X n = show_ipv6 X (addr n) @ ''/'' @ show_word (prefix_len n)"

definition add_ipv6_to_tap ::
  "'x host \<Rightarrow> ipv6_text \<Rightarrow> string \<Rightarrow> ipv6net \<Rightarrow> 'x world \<Rightarrow> (host_error, unit) result \<times> 'x world" where
  "add_ipv6_to_tap H X tap_name ipv6 w =
     run_ip H [''addr'', ''add'', show_ipv6 X (addr ipv6) @ ''/'' @ show_word (prefix_len ipv6),
       ''dev'', tap_name] w"

definition write_dhcpv6_reservation ::
  "'x host \<Rightarrow> ipv6_text \<Rightarrow> path \<Rightarrow> string \<Rightarrow> string \<Rightarrow> u128 \<Rightarrow> 'x world \<Rightarrow> (host_error, unit) result \<times> 'x world" where
  "write_dhcpv6_reservation H X hostsdir vm_id mac ipv6 w =
     (let p = path_join hostsdir (vm_id @ ''.v6'');
          content = mac @ '',id:*,['' @ show_ipv6 X ipv6 @ '']'' @ [CHR 0x0A]
      in on_fs (FileFailed p) (fs_write (h_io H) p content) w)"

definition remove_dhcpv6_reservation :: "'x host \<Rightarrow> path \<Rightarrow> string \<Rightarrow> 'x world \<Rightarrow> 'x world" where
  "remove_dhcpv6_reservation H hostsdir vm_id w =
     (let p = path_join hostsdir (vm_id @ ''.v6'') in ignore (on_fs (FileFailed p) (remove_file (h_io H) p) w))"

section \<open>The NDP proxy\<close>

record ndp_proxy =
  ndp_host_interface :: string
  ndp_ranges :: "(string, ipv6net) hmap"

definition ndp_new :: "string \<Rightarrow> ndp_proxy" where
  "ndp_new host_interface = \<lparr>ndp_host_interface = host_interface, ndp_ranges = hm_empty\<rparr>"

definition ndp_config :: "ipv6_text \<Rightarrow> ndp_proxy \<Rightarrow> string" where
  "ndp_config X n =
     ''proxy '' @ ndp_host_interface n @ '' {'' @ [CHR 0x0A] @
     concat (map (\<lambda>(tap_name, rng).
       ''    rule '' @ show_ipv6net X rng @ '' {'' @ [CHR 0x0A] @ ''        iface '' @ tap_name @ [CHR 0x0A] @
       ''    }'' @ [CHR 0x0A]) (ndp_ranges n)) @
     ''}'' @ [CHR 0x0A]"

definition ndp_update_config :: "'x host \<Rightarrow> ipv6_text \<Rightarrow> ndp_proxy \<Rightarrow> 'x world \<Rightarrow> 'x world" where
  "ndp_update_config H X n w =
     (case on_fs (FileFailed ''/etc/ndppd.conf'') (fs_write (h_io H) ''/etc/ndppd.conf'' (ndp_config X n)) w of
        (Inl e, w') \<Rightarrow> w'
      | (Inr _, w') \<Rightarrow> snd (h_run H ''systemctl'' [''restart'', ''ndppd''] w'))"

definition ndp_add_range ::
  "'x host \<Rightarrow> ipv6_text \<Rightarrow> ndp_proxy \<Rightarrow> string \<Rightarrow> ipv6net \<Rightarrow> 'x world \<Rightarrow> ndp_proxy \<times> 'x world" where
  "ndp_add_range H X n tap_name rng w =
     (let n' = n\<lparr>ndp_ranges := hm_insert tap_name rng (ndp_ranges n)\<rparr>
      in (n', ndp_update_config H X n' w))"

definition ndp_delete_range ::
  "'x host \<Rightarrow> ipv6_text \<Rightarrow> ndp_proxy \<Rightarrow> string \<Rightarrow> 'x world \<Rightarrow> ndp_proxy \<times> 'x world" where
  "ndp_delete_range H X n tap_name w =
     (let n' = n\<lparr>ndp_ranges := hm_remove tap_name (ndp_ranges n)\<rparr>
      in (n', ndp_update_config H X n' w))"

section \<open>systemd units\<close>

definition unit_name :: "string \<Rightarrow> string" where
  "unit_name vm_id = ''aleph-cvm-vm-'' @ vm_id @ ''.service''"

datatype spawn_error = EmptyArgs | NoParent | SpawnHost host_error

definition unit_properties :: "string \<Rightarrow> path \<Rightarrow> path list \<Rightarrow> string option \<Rightarrow> bool \<Rightarrow> string list" where
  "unit_properties vm_id run_dir rw_dirs numa_cpuset needs_sev_devices =
     [''Type=simple'', ''Restart=on-failure'', ''RestartSec=5s'', ''KillMode=mixed'', ''TimeoutStopSec=30'',
      ''SyslogIdentifier='' @ unit_name vm_id, ''StandardOutput=journal'', ''StandardError=journal'',
      ''NoNewPrivileges=true'', ''ProtectSystem=strict'',
      ''ReadWritePaths='' @ join_with '' '' (run_dir # rw_dirs),
      ''ProtectHome=true'', ''ProtectKernelTunables=true'', ''ProtectKernelModules=true'',
      ''ProtectControlGroups=true'', ''DevicePolicy=closed'', ''DeviceAllow=/dev/kvm rw'',
      ''DeviceAllow=/dev/null rw'', ''DeviceAllow=/dev/urandom r'', ''DeviceAllow=/dev/net/tun rw''] @
     (if needs_sev_devices then [''DeviceAllow=/dev/sev-guest rw'', ''DeviceAllow=/dev/sev rw''] else []) @
     (case numa_cpuset of Some cpuset \<Rightarrow> [''AllowedCPUs='' @ cpuset] | None \<Rightarrow> [])"

definition unit_command ::
  "string \<Rightarrow> string \<Rightarrow> string list \<Rightarrow> path \<Rightarrow> path list \<Rightarrow> string option \<Rightarrow> bool \<Rightarrow> string list" where
  "unit_command vm_id program args run_dir rw_dirs numa_cpuset needs_sev_devices =
     [''--unit'', unit_name vm_id] @
     concat (map (\<lambda>p. [''--property'', p]) (unit_properties vm_id run_dir rw_dirs numa_cpuset needs_sev_devices)) @
     [''--'', program] @ args"

definition start_vm_unit ::
  "'x host \<Rightarrow> string \<Rightarrow> string list \<Rightarrow> path \<Rightarrow> path list \<Rightarrow> string option \<Rightarrow> bool \<Rightarrow> 'x world \<Rightarrow>
   (spawn_error, unit) result \<times> 'x world" where
  "start_vm_unit H vm_id qemu_args run_dir rw_dirs numa_cpuset needs_sev_devices w =
     (case qemu_args of
        [] \<Rightarrow> (Err EmptyArgs, w)
      | program # args \<Rightarrow>
          (let cmd = unit_command vm_id program args run_dir rw_dirs numa_cpuset needs_sev_devices
           in case h_run H ''systemd-run'' cmd w of
                (Inl e, w') \<Rightarrow> (Err (SpawnHost (ExecFailed ''systemd-run'' e)), w')
              | (Inr (ok, out, stderr), w') \<Rightarrow>
                  if ok then (Ok (), w')
                  else (Err (SpawnHost (CommandFailed ''systemd-run'' [unit_name vm_id] stderr)), w')))"

definition stop_vm_unit :: "'x host \<Rightarrow> string \<Rightarrow> 'x world \<Rightarrow> (host_error, unit) result \<times> 'x world" where
  "stop_vm_unit H vm_id w =
     (case h_run H ''systemctl'' [''stop'', unit_name vm_id] w of
        (Inl e, w') \<Rightarrow> (Err (ExecFailed ''systemctl'' e), w')
      | (Inr _, w') \<Rightarrow> (Ok (), w'))"

definition is_unit_active :: "'x host \<Rightarrow> string \<Rightarrow> 'x world \<Rightarrow> bool \<times> 'x world" where
  "is_unit_active H vm_id w =
     (case h_run H ''systemctl'' [''is-active'', ''--quiet'', unit_name vm_id] w of
        (Inl e, w') \<Rightarrow> (False, w')
      | (Inr (ok, _), w') \<Rightarrow> (ok, w'))"

definition reset_failed_unit :: "'x host \<Rightarrow> string \<Rightarrow> 'x world \<Rightarrow> 'x world" where
  "reset_failed_unit H vm_id w = snd (h_run H ''systemctl'' [''reset-failed'', unit_name vm_id] w)"

section \<open>Addresses\<close>

lemma unat_ucast_u8: "unat (ucast (n :: u32) :: u8) = unat n mod 256"
  by (simp add: unsigned_ucast_eq take_bit_eq_mod)

lemma unat_ucast_u32: "unat (ucast (a :: u8) :: u32) = unat a"
  using unat_u8_less [of a] by (simp add: unsigned_ucast_eq take_bit_eq_mod)

lemma unat_ipv4_to_u32:
  "unat (ipv4_to_u32 (a, b, c, d)) = unat a * 0x1000000 + unat b * 0x10000 + unat c * 0x100 + unat d"
proof -
  have "unat a * 0x1000000 + unat b * 0x10000 + unat c * 0x100 + unat d < 4294967296"
    using unat_u8_less [of a] unat_u8_less [of b] unat_u8_less [of c] unat_u8_less [of d] by linarith
  then show ?thesis
    by (simp add: ipv4_to_u32_def unat_word_ariths unat_ucast_u32)
qed

lemma last_octet_allocate:
  "last_octet (allocate_vm_ip gw o') = last_octet gw + o'"
proof -
  obtain a b c d where gw: "gw = (a, b, c, d)" by (cases gw)
  let ?N = "unat (ipv4_to_u32 gw) + unat o'"
  have n: "?N = 256 * (unat a * 0x10000 + unat b * 0x100 + unat c) + (unat d + unat o')"
    by (simp only: gw unat_ipv4_to_u32) simp
  have "unat (ipv4_to_u32 gw + ucast o') mod 256 = ?N mod 256"
    by (simp only: unat_word_ariths unat_ucast_u32 len_num1 len_num0 len_bit0) (simp add: mod_mod_cancel)
  also have "\<dots> = (unat d + unat o') mod 256"
    unfolding n by (rule mod_mult_self4)
  finally have "unat (ipv4_to_u32 gw + ucast o') mod 256 = (unat d + unat o') mod 256" .
  then have "unat (ucast (ipv4_to_u32 gw + ucast o') :: u8) = unat (d + o')"
    by (simp only: unat_ucast_u8 unat_word_ariths) simp
  then show ?thesis
    by (simp add: last_octet_def allocate_vm_ip_def u32_to_ipv4_def gw word_unat_eq_iff)
qed

lemma offset_recovered: "last_octet (allocate_vm_ip gw o') - last_octet gw = o'"
  by (simp add: last_octet_allocate)

lemma allocate_vm_ip_inj: "allocate_vm_ip gw a = allocate_vm_ip gw b \<longleftrightarrow> a = b"
  by (metis offset_recovered)

lemma mac_for_vm_ip_inj:
  "mac_for_vm_ip (a, b, c, d) = mac_for_vm_ip (a', b', c', d') \<longleftrightarrow> b = b' \<and> c = c' \<and> d = d'"
  by (auto simp: mac_for_vm_ip_def append_eq_append_conv hex2_inj)

lemma unit_name_inj: "unit_name a = unit_name b \<longleftrightarrow> a = b"
  by (simp add: unit_name_def)

section \<open>A concrete host\<close>

text \<open>
  A host to evaluate the operations on: no file operation fails, nft keeps its ruleset in
  memory, and every program succeeds (\<^verbatim>\<open>veritysetup\<close> prints a root hash).
\<close>

definition quiet_io :: io_env where
  "quiet_io = \<lparr>step_fault = (\<lambda>_ _. None), read_fault = (\<lambda>_ _. None), dir_fault = (\<lambda>_ _. None)\<rparr>"

definition demo_host :: "(json list) host" where
  "demo_host = \<lparr>h_io = quiet_io, h_nft = mem_nft,
     h_run = (\<lambda>prog args w.
       (Ok (True, if prog = ''veritysetup'' then ''Root hash: AB12'' else [], []), w)),
     h_now = (\<lambda>_. 1000)\<rparr>"

definition empty_fs :: filesystem where
  "empty_fs = \<lparr>fs_files = hm_empty, fs_dirs = [], fs_clock = 0\<rparr>"

definition demo_world :: "(json list) world" where
  "demo_world = \<lparr>w_fs = empty_fs, w_ext = demo_base\<rparr>"

end
