(* ===== verification/Numa.thy ===== *)
theory Numa
  imports Rust_Strings
begin

text \<open>
  NUMA placement (\<^verbatim>\<open>crates/aleph-compute-node/src/numa.rs\<close>): the host topology, the
  pack-first allocator with its two hugepage pools per node, and the printing and parsing
  of CPU lists. A \<^verbatim>\<open>BTreeSet<u32>\<close> is the strictly ascending list of its elements, the
  order in which Rust iterates over it. The per-node vectors have one entry per node, as
  the constructor makes them; the invariant \<open>numa_inv\<close> keeps that and the capacities.
\<close>

section \<open>Topology and allocator\<close>

datatype huge_page_size = Size2M | Size1G

record numa_node =
  node_id :: u32
  node_cpus :: "u32 list"
  total_2m_hugepages :: u32
  total_1g_hugepages :: u32
  total_ram_mb :: u32

type_synonym numa_topology = "numa_node list"

record numa_placement =
  placed_node :: u32
  placed_cpuset :: string
  placed_hugepage_size :: huge_page_size

record numa_allocator =
  numa_nodes :: numa_topology
  allocated_vcpus :: "u32 list"
  allocated_2m_pages :: "u32 list"
  allocated_1g_pages :: "u32 list"

datatype numa_error = NoSuchNode u32 | NoCapacity u32 u32

definition num_nodes :: "numa_allocator \<Rightarrow> nat" where
  "num_nodes s = length (numa_nodes s)"

definition numa_new :: "numa_topology \<Rightarrow> numa_allocator" where
  "numa_new t = (let n = length t in
     \<lparr>numa_nodes = t, allocated_vcpus = replicate n 0,
      allocated_2m_pages = replicate n 0, allocated_1g_pages = replicate n 0\<rparr>)"

text \<open>\<^verbatim>\<open>iter().position(|n| n.id == node_id)\<close>\<close>

fun node_position :: "numa_topology \<Rightarrow> u32 \<Rightarrow> nat option" where
  "node_position [] i = None"
| "node_position (n # ns) i = (if node_id n = i then Some 0 else map_option Suc (node_position ns i))"

section \<open>CPU lists\<close>

definition flush_range :: "string \<Rightarrow> u32 \<Rightarrow> u32 \<Rightarrow> string" where
  "flush_range result range_start range_end =
     result @ (if result \<noteq> [] then '','' else []) @
     (if range_start = range_end then show_word range_start
      else show_word range_start @ ''-'' @ show_word range_end)"

fun format_ranges :: "string \<Rightarrow> u32 \<Rightarrow> u32 \<Rightarrow> u32 list \<Rightarrow> string" where
  "format_ranges result range_start range_end [] = flush_range result range_start range_end"
| "format_ranges result range_start range_end (cpu # cpus) =
     (if cpu = range_end + 1 then format_ranges result range_start cpu cpus
      else format_ranges (flush_range result range_start range_end) cpu cpu cpus)"

definition format_cpuset :: "u32 list \<Rightarrow> string" where
  "format_cpuset cpus = (case cpus of [] \<Rightarrow> [] | first # rest \<Rightarrow> format_ranges [] first first rest)"

text \<open>Inserting into a \<^verbatim>\<open>BTreeSet\<close>, and the range \<^verbatim>\<open>lo..=hi\<close> of \<^verbatim>\<open>extend\<close>.\<close>

fun set_insert :: "u32 \<Rightarrow> u32 list \<Rightarrow> u32 list" where
  "set_insert x [] = [x]"
| "set_insert x (y # ys) = (if x < y then x # y # ys else if x = y then y # ys else y # set_insert x ys)"

definition cpu_range :: "u32 \<Rightarrow> u32 \<Rightarrow> u32 list" where
  "cpu_range lo hi = map of_nat [unat lo..<Suc (unat hi)]"

datatype cpulist_error = InvalidRangeStart | InvalidRangeEnd | InvalidCpuId

fun parse_parts :: "u32 list \<Rightarrow> string list \<Rightarrow> (cpulist_error, u32 list) result" where
  "parse_parts cpus [] = Ok cpus"
| "parse_parts cpus (p # ps) =
     (let part = trim p in
      case split_once (CHR ''-'') part of
        Some (l, h) \<Rightarrow>
          and_then (ok_or (parse_u32 l) InvalidRangeStart) (\<lambda>lo.
          and_then (ok_or (parse_u32 h) InvalidRangeEnd) (\<lambda>hi.
          parse_parts (fold set_insert (cpu_range lo hi) cpus) ps))
      | None \<Rightarrow>
          and_then (ok_or (parse_u32 part) InvalidCpuId) (\<lambda>cpu.
          parse_parts (set_insert cpu cpus) ps))"

definition parse_cpulist :: "string \<Rightarrow> (cpulist_error, u32 list) result" where
  "parse_cpulist s = parse_parts [] (split_on (CHR '','') s)"

datatype meminfo_error = MalformedMemTotal | BadMemTotalValue | MemTotalNotFound

fun memtotal_of_lines :: "string list \<Rightarrow> (meminfo_error, u64) result" where
  "memtotal_of_lines [] = Err MemTotalNotFound"
| "memtotal_of_lines (line # ls) =
     (if contains_str line ''MemTotal:'' then
        (let words = rev (split_whitespace line) in
         if length words < 2 then Err MalformedMemTotal
         else ok_or (parse_u64 (words ! 1)) BadMemTotalValue)
      else memtotal_of_lines ls)"

definition parse_memtotal_kb :: "string \<Rightarrow> (meminfo_error, u64) result" where
  "parse_memtotal_kb meminfo = memtotal_of_lines (str_lines meminfo)"

section \<open>Allocation and release\<close>

text \<open>
  The body of the candidate loop: \<open>None\<close> stands for falling through to the next
  candidate.
\<close>

definition place_on ::
  "numa_allocator \<Rightarrow> u32 \<Rightarrow> u32 \<Rightarrow> bool \<Rightarrow> nat \<Rightarrow> (numa_placement \<times> numa_allocator) option" where
  "place_on s vcpus memory_mb uses_hugepages idx =
     (let node = numa_nodes s ! idx;
          available_cpus = saturating_sub (of_nat (length (node_cpus node))) (allocated_vcpus s ! idx);
          placement = (\<lambda>sz. \<lparr>placed_node = node_id node, placed_cpuset = format_cpuset (node_cpus node),
                            placed_hugepage_size = sz\<rparr>);
          s1 = s\<lparr>allocated_vcpus := (allocated_vcpus s)[idx := allocated_vcpus s ! idx + vcpus]\<rparr>
      in if available_cpus < vcpus then None
         else if \<not> uses_hugepages then Some (placement Size2M, s1)
         else if memory_mb mod 1024 = 0 \<and>
                 memory_mb div 1024 \<le> saturating_sub (total_1g_hugepages node) (allocated_1g_pages s ! idx)
         then Some (placement Size1G,
                s1\<lparr>allocated_1g_pages :=
                     (allocated_1g_pages s)[idx := allocated_1g_pages s ! idx + memory_mb div 1024]\<rparr>)
         else if div_ceil2 memory_mb \<le> saturating_sub (total_2m_hugepages node) (allocated_2m_pages s ! idx)
         then Some (placement Size2M,
                s1\<lparr>allocated_2m_pages :=
                     (allocated_2m_pages s)[idx := allocated_2m_pages s ! idx + div_ceil2 memory_mb]\<rparr>)
         else None)"

fun try_candidates ::
  "numa_allocator \<Rightarrow> u32 \<Rightarrow> u32 \<Rightarrow> bool \<Rightarrow> nat list \<Rightarrow> (numa_error, numa_placement) result \<times> numa_allocator" where
  "try_candidates s vcpus memory_mb uses_hugepages [] = (Err (NoCapacity vcpus memory_mb), s)"
| "try_candidates s vcpus memory_mb uses_hugepages (idx # idxs) =
     (case place_on s vcpus memory_mb uses_hugepages idx of
        Some (p, s') \<Rightarrow> (Ok p, s')
      | None \<Rightarrow> try_candidates s vcpus memory_mb uses_hugepages idxs)"

definition numa_allocate ::
  "numa_allocator \<Rightarrow> u32 \<Rightarrow> u32 \<Rightarrow> u32 option \<Rightarrow> bool \<Rightarrow>
   (numa_error, numa_placement) result \<times> numa_allocator" where
  "numa_allocate s vcpus memory_mb hint uses_hugepages =
     (case hint of
        Some i \<Rightarrow>
          (case node_position (numa_nodes s) i of
             Some idx \<Rightarrow> try_candidates s vcpus memory_mb uses_hugepages [idx]
           | None \<Rightarrow> (Err (NoSuchNode i), s))
      | None \<Rightarrow> try_candidates s vcpus memory_mb uses_hugepages [0..<length (numa_nodes s)])"

definition numa_release ::
  "numa_allocator \<Rightarrow> u32 \<Rightarrow> u32 \<Rightarrow> u32 \<Rightarrow> huge_page_size \<Rightarrow> numa_allocator" where
  "numa_release s node vcpus memory_mb hugepage_size =
     (case node_position (numa_nodes s) node of
        None \<Rightarrow> s
      | Some idx \<Rightarrow>
          (let s1 = s\<lparr>allocated_vcpus :=
                 (allocated_vcpus s)[idx := saturating_sub (allocated_vcpus s ! idx) vcpus]\<rparr>
           in case hugepage_size of
                Size1G \<Rightarrow> s1\<lparr>allocated_1g_pages :=
                  (allocated_1g_pages s)[idx := saturating_sub (allocated_1g_pages s ! idx) (memory_mb div 1024)]\<rparr>
              | Size2M \<Rightarrow> s1\<lparr>allocated_2m_pages :=
                  (allocated_2m_pages s)[idx := saturating_sub (allocated_2m_pages s ! idx) (div_ceil2 memory_mb)]\<rparr>))"

section \<open>The capacity invariant\<close>

definition within :: "u32 list \<Rightarrow> u32 list \<Rightarrow> bool" where
  "within used cap \<longleftrightarrow> length used = length cap \<and> (\<forall>i < length cap. used ! i \<le> cap ! i)"

definition cpu_caps :: "numa_topology \<Rightarrow> u32 list" where
  "cpu_caps t = map (\<lambda>n. of_nat (length (node_cpus n))) t"

definition numa_inv :: "numa_allocator \<Rightarrow> bool" where
  "numa_inv s \<longleftrightarrow>
     within (allocated_vcpus s) (cpu_caps (numa_nodes s)) \<and>
     within (allocated_2m_pages s) (map total_2m_hugepages (numa_nodes s)) \<and>
     within (allocated_1g_pages s) (map total_1g_hugepages (numa_nodes s))"

text \<open>What the allocator requires of a node, and how it would be charged.\<close>

definition fits_cpus :: "numa_allocator \<Rightarrow> u32 \<Rightarrow> nat \<Rightarrow> bool" where
  "fits_cpus s vcpus i \<longleftrightarrow>
     unat (allocated_vcpus s ! i) + unat vcpus \<le> unat (cpu_caps (numa_nodes s) ! i)"

definition fits_1g :: "numa_allocator \<Rightarrow> u32 \<Rightarrow> nat \<Rightarrow> bool" where
  "fits_1g s memory_mb i \<longleftrightarrow> unat memory_mb mod 1024 = 0 \<and>
     unat (allocated_1g_pages s ! i) + unat memory_mb div 1024 \<le> unat (total_1g_hugepages (numa_nodes s ! i))"

definition fits_2m :: "numa_allocator \<Rightarrow> u32 \<Rightarrow> nat \<Rightarrow> bool" where
  "fits_2m s memory_mb i \<longleftrightarrow>
     unat (allocated_2m_pages s ! i) + (unat memory_mb + 1) div 2 \<le> unat (total_2m_hugepages (numa_nodes s ! i))"

definition fits_node :: "numa_allocator \<Rightarrow> u32 \<Rightarrow> u32 \<Rightarrow> bool \<Rightarrow> nat \<Rightarrow> bool" where
  "fits_node s vcpus memory_mb uses_hugepages i \<longleftrightarrow>
     fits_cpus s vcpus i \<and> (uses_hugepages \<longrightarrow> fits_1g s memory_mb i \<or> fits_2m s memory_mb i)"

lemma within_update:
  "within used cap \<Longrightarrow> i < length cap \<Longrightarrow> v \<le> cap ! i \<Longrightarrow> within (used[i := v]) cap"
  by (auto simp: within_def nth_list_update)

lemma within_nth: "within used cap \<Longrightarrow> i < length cap \<Longrightarrow> used ! i \<le> cap ! i"
  by (simp add: within_def)

lemma within_length: "within used cap \<Longrightarrow> length used = length cap"
  by (simp add: within_def)

lemma within_zero: "length cap = n \<Longrightarrow> within (replicate n 0) cap"
  by (auto simp: within_def)

lemma numa_inv_new [simp]: "numa_inv (numa_new t)"
  by (simp add: numa_inv_def numa_new_def Let_def within_zero cpu_caps_def)

lemma numa_nodes_new [simp]: "numa_nodes (numa_new t) = t"
  by (simp add: numa_new_def Let_def)

lemma node_position_Some:
  "node_position t i = Some idx \<Longrightarrow> idx < length t \<and> node_id (t ! idx) = i"
  by (induction t arbitrary: idx) (auto split: if_splits)

lemma node_position_distinct:
  "distinct (map node_id t) \<Longrightarrow> idx < length t \<Longrightarrow> node_position t (node_id (t ! idx)) = Some idx"
proof (induction t arbitrary: idx)
  case (Cons n t)
  then show ?case by (cases idx) (auto dest: nth_mem)
qed simp

lemma node_position_None: "node_position t i = None \<longleftrightarrow> i \<notin> node_id ` set t"
  by (induction t) auto

text \<open>A request below what is left fits without wrap-around.\<close>

lemma fits_saturating:
  "(a :: u32) \<le> c \<Longrightarrow> x \<le> saturating_sub c a \<longleftrightarrow> unat a + unat x \<le> unat c"
  by (auto simp: word_le_nat_alt unat_saturating_sub)

lemma add_fits:
  assumes "unat (a :: u32) + unat x \<le> unat c"
  shows "a + x \<le> c" "unat (a + x) = unat a + unat x"
proof -
  have "unat a + unat x < 2 ^ 32"
    using assms unat_u32_less [of c] by simp
  then show "unat (a + x) = unat a + unat x"
    by (simp add: unat_add_no_overflow)
  with assms show "a + x \<le> c" by (simp add: word_le_nat_alt)
qed

lemma saturating_sub_add: "unat (a + x) = unat a + unat x \<Longrightarrow> saturating_sub (a + x) x = (a :: u32)"
  by (simp add: word_unat_eq_iff unat_saturating_sub)

section \<open>What a placement charges\<close>

text \<open>The pool a request is charged to on a node, and the state after charging it.\<close>

definition pool_choice :: "numa_allocator \<Rightarrow> u32 \<Rightarrow> bool \<Rightarrow> nat \<Rightarrow> huge_page_size option" where
  "pool_choice s memory_mb uses_hugepages i =
     (if \<not> uses_hugepages then None else if fits_1g s memory_mb i then Some Size1G else Some Size2M)"

definition charge :: "numa_allocator \<Rightarrow> u32 \<Rightarrow> u32 \<Rightarrow> huge_page_size option \<Rightarrow> nat \<Rightarrow> numa_allocator" where
  "charge s vcpus memory_mb pool i =
     s\<lparr>allocated_vcpus := (allocated_vcpus s)[i := allocated_vcpus s ! i + vcpus],
       allocated_2m_pages := (if pool = Some Size2M
         then (allocated_2m_pages s)[i := allocated_2m_pages s ! i + div_ceil2 memory_mb]
         else allocated_2m_pages s),
       allocated_1g_pages := (if pool = Some Size1G
         then (allocated_1g_pages s)[i := allocated_1g_pages s ! i + memory_mb div 1024]
         else allocated_1g_pages s)\<rparr>"

definition placement_at :: "numa_allocator \<Rightarrow> huge_page_size option \<Rightarrow> nat \<Rightarrow> numa_placement" where
  "placement_at s pool i =
     \<lparr>placed_node = node_id (numa_nodes s ! i),
      placed_cpuset = format_cpuset (node_cpus (numa_nodes s ! i)),
      placed_hugepage_size = (case pool of None \<Rightarrow> Size2M | Some sz \<Rightarrow> sz)\<rparr>"

lemma numa_inv_lengths:
  assumes "numa_inv s"
  shows "length (allocated_vcpus s) = length (numa_nodes s)"
    and "length (allocated_2m_pages s) = length (numa_nodes s)"
    and "length (allocated_1g_pages s) = length (numa_nodes s)"
  using assms by (auto simp: numa_inv_def cpu_caps_def dest!: within_length)

lemma numa_inv_bounds:
  assumes "numa_inv s" "i < length (numa_nodes s)"
  shows "allocated_vcpus s ! i \<le> of_nat (length (node_cpus (numa_nodes s ! i)))"
    and "allocated_2m_pages s ! i \<le> total_2m_hugepages (numa_nodes s ! i)"
    and "allocated_1g_pages s ! i \<le> total_1g_hugepages (numa_nodes s ! i)"
  using assms
  by (auto simp: numa_inv_def cpu_caps_def dest!: within_nth [where i = i])

lemma mod_1024: "(m :: u32) mod 1024 = 0 \<longleftrightarrow> unat m mod 1024 = 0"
  by (simp add: word_unat_eq_iff unat_mod)

lemma place_on_eq:
  assumes "numa_inv s" "i < length (numa_nodes s)"
  shows "place_on s v m h i =
    (if fits_node s v m h i
     then Some (placement_at s (pool_choice s m h i) i, charge s v m (pool_choice s m h i) i)
     else None)"
proof -
  note b = numa_inv_bounds [OF assms]
  have cpus: "saturating_sub (of_nat (length (node_cpus (numa_nodes s ! i)))) (allocated_vcpus s ! i) < v
      \<longleftrightarrow> \<not> fits_cpus s v i"
    using fits_saturating [OF b(1), of v] assms(2)
    by (auto simp: fits_cpus_def cpu_caps_def not_le simp flip: linorder_not_less)
  have g: "m mod 1024 = 0 \<and>
      m div 1024 \<le> saturating_sub (total_1g_hugepages (numa_nodes s ! i)) (allocated_1g_pages s ! i)
      \<longleftrightarrow> fits_1g s m i"
    by (simp add: fits_saturating [OF b(3)] fits_1g_def mod_1024 unat_div)
  have m2: "div_ceil2 m \<le> saturating_sub (total_2m_hugepages (numa_nodes s ! i)) (allocated_2m_pages s ! i)
      \<longleftrightarrow> fits_2m s m i"
    by (simp add: fits_saturating [OF b(2)] fits_2m_def unat_div_ceil2)
  show ?thesis
    unfolding place_on_def Let_def cpus g m2
    by (simp add: fits_node_def pool_choice_def placement_at_def charge_def)
qed

lemma charge_inv [inv_intros]:
  assumes "numa_inv s" "i < length (numa_nodes s)" "fits_node s v m h i"
  shows "numa_inv (charge s v m (pool_choice s m h i) i)"
proof -
  have cpu: "allocated_vcpus s ! i + v \<le> cpu_caps (numa_nodes s) ! i"
    using assms(3) by (auto simp: fits_node_def fits_cpus_def intro: add_fits)
  have g: "allocated_1g_pages s ! i + m div 1024 \<le> total_1g_hugepages (numa_nodes s ! i)"
    if "fits_1g s m i"
    using that by (auto simp: fits_1g_def unat_div intro!: add_fits)
  have m2: "allocated_2m_pages s ! i + div_ceil2 m \<le> total_2m_hugepages (numa_nodes s ! i)"
    if "fits_2m s m i"
    using that by (auto simp: fits_2m_def unat_div_ceil2 intro!: add_fits)
  show ?thesis
    using assms cpu g m2
    by (auto simp: numa_inv_def charge_def pool_choice_def fits_node_def cpu_caps_def intro!: within_update)
qed

lemma charge_exact:
  assumes "numa_inv s" "i < length (numa_nodes s)" "fits_node s v m h i"
  shows "unat (allocated_vcpus s ! i + v) = unat (allocated_vcpus s ! i) + unat v"
    and "unat (allocated_vcpus (charge s v m (pool_choice s m h i) i) ! i) =
        unat (allocated_vcpus s ! i) + unat v"
    and "unat (allocated_1g_pages (charge s v m (pool_choice s m h i) i) ! i) =
        unat (allocated_1g_pages s ! i) + (if h \<and> fits_1g s m i then unat m div 1024 else 0)"
    and "unat (allocated_2m_pages (charge s v m (pool_choice s m h i) i) ! i) =
        unat (allocated_2m_pages s ! i) + (if h \<and> \<not> fits_1g s m i then (unat m + 1) div 2 else 0)"
proof -
  note len = numa_inv_lengths [OF assms(1)]
  show cpu: "unat (allocated_vcpus s ! i + v) = unat (allocated_vcpus s ! i) + unat v"
    using assms(3) add_fits(2) by (auto simp: fits_node_def fits_cpus_def)
  then show "unat (allocated_vcpus (charge s v m (pool_choice s m h i) i) ! i) =
      unat (allocated_vcpus s ! i) + unat v"
    using assms(2) len by (simp add: charge_def)
  have g: "unat (allocated_1g_pages s ! i + m div 1024) = unat (allocated_1g_pages s ! i) + unat m div 1024"
    if "fits_1g s m i"
    using that add_fits(2) [of "allocated_1g_pages s ! i" "m div 1024" "total_1g_hugepages (numa_nodes s ! i)"]
    by (simp add: fits_1g_def unat_div)
  show "unat (allocated_1g_pages (charge s v m (pool_choice s m h i) i) ! i) =
      unat (allocated_1g_pages s ! i) + (if h \<and> fits_1g s m i then unat m div 1024 else 0)"
    using assms(2) len g by (simp add: charge_def pool_choice_def)
  have m2: "unat (allocated_2m_pages s ! i + div_ceil2 m) =
      unat (allocated_2m_pages s ! i) + (unat m + 1) div 2" if "fits_2m s m i"
    using that add_fits(2) [of "allocated_2m_pages s ! i" "div_ceil2 m" "total_2m_hugepages (numa_nodes s ! i)"]
    by (simp add: fits_2m_def unat_div_ceil2)
  show "unat (allocated_2m_pages (charge s v m (pool_choice s m h i) i) ! i) =
      unat (allocated_2m_pages s ! i) + (if h \<and> \<not> fits_1g s m i then (unat m + 1) div 2 else 0)"
    using assms(2,3) len m2 by (auto simp: charge_def pool_choice_def fits_node_def)
qed

lemma try_candidates_eq:
  assumes "numa_inv s" "\<forall>i \<in> set is. i < length (numa_nodes s)"
  shows "try_candidates s v m h is =
    (case List.find (fits_node s v m h) is of
       None \<Rightarrow> (Err (NoCapacity v m), s)
     | Some i \<Rightarrow> (Ok (placement_at s (pool_choice s m h i) i), charge s v m (pool_choice s m h i) i))"
  using assms(2) by (induction "is") (simp_all add: place_on_eq [OF assms(1)])

definition candidates :: "numa_allocator \<Rightarrow> u32 option \<Rightarrow> nat list" where
  "candidates s hint = (case hint of
       Some i \<Rightarrow> (case node_position (numa_nodes s) i of Some idx \<Rightarrow> [idx] | None \<Rightarrow> [])
     | None \<Rightarrow> [0..<length (numa_nodes s)])"

lemma candidates_bound: "i \<in> set (candidates s hint) \<Longrightarrow> i < length (numa_nodes s)"
  using node_position_Some [of "numa_nodes s" _ i]
  by (auto simp: candidates_def dest: sym split: option.splits)

lemma sorted_candidates: "sorted (candidates s hint) \<and> distinct (candidates s hint)"
  by (auto simp: candidates_def split: option.splits)

lemma numa_allocate_eq:
  assumes "numa_inv s"
  shows "numa_allocate s v m hint h =
    (case List.find (fits_node s v m h) (candidates s hint) of
       None \<Rightarrow> (Err (case hint of
            Some i \<Rightarrow> if node_position (numa_nodes s) i = None then NoSuchNode i else NoCapacity v m
          | None \<Rightarrow> NoCapacity v m), s)
     | Some i \<Rightarrow> (Ok (placement_at s (pool_choice s m h i) i), charge s v m (pool_choice s m h i) i))"
  using candidates_bound [of _ s hint]
  by (auto simp: numa_allocate_def candidates_def try_candidates_eq [OF assms] dest: node_position_Some
      simp del: try_candidates.simps List.find.simps split: option.splits)
     (auto split: option.splits)

lemma numa_allocate_Ok:
  assumes "numa_inv s" "numa_allocate s v m hint h = (Ok p, s')"
  obtains i where "i < length (numa_nodes s)" "i \<in> set (candidates s hint)" "fits_node s v m h i"
    "\<forall>j \<in> set (candidates s hint). j < i \<longrightarrow> \<not> fits_node s v m h j"
    "p = placement_at s (pool_choice s m h i) i" "s' = charge s v m (pool_choice s m h i) i"
proof -
  obtain i where i: "List.find (fits_node s v m h) (candidates s hint) = Some i"
    and r: "p = placement_at s (pool_choice s m h i) i" "s' = charge s v m (pool_choice s m h i) i"
    using assms by (auto simp: numa_allocate_eq split: option.splits)
  from i obtain k where k: "k < length (candidates s hint)" "i = candidates s hint ! k"
      "fits_node s v m h i" "\<forall>j < k. \<not> fits_node s v m h (candidates s hint ! j)"
    by (auto simp: find_Some_iff)
  have "\<not> fits_node s v m h j" if j: "j \<in> set (candidates s hint)" "j < i" for j
  proof -
    from j(1) obtain l where l: "l < length (candidates s hint)" "candidates s hint ! l = j"
      by (auto simp: in_set_conv_nth)
    have "\<not> k \<le> l"
      using sorted_nth_mono [of "candidates s hint" k l] sorted_candidates [of s hint] l k j(2) by auto
    with k(4) l(2) show ?thesis by auto
  qed
  with k r show ?thesis
    using that [of i] candidates_bound [of i s hint] by auto
qed

lemma numa_allocate_Err:
  "numa_inv s \<Longrightarrow> numa_allocate s v m hint h = (Err e, s') \<Longrightarrow>
   s' = s \<and> (\<forall>i \<in> set (candidates s hint). \<not> fits_node s v m h i)"
  by (auto simp: numa_allocate_eq find_None_iff split: option.splits)

lemma numa_allocate_inv [inv_intros]:
  "numa_inv s \<Longrightarrow> numa_inv (snd (numa_allocate s v m hint h))"
proof (cases "numa_allocate s v m hint h")
  case (Pair r s')
  assume inv: "numa_inv s"
  show ?thesis
  proof (cases r)
    case (Inl e)
    with Pair have "numa_allocate s v m hint h = (Err e, s')" by simp
    from numa_allocate_Err [OF inv this] Pair inv show ?thesis by simp
  next
    case (Inr p)
    with Pair have "numa_allocate s v m hint h = (Ok p, s')" by simp
    from numa_allocate_Ok [OF inv this] Pair show ?thesis by (metis charge_inv inv snd_conv)
  qed
qed

lemma numa_release_inv [inv_intros]: "numa_inv s \<Longrightarrow> numa_inv (numa_release s node v m sz)"
  using numa_inv_bounds [of s]
  by (auto simp: numa_release_def numa_inv_def cpu_caps_def Let_def
      split: option.splits huge_page_size.splits dest!: node_position_Some
      intro!: within_update order_trans [OF saturating_sub_le] dest: within_nth)

section \<open>CPU lists: parsing undoes printing\<close>

fun cpu_ranges :: "u32 \<Rightarrow> u32 \<Rightarrow> u32 list \<Rightarrow> (u32 \<times> u32) list" where
  "cpu_ranges a b [] = [(a, b)]"
| "cpu_ranges a b (c # cs) = (if c = b + 1 then cpu_ranges a c cs else (a, b) # cpu_ranges c c cs)"

definition show_range :: "u32 \<times> u32 \<Rightarrow> string" where
  "show_range r = (if fst r = snd r then show_word (fst r)
     else show_word (fst r) @ ''-'' @ show_word (snd r))"

lemma show_range_neq_Nil [simp]: "show_range r \<noteq> []"
  by (simp add: show_range_def)

lemma join_with_snoc: "rs \<noteq> [] \<Longrightarrow> join_with sep (rs @ [r]) = join_with sep rs @ sep @ r"
proof (induction sep rs rule: join_with.induct)
  case (3 sep s t ss)
  then show ?case by (cases ss) auto
qed auto

lemma join_with_eq_Nil: "\<forall>r \<in> set rs. r \<noteq> [] \<Longrightarrow> join_with sep rs = [] \<longleftrightarrow> rs = []"
  by (induction sep rs rule: join_with.induct) auto

lemma flush_range_join:
  "flush_range (join_with '','' (map show_range rs)) a b = join_with '','' (map show_range (rs @ [(a, b)]))"
proof (cases "rs = []")
  case False
  then have "join_with '','' (map show_range rs) \<noteq> []"
    using join_with_eq_Nil [of "map show_range rs" "'',''"] by auto
  with False show ?thesis
    by (simp add: flush_range_def join_with_snoc show_range_def)
qed (simp add: flush_range_def show_range_def)

lemma format_ranges_join:
  "format_ranges (join_with '','' (map show_range rs)) a b cs =
     join_with '','' (map show_range (rs @ cpu_ranges a b cs))"
proof (induction cs arbitrary: rs a b)
  case (Cons c cs)
  show ?case
  proof (cases "c = b + 1")
    case True
    then show ?thesis using Cons.IH [of rs a c] by simp
  next
    case False
    then show ?thesis
      using Cons.IH [of "rs @ [(a, b)]" c c] flush_range_join [of rs a b] by simp
  qed
qed (use flush_range_join in simp)

lemma format_cpuset_join: "format_cpuset (c # cs) = join_with '','' (map show_range (cpu_ranges c c cs))"
  using format_ranges_join [of "[]" c c cs] by (simp add: format_cpuset_def)

lemma show_nat_no_char: "\<not> is_ascii_digit c \<Longrightarrow> c \<notin> set (show_nat n)"
  using show_nat_digits by blast

lemma range_char: "c \<in> set (show_range r) \<Longrightarrow> is_ascii_digit c \<or> c = CHR ''-''"
  using show_nat_digits by (fastforce simp: show_range_def split: if_splits)

lemma range_chars:
  "CHR '','' \<notin> set (show_range r)" "\<forall>c \<in> set (show_range r). \<not> is_whitespace c"
proof -
  show "CHR '','' \<notin> set (show_range r)"
    using range_char [of "CHR '',''" r] by (auto simp: is_ascii_digit_def)
  show "\<forall>c \<in> set (show_range r). \<not> is_whitespace c"
  proof
    fix c assume "c \<in> set (show_range r)"
    from range_char [OF this] show "\<not> is_whitespace c"
      by (auto simp: digit_not_whitespace) (simp add: is_whitespace_def)
  qed
qed

lemma set_insert_set [simp]: "set (set_insert x ys) = insert x (set ys)"
  by (induction x ys rule: set_insert.induct) auto

lemma set_insert_sorted: "sorted_wrt (<) ys \<Longrightarrow> sorted_wrt (<) (set_insert x ys)"
  by (induction x ys rule: set_insert.induct) auto

lemma fold_set_insert:
  "set (fold set_insert xs ys) = set xs \<union> set ys"
  "sorted_wrt (<) ys \<Longrightarrow> sorted_wrt (<) (fold set_insert xs ys)"
  by (induction xs arbitrary: ys) (auto simp: set_insert_sorted)

lemma set_cpu_range: "set (cpu_range lo hi) = {lo..hi}"
proof -
  have "x \<in> of_nat ` {unat lo..unat hi}" if "lo \<le> x" "x \<le> hi" for x :: u32
    using that by (intro image_eqI [of _ _ "unat x"]) (auto simp: word_le_nat_alt)
  moreover have "lo \<le> of_nat n \<and> of_nat n \<le> hi" if "unat lo \<le> n" "n \<le> unat hi" for n
  proof -
    have "n < 2 ^ 32" using that(2) unat_u32_less [of hi] by simp
    with that show ?thesis by (simp add: word_le_nat_alt unat_of_nat)
  qed
  ultimately have "of_nat ` {unat lo..unat hi} = {lo..hi}"
    by (intro set_eqI iffI) (auto simp only: atLeastAtMost_iff image_iff)
  then show ?thesis
    by (simp only: cpu_range_def set_map set_upt atLeastLessThanSuc_atLeastAtMost)
qed

lemma parse_parts_ranges:
  "parse_parts acc (map show_range rs) =
     Ok (fold (\<lambda>r. fold set_insert (cpu_range (fst r) (snd r))) rs acc)"
proof (induction rs arbitrary: acc)
  case (Cons r rs)
  have t: "trim (show_range r) = show_range r" by (rule trim_id) (rule range_chars(2))
  have single: "cpu_range x x = [x]" for x :: u32
    by (simp add: cpu_range_def)
  show ?case
  proof (cases "fst r = snd r")
    case True
    then have "split_once CHR ''-'' (show_range r) = None"
      by (simp add: show_range_def split_once_no_sep show_nat_no_char is_ascii_digit_def)
    with True Cons.IH t show ?thesis by (simp add: show_range_def single)
  next
    case False
    then have "split_once CHR ''-'' (show_range r) = Some (show_word (fst r), show_word (snd r))"
      by (simp add: show_range_def split_once_append show_nat_no_char is_ascii_digit_def)
    with Cons.IH t show ?thesis by simp
  qed
qed simp

lemma cpu_ranges_neq_Nil: "cpu_ranges a b cs \<noteq> []"
  by (induction a b cs rule: cpu_ranges.induct) auto

lemma cpu_ranges_set:
  assumes "a \<le> b" "sorted_wrt (<) (b # cs)"
  shows "(\<Union>r \<in> set (cpu_ranges a b cs). {fst r..snd r}) = {a..b} \<union> set cs"
  using assms
proof (induction a b cs rule: cpu_ranges.induct)
  case (2 a b c cs)
  have bc: "b < c" "sorted_wrt (<) (c # cs)" using "2.prems" by auto
  show ?case
  proof (cases "c = b + 1")
    case True
    have "a \<le> x \<and> x \<le> c \<longleftrightarrow> a \<le> x \<and> x \<le> b \<or> x = c" for x
      using "2.prems"(1) bc(1) True by unat_arith
    then have "{a..c} = {a..b} \<union> {c}"
      by (intro set_eqI) (simp only: atLeastAtMost_iff Un_iff singleton_iff)
    with "2.IH"(1) [OF True] "2.prems"(1) bc True show ?thesis by auto
  next
    case False
    with "2.IH"(2) [OF False] bc show ?thesis by auto
  qed
qed simp

lemma fold_ranges:
  "set (fold (\<lambda>r. fold set_insert (cpu_range (fst r) (snd r))) rs acc) =
     (\<Union>r \<in> set rs. {fst r..snd r}) \<union> set acc"
  "sorted_wrt (<) acc \<Longrightarrow>
     sorted_wrt (<) (fold (\<lambda>r. fold set_insert (cpu_range (fst r) (snd r))) rs acc)"
  by (induction rs arbitrary: acc) (auto simp: fold_set_insert set_cpu_range)

lemma parse_format_cpuset:
  assumes "sorted_wrt (<) (c # cs)"
  shows "parse_cpulist (format_cpuset (c # cs)) = Ok (c # cs)"
proof -
  let ?rs = "cpu_ranges c c cs"
  let ?res = "fold (\<lambda>r. fold set_insert (cpu_range (fst r) (snd r))) ?rs []"
  have "?rs \<noteq> []" by (rule cpu_ranges_neq_Nil)
  then have "split_on CHR '','' (format_cpuset (c # cs)) = map show_range ?rs"
    unfolding format_cpuset_join by (intro split_on_join_with) (auto simp: range_chars)
  then have parse: "parse_cpulist (format_cpuset (c # cs)) = Ok ?res"
    by (simp add: parse_cpulist_def parse_parts_ranges)
  have "set ?res = set (c # cs)"
    using cpu_ranges_set [of c c cs] assms by (auto simp: fold_ranges)
  moreover have "sorted_wrt (<) ?res" by (simp add: fold_ranges)
  ultimately have "?res = c # cs"
    using strict_sorted_equal [of "c # cs" ?res] assms by simp
  with parse show ?thesis by simp
qed

section \<open>Properties\<close>

text \<open>
  What a VM was granted: the node, its vCPUs and memory, whether it runs on hugepages, and the
  page size its placement names. The runs of the allocator keep the grants that have not been
  given back, and whether a VM without hugepages has ever been released.
\<close>

record numa_grant =
  gr_node :: u32
  gr_vcpus :: u32
  gr_memory_mb :: u32
  gr_hugepages :: bool
  gr_size :: huge_page_size

definition grant_of :: "u32 \<Rightarrow> u32 \<Rightarrow> bool \<Rightarrow> numa_placement \<Rightarrow> numa_grant" where
  "grant_of v m h p = \<lparr>gr_node = placed_node p, gr_vcpus = v, gr_memory_mb = m, gr_hugepages = h, gr_size = placed_hugepage_size p\<rparr>"

inductive numa_run :: "numa_topology \<Rightarrow> numa_allocator \<Rightarrow> numa_grant list \<Rightarrow> bool \<Rightarrow> bool" for t where
  Fresh: "numa_run t (numa_new t) [] False"
| Grant: "numa_run t s live plain \<Longrightarrow> numa_allocate s v m hint h = (Ok p, s') \<Longrightarrow>
    numa_run t s' (grant_of v m h p # live) plain"
| Refuse: "numa_run t s live plain \<Longrightarrow> numa_allocate s v m hint h = (Err e, s') \<Longrightarrow> numa_run t s' live plain"
| Return: "numa_run t s live plain \<Longrightarrow> g \<in> set live \<Longrightarrow>
    numa_run t (numa_release s (gr_node g) (gr_vcpus g) (gr_memory_mb g) (gr_size g)) (remove1 g live)
      (plain \<or> \<not> gr_hugepages g)"

text \<open>What grants hold on a node: vCPUs, and pages of the two sizes that back their memory.\<close>

definition held_on :: "(numa_grant \<Rightarrow> nat) \<Rightarrow> numa_node \<Rightarrow> numa_grant list \<Rightarrow> nat" where
  "held_on f n live = sum_list (map f (filter (\<lambda>g. gr_node g = node_id n) live))"

definition grant_vcpus :: "numa_grant \<Rightarrow> nat" where
  "grant_vcpus g = unat (gr_vcpus g)"

definition grant_2m :: "numa_grant \<Rightarrow> nat" where
  "grant_2m g = (if gr_hugepages g \<and> gr_size g = Size2M then (unat (gr_memory_mb g) + 1) div 2 else 0)"

definition grant_1g :: "numa_grant \<Rightarrow> nat" where
  "grant_1g g = (if gr_size g = Size1G then unat (gr_memory_mb g) div 1024 else 0)"

definition accounts :: "numa_topology \<Rightarrow> numa_allocator \<Rightarrow> numa_grant list \<Rightarrow> bool \<Rightarrow> bool" where
  "accounts t s live plain \<longleftrightarrow> numa_inv s \<and> numa_nodes s = t \<and>
     (\<forall>i < length t. unat (allocated_vcpus s ! i) = held_on grant_vcpus (t ! i) live \<and>
        unat (allocated_1g_pages s ! i) = held_on grant_1g (t ! i) live \<and>
        (\<not> plain \<longrightarrow> unat (allocated_2m_pages s ! i) = held_on grant_2m (t ! i) live))"

lemma held_on_Cons: "held_on f n (g # live) = (if gr_node g = node_id n then f g else 0) + held_on f n live"
  by (simp add: held_on_def)

lemma held_on_remove:
  assumes "g \<in> set live"
  shows "held_on f n live = (if gr_node g = node_id n then f g else 0) + held_on f n (remove1 g live)"
proof (cases "gr_node g = node_id n")
  case True
  then have "g \<in> set (filter (\<lambda>g. gr_node g = node_id n) live)" using assms by simp
  from sum_list_map_remove1 [OF this, of f] True show ?thesis by (simp add: held_on_def filter_remove1)
next
  case False
  then show ?thesis by (simp add: held_on_def filter_remove1 remove1_idem)
qed

lemma accounts_fresh: "accounts t (numa_new t) [] False"
  by (simp add: accounts_def numa_new_def Let_def held_on_def numa_inv_new [unfolded numa_new_def Let_def])

lemma accounts_grant:
  assumes "accounts t s live plain" "distinct (map node_id t)" "numa_allocate s v m hint h = (Ok p, s')"
  shows "accounts t s' (grant_of v m h p # live) plain"
proof -
  have inv: "numa_inv s" and nodes: "numa_nodes s = t" using assms(1) by (simp_all add: accounts_def)
  obtain i where i: "i < length t" "fits_node s v m h i"
    and r: "p = placement_at s (pool_choice s m h i) i" "s' = charge s v m (pool_choice s m h i) i"
    using numa_allocate_Ok [OF inv assms(3)] nodes by metis
  note c = charge_exact [OF inv i(1) [folded nodes] i(2)]
  have other: "node_id (t ! j) \<noteq> node_id (t ! i)" if "j < length t" "j \<noteq> i" for j
    using assms(2) that i(1) by (auto simp: distinct_conv_nth)
  have same: "allocated_vcpus s' ! j = allocated_vcpus s ! j" "allocated_1g_pages s' ! j = allocated_1g_pages s ! j"
    "allocated_2m_pages s' ! j = allocated_2m_pages s ! j" if "j \<noteq> i" for j
    using that by (simp_all add: r(2) charge_def)
  let ?g = "grant_of v m h p"
  have g: "gr_node ?g = node_id (t ! i)" "grant_vcpus ?g = unat v" "grant_1g ?g = (if h \<and> fits_1g s m i then unat m div 1024 else 0)"
    "grant_2m ?g = (if h \<and> \<not> fits_1g s m i then (unat m + 1) div 2 else 0)"
    by (auto simp: grant_of_def r(1) placement_at_def pool_choice_def nodes grant_vcpus_def grant_1g_def grant_2m_def)
  have "numa_inv s'" "numa_nodes s' = t"
    using charge_inv [OF inv i(1) [folded nodes] i(2)] nodes by (simp_all add: r(2)) (simp add: charge_def)
  then show ?thesis
    using assms(1) c other same g unfolding accounts_def r(2) [symmetric]
    by (auto simp: held_on_Cons) (metis add.commute)+
qed

lemma accounts_return:
  assumes "accounts t s live plain" "distinct (map node_id t)" "g \<in> set live"
  shows "accounts t (numa_release s (gr_node g) (gr_vcpus g) (gr_memory_mb g) (gr_size g)) (remove1 g live)
     (plain \<or> \<not> gr_hugepages g)"
proof -
  let ?s = "numa_release s (gr_node g) (gr_vcpus g) (gr_memory_mb g) (gr_size g)"
  have inv: "numa_inv s" and nodes: "numa_nodes s = t" using assms(1) by (simp_all add: accounts_def)
  have "numa_inv ?s" using inv by (rule numa_release_inv)
  moreover have n: "numa_nodes ?s = t"
    using nodes by (simp add: numa_release_def Let_def split: option.splits huge_page_size.splits)
  moreover have "unat (allocated_vcpus ?s ! i) = held_on grant_vcpus (t ! i) (remove1 g live) \<and>
      unat (allocated_1g_pages ?s ! i) = held_on grant_1g (t ! i) (remove1 g live) \<and>
      (\<not> (plain \<or> \<not> gr_hugepages g) \<longrightarrow> unat (allocated_2m_pages ?s ! i) = held_on grant_2m (t ! i) (remove1 g live))"
    if i: "i < length t" for i
  proof (cases "gr_node g = node_id (t ! i)")
    case True
    have "node_position (numa_nodes s) (gr_node g) = Some i"
      using node_position_distinct [OF assms(2) i] True nodes by simp
    then show ?thesis
      using assms(1) i True held_on_remove [OF assms(3), of _ "t ! i"] numa_inv_lengths [OF inv] nodes
      by (cases "gr_size g") (auto simp: accounts_def numa_release_def Let_def unat_saturating_sub grant_vcpus_def
          grant_1g_def grant_2m_def unat_div unat_div_ceil2)
  next
    case False
    have "node_position (numa_nodes s) (gr_node g) \<noteq> Some i"
      using node_position_Some [of t "gr_node g" i] False nodes by auto
    then have "allocated_vcpus ?s ! i = allocated_vcpus s ! i" "allocated_1g_pages ?s ! i = allocated_1g_pages s ! i"
      "allocated_2m_pages ?s ! i = allocated_2m_pages s ! i"
      by (auto simp: numa_release_def Let_def split: option.splits huge_page_size.splits)
    then show ?thesis
      using assms(1) i False held_on_remove [OF assms(3), of _ "t ! i"] by (simp add: accounts_def)
  qed
  ultimately show ?thesis by (simp add: accounts_def)
qed

lemma numa_run_accounts:
  assumes "numa_run t s live plain" "distinct (map node_id t)"
  shows "accounts t s live plain"
  using assms(1)
proof induction
  case (Refuse s live plain v m hint h e s')
  then have "s' = s" using numa_allocate_Err [of s v m hint h e s'] by (simp add: accounts_def)
  with Refuse show ?case by simp
qed (use assms(2) in \<open>auto intro: accounts_fresh accounts_grant accounts_return\<close>)

text \<open>
  C5: whatever VMs are placed and released on a topology, the VMs that are placed never have
  more vCPUs on a node than it has CPUs, nor more 1 GiB pages than it has; and they never have
  more 2 MiB pages than it has as long as no VM without hugepages has been released.
\<close>

theorem numa_never_overcommits:
  assumes "numa_run t s live plain" "distinct (map node_id t)" "n \<in> set t"
  shows "held_on grant_vcpus n live \<le> length (node_cpus n) \<and>
    held_on grant_1g n live \<le> unat (total_1g_hugepages n) \<and>
    (\<not> plain \<longrightarrow> held_on grant_2m n live \<le> unat (total_2m_hugepages n))"
proof -
  obtain i where i: "i < length t" "n = t ! i" using assms(3) by (auto simp: in_set_conv_nth)
  have acc: "accounts t s live plain" using assms(1,2) by (rule numa_run_accounts)
  then have inv: "numa_inv s" "numa_nodes s = t" by (simp_all add: accounts_def)
  note b = numa_inv_bounds [OF inv(1), of i, unfolded inv(2), OF i(1)]
  have "unat (allocated_vcpus s ! i) \<le> unat (of_nat (length (node_cpus n)) :: u32)" using b(1) i(2) by (simp add: word_le_nat_alt)
  also have "\<dots> \<le> length (node_cpus n)" by (simp add: unat_of_nat)
  finally show ?thesis using acc i b(2,3) by (auto simp: accounts_def word_le_nat_alt)
qed

definition two_nodes :: numa_topology where
  "two_nodes =
     [\<lparr>node_id = 0, node_cpus = [0, 1, 2, 3], total_2m_hugepages = 512, total_1g_hugepages = 2, total_ram_mb = 8192\<rparr>,
      \<lparr>node_id = 1, node_cpus = [4, 5, 6, 7], total_2m_hugepages = 512, total_1g_hugepages = 0, total_ram_mb = 8192\<rparr>]"

lemma two_nodes_distinct: "distinct (map node_id two_nodes)"
  by (simp add: two_nodes_def)

lemma run_placed:
  assumes "numa_run t s live plain" "is_ok (fst (numa_allocate s v m hint h))"
  obtains p where "numa_allocate s v m hint h = (Ok p, snd (numa_allocate s v m hint h))"
    "numa_run t (snd (numa_allocate s v m hint h)) (grant_of v m h p # live) plain"
proof -
  obtain p where "numa_allocate s v m hint h = (Ok p, snd (numa_allocate s v m hint h))"
    using assms(2) by (metis is_ok_Ex prod.collapse)
  with Grant [OF assms(1) this] that show ?thesis by blast
qed

theorem numa_never_overcommits_witness:
  "\<exists>p. numa_run two_nodes (snd (numa_allocate (numa_new two_nodes) 3 512 (Some 1) True)) [grant_of 3 512 True p] False \<and>
     held_on grant_vcpus (two_nodes ! 1) [grant_of 3 512 True p] \<le> 4"
proof -
  have "is_ok (fst (numa_allocate (numa_new two_nodes) 3 512 (Some 1) True))" by code_simp
  then obtain p where p: "numa_run two_nodes (snd (numa_allocate (numa_new two_nodes) 3 512 (Some 1) True)) [grant_of 3 512 True p] False"
    using run_placed [OF Fresh] by metis
  have "two_nodes ! 1 \<in> set two_nodes" by (simp add: two_nodes_def)
  from numa_never_overcommits [OF p two_nodes_distinct this] p show ?thesis by (auto simp: two_nodes_def)
qed

text \<open>
  A successful allocation takes the first candidate node with enough free CPUs and,
  for a VM on hugepages, enough free pages of one size; it prefers whole 1 GiB pages, and
  it charges exactly the VM's vCPUs and pages to that node and pool and nothing else.
\<close>

theorem numa_allocate_first_fit:
  assumes "numa_inv s" "numa_allocate s v m hint h = (Ok p, s')"
  shows "\<exists>i \<in> set (candidates s hint).
     fits_node s v m h i \<and> (\<forall>j \<in> set (candidates s hint). j < i \<longrightarrow> \<not> fits_node s v m h j) \<and>
     p = placement_at s (pool_choice s m h i) i \<and>
     unat (allocated_vcpus s' ! i) = unat (allocated_vcpus s ! i) + unat v \<and>
     unat (allocated_1g_pages s' ! i) = unat (allocated_1g_pages s ! i) +
        (if h \<and> fits_1g s m i then unat m div 1024 else 0) \<and>
     unat (allocated_2m_pages s' ! i) = unat (allocated_2m_pages s ! i) +
        (if h \<and> \<not> fits_1g s m i then (unat m + 1) div 2 else 0) \<and>
     (\<forall>j. j \<noteq> i \<longrightarrow> allocated_vcpus s' ! j = allocated_vcpus s ! j \<and>
        allocated_1g_pages s' ! j = allocated_1g_pages s ! j \<and>
        allocated_2m_pages s' ! j = allocated_2m_pages s ! j)"
proof -
  obtain i where i: "i < length (numa_nodes s)" "i \<in> set (candidates s hint)" "fits_node s v m h i"
      "\<forall>j \<in> set (candidates s hint). j < i \<longrightarrow> \<not> fits_node s v m h j"
    and r: "p = placement_at s (pool_choice s m h i) i" "s' = charge s v m (pool_choice s m h i) i"
    by (rule numa_allocate_Ok [OF assms])
  note charges = charge_exact [OF assms(1) i(1,3)]
  show ?thesis
    using i r charges by (intro bexI [of _ i]) (auto simp: charge_def)
qed

theorem numa_allocate_first_fit_witness:
  "\<exists>i \<in> set (candidates (numa_new two_nodes) None). fits_node (numa_new two_nodes) 4 1024 True i"
proof -
  have "numa_inv (numa_new two_nodes)" by simp
  moreover obtain p s' where "numa_allocate (numa_new two_nodes) 4 1024 None True = (Ok p, s')"
  proof -
    have "is_ok (fst (numa_allocate (numa_new two_nodes) 4 1024 None True))" by code_simp
    then show ?thesis using that by (metis is_ok_Ex prod.collapse)
  qed
  ultimately show ?thesis by (blast dest: numa_allocate_first_fit)
qed

text \<open>
  A failed allocation leaves the allocator unchanged, and it fails only because the
  hinted node does not exist or no candidate node has the CPUs and pages.
\<close>

theorem numa_allocate_fails_only_when_full:
  assumes "numa_inv s" "numa_allocate s v m hint h = (Err e, s')"
  shows "s' = s \<and> (\<forall>i \<in> set (candidates s hint). \<not> fits_node s v m h i) \<and>
     (case e of NoSuchNode n \<Rightarrow> hint = Some n \<and> n \<notin> node_id ` set (numa_nodes s)
      | NoCapacity v' m' \<Rightarrow> v' = v \<and> m' = m)"
proof -
  have "case e of NoSuchNode n \<Rightarrow> hint = Some n \<and> n \<notin> node_id ` set (numa_nodes s)
      | NoCapacity v' m' \<Rightarrow> v' = v \<and> m' = m"
    using assms by (auto simp: numa_allocate_eq node_position_None split: option.splits if_splits)
  with numa_allocate_Err [OF assms] show ?thesis by blast
qed

theorem numa_allocate_fails_only_when_full_witness:
  "numa_allocate (numa_new two_nodes) 5 512 None False = (Err (NoCapacity 5 512), numa_new two_nodes) \<and>
   \<not> fits_node (numa_new two_nodes) 5 512 False 0"
proof -
  have "fst (numa_allocate (numa_new two_nodes) 5 512 None False) = Err (NoCapacity 5 512)" by code_simp
  then have "numa_allocate (numa_new two_nodes) 5 512 None False =
      (Err (NoCapacity 5 512), snd (numa_allocate (numa_new two_nodes) 5 512 None False))"
    by (metis prod.collapse)
  moreover have "0 \<in> set (candidates (numa_new two_nodes) None)" by code_simp
  moreover have "snd (numa_allocate (numa_new two_nodes) 5 512 None False) = numa_new two_nodes"
    by (rule numa_allocate_fails_only_when_full [OF numa_inv_new calculation(1), THEN conjunct1])
  moreover have "\<not> fits_node (numa_new two_nodes) 5 512 False 0"
    using numa_allocate_fails_only_when_full [OF numa_inv_new calculation(1)] calculation(2) by blast
  ultimately show ?thesis by simp
qed

text \<open>
  For a VM on hugepages, releasing what an allocation granted, with the node and page
  size the placement names, restores the allocator exactly.
\<close>

theorem numa_release_undoes_allocate:
  assumes "numa_inv s" "distinct (map node_id (numa_nodes s))"
    and "numa_allocate s v m hint True = (Ok p, s')"
  shows "numa_release s' (placed_node p) v m (placed_hugepage_size p) = s"
proof -
  obtain i where i: "i < length (numa_nodes s)" "fits_node s v m True i"
    and r: "p = placement_at s (pool_choice s m True i) i" "s' = charge s v m (pool_choice s m True i) i"
    by (rule numa_allocate_Ok [OF assms(1,3)])
  note charges = charge_exact [OF assms(1) i]
  have pos: "node_position (numa_nodes s) (node_id (numa_nodes s ! i)) = Some i"
    using assms(2) i(1) by (rule node_position_distinct)
  show ?thesis
    using i(1) r charges numa_inv_lengths [OF assms(1)] pos
    by (auto simp: numa_release_def placement_at_def charge_def pool_choice_def Let_def
        saturating_sub_add unat_div unat_div_ceil2 split: if_splits)
qed

theorem numa_release_undoes_allocate_witness:
  "numa_release (snd (numa_allocate (numa_new two_nodes) 2 300 None True)) 0 2 300 Size2M = numa_new two_nodes"
proof -
  have "fst (numa_allocate (numa_new two_nodes) 2 300 None True) =
      Ok \<lparr>placed_node = 0, placed_cpuset = ''0-3'', placed_hugepage_size = Size2M\<rparr>"
    by code_simp
  then have "numa_allocate (numa_new two_nodes) 2 300 None True =
      (Ok \<lparr>placed_node = 0, placed_cpuset = ''0-3'', placed_hugepage_size = Size2M\<rparr>,
       snd (numa_allocate (numa_new two_nodes) 2 300 None True))"
    by (metis prod.collapse)
  from numa_release_undoes_allocate [OF _ _ this] show ?thesis
    by (simp add: two_nodes_def)
qed

text \<open>
  C20: releasing a VM that ran without hugepages takes 2 MiB pages from the accounts of others.
  Its placement names the 2 MiB pool although nothing was charged there; placing it and
  releasing it on a node where every page in use is accounted for leaves the account short by
  the pages its memory would fill, while the VMs that hold them are all still placed.
\<close>

theorem numa_release_without_hugepages_loses_pages:
  assumes "numa_run t s live False" "distinct (map node_id t)"
    and "numa_allocate s v m hint False = (Ok p, s1)" "i < length t" "node_id (t ! i) = placed_node p"
    and "s2 = numa_release s1 (placed_node p) v m (placed_hugepage_size p)"
  shows "numa_run t s2 live True \<and> unat (allocated_2m_pages s2 ! i) = held_on grant_2m (t ! i) live - (unat m + 1) div 2"
proof -
  let ?g = "grant_of v m False p"
  have "numa_run t s1 (?g # live) False" using assms(1,3) by (rule Grant)
  from Return [OF this, of ?g] have run: "numa_run t s2 live True" by (simp add: assms(6) grant_of_def)
  have acc: "accounts t s live False" using assms(1,2) by (rule numa_run_accounts)
  then have inv: "numa_inv s" "numa_nodes s = t" by (simp_all add: accounts_def)
  obtain k where k: "k < length t" "fits_node s v m False k"
    and r: "p = placement_at s (pool_choice s m False k) k" "s1 = charge s v m (pool_choice s m False k) k"
    using numa_allocate_Ok [OF inv(1) assms(3)] inv(2) by metis
  have "k = i"
    using assms(2,4,5) k(1) by (auto simp: r(1) placement_at_def inv(2) distinct_conv_nth)
  moreover have "node_position t (node_id (t ! i)) = Some i" using assms(2,4) by (rule node_position_distinct)
  ultimately have "unat (allocated_2m_pages s2 ! i) = unat (allocated_2m_pages s ! i) - (unat m + 1) div 2"
    using assms(4) numa_inv_lengths [OF inv(1)]
    by (simp add: assms(6) r numa_release_def placement_at_def pool_choice_def charge_def inv(2) Let_def
        unat_saturating_sub unat_div_ceil2)
  with run acc assms(4) show ?thesis by (simp add: accounts_def)
qed

theorem numa_release_without_hugepages_loses_pages_witness:
  "let s = snd (numa_allocate (numa_new two_nodes) 1 512 (Some 0) True); s1 = snd (numa_allocate s 1 300 (Some 0) False)
   in unat (allocated_2m_pages s ! 0) = 256 \<and> unat (allocated_2m_pages (numa_release s1 0 1 300 Size2M) ! 0) = 106"
proof -
  define s where "s = snd (numa_allocate (numa_new two_nodes) 1 512 (Some 0) True)"
  have "is_ok (fst (numa_allocate (numa_new two_nodes) 1 512 (Some 0) True))" by code_simp
  then obtain q where q: "numa_run two_nodes s [grant_of 1 512 True q] False"
    using run_placed [OF Fresh] unfolding s_def by metis
  have p: "numa_allocate s 1 300 (Some 0) False =
      (Ok \<lparr>placed_node = 0, placed_cpuset = ''0-3'', placed_hugepage_size = Size2M\<rparr>, snd (numa_allocate s 1 300 (Some 0) False))"
    unfolding s_def by (rule prod_eqI) code_simp+
  have a: "unat (allocated_2m_pages s ! 0) = 256" unfolding s_def by code_simp
  have "accounts two_nodes s [grant_of 1 512 True q] False" using q two_nodes_distinct by (rule numa_run_accounts)
  then have "held_on grant_2m (two_nodes ! 0) [grant_of 1 512 True q] = 256"
    using a by (simp add: accounts_def two_nodes_def)
  moreover have "unat (allocated_2m_pages (numa_release (snd (numa_allocate s 1 300 (Some 0) False)) 0 1 300 Size2M) ! 0) =
      held_on grant_2m (two_nodes ! 0) [grant_of 1 512 True q] - (unat (300 :: u32) + 1) div 2"
    using numa_release_without_hugepages_loses_pages [OF q two_nodes_distinct p, of 0, OF _ _ refl]
    by (simp add: two_nodes_def)
  ultimately show ?thesis using a by (simp add: s_def [symmetric] Let_def)
qed

text \<open>
  Parsing the printed form of a non-empty CPU set gives the set back, so the cpuset
  handed to systemd names exactly the CPUs of the node.
\<close>

theorem cpulist_round_trip:
  assumes "cpus \<noteq> []" "sorted_wrt (<) cpus"
  shows "parse_cpulist (format_cpuset cpus) = Ok cpus"
  using assms parse_format_cpuset by (cases cpus) auto

theorem cpulist_round_trip_witness:
  "parse_cpulist (format_cpuset [0, 1, 2, 5, 8, 9]) = Ok [0, 1, 2, 5, 8, 9]"
  by (rule cpulist_round_trip) simp_all

end
