(* ===== verification/Tee.thy ===== *)
theory Tee
  imports Numa Json
begin

text \<open>
  The TEE crate's types and backends (\<^verbatim>\<open>crates/aleph-tee/src\<close>: \<^verbatim>\<open>types.rs\<close>, \<^verbatim>\<open>traits.rs\<close>,
  \<^verbatim>\<open>none.rs\<close>, \<^verbatim>\<open>sev_snp/report.rs\<close>, \<^verbatim>\<open>sev_snp/qemu.rs\<close>, \<^verbatim>\<open>sev_snp/backend.rs\<close>). The parser
  of raw SEV-SNP reports and the guest firmware device belong to the \<^verbatim>\<open>sev\<close> crate and hex
  text to the \<^verbatim>\<open>hex\<close> crate: they are the fields of \<open>sev_lib\<close> and \<open>hex_lib\<close>, arguments of
  the operations. The trait \<^verbatim>\<open>TeeBackend\<close> is the locale \<open>tee_backend\<close>, interpreted on both
  implementations.
\<close>

section \<open>Types\<close>

datatype tee_type = SevSnp | Tdx | NvidiaCc | NoTee

record attestation_report =
  ar_tee_type :: tee_type
  ar_data :: bytes
  ar_report_data :: bytes
  ar_measurement :: bytes

record verification_result =
  vr_valid :: bool
  vr_tee_type :: tee_type
  vr_summary :: string
  vr_measurement :: bytes
  vr_details :: json

record disk_config =
  disk_path :: string
  disk_readonly :: bool
  disk_format :: string

record tee_config =
  tee_backend_type :: tee_type
  tee_policy :: "string option"

record vm_config =
  cfg_vm_id :: string
  cfg_kernel :: "string option"
  cfg_initrd :: "string option"
  cfg_disks :: "disk_config list"
  cfg_vcpus :: u32
  cfg_memory_mb :: u32
  cfg_tee :: tee_config
  cfg_encrypted :: bool
  cfg_numa_node :: "u32 option"
  cfg_hugepage_size :: "huge_page_size option"

text \<open>\<^verbatim>\<open>format!("{:?}", tee_type)\<close> and the kebab-case names of the serialised form.\<close>

fun tee_type_debug :: "tee_type \<Rightarrow> string" where
  "tee_type_debug SevSnp = ''SevSnp''"
| "tee_type_debug Tdx = ''Tdx''"
| "tee_type_debug NvidiaCc = ''NvidiaCc''"
| "tee_type_debug NoTee = ''None''"

fun tee_type_name :: "tee_type \<Rightarrow> string" where
  "tee_type_name SevSnp = ''sev-snp''"
| "tee_type_name Tdx = ''tdx''"
| "tee_type_name NvidiaCc = ''nvidia-cc''"
| "tee_type_name NoTee = ''none''"

definition tee_type_of_name :: "string \<Rightarrow> tee_type option" where
  "tee_type_of_name s =
     (if s = ''sev-snp'' then Some SevSnp else if s = ''tdx'' then Some Tdx
      else if s = ''nvidia-cc'' then Some NvidiaCc else if s = ''none'' then Some NoTee else None)"

section \<open>Reports as JSON\<close>

record hex_lib =
  hex_encode :: "bytes \<Rightarrow> string"
  hex_decode :: "string \<Rightarrow> bytes option"

definition hex_ok :: "hex_lib \<Rightarrow> bool" where
  "hex_ok X \<longleftrightarrow> (\<forall>b. hex_decode X (hex_encode X b) = Some b)"

definition hex_serialize :: "hex_lib \<Rightarrow> bytes \<Rightarrow> json" where
  "hex_serialize X b = JStr (hex_encode X b)"

definition hex_deserialize :: "hex_lib \<Rightarrow> json \<Rightarrow> bytes option" where
  "hex_deserialize X j = Option.bind (as_str j) (hex_decode X)"

definition hex_array_deserialize :: "hex_lib \<Rightarrow> json \<Rightarrow> bytes option" where
  "hex_array_deserialize X j =
     Option.bind (hex_deserialize X j) (\<lambda>b. if length b = 64 then Some b else None)"

definition report_to_json :: "hex_lib \<Rightarrow> attestation_report \<Rightarrow> json" where
  "report_to_json X r =
     JObj [(''tee_type'', JStr (tee_type_name (ar_tee_type r))),
           (''data'', hex_serialize X (ar_data r)),
           (''report_data'', hex_serialize X (ar_report_data r)),
           (''measurement'', hex_serialize X (ar_measurement r))]"

definition report_from_json :: "hex_lib \<Rightarrow> json \<Rightarrow> attestation_report option" where
  "report_from_json X j =
     Option.bind (Option.bind (jget_str j ''tee_type'') tee_type_of_name) (\<lambda>t.
     Option.bind (Option.bind (jget j ''data'') (hex_deserialize X)) (\<lambda>d.
     Option.bind (Option.bind (jget j ''report_data'') (hex_array_deserialize X)) (\<lambda>rd.
     Option.bind (Option.bind (jget j ''measurement'') (hex_deserialize X)) (\<lambda>m.
       Some \<lparr>ar_tee_type = t, ar_data = d, ar_report_data = rd, ar_measurement = m\<rparr>))))"

section \<open>Raw SEV-SNP reports\<close>

record tcb_version =
  tcb_bootloader :: u8
  tcb_tee :: u8
  tcb_snp :: u8
  tcb_microcode :: u8

record sev_report =
  sr_guest_svn :: u32
  sr_vmpl :: u32
  sr_report_data :: bytes
  sr_measurement :: bytes
  sr_chip_id :: bytes
  sr_reported_tcb :: tcb_version

record sev_lib =
  sev_from_bytes :: "bytes \<Rightarrow> sev_report option"
  firmware_open :: "(string, unit) result"
  firmware_get_report :: "bytes \<Rightarrow> (string, bytes) result"

definition report_size :: nat where
  "report_size = 1184"

datatype tee_error =
    BadReportSize nat
  | UnparsableReport
  | FirmwareOpen string
  | FirmwareReport string
  | NotInTee

definition parse_sev_snp_report :: "sev_lib \<Rightarrow> bytes \<Rightarrow> (tee_error, sev_report) result" where
  "parse_sev_snp_report V raw =
     (if length raw \<noteq> report_size then Err (BadReportSize (length raw))
      else ok_or (sev_from_bytes V raw) UnparsableReport)"

definition extract_report_data :: "sev_report \<Rightarrow> bytes" where
  "extract_report_data r = sr_report_data r"

definition extract_measurement :: "sev_report \<Rightarrow> bytes" where
  "extract_measurement r = sr_measurement r"

section \<open>The SEV-SNP backend\<close>

record sev_snp_backend =
  sb_product :: string
  sb_ovmf_path :: string

definition default_policy :: string where
  "default_policy = ''0x30000''"

definition default_ovmf_path :: string where
  "default_ovmf_path = ''/usr/local/share/ovmf-snp/OVMF.fd''"

definition sev_snp_backend_new :: "string \<Rightarrow> sev_snp_backend" where
  "sev_snp_backend_new product = \<lparr>sb_product = product, sb_ovmf_path = default_ovmf_path\<rparr>"

definition with_ovmf_path :: "sev_snp_backend \<Rightarrow> string \<Rightarrow> sev_snp_backend" where
  "with_ovmf_path b ovmf_path = b\<lparr>sb_ovmf_path := ovmf_path\<rparr>"

definition sev_snp_qemu_args :: "vm_config \<Rightarrow> string \<Rightarrow> string list" where
  "sev_snp_qemu_args config ovmf_path =
     (let policy = unwrap_or (tee_policy (cfg_tee config)) default_policy;
          hugetlb_opts = (case cfg_hugepage_size config of
              Some Size1G \<Rightarrow> '',hugetlb=on,hugetlbsize=1G''
            | Some Size2M \<Rightarrow> '',hugetlb=on,hugetlbsize=2M''
            | None \<Rightarrow> []);
          numa_opts = (case cfg_numa_node config of
              Some node \<Rightarrow> '',host-nodes='' @ show_word node @ '',policy=bind''
            | None \<Rightarrow> []);
          memfd_opts = ''memory-backend-memfd,id=ram1,size='' @ show_word (cfg_memory_mb config) @
            ''M,share=true'' @ hugetlb_opts @ numa_opts
      in [''-cpu'', ''EPYC-v4'', ''-machine'',
          ''q35,confidential-guest-support=sev0,memory-backend=ram1,vmport=off'',
          ''-object'', memfd_opts,
          ''-object'',
          ''sev-snp-guest,id=sev0,cbitpos=51,reduced-phys-bits=1,kernel-hashes=on,policy='' @ policy,
          ''-nodefaults'', ''-bios'', ovmf_path])"

definition sev_parse_report :: "sev_lib \<Rightarrow> bytes \<Rightarrow> (tee_error, attestation_report) result" where
  "sev_parse_report V raw =
     and_then (parse_sev_snp_report V raw) (\<lambda>parsed.
       Ok \<lparr>ar_tee_type = SevSnp, ar_data = raw, ar_report_data = extract_report_data parsed,
           ar_measurement = extract_measurement parsed\<rparr>)"

definition sev_get_report :: "sev_lib \<Rightarrow> bytes \<Rightarrow> (tee_error, attestation_report) result" where
  "sev_get_report V report_data =
     and_then (map_err FirmwareOpen (firmware_open V)) (\<lambda>_.
     and_then (map_err FirmwareReport (firmware_get_report V report_data)) (\<lambda>raw.
       sev_parse_report V raw))"

definition sev_verify_report ::
  "sev_lib \<Rightarrow> sev_snp_backend \<Rightarrow> attestation_report \<Rightarrow> (tee_error, verification_result) result" where
  "sev_verify_report V b report =
     and_then (parse_sev_snp_report V (ar_data report)) (\<lambda>parsed.
       Ok \<lparr>vr_valid = False, vr_tee_type = SevSnp,
           vr_summary = ''SEV-SNP report parsed but NOT cryptographically verified (product: '' @ sb_product b @
             ''). Use verify_sev_snp_report() for full async verification.'',
           vr_measurement = extract_measurement parsed,
           vr_details = JObj [(''product'', JStr (sb_product b)),
             (''guest_svn'', JInt (uint (sr_guest_svn parsed))), (''vmpl'', JInt (uint (sr_vmpl parsed))),
             (''verified'', JBool False), (''note'', JStr (''structural validation only '' @ [CHR 0xE2, CHR 0x80, CHR 0x94] @
               '' use verify_sev_snp_report() for cryptographic verification''))]\<rparr>)"

section \<open>The backend for plain VMs\<close>

definition none_qemu_args :: "vm_config \<Rightarrow> string list" where
  "none_qemu_args config = [''-cpu'', ''host'']"

definition none_get_report :: "bytes \<Rightarrow> (tee_error, attestation_report) result" where
  "none_get_report report_data = Err NotInTee"

definition none_verify_report :: "attestation_report \<Rightarrow> (tee_error, verification_result) result" where
  "none_verify_report report = Err NotInTee"

definition none_parse_report :: "bytes \<Rightarrow> (tee_error, attestation_report) result" where
  "none_parse_report raw = Err NotInTee"

section \<open>The trait\<close>

text \<open>
  The dispatch of \<^verbatim>\<open>dyn TeeBackend\<close>, and what its clients rely on: a report carries the
  backend's type and the raw bytes it was parsed from, a fetched report is a parsed one,
  and the synchronous check never claims a report valid.
\<close>

datatype tee_impl = SevSnpImpl sev_snp_backend | NoTeeImpl

fun impl_tee_type :: "tee_impl \<Rightarrow> tee_type" where
  "impl_tee_type (SevSnpImpl b) = SevSnp"
| "impl_tee_type NoTeeImpl = NoTee"

fun impl_qemu_args :: "tee_impl \<Rightarrow> vm_config \<Rightarrow> string list" where
  "impl_qemu_args (SevSnpImpl b) config = sev_snp_qemu_args config (sb_ovmf_path b)"
| "impl_qemu_args NoTeeImpl config = none_qemu_args config"

fun impl_get_report :: "sev_lib \<Rightarrow> tee_impl \<Rightarrow> bytes \<Rightarrow> (tee_error, attestation_report) result" where
  "impl_get_report V (SevSnpImpl b) rd = sev_get_report V rd"
| "impl_get_report V NoTeeImpl rd = none_get_report rd"

fun impl_parse_report :: "sev_lib \<Rightarrow> tee_impl \<Rightarrow> bytes \<Rightarrow> (tee_error, attestation_report) result" where
  "impl_parse_report V (SevSnpImpl b) raw = sev_parse_report V raw"
| "impl_parse_report V NoTeeImpl raw = none_parse_report raw"

fun impl_verify_report ::
  "sev_lib \<Rightarrow> tee_impl \<Rightarrow> attestation_report \<Rightarrow> (tee_error, verification_result) result" where
  "impl_verify_report V (SevSnpImpl b) r = sev_verify_report V b r"
| "impl_verify_report V NoTeeImpl r = none_verify_report r"

locale tee_backend =
  fixes tee_type :: tee_type
    and get_report :: "bytes \<Rightarrow> (tee_error, attestation_report) result"
    and verify_report :: "attestation_report \<Rightarrow> (tee_error, verification_result) result"
    and parse_report :: "bytes \<Rightarrow> (tee_error, attestation_report) result"
  assumes parse_type: "parse_report raw = Ok r \<Longrightarrow> ar_tee_type r = tee_type \<and> ar_data r = raw"
    and get_parses: "get_report rd = Ok r \<Longrightarrow> \<exists>raw. parse_report raw = Ok r"
    and verify_never_valid: "verify_report r = Ok v \<Longrightarrow> \<not> vr_valid v \<and> vr_tee_type v = tee_type"
    and verify_measurement:
      "parse_report raw = Ok r \<Longrightarrow> verify_report r = Ok v \<Longrightarrow> vr_measurement v = ar_measurement r"
begin

text \<open>A report can be rebuilt from its raw data, so the fields carry nothing of their own.\<close>

lemma reparse: "parse_report raw = Ok r \<Longrightarrow> parse_report (ar_data r) = Ok r"
  using parse_type by blast

lemma get_type: "get_report rd = Ok r \<Longrightarrow> ar_tee_type r = tee_type \<and> parse_report (ar_data r) = Ok r"
  using get_parses parse_type by blast

end

interpretation tee: tee_backend "impl_tee_type B" "impl_get_report V B" "impl_verify_report V B" "impl_parse_report V B"
  for V B
proof unfold_locales
  fix raw r
  show "impl_parse_report V B raw = Ok r \<Longrightarrow> ar_tee_type r = impl_tee_type B \<and> ar_data r = raw"
    by (cases B) (auto simp: sev_parse_report_def none_parse_report_def and_then_Ok)
next
  fix rd r
  show "impl_get_report V B rd = Ok r \<Longrightarrow> \<exists>raw. impl_parse_report V B raw = Ok r"
    by (cases B) (auto simp: sev_get_report_def none_get_report_def and_then_Ok)
next
  fix r v
  show "impl_verify_report V B r = Ok v \<Longrightarrow> \<not> vr_valid v \<and> vr_tee_type v = impl_tee_type B"
    by (cases B) (auto simp: sev_verify_report_def none_verify_report_def and_then_Ok)
next
  fix raw r v
  show "impl_parse_report V B raw = Ok r \<Longrightarrow> impl_verify_report V B r = Ok v \<Longrightarrow> vr_measurement v = ar_measurement r"
    by (cases B) (auto simp: sev_verify_report_def none_verify_report_def sev_parse_report_def and_then_Ok)
qed

section \<open>Properties\<close>

lemma tee_type_of_name_inverse [simp]: "tee_type_of_name (tee_type_name t) = Some t"
  by (cases t) (simp_all add: tee_type_of_name_def)

text \<open>
  An attestation report survives its JSON form: decoding what was encoded gives the
  report back, exactly when its report data has the 64 bytes of the protocol.
\<close>

theorem report_json_round_trip:
  assumes "hex_ok X"
  shows "report_from_json X (report_to_json X r) = (if length (ar_report_data r) = 64 then Some r else None)"
  using assms
  by (simp add: report_from_json_def report_to_json_def hex_serialize_def hex_deserialize_def
      hex_array_deserialize_def hex_ok_def)

text \<open>Lower-case hexadecimal, the instance the witnesses use.\<close>

definition hex_val :: "char \<Rightarrow> nat option" where
  "hex_val c =
     (if is_ascii_digit c then Some (code c - 48)
      else if 97 \<le> code c \<and> code c \<le> 102 then Some (code c - 87)
      else if 65 \<le> code c \<and> code c \<le> 70 then Some (code c - 55)
      else None)"

fun hex_pairs :: "string \<Rightarrow> bytes option" where
  "hex_pairs [] = Some []"
| "hex_pairs [c] = None"
| "hex_pairs (c # d # s) =
     Option.bind (hex_val c) (\<lambda>h. Option.bind (hex_val d) (\<lambda>l.
     Option.bind (hex_pairs s) (\<lambda>bs. Some (of_nat (16 * h + l) # bs))))"

definition demo_hex :: hex_lib where
  "demo_hex = \<lparr>hex_encode = (\<lambda>bs. concat (map hex2 bs)), hex_decode = hex_pairs\<rparr>"

lemma hex_val_hex_digit: "n < 16 \<Longrightarrow> hex_val (hex_digit n) = Some n"
  by (simp add: hex_val_def is_ascii_digit_def code_hex_digit)

lemma demo_hex_ok: "hex_ok demo_hex"
proof -
  have "hex_pairs (concat (map hex2 bs)) = Some bs" for bs
  proof (induction bs)
    case (Cons b bs)
    have "16 * of_nat (unat b div 16) + of_nat (unat b mod 16) = b"
      by (metis mult_div_mod_eq of_nat_add of_nat_mult of_nat_numeral of_nat_unat ucast_id)
    moreover have "unat b div 16 < 16" using unat_u8_less [of b] by simp
    ultimately show ?case using Cons by (simp add: hex2_def hex_val_hex_digit)
  qed simp
  then show ?thesis by (simp add: hex_ok_def demo_hex_def)
qed

lemma hex_digit_lower: "n < 16 \<Longrightarrow> is_ascii_digit (hex_digit n) \<or> is_ascii_lowercase (hex_digit n)"
  by (simp add: is_ascii_digit_def is_ascii_lowercase_def code_hex_digit)

lemma demo_hex_chars: "c \<in> set (hex_encode demo_hex bs) \<Longrightarrow> is_ascii_digit c \<or> is_ascii_lowercase c"
proof -
  have "unat b div 16 < 16" for b :: u8 using unat_u8_less [of b] by simp
  then have "\<forall>c \<in> set (hex2 b). is_ascii_digit c \<or> is_ascii_lowercase c" for b
    by (simp add: hex2_def hex_digit_lower)
  then show "c \<in> set (hex_encode demo_hex bs) \<Longrightarrow> ?thesis"
    by (auto simp: demo_hex_def)
qed

theorem report_json_round_trip_witness:
  "report_from_json demo_hex (report_to_json demo_hex
     \<lparr>ar_tee_type = SevSnp, ar_data = [1, 2], ar_report_data = replicate 64 7, ar_measurement = [3]\<rparr>) =
   Some \<lparr>ar_tee_type = SevSnp, ar_data = [1, 2], ar_report_data = replicate 64 7, ar_measurement = [3]\<rparr>"
  by (subst report_json_round_trip [OF demo_hex_ok]) simp

end
