(* ===== verification/Qemu.thy ===== *)
theory Qemu
  imports Host Tee
begin

text \<open>
  Launching QEMU (\<^verbatim>\<open>crates/aleph-compute-node/src\<close>: \<^verbatim>\<open>qemu/args.rs\<close>, \<^verbatim>\<open>qemu/process.rs\<close>,
  \<^verbatim>\<open>verity.rs\<close>): the command line, the dm-verity artefacts of the disks, and the process as a
  systemd unit. The panics of the command-line builder are error values.
\<close>

section \<open>The command line\<close>

record qemu_paths =
  qmp_socket :: path

definition paths_for_vm :: "path \<Rightarrow> string \<Rightarrow> qemu_paths" where
  "paths_for_vm run_dir vm_id = \<lparr>qmp_socket = path_join (path_join run_dir vm_id) ''qmp.sock''\<rparr>"

datatype qemu_panic = UnsupportedDiskFormat string | DiskPathComma string

definition drive_option :: "disk_config \<Rightarrow> string" where
  "drive_option disk =
     ''file='' @ disk_path disk @ '',format='' @ disk_format disk @ '',if=virtio,readonly='' @
     (if disk_readonly disk then ''on'' else ''off'')"

fun drive_args :: "disk_config list \<Rightarrow> (qemu_panic, string list) result" where
  "drive_args [] = Ok []"
| "drive_args (disk # disks) =
     (if disk_format disk \<noteq> ''raw'' \<and> disk_format disk \<noteq> ''qcow2''
      then Err (UnsupportedDiskFormat (disk_format disk))
      else if CHR '','' \<in> set (disk_path disk) then Err (DiskPathComma (disk_path disk))
      else and_then (drive_args disks) (\<lambda>rest. Ok (''-drive'' # drive_option disk # rest)))"

definition boot_args :: "vm_config \<Rightarrow> string option \<Rightarrow> string list" where
  "boot_args config kernel_cmdline =
     (case (cfg_kernel config, cfg_initrd config) of
        (Some kernel_path, Some initrd_path) \<Rightarrow>
          [''-kernel'', kernel_path, ''-initrd'', initrd_path] @
          (case kernel_cmdline of Some cmdline \<Rightarrow> [''-append'', cmdline] | None \<Rightarrow> [])
      | _ \<Rightarrow> [''-boot'', ''order=c''])"

definition netdev_option :: "string \<Rightarrow> string" where
  "netdev_option tap_name = ''tap,id=net0,ifname='' @ tap_name @ '',script=no,downscript=no''"

definition build_qemu_command ::
  "vm_config \<Rightarrow> qemu_paths \<Rightarrow> string \<Rightarrow> tee_impl \<Rightarrow> string \<Rightarrow> string option \<Rightarrow>
   (qemu_panic, string list) result" where
  "build_qemu_command config paths tap_name backend mac_addr kernel_cmdline =
     and_then (drive_args (cfg_disks config)) (\<lambda>drives.
       Ok ([''-enable-kvm'', ''-smp'', show_word (cfg_vcpus config), ''-m'',
            show_word (cfg_memory_mb config) @ ''M'', ''-nographic'', ''-no-reboot''] @
           boot_args config kernel_cmdline @
           [''-serial'', ''stdio''] @
           [''-qmp'', ''unix:'' @ qmp_socket paths @ '',server,nowait''] @
           [''-netdev'', netdev_option tap_name,
            ''-device'', ''virtio-net-pci,netdev=net0,mac='' @ mac_addr] @
           drives @
           impl_qemu_args backend config))"

section \<open>dm-verity\<close>

record verity_info =
  root_hash :: string
  hashtree_path :: path

datatype verity_error =
    VeritySpawn string
  | VerityFailed string
  | VerityNoRootHash
  | VerityIo path io_error

definition parse_root_hash :: "string \<Rightarrow> string option" where
  "parse_root_hash stdout =
     (case List.find (\<lambda>line. starts_with line ''Root hash:'') (str_lines stdout) of
        None \<Rightarrow> None
      | Some line \<Rightarrow>
          (case split_whitespace line of [] \<Rightarrow> None
           | ws \<Rightarrow> Some (to_lowercase (trim (last ws)))))"

definition compute_verity ::
  "'x host \<Rightarrow> path \<Rightarrow> path \<Rightarrow> path \<Rightarrow> 'x world \<Rightarrow> (verity_error, verity_info) result \<times> 'x world" where
  "compute_verity H rootfs_path hashtree roothash_path w =
     (case h_run H ''veritysetup'' [''format'', rootfs_path, hashtree] w of
        (Inl e, w') \<Rightarrow> (Err (VeritySpawn e), w')
      | (Inr (ok, stdout, stderr), w') \<Rightarrow>
          if \<not> ok then (Err (VerityFailed stderr), w')
          else bindE (ok_or (parse_root_hash stdout) VerityNoRootHash, w') (\<lambda>hash w.
               bindE (on_fs (VerityIo roothash_path) (fs_write (h_io H) roothash_path hash) w) (\<lambda>_ w.
               (Ok \<lparr>root_hash = hash, hashtree_path = hashtree\<rparr>, w))))"

definition ensure_verity ::
  "'x host \<Rightarrow> path \<Rightarrow> 'x world \<Rightarrow> (verity_error, verity_info) result \<times> 'x world" where
  "ensure_verity H rootfs_path w =
     (let hashtree = rootfs_path @ ''.verity'';
          roothash_path = rootfs_path @ ''.roothash'';
          fs = w_fs w;
          fresh = path_exists hashtree fs \<and> path_exists roothash_path fs \<and>
            (case (modified rootfs_path fs, modified roothash_path fs) of
               (Some rootfs_t, Some cache_t) \<Rightarrow> cache_t \<ge> rootfs_t
             | _ \<Rightarrow> False)
      in if fresh
         then (map_err (VerityIo roothash_path)
                (and_then (read_to_string (h_io H) roothash_path fs) (\<lambda>s.
                   Ok \<lparr>root_hash = trim s, hashtree_path = hashtree\<rparr>)), w)
         else compute_verity H rootfs_path hashtree roothash_path w)"

definition build_kernel_cmdline :: "string option \<Rightarrow> string option \<Rightarrow> bool \<Rightarrow> string" where
  "build_kernel_cmdline roothash workload_roothash encrypted =
     (if encrypted then ''console=ttyS0 luks=1''
      else (case roothash of
              Some hash \<Rightarrow> ''console=ttyS0 root=/dev/mapper/verity-root ro roothash='' @ hash
            | None \<Rightarrow> ''console=ttyS0 root=/dev/vda ro'') @
           (case workload_roothash of Some hash \<Rightarrow> '' workload_roothash='' @ hash | None \<Rightarrow> []))"

section \<open>The QEMU process\<close>

record qemu_process =
  proc_paths :: qemu_paths
  proc_vm_id :: string

definition qemu_spawn ::
  "'x host \<Rightarrow> string list \<Rightarrow> qemu_paths \<Rightarrow> string \<Rightarrow> path list \<Rightarrow> string option \<Rightarrow> bool \<Rightarrow> 'x world \<Rightarrow>
   (spawn_error, qemu_process) result \<times> 'x world" where
  "qemu_spawn H args paths vm_id rw_dirs numa_cpuset needs_sev_devices w =
     (case path_parent (qmp_socket paths) of
        None \<Rightarrow> (Err NoParent, w)
      | Some vm_dir \<Rightarrow>
          bindE (on_fs (\<lambda>e. SpawnHost (FileFailed vm_dir e))
                  (run_steps (h_io H) [Mkdir vm_dir, SetMode vm_dir 448]) w) (\<lambda>_ w.
          bindE (start_vm_unit H vm_id args vm_dir rw_dirs numa_cpuset needs_sev_devices
                  (reset_failed_unit H vm_id w)) (\<lambda>_ w.
          (Ok \<lparr>proc_paths = paths, proc_vm_id = vm_id\<rparr>, w))))"

definition qemu_reconnect :: "'x host \<Rightarrow> qemu_paths \<Rightarrow> string \<Rightarrow> 'x world \<Rightarrow> qemu_process option \<times> 'x world" where
  "qemu_reconnect H paths vm_id w =
     (case is_unit_active H vm_id w of
        (active, w') \<Rightarrow> (if active then Some \<lparr>proc_paths = paths, proc_vm_id = vm_id\<rparr> else None, w'))"

definition qemu_is_running :: "'x host \<Rightarrow> qemu_process \<Rightarrow> 'x world \<Rightarrow> bool \<times> 'x world" where
  "qemu_is_running H p w = is_unit_active H (proc_vm_id p) w"

definition qemu_stop :: "'x host \<Rightarrow> qemu_process \<Rightarrow> 'x world \<Rightarrow> (host_error, unit) result \<times> 'x world" where
  "qemu_stop H p w = stop_vm_unit H (proc_vm_id p) w"

section \<open>Properties\<close>

definition disk_ok :: "disk_config \<Rightarrow> bool" where
  "disk_ok d \<longleftrightarrow> (disk_format d = ''raw'' \<or> disk_format d = ''qcow2'') \<and> CHR '','' \<notin> set (disk_path d)"

lemma drive_args_Ok:
  "list_all disk_ok ds \<Longrightarrow> drive_args ds = Ok (concat (map (\<lambda>d. [''-drive'', drive_option d]) ds))"
  by (induction ds) (auto simp: disk_ok_def)

lemma drive_args_Err: "\<not> list_all disk_ok ds \<Longrightarrow> \<exists>e. drive_args ds = Err e"
proof (induction ds)
  case (Cons d ds)
  then show ?case by (cases "disk_ok d") (auto simp: disk_ok_def)
qed simp

lemma split_drive_option:
  assumes "disk_ok d"
  shows "split_on CHR '','' (drive_option d) =
    [''file='' @ disk_path d, ''format='' @ disk_format d, ''if=virtio'',
     ''readonly='' @ (if disk_readonly d then ''on'' else ''off'')]"
proof -
  let ?ps = "[''file='' @ disk_path d, ''format='' @ disk_format d, ''if=virtio'',
     ''readonly='' @ (if disk_readonly d then ''on'' else ''off'')]"
  have "drive_option d = join_with '','' ?ps" by (simp add: drive_option_def)
  moreover have "split_on CHR '','' (join_with [CHR '',''] ?ps) = ?ps"
    using assms by (intro split_on_join_with) (auto simp: disk_ok_def)
  ultimately show ?thesis by simp
qed

text \<open>
  C16: the command-line builder panics exactly when some disk has a format outside the
  allow-list or a comma in its path; otherwise every disk gives one drive option, and QEMU,
  which separates options at commas, reads from it the four settings the code meant and no
  other: no disk path or format injects an option.
\<close>

theorem qemu_drives_exact:
  "(case build_qemu_command config paths tap backend mac cmdline of
      Inl p \<Rightarrow> \<not> list_all disk_ok (cfg_disks config)
    | Inr args \<Rightarrow>
        list_all disk_ok (cfg_disks config) \<and>
        (\<exists>pre. args = pre @ concat (map (\<lambda>d. [''-drive'', drive_option d]) (cfg_disks config)) @
           impl_qemu_args backend config) \<and>
        (\<forall>d \<in> set (cfg_disks config). split_on CHR '','' (drive_option d) =
           [''file='' @ disk_path d, ''format='' @ disk_format d, ''if=virtio'',
            ''readonly='' @ (if disk_readonly d then ''on'' else ''off'')]))"
proof (cases "list_all disk_ok (cfg_disks config)")
  case True
  then have "\<forall>d \<in> set (cfg_disks config). disk_ok d" by (simp add: list_all_iff)
  with True show ?thesis
    unfolding build_qemu_command_def drive_args_Ok [OF True] and_then_simps sum.case
    using split_drive_option by (metis append.assoc)
next
  case False
  then obtain e where "drive_args (cfg_disks config) = Err e" using drive_args_Err by blast
  with False show ?thesis by (simp add: build_qemu_command_def)
qed

theorem qemu_drives_exact_witness:
  "split_on CHR '','' (drive_option \<lparr>disk_path = ''/img/a'', disk_readonly = True, disk_format = ''raw''\<rparr>) =
     [''file=/img/a'', ''format=raw'', ''if=virtio'', ''readonly=on'']"
proof -
  let ?d = "\<lparr>disk_path = ''/img/a'', disk_readonly = True, disk_format = ''raw''\<rparr>"
  let ?c = "\<lparr>cfg_vm_id = ''vm1'', cfg_kernel = None, cfg_initrd = None, cfg_disks = [?d], cfg_vcpus = 1,
     cfg_memory_mb = 512, cfg_tee = \<lparr>tee_backend_type = NoTee, tee_policy = None\<rparr>, cfg_encrypted = False,
     cfg_numa_node = None, cfg_hugepage_size = None\<rparr>"
  have "disk_ok ?d" by (simp add: disk_ok_def)
  then obtain args where "build_qemu_command ?c (paths_for_vm ''/run'' ''vm1'') ''tap-vm1'' NoTeeImpl ''m'' None = Ok args"
    by (simp add: build_qemu_command_def disk_ok_def)
  then show ?thesis
    using qemu_drives_exact [where config = ?c and paths = "paths_for_vm ''/run'' ''vm1''" and tap = "''tap-vm1''"
        and backend = NoTeeImpl and mac = "''m''" and cmdline = None] by simp
qed

text \<open>
  Dm-verity artefacts are reused only while they are at least as new as the image, and
  then nothing is recomputed; otherwise a successful call has run \<^verbatim>\<open>veritysetup format\<close> on
  the image and stored the root hash it reports, so that right after it the cached value
  is the one returned.
\<close>

theorem ensure_verity_caches:
  assumes "ensure_verity H p w = (Ok v, w')"
  shows "hashtree_path v = p @ ''.verity'' \<and>
    (if path_exists (p @ ''.verity'') (w_fs w) \<and>
        (\<exists>t c. modified p (w_fs w) = Some t \<and> modified (p @ ''.roothash'') (w_fs w) = Some c \<and> t \<le> c)
     then w' = w \<and> (\<exists>s. fs_content (w_fs w) (p @ ''.roothash'') = Some s \<and> root_hash v = trim s)
     else fs_content (w_fs w') (p @ ''.roothash'') = Some (root_hash v) \<and>
       (\<exists>out err w1. h_run H ''veritysetup'' [''format'', p, p @ ''.verity''] w = (Ok (True, out, err), w1) \<and>
          parse_root_hash out = Some (root_hash v)))"
proof -
  let ?fs = "w_fs w"
  let ?r = "p @ ''.roothash''"
  let ?fresh = "path_exists (p @ ''.verity'') ?fs \<and> path_exists ?r ?fs \<and>
      (case (modified p ?fs, modified ?r ?fs) of (Some t, Some c) \<Rightarrow> c \<ge> t | _ \<Rightarrow> False)"
  have "path_exists ?r ?fs" if "modified ?r ?fs = Some c" for c
    using that by (auto simp: modified_def path_exists_def fs_content_def)
  then have fresh: "?fresh \<longleftrightarrow> path_exists (p @ ''.verity'') ?fs \<and>
      (\<exists>t c. modified p ?fs = Some t \<and> modified ?r ?fs = Some c \<and> t \<le> c)"
    by (auto split: option.splits)
  show ?thesis
  proof (cases ?fresh)
    case True
    with assms have "w' = w \<and> (\<exists>s. fs_content ?fs ?r = Some s \<and> v = \<lparr>root_hash = trim s, hashtree_path = p @ ''.verity''\<rparr>)"
      by (auto simp: ensure_verity_def Let_def and_then_Ok read_to_string_def split: option.splits)
    with True fresh show ?thesis by auto
  next
    case False
    with assms have c: "compute_verity H p (p @ ''.verity'') ?r w = (Ok v, w')"
      unfolding ensure_verity_def Let_def by (simp only: if_False)
    then obtain out err w1 hash fs2 where h: "h_run H ''veritysetup'' [''format'', p, p @ ''.verity''] w = (Ok (True, out, err), w1)"
        "parse_root_hash out = Some hash" "fs_write (h_io H) ?r hash (w_fs w1) = (Ok (), fs2)"
        "v = \<lparr>root_hash = hash, hashtree_path = p @ ''.verity''\<rparr>" "w' = w1\<lparr>w_fs := fs2\<rparr>"
      by (auto simp: compute_verity_def bindE_Ok on_fs_Ok split: prod.splits sum.splits if_splits)
    have nf: "\<not> (path_exists (p @ ''.verity'') ?fs \<and>
        (\<exists>t c. modified p ?fs = Some t \<and> modified ?r ?fs = Some c \<and> t \<le> c))"
      using False fresh by blast
    show ?thesis
      unfolding if_not_P [OF nf] using h fs_write_Ok [OF h(3), of ?r] by auto
  qed
qed

theorem ensure_verity_caches_witness:
  "let w' = snd (ensure_verity demo_host ''/img'' demo_world)
   in fs_content (w_fs w') ''/img.roothash'' = Some ''ab12''"
proof -
  let ?r = "ensure_verity demo_host ''/img'' demo_world"
  have f: "fst ?r = Ok \<lparr>root_hash = ''ab12'', hashtree_path = ''/img.verity''\<rparr>" by code_simp
  then have "?r = (Ok \<lparr>root_hash = ''ab12'', hashtree_path = ''/img.verity''\<rparr>, snd ?r)"
    by (metis prod.collapse)
  from ensure_verity_caches [OF this] show ?thesis
    by (auto simp: Let_def demo_world_def empty_fs_def path_exists_def modified_def fs_content_def split: if_splits)
qed

end
