(* ===== verification/Persistence.thy ===== *)
theory Persistence
  imports Qemu
begin

text \<open>
  The persisted VM records (\<^verbatim>\<open>crates/aleph-compute-node/src/persistence.rs\<close>): saving by
  writing a temporary file and renaming it, loading every \<^verbatim>\<open>.json\<close> file of the state
  directory, deleting. The text form of a record is serde's: \<open>vm_codec\<close> is an argument, and
  \<open>codec_ok\<close> says that reading undoes printing. An error on a single directory entry counts
  as a fault of reading the directory. Steps take effect in their order: that \<^verbatim>\<open>sync_all\<close> keeps a disk
  from reordering them is not modelled, so atomicity rests on the temporary file and the rename.
\<close>

record persisted_vm =
  pv_config :: vm_config
  pv_ip :: ipv4
  pv_ipv6 :: "ipv6net option"
  pv_tap_name :: string
  pv_mac_addr :: string
  pv_port_forwards :: "port_forward list"
  pv_created_at_epoch :: u64
  pv_numa_node :: "u32 option"

record vm_codec =
  vm_print :: "persisted_vm \<Rightarrow> (string, string) result"
  vm_parse :: "string \<Rightarrow> persisted_vm option"

definition codec_ok :: "vm_codec \<Rightarrow> bool" where
  "codec_ok K \<longleftrightarrow> (\<forall>v s. vm_print K v = Ok s \<longrightarrow> vm_parse K s = Some v)"

datatype persist_error = PersistIo io_error | PersistPrint string

definition state_path :: "path \<Rightarrow> string \<Rightarrow> path" where
  "state_path state_dir vm_id = path_join state_dir (vm_id @ ''.json'')"

definition tmp_path :: "path \<Rightarrow> string \<Rightarrow> path" where
  "tmp_path state_dir vm_id = path_join state_dir (vm_id @ ''.json.tmp'')"

definition save_steps :: "path \<Rightarrow> string \<Rightarrow> string \<Rightarrow> fs_step list" where
  "save_steps state_dir vm_id json =
     (let tmp = tmp_path state_dir vm_id
      in [Create tmp, WriteAll tmp json, SyncAll tmp, Rename tmp (state_path state_dir vm_id)])"

definition save_vm ::
  "io_env \<Rightarrow> vm_codec \<Rightarrow> path \<Rightarrow> string \<Rightarrow> persisted_vm \<Rightarrow> filesystem \<Rightarrow>
   (persist_error, unit) result \<times> filesystem" where
  "save_vm I K state_dir vm_id vm fs =
     (case run_steps I [Mkdir state_dir] fs of
        (Inl e, fs1) \<Rightarrow> (Err (PersistIo e), fs1)
      | (Inr _, fs1) \<Rightarrow>
          (case vm_print K vm of
             Inl e \<Rightarrow> (Err (PersistPrint e), fs1)
           | Inr json \<Rightarrow>
               (case run_steps I (save_steps state_dir vm_id json) fs1 of
                  (r, fs2) \<Rightarrow> (map_err PersistIo r, fs2))))"

definition load_file :: "io_env \<Rightarrow> vm_codec \<Rightarrow> filesystem \<Rightarrow> path \<Rightarrow> persisted_vm option" where
  "load_file I K fs p =
     (if path_extension p = Some ''json''
      then (case read_to_string I p fs of Inl e \<Rightarrow> None | Inr json \<Rightarrow> vm_parse K json)
      else None)"

definition load_all_vms ::
  "io_env \<Rightarrow> vm_codec \<Rightarrow> path \<Rightarrow> filesystem \<Rightarrow> (io_error, persisted_vm list) result" where
  "load_all_vms I K state_dir fs =
     (case read_dir I state_dir fs of
        Inl NotFound \<Rightarrow> Ok []
      | Inl e \<Rightarrow> Err e
      | Inr entries \<Rightarrow> Ok (List.map_filter (load_file I K fs) entries))"

definition delete_persisted :: "io_env \<Rightarrow> path \<Rightarrow> string \<Rightarrow> filesystem \<Rightarrow> (io_error, unit) result \<times> filesystem" where
  "delete_persisted I state_dir vm_id fs =
     (case remove_file I (state_path state_dir vm_id) fs of
        (Inr u, fs') \<Rightarrow> (Ok u, fs')
      | (Inl NotFound, fs') \<Rightarrow> (Ok (), fs')
      | (Inl e, fs') \<Rightarrow> (Err e, fs'))"

section \<open>Paths of the state directory\<close>

lemma tmp_path_neq [simp]: "tmp_path d v \<noteq> state_path d v" "state_path d v \<noteq> tmp_path d v"
proof -
  have "length (tmp_path d v) = length (state_path d v) + 4"
    by (cases v) (simp_all add: tmp_path_def state_path_def path_join_def starts_with_def)
  then show "tmp_path d v \<noteq> state_path d v" "state_path d v \<noteq> tmp_path d v"
    by (metis add_eq_self_zero zero_neq_numeral)+
qed

definition clean_dir :: "path \<Rightarrow> bool" where
  "clean_dir d \<longleftrightarrow> d \<noteq> [] \<and> last d \<noteq> CHR ''/''"

definition clean_name :: "string \<Rightarrow> bool" where
  "clean_name n \<longleftrightarrow> n \<noteq> [] \<and> CHR ''/'' \<notin> set n"

lemma clean_join: "clean_dir d \<Longrightarrow> clean_name n \<Longrightarrow> path_join d n = d @ CHR ''/'' # n"
  by (cases n) (auto simp: clean_dir_def clean_name_def path_join_def starts_with_def)

lemma trim_end_matches_id: "s \<noteq> [] \<Longrightarrow> last s \<noteq> c \<Longrightarrow> trim_end_matches c s = s"
  by (cases s rule: rev_cases) (auto simp: trim_end_matches_def)

lemma parent_join:
  assumes "clean_dir d" "clean_name n"
  shows "path_parent (path_join d n) = Some d"
proof -
  have "last (d @ CHR ''/'' # n) \<noteq> CHR ''/''"
    using assms(2) unfolding clean_name_def by (metis last_ConsR last_appendR last_in_set list.simps(3))
  then have "trim_end_matches CHR ''/'' (d @ CHR ''/'' # n) = d @ CHR ''/'' # n"
    by (intro trim_end_matches_id) simp
  moreover have "trim_end_matches CHR ''/'' d = d"
    using assms(1) by (intro trim_end_matches_id) (simp_all add: clean_dir_def)
  ultimately show ?thesis
    using assms by (simp add: path_parent_def clean_join before_last_append clean_name_def clean_dir_def)
qed

lemma file_name_join: "clean_dir d \<Longrightarrow> clean_name n \<Longrightarrow> file_name (path_join d n) = n"
  by (simp add: clean_join file_name_def after_last_append clean_name_def)

lemma extension_json:
  assumes "clean_dir d" "clean_name v"
  shows "path_extension (state_path d v) = Some ''json''"
    and "path_extension (tmp_path d v) = Some ''tmp''"
proof -
  have n: "clean_name (v @ ''.json'')" "clean_name (v @ ''.json.tmp'')"
    using assms(2) by (auto simp: clean_name_def)
  have "before_last CHR ''.'' (v @ ''.json'') = Some v" "after_last CHR ''.'' (v @ ''.json'') = ''json''"
    using before_last_append [of "CHR ''.''" "''json''" v] after_last_append [of "CHR ''.''" "''json''" v] by simp_all
  then show "path_extension (state_path d v) = Some ''json''"
    using assms n(1) by (simp add: path_extension_def state_path_def file_name_join clean_name_def)
  have "before_last CHR ''.'' ((v @ ''.json'') @ ''.tmp'') = Some (v @ ''.json'')"
    "after_last CHR ''.'' ((v @ ''.json'') @ ''.tmp'') = ''tmp''"
    using before_last_append [of "CHR ''.''" "''tmp''" "v @ ''.json''"]
      after_last_append [of "CHR ''.''" "''tmp''" "v @ ''.json''"] by simp_all
  then show "path_extension (tmp_path d v) = Some ''tmp''"
    using assms n(2) by (simp add: path_extension_def tmp_path_def file_name_join)
qed

section \<open>The effect of a save\<close>

lemma fs_exec_Create: "fs_exec I (Create p) fs = (Ok (), fs') \<Longrightarrow> fs' = fs_put p [] fs"
  by (auto simp: fs_exec_def split: option.splits)

lemma fs_exec_Write: "fs_exec I (WriteAll p s) fs = (Ok (), fs') \<Longrightarrow> fs' = fs_append p s fs"
  by (auto simp: fs_exec_def split: option.splits)

lemma fs_exec_Sync: "snd (fs_exec I (SyncAll p) fs) = fs"
  by (auto simp: fs_exec_def fs_fail_def split: option.splits prod.splits)

lemma fs_exec_Rename:
  "fs_exec I (Rename p q) fs = (r, fs') \<Longrightarrow>
     (r = Ok () \<and> (\<exists>n. hm_get (fs_files fs) p = Some n \<and>
        fs' = fs\<lparr>fs_files := hm_insert q n (hm_remove p (fs_files fs))\<rparr>)) \<or> ((\<exists>e. r = Err e) \<and> fs' = fs)"
  by (auto simp: fs_exec_def fs_fail_def split: option.splits prod.splits)

lemma save_steps_Ok:
  assumes "run_steps I (save_steps d v json) fs = (Ok (), fs')"
  shows "fs_content fs' (state_path d v) = Some json \<and> fs_content fs' (tmp_path d v) = None \<and>
    (\<forall>q. q \<noteq> state_path d v \<longrightarrow> q \<noteq> tmp_path d v \<longrightarrow> fs_content fs' q = fs_content fs q) \<and>
    fs_dirs fs' = fs_dirs fs"
proof -
  obtain fs1 fs2 fs3 where s: "fs_exec I (Create (tmp_path d v)) fs = (Ok (), fs1)"
      "fs_exec I (WriteAll (tmp_path d v) json) fs1 = (Ok (), fs2)"
      "fs_exec I (SyncAll (tmp_path d v)) fs2 = (Ok (), fs3)"
      "fs_exec I (Rename (tmp_path d v) (state_path d v)) fs3 = (Ok (), fs')"
    using assms by (auto simp: save_steps_def Let_def bindE_Ok)
  have 3: "fs3 = fs_append (tmp_path d v) json (fs_put (tmp_path d v) [] fs)"
    using fs_exec_Create [OF s(1)] fs_exec_Write [OF s(2)] fs_exec_Sync [of I "tmp_path d v" fs2] s(3) by simp
  from fs_exec_Rename [OF s(4)] obtain n where
    n: "hm_get (fs_files fs3) (tmp_path d v) = Some n"
      "fs' = fs3\<lparr>fs_files := hm_insert (state_path d v) n (hm_remove (tmp_path d v) (fs_files fs3))\<rparr>"
    by auto
  have c: "fs_content fs' q = (if q = state_path d v then Some (contents n) else if q = tmp_path d v then None
      else fs_content fs3 q)" for q
    using n by (simp add: fs_content_def)
  have "fs_content fs3 (tmp_path d v) = Some (contents n)" using n(1) by (simp add: fs_content_def)
  moreover have "fs_content fs3 (tmp_path d v) = Some json" by (simp add: 3)
  ultimately have "contents n = json" by simp
  with c show ?thesis by (simp add: 3 n(2))
qed

text \<open>At every moment of a save, crash or error included, the record is the old or the new one.\<close>

lemma save_prefix:
  "fs_content (snd (run_steps I (take k (save_steps d v json)) fs)) (state_path d v)
     \<in> {fs_content fs (state_path d v), Some json}"
proof (cases "k < 4")
  case True
  have "\<forall>st \<in> set (take k (save_steps d v json)). state_path d v \<notin> step_targets st"
    using set_take_subset [of 3 "save_steps d v json"] True
    by (auto simp: save_steps_def Let_def take_Cons' split: if_splits)
  then show ?thesis by (simp add: run_steps_frame)
next
  case False
  then have k: "take k (save_steps d v json) = save_steps d v json" by (simp add: save_steps_def Let_def)
  obtain r fs' where r: "run_steps I (save_steps d v json) fs = (r, fs')" by (cases "run_steps I (save_steps d v json) fs")
  show ?thesis
  proof (cases r)
    case (Inr u)
    with r save_steps_Ok [of I d v json fs fs'] show ?thesis by (simp add: k)
  next
    case (Inl e)
    let ?pre = "take 3 (save_steps d v json)"
    have split: "save_steps d v json = ?pre @ [Rename (tmp_path d v) (state_path d v)]"
      by (simp add: save_steps_def Let_def)
    have "\<forall>st \<in> set ?pre. state_path d v \<notin> step_targets st"
      by (auto simp: save_steps_def Let_def)
    then have pre: "fs_content (snd (run_steps I ?pre fs)) (state_path d v) = fs_content fs (state_path d v)"
      by (rule run_steps_frame)
    have "fs_content fs' (state_path d v) = fs_content fs (state_path d v)"
    proof (cases "run_steps I ?pre fs")
      case (Pair r1 fs1)
      then have "bindE (r1, fs1) (\<lambda>_ fs2. run_steps I [Rename (tmp_path d v) (state_path d v)] fs2) = (Err e, fs')"
        using r Inl run_steps_append [of I ?pre "[Rename (tmp_path d v) (state_path d v)]" fs] split by simp
      then show ?thesis
        using pre Pair fs_exec_Rename [of I "tmp_path d v" "state_path d v" fs1]
        by (cases r1; cases "fs_exec I (Rename (tmp_path d v) (state_path d v)) fs1") (auto simp: bindE_def split: sum.splits)
    qed
    with r k show ?thesis by simp
  qed
qed

lemma save_vm_cases:
  assumes "save_vm I K d v vm fs = (r, fs')"
  obtains (mkdir) fs1 where "run_steps I [Mkdir d] fs = (Ok (), fs1)" "\<forall>q. fs_content fs1 q = fs_content fs q"
      "d \<in> set (fs_dirs fs1)" "case vm_print K vm of Inl e \<Rightarrow> r = Err (PersistPrint e) \<and> fs' = fs1
        | Inr json \<Rightarrow> \<exists>r1. run_steps I (save_steps d v json) fs1 = (r1, fs') \<and> r = map_err PersistIo r1"
  | (fail) e where "r = Err (PersistIo e)" "\<forall>q. fs_content fs' q = fs_content fs q"
proof (cases "run_steps I [Mkdir d] fs")
  case (Pair r0 fs1)
  have q: "fs_content fs1 q = fs_content fs q" for q
    using run_steps_frame [of "[Mkdir d]" q I fs] Pair by simp
  show ?thesis
  proof (cases r0)
    case (Inl e)
    with Pair assms q fail show ?thesis by (auto simp: save_vm_def)
  next
    case (Inr u)
    with Pair have "d \<in> set (fs_dirs fs1)"
      by (auto simp: fs_exec_def split: option.splits)
    moreover have "case vm_print K vm of Inl e \<Rightarrow> r = Err (PersistPrint e) \<and> fs' = fs1
        | Inr json \<Rightarrow> \<exists>r1. run_steps I (save_steps d v json) fs1 = (r1, fs') \<and> r = map_err PersistIo r1"
      using assms Pair Inr by (auto simp: save_vm_def simp del: run_steps.simps split: sum.splits prod.splits)
    ultimately show ?thesis using mkdir Pair Inr q by auto
  qed
qed

section \<open>Properties\<close>

text \<open>
  C3: saving is atomic. Whatever fault or crash interrupts it, the VM's state file holds
  either its previous contents or the complete new record; and a successful save has
  replaced it, removed the temporary file, and touched no other file.
\<close>

theorem save_vm_atomic:
  assumes "vm_print K vm = Ok json"
  shows "fs_content (snd (run_steps I (take k (Mkdir d # save_steps d v json)) fs)) (state_path d v)
      \<in> {fs_content fs (state_path d v), Some json} \<and>
    (save_vm I K d v vm fs = (Ok (), fs') \<longrightarrow>
       fs_content fs' (state_path d v) = Some json \<and> fs_content fs' (tmp_path d v) = None \<and>
       (\<forall>q. q \<noteq> state_path d v \<longrightarrow> q \<noteq> tmp_path d v \<longrightarrow> fs_content fs' q = fs_content fs q))"
proof
  show "fs_content (snd (run_steps I (take k (Mkdir d # save_steps d v json)) fs)) (state_path d v)
      \<in> {fs_content fs (state_path d v), Some json}"
  proof (cases k)
    case (Suc j)
    obtain r fs1 where p: "fs_exec I (Mkdir d) fs = (r, fs1)" by (cases "fs_exec I (Mkdir d) fs")
    then have "fs_content fs1 (state_path d v) = fs_content fs (state_path d v)"
      using fs_exec_frame [of "state_path d v" "Mkdir d" I fs] by simp
    with p Suc save_prefix [of I j d v json fs1] show ?thesis
      by (cases r) auto
  qed simp
next
  show "save_vm I K d v vm fs = (Ok (), fs') \<longrightarrow>
       fs_content fs' (state_path d v) = Some json \<and> fs_content fs' (tmp_path d v) = None \<and>
       (\<forall>q. q \<noteq> state_path d v \<longrightarrow> q \<noteq> tmp_path d v \<longrightarrow> fs_content fs' q = fs_content fs q)"
  proof
    assume "save_vm I K d v vm fs = (Ok (), fs')"
    then show "fs_content fs' (state_path d v) = Some json \<and> fs_content fs' (tmp_path d v) = None \<and>
       (\<forall>q. q \<noteq> state_path d v \<longrightarrow> q \<noteq> tmp_path d v \<longrightarrow> fs_content fs' q = fs_content fs q)"
    proof (cases rule: save_vm_cases)
      case (mkdir fs1)
      then obtain r1 where "run_steps I (save_steps d v json) fs1 = (r1, fs')" "Ok () = map_err PersistIo r1"
        using assms by auto
      then have "run_steps I (save_steps d v json) fs1 = (Ok (), fs')" by (cases r1) auto
      from save_steps_Ok [OF this] mkdir(2) show ?thesis by simp
    qed simp
  qed
qed

definition demo_vm :: persisted_vm where
  "demo_vm = \<lparr>pv_config = \<lparr>cfg_vm_id = ''vm1'', cfg_kernel = None, cfg_initrd = None, cfg_disks = [],
       cfg_vcpus = 1, cfg_memory_mb = 512, cfg_tee = \<lparr>tee_backend_type = NoTee, tee_policy = None\<rparr>,
       cfg_encrypted = False, cfg_numa_node = None, cfg_hugepage_size = None\<rparr>,
     pv_ip = (10, 0, 0, 2), pv_ipv6 = None, pv_tap_name = ''tap-vm1'', pv_mac_addr = ''m'',
     pv_port_forwards = [], pv_created_at_epoch = 1000, pv_numa_node = Some 0\<rparr>"

definition demo_codec :: vm_codec where
  "demo_codec = \<lparr>vm_print = (\<lambda>v. if v = demo_vm then Ok ''{vm1}'' else Err ''unknown''),
     vm_parse = (\<lambda>s. if s = ''{vm1}'' then Some demo_vm else None)\<rparr>"

lemma demo_codec_ok: "codec_ok demo_codec"
  by (simp add: codec_ok_def demo_codec_def)

theorem save_vm_atomic_witness:
  "fs_content (snd (run_steps quiet_io (take 3 (Mkdir ''/s'' # save_steps ''/s'' ''vm1'' ''{vm1}'')) empty_fs))
     (state_path ''/s'' ''vm1'') \<in> {None, Some ''{vm1}''}"
proof -
  have "vm_print demo_codec demo_vm = Ok ''{vm1}''" by (simp add: demo_codec_def)
  from save_vm_atomic [OF this, of quiet_io 3 "''/s''" "''vm1''" empty_fs] show ?thesis
    by (simp add: empty_fs_def fs_content_def)
qed

text \<open>
  What was saved is loaded. After a successful save of a VM with a proper name, reading
  the state directory back gives that record among the loaded ones, while the temporary
  file of an unfinished save is never loaded.
\<close>

theorem load_after_save:
  assumes "codec_ok K" "clean_dir d" "clean_name v" "save_vm I K d v vm fs = (Ok (), fs')"
    and "dir_fault I fs' d = None" "read_fault I fs' (state_path d v) = None"
  shows "(\<exists>vms. load_all_vms I K d fs' = Ok vms \<and> vm \<in> set vms) \<and> load_file I K fs'' (tmp_path d v) = None"
proof
  show "load_file I K fs'' (tmp_path d v) = None"
    using extension_json [OF assms(2,3)] by (simp add: load_file_def)
  from assms(4) show "\<exists>vms. load_all_vms I K d fs' = Ok vms \<and> vm \<in> set vms"
  proof (cases rule: save_vm_cases)
    case (mkdir fs1)
    then obtain json where j: "vm_print K vm = Ok json" "run_steps I (save_steps d v json) fs1 = (Ok (), fs')"
      by (cases "vm_print K vm") auto
    note s = save_steps_Ok [OF j(2)]
    have dir: "d \<in> set (fs_dirs fs')" using s mkdir(3) by simp
    have "clean_name (v @ ''.json'')" using assms(3) by (auto simp: clean_name_def)
    then have par: "path_parent (state_path d v) = Some d"
      using parent_join [OF assms(2)] by (simp add: state_path_def)
    have key: "state_path d v \<in> set (hm_keys (fs_files fs'))"
      using s by (auto simp: fs_content_def hm_keys_get)
    have "load_file I K fs' (state_path d v) = Some vm"
      using assms(1,6) j(1) s extension_json(1) [OF assms(2,3)]
      by (simp add: load_file_def read_to_string_def codec_ok_def)
    then show ?thesis
      using dir par key assms(5) by (auto simp: load_all_vms_def read_dir_def in_map_filter)
  qed simp
qed

theorem load_after_save_witness:
  "\<exists>vms. load_all_vms quiet_io demo_codec ''/s'' (snd (save_vm quiet_io demo_codec ''/s'' ''vm1'' demo_vm empty_fs)) = Ok vms
     \<and> demo_vm \<in> set vms"
proof -
  let ?r = "save_vm quiet_io demo_codec ''/s'' ''vm1'' demo_vm empty_fs"
  have "fst ?r = Ok ()" by code_simp
  then have "?r = (Ok (), snd ?r)" by (metis prod.collapse)
  from load_after_save [OF demo_codec_ok _ _ this, of empty_fs] show ?thesis
    by (simp add: clean_dir_def clean_name_def quiet_io_def)
qed

end
