(* ===== verification/Port_Forward.thy ===== *)
theory Port_Forward
  imports Network_Types
begin

text \<open>
  The port forwarding table (\<^verbatim>\<open>crates/aleph-network/src/ipv4/port_forward.rs\<close>): a map
  from host port and protocol to the forward, with the search for a free host port and
  the bulk removal of a VM's forwards.
\<close>

record pf_state =
  forwards :: "(u16 \<times> protocol, port_forward) hmap"

definition pf_new :: pf_state where
  "pf_new = \<lparr>forwards = hm_empty\<rparr>"

definition is_available :: "pf_state \<Rightarrow> u16 \<Rightarrow> protocol \<Rightarrow> bool" where
  "is_available s host_port proto = (\<not> hm_contains_key (forwards s) (host_port, proto))"

text \<open>The search \<^verbatim>\<open>(start..=65535).find(..)\<close>, on the natural numbers.\<close>

function find_port :: "(u16 \<Rightarrow> bool) \<Rightarrow> nat \<Rightarrow> u16 option" where
  "find_port avail n =
     (if 65535 < n then None
      else if avail (of_nat n) then Some (of_nat n)
      else find_port avail (Suc n))"
  by pat_completeness auto
termination
  by (relation "measure (\<lambda>(avail, n). 65536 - n)") auto

declare find_port.simps [simp del]

definition auto_allocate :: "pf_state \<Rightarrow> protocol \<Rightarrow> u16 \<Rightarrow> u16 option" where
  "auto_allocate s proto start = find_port (\<lambda>p. is_available s p proto) (unat start)"

definition pf_add :: "pf_state \<Rightarrow> port_forward \<Rightarrow> pf_state" where
  "pf_add s f = s\<lparr>forwards := hm_insert (pf_host_port f, pf_protocol f) f (forwards s)\<rparr>"

definition pf_remove :: "pf_state \<Rightarrow> u16 \<Rightarrow> protocol \<Rightarrow> port_forward option \<times> pf_state" where
  "pf_remove s host_port proto =
     (hm_get (forwards s) (host_port, proto),
      s\<lparr>forwards := hm_remove (host_port, proto) (forwards s)\<rparr>)"

definition list_for_vm :: "pf_state \<Rightarrow> string \<Rightarrow> port_forward list" where
  "list_for_vm s vm_id = filter (\<lambda>f. pf_vm_id f = vm_id) (hm_values (forwards s))"

definition list_all_forwards :: "pf_state \<Rightarrow> port_forward list" where
  "list_all_forwards s = hm_values (forwards s)"

text \<open>
  The keys of the VM's forwards are collected first, then removed one by one
  (\<^verbatim>\<open>filter_map(|k| self.forwards.remove(&k))\<close>).
\<close>

fun remove_keys :: "pf_state \<Rightarrow> (u16 \<times> protocol) list \<Rightarrow> port_forward list \<times> pf_state" where
  "remove_keys s [] = ([], s)"
| "remove_keys s (k # ks) =
     (let (r, s1) = pf_remove s (fst k) (snd k);
          (rs, s2) = remove_keys s1 ks
      in (case r of None \<Rightarrow> rs | Some f \<Rightarrow> f # rs, s2))"

definition remove_all_for_vm :: "pf_state \<Rightarrow> string \<Rightarrow> port_forward list \<times> pf_state" where
  "remove_all_for_vm s vm_id =
     (let keys = map fst (filter (\<lambda>e. pf_vm_id (snd e) = vm_id) (forwards s))
      in remove_keys s keys)"

text \<open>The table is keyed by the port and protocol its entries carry.\<close>

definition pf_inv :: "pf_state \<Rightarrow> bool" where
  "pf_inv s \<longleftrightarrow> hm_wf (forwards s) \<and>
     list_all (\<lambda>e. fst e = (pf_host_port (snd e), pf_protocol (snd e))) (forwards s)"

definition pf_lookup :: "pf_state \<Rightarrow> u16 \<Rightarrow> protocol \<Rightarrow> port_forward option" where
  "pf_lookup s host_port proto = hm_get (forwards s) (host_port, proto)"

section \<open>Lookups and the invariant\<close>

lemma pf_inv_new [simp]: "pf_inv pf_new"
  by (simp add: pf_inv_def pf_new_def)

lemma pf_inv_iff:
  "pf_inv s \<longleftrightarrow> hm_wf (forwards s) \<and>
     (\<forall>k f. hm_get (forwards s) k = Some f \<longrightarrow> k = (pf_host_port f, pf_protocol f))"
  by (auto simp: pf_inv_def list_all_iff simp flip: hm_get_set) (metis fst_conv prod.inject snd_conv)+

lemma pf_inv_add [inv_intros]: "pf_inv s \<Longrightarrow> pf_inv (pf_add s f)"
  by (auto simp: pf_inv_iff pf_add_def)

lemma pf_inv_remove [inv_intros]: "pf_inv s \<Longrightarrow> pf_inv (snd (pf_remove s p proto))"
  by (auto simp: pf_inv_iff pf_remove_def)

lemma is_available_lookup: "is_available s p proto \<longleftrightarrow> pf_lookup s p proto = None"
  by (simp add: is_available_def hm_contains_key_def pf_lookup_def)

lemma pf_lookup_new [simp]: "pf_lookup pf_new p proto = None"
  by (simp add: pf_lookup_def pf_new_def)

lemma pf_lookup_add [simp]:
  "pf_lookup (pf_add s f) p proto =
     (if p = pf_host_port f \<and> proto = pf_protocol f then Some f else pf_lookup s p proto)"
  by (auto simp: pf_lookup_def pf_add_def)

lemma fst_pf_remove [simp]: "fst (pf_remove s p proto) = pf_lookup s p proto"
  by (simp add: pf_remove_def pf_lookup_def)

lemma pf_lookup_remove [simp]:
  "pf_lookup (snd (pf_remove s p proto)) q proto' =
     (if q = p \<and> proto' = proto then None else pf_lookup s q proto')"
  by (auto simp: pf_lookup_def pf_remove_def)

lemma list_all_forwards_lookup:
  "pf_inv s \<Longrightarrow>
   f \<in> set (list_all_forwards s) \<longleftrightarrow> pf_lookup s (pf_host_port f) (pf_protocol f) = Some f"
  by (auto simp: list_all_forwards_def pf_inv_iff hm_values_get pf_lookup_def)

lemma list_for_vm_lookup:
  "pf_inv s \<Longrightarrow>
   f \<in> set (list_for_vm s vm) \<longleftrightarrow>
     pf_vm_id f = vm \<and> pf_lookup s (pf_host_port f) (pf_protocol f) = Some f"
  using list_all_forwards_lookup [of s f] by (auto simp: list_for_vm_def list_all_forwards_def)

section \<open>The search for a free port\<close>

lemma find_port_Some:
  "find_port avail n = Some p \<Longrightarrow>
     n \<le> unat p \<and> avail p \<and> (\<forall>m. n \<le> m \<and> m < unat p \<longrightarrow> \<not> avail (of_nat m))"
proof (induction avail n rule: find_port.induct)
  case (1 avail n)
  show ?case
  proof (cases "65535 < n \<or> avail (of_nat n)")
    case True
    with "1.prems" show ?thesis
      by (auto simp: find_port.simps [of avail n] unat_of_nat split: if_splits)
  next
    case False
    with "1.prems" have "find_port avail (Suc n) = Some p"
      by (simp add: find_port.simps [of avail n])
    with "1.IH" False have IH: "Suc n \<le> unat p \<and> avail p \<and>
        (\<forall>m. Suc n \<le> m \<and> m < unat p \<longrightarrow> \<not> avail (of_nat m))" by auto
    with False show ?thesis by (metis Suc_leD le_neq_implies_less less_eq_Suc_le)
  qed
qed

lemma find_port_None:
  "find_port avail n = None \<Longrightarrow> n \<le> m \<Longrightarrow> m \<le> 65535 \<Longrightarrow> \<not> avail (of_nat m)"
proof (induction avail n arbitrary: m rule: find_port.induct)
  case (1 avail n)
  from "1.prems"(1,2,3) have n: "\<not> 65535 < n" "\<not> avail (of_nat n)" "find_port avail (Suc n) = None"
    by (auto simp: find_port.simps [of avail n] split: if_splits)
  show ?case
  proof (cases "m = n")
    case False
    with "1.prems"(2) have "Suc n \<le> m" by simp
    from "1.IH" [OF n this "1.prems"(3)] show ?thesis .
  qed (use n in simp)
qed

lemma unat_u16_le: "unat (p :: u16) \<le> 65535"
  using unsigned_less [of p, where ?'a = nat] by simp

section \<open>Removing a VM's forwards\<close>

lemma remove_keys_Cons:
  "remove_keys s (k # ks) =
     (let rest = remove_keys (snd (pf_remove s (fst k) (snd k))) ks
      in (case pf_lookup s (fst k) (snd k) of None \<Rightarrow> fst rest | Some f \<Rightarrow> f # fst rest, snd rest))"
  by (simp add: Let_def split_beta)

lemma remove_keys_lookup:
  "pf_lookup (snd (remove_keys s ks)) p proto =
     (if (p, proto) \<in> set ks then None else pf_lookup s p proto)"
  by (induction ks arbitrary: s) (auto simp: remove_keys_Cons Let_def simp del: remove_keys.simps(2))

lemma remove_keys_inv: "pf_inv s \<Longrightarrow> pf_inv (snd (remove_keys s ks))"
  by (induction ks arbitrary: s)
     (auto simp: remove_keys_Cons Let_def pf_inv_remove simp del: remove_keys.simps(2))

lemma remove_keys_result:
  "distinct ks \<Longrightarrow>
   f \<in> set (fst (remove_keys s ks)) \<longleftrightarrow> (\<exists>k \<in> set ks. pf_lookup s (fst k) (snd k) = Some f)"
proof (induction ks arbitrary: s)
  case (Cons k ks)
  let ?s1 = "snd (pf_remove s (fst k) (snd k))"
  have "pf_lookup ?s1 (fst k') (snd k') = pf_lookup s (fst k') (snd k')" if "k' \<in> set ks" for k'
    using Cons.prems that prod_eqI [of k' k] by auto
  with Cons.prems Cons.IH [of ?s1]
  have "f \<in> set (fst (remove_keys ?s1 ks)) \<longleftrightarrow> (\<exists>k' \<in> set ks. pf_lookup s (fst k') (snd k') = Some f)"
    by auto
  then show ?case
    by (auto simp: remove_keys_Cons Let_def simp del: remove_keys.simps(2) split: option.splits)
qed simp

lemma remove_all_for_vm_keys:
  "pf_inv s \<Longrightarrow>
   (p, proto) \<in> set (map fst (filter (\<lambda>e. pf_vm_id (snd e) = vm) (forwards s))) \<longleftrightarrow>
     (\<exists>f. pf_lookup s p proto = Some f \<and> pf_vm_id f = vm)"
  by (auto simp: pf_inv_iff pf_lookup_def image_iff simp flip: hm_get_set)

lemma remove_all_for_vm_lookup:
  assumes "pf_inv s"
  shows "pf_lookup (snd (remove_all_for_vm s vm)) p proto =
    (case pf_lookup s p proto of None \<Rightarrow> None
     | Some f \<Rightarrow> if pf_vm_id f = vm then None else Some f)"
  using remove_all_for_vm_keys [OF assms, of p proto vm]
  by (auto simp: remove_all_for_vm_def Let_def remove_keys_lookup simp del: set_map set_filter
           split: option.splits)

lemma remove_all_for_vm_inv [inv_intros]: "pf_inv s \<Longrightarrow> pf_inv (snd (remove_all_for_vm s vm))"
  by (simp add: remove_all_for_vm_def Let_def remove_keys_inv)

lemma remove_all_for_vm_result:
  assumes "pf_inv s"
  shows "set (fst (remove_all_for_vm s vm)) = set (list_for_vm s vm)"
proof -
  let ?ks = "map fst (filter (\<lambda>e. pf_vm_id (snd e) = vm) (forwards s))"
  have "distinct ?ks"
    using assms by (auto simp: pf_inv_def hm_wf_def distinct_map intro: inj_on_subset)
  then have "f \<in> set (fst (remove_keys s ?ks)) \<longleftrightarrow>
      (\<exists>p proto. (p, proto) \<in> set ?ks \<and> pf_lookup s p proto = Some f)" for f
    by (simp only: remove_keys_result Bex_def split_paired_Ex fst_conv snd_conv)
  also have "(\<exists>p proto. (p, proto) \<in> set ?ks \<and> pf_lookup s p proto = Some f) \<longleftrightarrow>
      (\<exists>p proto. pf_lookup s p proto = Some f) \<and> pf_vm_id f = vm" for f
    unfolding remove_all_for_vm_keys [OF assms] by auto
  also have "(\<exists>p proto. pf_lookup s p proto = Some f) \<and> pf_vm_id f = vm \<longleftrightarrow>
      f \<in> set (list_for_vm s vm)" for f
    unfolding list_for_vm_lookup [OF assms]
    using assms by (auto simp: pf_inv_iff pf_lookup_def)
  finally show ?thesis by (auto simp: remove_all_for_vm_def Let_def)
qed

section \<open>Properties\<close>

text \<open>
  The automatic allocation returns a host port exactly when it is the lowest port at
  or above the start that no forward of the protocol uses, and fails exactly when every
  port from the start to 65535 is taken.
\<close>

theorem auto_allocate_lowest_free:
  "(auto_allocate s proto start = Some p \<longleftrightarrow>
      start \<le> p \<and> is_available s p proto \<and>
      (\<forall>q. start \<le> q \<and> q < p \<longrightarrow> \<not> is_available s q proto)) \<and>
   (auto_allocate s proto start = None \<longleftrightarrow> (\<forall>q. start \<le> q \<longrightarrow> \<not> is_available s q proto))"
proof -
  let ?av = "\<lambda>q. is_available s q proto"
  have some: "start \<le> r \<and> ?av r \<and> (\<forall>q. start \<le> q \<and> q < r \<longrightarrow> \<not> ?av q)"
    if "auto_allocate s proto start = Some r" for r
    using find_port_Some [of ?av "unat start" r] that
    by (auto simp: auto_allocate_def word_le_nat_alt word_less_nat_alt)
  have none: "\<not> ?av q" if "auto_allocate s proto start = None" "start \<le> q" for q
    using find_port_None [of ?av "unat start" "unat q"] that unat_u16_le [of q]
    by (auto simp: auto_allocate_def word_le_nat_alt)
  have uniq: "r = p" if "auto_allocate s proto start = Some r" "start \<le> p" "?av p"
      "\<forall>q. start \<le> q \<and> q < p \<longrightarrow> \<not> ?av q" for r
    using some [OF that(1)] that(2-4) by (meson linorder_neqE)
  show ?thesis
    using some none uniq by (metis not_None_eq)
qed

theorem auto_allocate_lowest_free_witness:
  "auto_allocate (pf_add pf_new \<lparr>pf_vm_id = ''vm1'', pf_host_port = 10000, pf_vm_port = 80,
     pf_protocol = Tcp\<rparr>) Tcp 10000 = Some 10001"
proof -
  have "q = 10000" if "10000 \<le> q" "q < 10001" for q :: u16
    using that by unat_arith
  then show ?thesis
    unfolding auto_allocate_lowest_free [THEN conjunct1]
    by (auto simp: is_available_lookup)
qed

text \<open>
  Removing a VM's port forwards returns exactly that VM's forwards, leaves no forward
  of the VM behind, keeps every other VM's forward, and keeps the table keyed by the
  port and protocol of its entries.
\<close>

theorem remove_all_for_vm_exact:
  assumes "pf_inv s"
  shows "set (fst (remove_all_for_vm s vm)) = set (list_for_vm s vm)
     \<and> list_for_vm (snd (remove_all_for_vm s vm)) vm = []
     \<and> (\<forall>vm'. vm' \<noteq> vm \<longrightarrow>
          set (list_for_vm (snd (remove_all_for_vm s vm)) vm') = set (list_for_vm s vm'))
     \<and> pf_inv (snd (remove_all_for_vm s vm))"
proof -
  let ?t = "snd (remove_all_for_vm s vm)"
  have inv: "pf_inv ?t" using assms by (rule remove_all_for_vm_inv)
  have mem: "f \<in> set (list_for_vm ?t vm') \<longleftrightarrow> f \<in> set (list_for_vm s vm') \<and> vm' \<noteq> vm" for f vm'
    by (auto simp: list_for_vm_lookup [OF inv] list_for_vm_lookup [OF assms]
        remove_all_for_vm_lookup [OF assms] split: option.splits if_splits)
  have "list_for_vm ?t vm = []"
    using mem [where vm' = vm] by (metis list.set_intros(1) neq_Nil_conv)
  with mem inv remove_all_for_vm_result [OF assms] show ?thesis by auto
qed

theorem remove_all_for_vm_exact_witness:
  "let s = pf_add (pf_add pf_new
         \<lparr>pf_vm_id = ''vm1'', pf_host_port = 8080, pf_vm_port = 80, pf_protocol = Tcp\<rparr>)
         \<lparr>pf_vm_id = ''vm2'', pf_host_port = 9090, pf_vm_port = 80, pf_protocol = Tcp\<rparr>
   in list_for_vm (snd (remove_all_for_vm s ''vm1'')) ''vm1'' = []
      \<and> set (list_for_vm (snd (remove_all_for_vm s ''vm1'')) ''vm2'') = set (list_for_vm s ''vm2'')"
proof -
  let ?s = "pf_add (pf_add pf_new
         \<lparr>pf_vm_id = ''vm1'', pf_host_port = 8080, pf_vm_port = 80, pf_protocol = Tcp\<rparr>)
         \<lparr>pf_vm_id = ''vm2'', pf_host_port = 9090, pf_vm_port = 80, pf_protocol = Tcp\<rparr>"
  have "pf_inv ?s" by (simp add: pf_inv_add)
  from remove_all_for_vm_exact [OF this, of "''vm1''"] show ?thesis by (simp add: Let_def)
qed

end
