(* ===== verification/Vm_Manager.thy ===== *)
theory Vm_Manager
  imports Persistence Port_Forward
begin

text \<open>
  The VM manager (\<^verbatim>\<open>crates/aleph-compute-node/src/vm/manager.rs\<close> and \<^verbatim>\<open>lifecycle.rs\<close>):
  creation with its rollbacks, deletion, port forwards, persistence of their changes and
  recovery at start-up. The manager's locked fields are one record; an operation takes the
  manager and the host and returns both, so a request is one step. (Requests that overlap
  are the subject of \<open>Overlapping\<close>; an uncontended \<^verbatim>\<open>try_lock\<close> succeeds.) The panics of the command-line builder end a request with
  an error, leaving what it did so far in place.
\<close>

section \<open>State\<close>

datatype vm_state = Running | Stopped

fun vm_state_to_string :: "vm_state \<Rightarrow> string" where
  "vm_state_to_string Running = ''running''"
| "vm_state_to_string Stopped = ''stopped''"

record vm_handle =
  vh_config :: vm_config
  vh_state :: vm_state
  vh_ip :: ipv4
  vh_ipv6 :: "ipv6net option"
  vh_process :: "qemu_process option"
  vh_tap_name :: string
  vh_created_at_epoch :: u64
  vh_numa_node :: "u32 option"

record vm_info =
  vi_vm_id :: string
  vi_status :: string
  vi_ip :: string
  vi_ipv6 :: string
  vi_tee :: string
  vi_uptime_secs :: u64
  vi_numa_node :: "u32 option"

record mgr =
  m_vms :: "(string, vm_handle) hmap"
  m_run_dir :: path
  m_state_dir :: path
  m_bridge :: string
  m_gateway_ip :: ipv4
  m_used_ip_offsets :: "u8 set"
  m_backends :: "(tee_type, tee_impl) hmap"
  m_dhcp_hostsdir :: "path option"
  m_nftables :: nft_manager
  m_port_forwards :: pf_state
  m_ipv6_allocator :: "ipv6_alloc option"
  m_ndp_proxy :: "ndp_proxy option"
  m_numa :: numa_allocator

text \<open>The libraries and the host the manager works with.\<close>

record 'x mgr_env =
  e_host :: "'x host"
  e_text :: ipv6_text
  e_lib :: ipv6_lib
  e_codec :: vm_codec

type_synonym 'x mstate = "mgr \<times> 'x world"

datatype mgr_error =
    VmExists string
  | VmNotFound string
  | AddressPoolExhausted
  | Ipv6Failed alloc6_error
  | DhcpFailed host_error
  | Dhcpv6Failed host_error
  | TapFailed host_error
  | NftSetupFailed nft_error
  | NoBackend tee_type
  | VerityFailedFor verity_error
  | NumaFailed numa_error
  | QemuPanic qemu_panic
  | SpawnFailedWith spawn_error
  | NoFreePort
  | PortInUse u16 protocol
  | ForwardNotFound
  | NftForwardFailed nft_error
  | StateDirFailed io_error

definition vm_info_from_handle :: "'x mgr_env \<Rightarrow> 'x world \<Rightarrow> vm_handle \<Rightarrow> vm_info" where
  "vm_info_from_handle E w h =
     \<lparr>vi_vm_id = cfg_vm_id (vh_config h), vi_status = vm_state_to_string (vh_state h),
      vi_ip = show_ipv4 (vh_ip h),
      vi_ipv6 = (case vh_ipv6 h of None \<Rightarrow> [] | Some n \<Rightarrow> show_ipv6net (e_text E) n),
      vi_tee = tee_type_debug (tee_backend_type (cfg_tee (vh_config h))),
      vi_uptime_secs = saturating_sub (h_now (e_host E) w) (vh_created_at_epoch h),
      vi_numa_node = vh_numa_node h\<rparr>"

definition mgr_new ::
  "path \<Rightarrow> path \<Rightarrow> string \<Rightarrow> ipv4 \<Rightarrow> (tee_type, tee_impl) hmap \<Rightarrow> path option \<Rightarrow> string \<Rightarrow>
   ipv6net option \<Rightarrow> bool \<Rightarrow> numa_topology \<Rightarrow> mgr" where
  "mgr_new run_dir state_dir bridge gateway_ip backends dhcp_hostsdir external_interface
     ipv6_pool use_ndp_proxy topology =
     (let ipv6_enabled = ipv6_pool \<noteq> None
      in \<lparr>m_vms = hm_empty, m_run_dir = run_dir, m_state_dir = state_dir, m_bridge = bridge,
          m_gateway_ip = gateway_ip, m_used_ip_offsets = {}, m_backends = backends,
          m_dhcp_hostsdir = dhcp_hostsdir,
          m_nftables = nft_manager_new ''aleph'' external_interface ipv6_enabled,
          m_port_forwards = pf_new,
          m_ipv6_allocator = map_option (\<lambda>p. alloc6_new p 128) ipv6_pool,
          m_ndp_proxy = (if ipv6_enabled \<and> use_ndp_proxy then Some (ndp_new external_interface) else None),
          m_numa = numa_new topology\<rparr>)"

definition get_backend :: "mgr \<Rightarrow> tee_type \<Rightarrow> (mgr_error, tee_impl) result" where
  "get_backend m t = ok_or (hm_get (m_backends m) t) (NoBackend t)"

definition setup_nftables :: "'x mgr_env \<Rightarrow> mgr \<Rightarrow> 'x world \<Rightarrow> (nft_error, unit) result \<times> 'x world" where
  "setup_nftables E m w = on_ext id (nft_initialize (h_nft (e_host E)) (m_nftables m)) w"

section \<open>Creating a VM\<close>

text \<open>The lowest free offset in \<^verbatim>\<open>1..=254\<close>.\<close>

definition free_offset :: "u8 set \<Rightarrow> u8 option" where
  "free_offset used = List.find (\<lambda>o'. o' \<notin> used) (map of_nat [1..<255])"

definition reserve_offset :: "mgr \<Rightarrow> (mgr_error, u8) result \<times> mgr" where
  "reserve_offset m =
     (case free_offset (m_used_ip_offsets m) of
        Some o' \<Rightarrow> (Ok o', m\<lparr>m_used_ip_offsets := insert o' (m_used_ip_offsets m)\<rparr>)
      | None \<Rightarrow> (Err AddressPoolExhausted, m))"

definition allocate_ipv6 ::
  "'x mgr_env \<Rightarrow> string \<Rightarrow> ipv6net option \<Rightarrow> mgr \<Rightarrow> (mgr_error, ipv6net option) result \<times> mgr" where
  "allocate_ipv6 E vm_id requested m =
     (case m_ipv6_allocator m of
        None \<Rightarrow> (Ok None, m)
      | Some alloc \<Rightarrow>
          (case allocate6 (e_lib E) alloc vm_id requested of
             (r, alloc') \<Rightarrow>
               (case r of Inl e \<Rightarrow> Err (Ipv6Failed e) | Inr net \<Rightarrow> Ok (Some net),
                m\<lparr>m_ipv6_allocator := Some alloc'\<rparr>)))"

definition release_ipv6 :: "string \<Rightarrow> mgr \<Rightarrow> mgr" where
  "release_ipv6 vm_id m =
     m\<lparr>m_ipv6_allocator := map_option (\<lambda>a. snd (release6 a vm_id)) (m_ipv6_allocator m)\<rparr>"

definition cleanup_reservations :: "'x mgr_env \<Rightarrow> string \<Rightarrow> bool \<Rightarrow> 'x mstate \<Rightarrow> 'x mstate" where
  "cleanup_reservations E vm_id has_ipv6 st =
     (let m = fst st;
          w1 = (case m_dhcp_hostsdir m of
             None \<Rightarrow> snd st
           | Some hostsdir \<Rightarrow>
               (let w = remove_dhcp_reservation (e_host E) hostsdir vm_id (snd st)
                in if has_ipv6 then remove_dhcpv6_reservation (e_host E) hostsdir vm_id w else w))
      in (if has_ipv6 then release_ipv6 vm_id m else m, w1))"

definition write_reservations ::
  "'x mgr_env \<Rightarrow> string \<Rightarrow> string \<Rightarrow> ipv4 \<Rightarrow> ipv6net option \<Rightarrow> 'x mstate \<Rightarrow> (mgr_error, unit) result \<times> 'x mstate" where
  "write_reservations E vm_id mac vm_ip vm_ipv6 st =
     (case m_dhcp_hostsdir (fst st) of
        None \<Rightarrow> (Ok (), st)
      | Some hostsdir \<Rightarrow>
          (case write_dhcp_reservation (e_host E) hostsdir vm_id mac vm_ip (snd st) of
             (Inl e, w1) \<Rightarrow> (Err (DhcpFailed e), (fst st, w1))
           | (Inr _, w1) \<Rightarrow>
               (case vm_ipv6 of
                  None \<Rightarrow> (Ok (), (fst st, w1))
                | Some ipv6 \<Rightarrow>
                    (case write_dhcpv6_reservation (e_host E) (e_text E) hostsdir vm_id mac (addr ipv6) w1 of
                       (Inr _, w2) \<Rightarrow> (Ok (), (fst st, w2))
                     | (Inl e, w2) \<Rightarrow>
                         (Err (Dhcpv6Failed e),
                          (release_ipv6 vm_id (fst st), remove_dhcp_reservation (e_host E) hostsdir vm_id w2))))))"

definition setup_tap ::
  "'x mgr_env \<Rightarrow> string \<Rightarrow> string \<Rightarrow> ipv6net option \<Rightarrow> 'x mstate \<Rightarrow> (mgr_error, unit) result \<times> 'x mstate" where
  "setup_tap E vm_id tap_name vm_ipv6 st =
     (case create_tap (e_host E) tap_name (m_bridge (fst st)) (snd st) of
        (Inl e, w1) \<Rightarrow> (Err (TapFailed e), cleanup_reservations E vm_id (vm_ipv6 \<noteq> None) (fst st, w1))
      | (Inr _, w1) \<Rightarrow>
          (case vm_ipv6 of
             None \<Rightarrow> (Ok (), (fst st, w1))
           | Some ipv6 \<Rightarrow>
               (case add_ipv6_to_tap (e_host E) (e_text E) tap_name ipv6 w1 of
                  (Inr _, w2) \<Rightarrow> (Ok (), (fst st, w2))
                | (Inl e, w2) \<Rightarrow>
                    (Err (TapFailed e),
                     cleanup_reservations E vm_id True (fst st, ignore (delete_tap (e_host E) tap_name w2))))))"

definition setup_chains ::
  "'x mgr_env \<Rightarrow> string \<Rightarrow> string \<Rightarrow> ipv6net option \<Rightarrow> 'x mstate \<Rightarrow> (mgr_error, unit) result \<times> 'x mstate" where
  "setup_chains E vm_id tap_name vm_ipv6 st =
     (case on_ext id (setup_vm (h_nft (e_host E)) (m_nftables (fst st)) vm_id tap_name) (snd st) of
        (Inl e, w1) \<Rightarrow>
          (Err (NftSetupFailed e),
           cleanup_reservations E vm_id (vm_ipv6 \<noteq> None) (fst st, ignore (delete_tap (e_host E) tap_name w1)))
      | (Inr _, w1) \<Rightarrow>
          (case (vm_ipv6, m_ndp_proxy (fst st)) of
             (Some ipv6, Some ndp) \<Rightarrow>
               (case ndp_add_range (e_host E) (e_text E) ndp tap_name ipv6 w1 of
                  (ndp', w2) \<Rightarrow> (Ok (), ((fst st)\<lparr>m_ndp_proxy := Some ndp'\<rparr>, w2)))
           | _ \<Rightarrow> (Ok (), (fst st, w1))))"

definition hashtree_disk :: "path \<Rightarrow> disk_config" where
  "hashtree_disk p = \<lparr>disk_path = p, disk_readonly = True, disk_format = ''raw''\<rparr>"

text \<open>\<^verbatim>\<open>Vec::insert\<close> at an index inside the vector.\<close>

definition vec_insert :: "nat \<Rightarrow> 'a \<Rightarrow> 'a list \<Rightarrow> 'a list" where
  "vec_insert i x xs = take i xs @ x # drop i xs"

definition verity_boot ::
  "'x mgr_env \<Rightarrow> vm_config \<Rightarrow> disk_config \<Rightarrow> 'x mstate \<Rightarrow>
   (mgr_error, string option \<times> vm_config) result \<times> 'x mstate" where
  "verity_boot E config rootfs_disk st =
     (let has_workload_disk = length (cfg_disks config) > 1
      in case ensure_verity (e_host E) (disk_path rootfs_disk) (snd st) of
           (Inl e, w1) \<Rightarrow> (Err (VerityFailedFor e), (fst st, w1))
         | (Inr vinfo, w1) \<Rightarrow>
             (let config1 = config\<lparr>cfg_disks := vec_insert 1 (hashtree_disk (hashtree_path vinfo)) (cfg_disks config)\<rparr>
              in if has_workload_disk then
                   (case ensure_verity (e_host E) (disk_path (cfg_disks config1 ! 2)) w1 of
                      (Inl e, w2) \<Rightarrow> (Err (VerityFailedFor e), (fst st, w2))
                    | (Inr winfo, w2) \<Rightarrow>
                        (Ok (Some (build_kernel_cmdline (Some (root_hash vinfo)) (Some (root_hash winfo)) False),
                             config1\<lparr>cfg_disks := vec_insert 3 (hashtree_disk (hashtree_path winfo)) (cfg_disks config1)\<rparr>),
                         (fst st, w2)))
                 else (Ok (Some (build_kernel_cmdline (Some (root_hash vinfo)) None False), config1), (fst st, w1))))"

definition prepare_boot ::
  "'x mgr_env \<Rightarrow> vm_config \<Rightarrow> 'x mstate \<Rightarrow> (mgr_error, string option \<times> vm_config) result \<times> 'x mstate" where
  "prepare_boot E config st =
     (if tee_backend_type (cfg_tee config) = NoTee then (Ok (None, config), st)
      else if cfg_encrypted config then (Ok (Some (build_kernel_cmdline None None True), config), st)
      else case cfg_disks config of
             rootfs_disk # _ \<Rightarrow> verity_boot E config rootfs_disk st
           | [] \<Rightarrow> (Ok (Some (build_kernel_cmdline None None False), config), st))"

definition place_vm ::
  "vm_config \<Rightarrow> u32 option \<Rightarrow> 'x mstate \<Rightarrow> (mgr_error, numa_placement \<times> vm_config) result \<times> 'x mstate" where
  "place_vm config numa_hint st =
     (let is_confidential = tee_backend_type (cfg_tee config) \<noteq> NoTee
      in case numa_allocate (m_numa (fst st)) (cfg_vcpus config) (cfg_memory_mb config) numa_hint is_confidential of
           (Inl e, numa') \<Rightarrow> (Err (NumaFailed e), ((fst st)\<lparr>m_numa := numa'\<rparr>, snd st))
         | (Inr p, numa') \<Rightarrow>
             (Ok (p, (if num_nodes numa' > 1 then config\<lparr>cfg_numa_node := Some (placed_node p)\<rparr> else config)
                       \<lparr>cfg_hugepage_size := Some (placed_hugepage_size p)\<rparr>),
              ((fst st)\<lparr>m_numa := numa'\<rparr>, snd st)))"

text \<open>The rollback when QEMU does not start.\<close>

definition spawn_rollback ::
  "'x mgr_env \<Rightarrow> vm_config \<Rightarrow> string \<Rightarrow> string \<Rightarrow> ipv6net option \<Rightarrow> numa_placement \<Rightarrow> 'x mstate \<Rightarrow> 'x mstate" where
  "spawn_rollback E config vm_id tap_name vm_ipv6 placement st =
     (let m1 = (fst st)\<lparr>m_numa := numa_release (m_numa (fst st)) (placed_node placement) (cfg_vcpus config)
            (cfg_memory_mb config) (placed_hugepage_size placement)\<rparr>;
          (m2, w2) = (case (vm_ipv6, m_ndp_proxy m1) of
             (Some _, Some ndp) \<Rightarrow>
               (case ndp_delete_range (e_host E) (e_text E) ndp tap_name (snd st) of
                  (ndp', w) \<Rightarrow> (m1\<lparr>m_ndp_proxy := Some ndp'\<rparr>, w))
           | _ \<Rightarrow> (m1, snd st));
          w3 = ignore (on_ext id (teardown_vm (h_nft (e_host E)) (m_nftables m2) vm_id) w2);
          w4 = ignore (delete_tap (e_host E) tap_name w3)
      in cleanup_reservations E vm_id (vm_ipv6 \<noteq> None) (m2, w4))"

definition rw_dirs :: "vm_config \<Rightarrow> path list" where
  "rw_dirs config = List.map_filter (\<lambda>d. path_parent (disk_path d)) (filter (\<lambda>d. \<not> disk_readonly d) (cfg_disks config))"

definition launch_vm ::
  "'x mgr_env \<Rightarrow> vm_config \<Rightarrow> string \<Rightarrow> string \<Rightarrow> string \<Rightarrow> ipv6net option \<Rightarrow> tee_impl \<Rightarrow> string option \<Rightarrow>
   numa_placement \<Rightarrow> 'x mstate \<Rightarrow> (mgr_error, qemu_process) result \<times> 'x mstate" where
  "launch_vm E config vm_id tap_name mac vm_ipv6 backend cmdline placement st =
     (let paths = paths_for_vm (m_run_dir (fst st)) vm_id
      in case build_qemu_command config paths tap_name backend mac cmdline of
           Inl p \<Rightarrow> (Err (QemuPanic p), st)
         | Inr args \<Rightarrow>
             (case qemu_spawn (e_host E) (''qemu-system-x86_64'' # args) paths vm_id (rw_dirs config)
                     (Some (placed_cpuset placement)) (tee_backend_type (cfg_tee config) \<noteq> NoTee) (snd st) of
                (Inr process, w1) \<Rightarrow> (Ok process, (fst st, w1))
              | (Inl e, w1) \<Rightarrow>
                  (Err (SpawnFailedWith e), spawn_rollback E config vm_id tap_name vm_ipv6 placement (fst st, w1))))"

definition save_state :: "'x mgr_env \<Rightarrow> path \<Rightarrow> string \<Rightarrow> persisted_vm \<Rightarrow> 'x world \<Rightarrow> 'x world" where
  "save_state E state_dir vm_id p w =
     w\<lparr>w_fs := snd (save_vm (h_io (e_host E)) (e_codec E) state_dir vm_id p (w_fs w))\<rparr>"

text \<open>Persisting the record and entering the handle into the table.\<close>

definition register_vm ::
  "'x mgr_env \<Rightarrow> vm_config \<Rightarrow> string \<Rightarrow> string \<Rightarrow> string \<Rightarrow> ipv4 \<Rightarrow> ipv6net option \<Rightarrow> numa_placement \<Rightarrow>
   qemu_process \<Rightarrow> 'x mstate \<Rightarrow> vm_info \<times> 'x mstate" where
  "register_vm E config vm_id tap_name mac vm_ip vm_ipv6 placement process st =
     (let now_epoch = h_now (e_host E) (snd st);
          persisted = \<lparr>pv_config = config, pv_ip = vm_ip, pv_ipv6 = vm_ipv6, pv_tap_name = tap_name,
            pv_mac_addr = mac, pv_port_forwards = [], pv_created_at_epoch = now_epoch,
            pv_numa_node = Some (placed_node placement)\<rparr>;
          w1 = save_state E (m_state_dir (fst st)) vm_id persisted (snd st);
          handle = \<lparr>vh_config = config, vh_state = Running, vh_ip = vm_ip, vh_ipv6 = vm_ipv6,
            vh_process = Some process, vh_tap_name = tap_name, vh_created_at_epoch = now_epoch,
            vh_numa_node = Some (placed_node placement)\<rparr>
      in (vm_info_from_handle E w1 handle,
          ((fst st)\<lparr>m_vms := hm_insert vm_id handle (m_vms (fst st))\<rparr>, w1)))"

definition on_mgr :: "(mgr \<Rightarrow> ('e, 'a) result \<times> mgr) \<Rightarrow> 'x mstate \<Rightarrow> ('e, 'a) result \<times> 'x mstate" where
  "on_mgr f st = (case f (fst st) of (r, m') \<Rightarrow> (r, (m', snd st)))"

text \<open>From the choice of the backend to the entry in the table.\<close>

definition boot_vm ::
  "'x mgr_env \<Rightarrow> vm_config \<Rightarrow> u32 option \<Rightarrow> string \<Rightarrow> ipv4 \<Rightarrow> ipv6net option \<Rightarrow> 'x mstate \<Rightarrow>
   (mgr_error, vm_info) result \<times> 'x mstate" where
  "boot_vm E config numa_hint mac vm_ip vm_ipv6 st =
     (let vm_id = cfg_vm_id config; tap_name = ''tap-'' @ vm_id in
      bindE (get_backend (fst st) (tee_backend_type (cfg_tee config)), st) (\<lambda>backend st.
      bindE (prepare_boot E config st) (\<lambda>(cmdline, config) st.
      bindE (place_vm config numa_hint st) (\<lambda>(placement, config) st.
      bindE (launch_vm E config vm_id tap_name mac vm_ipv6 backend cmdline placement st) (\<lambda>process st.
      case register_vm E config vm_id tap_name mac vm_ip vm_ipv6 placement process st of
        (info, st') \<Rightarrow> (Ok info, st'))))))"

definition create_vm ::
  "'x mgr_env \<Rightarrow> vm_config \<Rightarrow> ipv6net option \<Rightarrow> u32 option \<Rightarrow> 'x mstate \<Rightarrow> (mgr_error, vm_info) result \<times> 'x mstate" where
  "create_vm E config requested_ipv6 numa_hint st =
     (let vm_id = cfg_vm_id config; tap_name = ''tap-'' @ vm_id in
      if hm_contains_key (m_vms (fst st)) vm_id then (Err (VmExists vm_id), st)
      else
        bindE (on_mgr reserve_offset st) (\<lambda>offset st.
        let vm_ip = allocate_vm_ip (m_gateway_ip (fst st)) offset; mac = mac_for_vm_ip vm_ip in
        bindE (on_mgr (allocate_ipv6 E vm_id requested_ipv6) st) (\<lambda>vm_ipv6 st.
        bindE (write_reservations E vm_id mac vm_ip vm_ipv6 st) (\<lambda>_ st.
        bindE (setup_tap E vm_id tap_name vm_ipv6 st) (\<lambda>_ st.
        bindE (setup_chains E vm_id tap_name vm_ipv6 st) (\<lambda>_ st.
        boot_vm E config numa_hint mac vm_ip vm_ipv6 st))))))"

section \<open>Queries\<close>

definition get_vm :: "'x mgr_env \<Rightarrow> string \<Rightarrow> 'x mstate \<Rightarrow> (mgr_error, vm_info) result" where
  "get_vm E vid st =
     and_then (ok_or (hm_get (m_vms (fst st)) vid) (VmNotFound vid)) (\<lambda>h. Ok (vm_info_from_handle E (snd st) h))"

definition list_vms :: "'x mgr_env \<Rightarrow> 'x mstate \<Rightarrow> vm_info list" where
  "list_vms E st = map (vm_info_from_handle E (snd st)) (hm_values (m_vms (fst st)))"

definition list_port_forwards :: "string option \<Rightarrow> mgr \<Rightarrow> port_forward list" where
  "list_port_forwards vm_id m =
     (case vm_id of Some i \<Rightarrow> list_for_vm (m_port_forwards m) i | None \<Rightarrow> list_all_forwards (m_port_forwards m))"

section \<open>Deleting a VM\<close>

definition release_numa :: "vm_handle \<Rightarrow> mgr \<Rightarrow> mgr" where
  "release_numa handle m =
     (case vh_numa_node handle of
        None \<Rightarrow> m
      | Some node \<Rightarrow>
          m\<lparr>m_numa := numa_release (m_numa m) node (cfg_vcpus (vh_config handle)) (cfg_memory_mb (vh_config handle))
              (unwrap_or (cfg_hugepage_size (vh_config handle)) Size2M)\<rparr>)"

definition remove_forward_rules :: "'x mgr_env \<Rightarrow> mgr \<Rightarrow> port_forward list \<Rightarrow> 'x world \<Rightarrow> 'x world" where
  "remove_forward_rules E m fs w =
     foldl (\<lambda>w f. ignore (on_ext id (nft_remove_port_forward (h_nft (e_host E)) (m_nftables m)
        (pf_host_port f) (pf_vm_port f) (pf_protocol f)) w)) w fs"

definition release_vm_network :: "'x mgr_env \<Rightarrow> string \<Rightarrow> vm_handle \<Rightarrow> 'x mstate \<Rightarrow> 'x mstate" where
  "release_vm_network E vid handle st =
     (let m = fst st;
          (m1, w1) = (case m_ndp_proxy m of
             None \<Rightarrow> (m, snd st)
           | Some ndp \<Rightarrow>
               (case ndp_delete_range (e_host E) (e_text E) ndp (vh_tap_name handle) (snd st) of
                  (ndp', w) \<Rightarrow> (m\<lparr>m_ndp_proxy := Some ndp'\<rparr>, w)));
          m2 = (if vh_ipv6 handle \<noteq> None then release_ipv6 vid m1 else m1);
          w2 = ignore (on_ext id (teardown_vm (h_nft (e_host E)) (m_nftables m2) vid) w1);
          w3 = ignore (delete_tap (e_host E) (vh_tap_name handle) w2);
          w4 = (case m_dhcp_hostsdir m2 of
             None \<Rightarrow> w3
           | Some hostsdir \<Rightarrow>
               (let w = remove_dhcp_reservation (e_host E) hostsdir (cfg_vm_id (vh_config handle)) w3
                in if vh_ipv6 handle \<noteq> None
                   then remove_dhcpv6_reservation (e_host E) hostsdir (cfg_vm_id (vh_config handle)) w else w))
      in (m2, w4))"

definition ip_offset :: "ipv4 \<Rightarrow> ipv4 \<Rightarrow> u8" where
  "ip_offset gateway_ip ip = last_octet ip - last_octet gateway_ip"

definition delete_vm :: "'x mgr_env \<Rightarrow> string \<Rightarrow> 'x mstate \<Rightarrow> (mgr_error, unit) result \<times> 'x mstate" where
  "delete_vm E vid st =
     (case hm_get (m_vms (fst st)) vid of
        None \<Rightarrow> (Err (VmNotFound vid), st)
      | Some handle \<Rightarrow>
          (let m1 = (fst st)\<lparr>m_vms := hm_remove vid (m_vms (fst st))\<rparr>;
               w1 = (case vh_process handle of None \<Rightarrow> snd st | Some p \<Rightarrow> ignore (qemu_stop (e_host E) p (snd st)));
               m2 = release_numa handle m1;
               (removed_forwards, pf') = remove_all_for_vm (m_port_forwards m2) vid;
               m3 = m2\<lparr>m_port_forwards := pf'\<rparr>;
               w2 = remove_forward_rules E m3 removed_forwards w1;
               (m4, w3) = release_vm_network E vid handle (m3, w2);
               m5 = m4\<lparr>m_used_ip_offsets := m_used_ip_offsets m4 - {ip_offset (m_gateway_ip m4) (vh_ip handle)}\<rparr>;
               w4 = w3\<lparr>w_fs := snd (delete_persisted (h_io (e_host E)) (m_state_dir m5) vid (w_fs w3))\<rparr>
           in (Ok (), (m5, w4))))"

section \<open>Port forwards\<close>

definition update_persisted_port_forwards :: "'x mgr_env \<Rightarrow> string \<Rightarrow> 'x mstate \<Rightarrow> 'x mstate" where
  "update_persisted_port_forwards E vm_id st =
     (let p = state_path (m_state_dir (fst st)) vm_id
      in case read_to_string (h_io (e_host E)) p (w_fs (snd st)) of
           Inl e \<Rightarrow> st
         | Inr json \<Rightarrow>
             (case vm_parse (e_codec E) json of
                None \<Rightarrow> st
              | Some persisted \<Rightarrow>
                  (fst st, save_state E (m_state_dir (fst st)) vm_id
                     (persisted\<lparr>pv_port_forwards := list_for_vm (m_port_forwards (fst st)) vm_id\<rparr>) (snd st))))"

definition choose_host_port :: "pf_state \<Rightarrow> u16 \<Rightarrow> protocol \<Rightarrow> (mgr_error, u16) result" where
  "choose_host_port pf host_port proto =
     (if host_port = 0 then ok_or (auto_allocate pf proto 10000) NoFreePort
      else if \<not> is_available pf host_port proto then Err (PortInUse host_port proto)
      else Ok host_port)"

definition add_port_forward ::
  "'x mgr_env \<Rightarrow> string \<Rightarrow> u16 \<Rightarrow> u16 \<Rightarrow> protocol \<Rightarrow> 'x mstate \<Rightarrow> (mgr_error, port_forward) result \<times> 'x mstate" where
  "add_port_forward E vm_id host_port vm_port proto st =
     (case hm_get (m_vms (fst st)) vm_id of
        None \<Rightarrow> (Err (VmNotFound vm_id), st)
      | Some handle \<Rightarrow>
          (case choose_host_port (m_port_forwards (fst st)) host_port proto of
             Inl e \<Rightarrow> (Err e, st)
           | Inr actual_host_port \<Rightarrow>
               (let forward = \<lparr>pf_vm_id = vm_id, pf_host_port = actual_host_port, pf_vm_port = vm_port, pf_protocol = proto\<rparr>;
                    m1 = (fst st)\<lparr>m_port_forwards := pf_add (m_port_forwards (fst st)) forward\<rparr>
                in case on_ext id (nft_add_port_forward (h_nft (e_host E)) (m_nftables m1) vm_id (vh_ip handle)
                          actual_host_port vm_port proto) (snd st) of
                     (Inl e, w1) \<Rightarrow>
                       (Err (NftForwardFailed e),
                        (m1\<lparr>m_port_forwards := snd (pf_remove (m_port_forwards m1) actual_host_port proto)\<rparr>, w1))
                   | (Inr _, w1) \<Rightarrow> (Ok forward, update_persisted_port_forwards E vm_id (m1, w1)))))"

definition remove_port_forward ::
  "'x mgr_env \<Rightarrow> u16 \<Rightarrow> protocol \<Rightarrow> 'x mstate \<Rightarrow> (mgr_error, unit) result \<times> 'x mstate" where
  "remove_port_forward E host_port proto st =
     (case pf_remove (m_port_forwards (fst st)) host_port proto of
        (None, pf') \<Rightarrow> (Err ForwardNotFound, ((fst st)\<lparr>m_port_forwards := pf'\<rparr>, snd st))
      | (Some forward, pf') \<Rightarrow>
          (let m1 = (fst st)\<lparr>m_port_forwards := pf'\<rparr>
           in case on_ext id (nft_remove_port_forward (h_nft (e_host E)) (m_nftables m1) host_port
                     (pf_vm_port forward) proto) (snd st) of
                (Inl e, w1) \<Rightarrow> (Err (NftForwardFailed e), (m1, w1))
              | (Inr _, w1) \<Rightarrow> (Ok (), update_persisted_port_forwards E (pf_vm_id forward) (m1, w1))))"

section \<open>Recovery\<close>

definition recover_numa :: "persisted_vm \<Rightarrow> vm_state \<Rightarrow> mgr \<Rightarrow> mgr" where
  "recover_numa pvm state m =
     (case (state, pv_numa_node pvm) of
        (Running, Some node) \<Rightarrow>
          m\<lparr>m_numa := snd (numa_allocate (m_numa m) (cfg_vcpus (pv_config pvm)) (cfg_memory_mb (pv_config pvm))
              (Some node) (tee_backend_type (cfg_tee (pv_config pvm)) \<noteq> NoTee))\<rparr>
      | _ \<Rightarrow> m)"

definition recover_ipv6 :: "'x mgr_env \<Rightarrow> persisted_vm \<Rightarrow> mgr \<Rightarrow> mgr" where
  "recover_ipv6 E pvm m =
     (case (pv_ipv6 pvm, m_ipv6_allocator m) of
        (Some ipv6, Some alloc) \<Rightarrow>
          m\<lparr>m_ipv6_allocator := Some (snd (allocate6 (e_lib E) alloc (cfg_vm_id (pv_config pvm)) (Some ipv6)))\<rparr>
      | _ \<Rightarrow> m)"

definition recover_rules :: "'x mgr_env \<Rightarrow> persisted_vm \<Rightarrow> 'x mstate \<Rightarrow> 'x mstate" where
  "recover_rules E pvm st =
     (let vm_id = cfg_vm_id (pv_config pvm); m = fst st; N = h_nft (e_host E);
          w1 = ignore (on_ext id (setup_vm N (m_nftables m) vm_id (pv_tap_name pvm)) (snd st));
          w2 = foldl (\<lambda>w f. ignore (on_ext id (nft_add_port_forward N (m_nftables m) vm_id (pv_ip pvm)
                 (pf_host_port f) (pf_vm_port f) (pf_protocol f)) w)) w1 (pv_port_forwards pvm)
      in case (pv_ipv6 pvm, m_ndp_proxy m) of
           (Some ipv6, Some ndp) \<Rightarrow>
             (case ndp_add_range (e_host E) (e_text E) ndp (pv_tap_name pvm) ipv6 w2 of
                (ndp', w3) \<Rightarrow> (m\<lparr>m_ndp_proxy := Some ndp'\<rparr>, w3))
         | _ \<Rightarrow> (m, w2))"

definition recover_vm :: "'x mgr_env \<Rightarrow> 'x mstate \<Rightarrow> persisted_vm \<Rightarrow> 'x mstate" where
  "recover_vm E st pvm =
     (let vm_id = cfg_vm_id (pv_config pvm);
          paths = paths_for_vm (m_run_dir (fst st)) vm_id;
          m1 = (fst st)\<lparr>m_used_ip_offsets := insert (ip_offset (m_gateway_ip (fst st)) (pv_ip pvm)) (m_used_ip_offsets (fst st))\<rparr>;
          (process, w1) = qemu_reconnect (e_host E) paths vm_id (snd st);
          state = (if process \<noteq> None then Running else Stopped);
          m2 = recover_numa pvm state m1;
          m3 = recover_ipv6 E pvm m2;
          m4 = m3\<lparr>m_port_forwards := foldl pf_add (m_port_forwards m3) (pv_port_forwards pvm)\<rparr>;
          (m5, w2) = (if state = Running then recover_rules E pvm (m4, w1) else (m4, w1));
          handle = \<lparr>vh_config = pv_config pvm, vh_state = state, vh_ip = pv_ip pvm, vh_ipv6 = pv_ipv6 pvm,
            vh_process = process, vh_tap_name = pv_tap_name pvm, vh_created_at_epoch = pv_created_at_epoch pvm,
            vh_numa_node = pv_numa_node pvm\<rparr>
      in (m5\<lparr>m_vms := hm_insert vm_id handle (m_vms m5)\<rparr>, w2))"

definition recover_vms :: "'x mgr_env \<Rightarrow> 'x mstate \<Rightarrow> (mgr_error, unit) result \<times> 'x mstate" where
  "recover_vms E st =
     (case load_all_vms (h_io (e_host E)) (e_codec E) (m_state_dir (fst st)) (w_fs (snd st)) of
        Inl e \<Rightarrow> (Err (StateDirFailed e), st)
      | Inr pvms \<Rightarrow> (Ok (), foldl (recover_vm E) st pvms))"

section \<open>What each phase leaves alone\<close>

text \<open>
  The part of the manager only registration, deletion and port forwarding change, and the
  invariants of the two pools.
\<close>

definition core :: "mgr \<Rightarrow> (string, vm_handle) hmap \<times> u8 set \<times> ipv4 \<times> pf_state \<times> path" where
  "core m = (m_vms m, m_used_ip_offsets m, m_gateway_ip m, m_port_forwards m, m_state_dir m)"

definition pools_ok :: "ipv6_lib \<Rightarrow> mgr \<Rightarrow> bool" where
  "pools_ok L m \<longleftrightarrow> numa_inv (m_numa m) \<and> (\<forall>a. m_ipv6_allocator m = Some a \<longrightarrow> alloc6_inv L a)"

definition frames :: "ipv6_lib \<Rightarrow> mgr \<Rightarrow> mgr \<Rightarrow> bool" where
  "frames L m m' \<longleftrightarrow> core m' = core m \<and> (pools_ok L m \<longrightarrow> pools_ok L m')"

lemma framesD:
  assumes "frames L m m'"
  shows "m_vms m' = m_vms m" "m_used_ip_offsets m' = m_used_ip_offsets m" "m_gateway_ip m' = m_gateway_ip m"
    "m_port_forwards m' = m_port_forwards m" "m_state_dir m' = m_state_dir m" "pools_ok L m \<Longrightarrow> pools_ok L m'"
  using assms by (simp_all add: frames_def core_def)

lemma pools_ok_update [simp]:
  "pools_ok L (m\<lparr>m_vms := x\<rparr>) = pools_ok L m"
  "pools_ok L (m\<lparr>m_port_forwards := p\<rparr>) = pools_ok L m"
  "pools_ok L (m\<lparr>m_used_ip_offsets := u\<rparr>) = pools_ok L m"
  by (simp_all add: pools_ok_def)

lemma frames_refl [simp]: "frames L m m"
  by (simp add: frames_def)

lemma frames_trans: "frames L a b \<Longrightarrow> frames L b c \<Longrightarrow> frames L a c"
  by (simp add: frames_def)

lemma frames_ndp [simp]: "frames L m (m\<lparr>m_ndp_proxy := x\<rparr>)"
  by (simp add: frames_def core_def pools_ok_def)

lemma frames_numa: "(numa_inv (m_numa m) \<Longrightarrow> numa_inv n) \<Longrightarrow> frames L m (m\<lparr>m_numa := n\<rparr>)"
  by (auto simp: frames_def core_def pools_ok_def)

lemma frames_release_ipv6 [simp]: "frames L m (release_ipv6 v m)"
  by (auto simp: frames_def core_def pools_ok_def release_ipv6_def intro: alloc6_inv_release)

lemma frames_allocate_ipv6: "frames (e_lib E) m (snd (allocate_ipv6 E v req m))"
proof (cases "m_ipv6_allocator m")
  case (Some a)
  then show ?thesis
    by (cases rule: allocate6_cases [of "e_lib E" a v req])
       (auto simp: allocate_ipv6_def frames_def core_def pools_ok_def intro: alloc6_inv_grant)
qed (simp add: allocate_ipv6_def)

lemma frames_cleanup [simp]: "frames L (fst st) (fst (cleanup_reservations E v b st))"
  by (simp add: cleanup_reservations_def Let_def)

lemma frames_write: "frames L (fst st) (fst (snd (write_reservations E v mac ip ipv6 st)))"
  by (auto simp: write_reservations_def split: option.splits prod.splits sum.splits)

lemma frames_setup_tap: "frames L (fst st) (fst (snd (setup_tap E v tap ipv6 st)))"
  using frames_cleanup [of L "(fst st, w)" E v b for w b]
  by (auto simp: setup_tap_def split: option.splits prod.splits sum.splits)

lemma frames_setup_chains: "frames L (fst st) (fst (snd (setup_chains E v tap ipv6 st)))"
  using frames_cleanup [of L "(fst st, w)" E v b for w b]
  by (auto simp: setup_chains_def split: option.splits prod.splits sum.splits)

lemma prepare_boot_mgr: "fst (snd (prepare_boot E config st)) = fst st"
  by (auto simp: prepare_boot_def verity_boot_def Let_def split: list.splits prod.splits sum.splits)

lemma prepare_boot_id:
  "prepare_boot E config st = (Ok (cmd, config'), st') \<Longrightarrow>
     cfg_vm_id config' = cfg_vm_id config \<and> cfg_tee config' = cfg_tee config"
  by (auto simp: prepare_boot_def verity_boot_def Let_def split: list.splits prod.splits sum.splits if_splits)

lemma frames_place: "frames L (fst st) (fst (snd (place_vm config hint st)))"
  using numa_allocate_inv [of "m_numa (fst st)"]
  by (auto simp: place_vm_def Let_def split: prod.splits sum.splits intro!: frames_numa) (metis snd_conv)+

lemma place_vm_id:
  "place_vm config hint st = (Ok (p, config'), st') \<Longrightarrow>
     cfg_vm_id config' = cfg_vm_id config \<and> cfg_tee config' = cfg_tee config"
  by (auto simp: place_vm_def Let_def split: prod.splits sum.splits if_splits)

lemma frames_rollback: "frames L (fst st) (fst (spawn_rollback E config v tap ipv6 p st))"
proof -
  let ?m1 = "(fst st)\<lparr>m_numa := numa_release (m_numa (fst st)) (placed_node p) (cfg_vcpus config)
            (cfg_memory_mb config) (placed_hugepage_size p)\<rparr>"
  have 1: "frames L (fst st) ?m1" by (intro frames_numa numa_release_inv)
  have "frames L ?m1 (fst (cleanup_reservations E v b (m2, w)))" if "frames L ?m1 m2" for b m2 w
    using frames_trans [OF that] frames_cleanup [of L "(m2, w)" E v b] by simp
  then show ?thesis
    using frames_trans [OF 1]
    by (auto simp: spawn_rollback_def Let_def split: option.splits prod.splits)
qed

lemma frames_launch: "frames L (fst st) (fst (snd (launch_vm E config v tap mac ipv6 b cmd p st)))"
  using frames_rollback [of L "(fst st, w)" E config v tap ipv6 p for w]
  by (auto simp: launch_vm_def Let_def split: prod.splits sum.splits)

lemma free_offset_Some:
  "free_offset used = Some o' \<Longrightarrow> o' \<notin> used \<and> 1 \<le> o' \<and> o' \<le> 254 \<and> (\<forall>q. 1 \<le> q \<longrightarrow> q < o' \<longrightarrow> q \<in> used)"
proof -
  assume a: "free_offset used = Some o'"
  then obtain i where i: "i < 254" "o' = of_nat (i + 1)" "o' \<notin> used" "\<forall>j < i. of_nat (j + 1) \<in> used"
    by (auto simp: free_offset_def find_Some_iff)
  have u: "unat o' = i + 1"
    unfolding i(2) unat_of_nat using i(1) by (simp del: of_nat_add of_nat_Suc)
  have "q \<in> used" if "1 \<le> q" "q < o'" for q
  proof -
    have "unat q - 1 < i" "1 \<le> unat q" using that u by (auto simp: word_le_nat_alt word_less_nat_alt)
    with i(4) have "of_nat (unat q - 1 + 1) \<in> used" by blast
    moreover have "unat q - 1 + 1 = unat q" using \<open>1 \<le> unat q\<close> by simp
    ultimately show ?thesis by (simp only:) simp
  qed
  with i u show ?thesis by (simp add: word_le_nat_alt)
qed

section \<open>What creation does to the table\<close>

definition reserve :: "u8 \<Rightarrow> mgr \<Rightarrow> mgr" where
  "reserve o' m = m\<lparr>m_used_ip_offsets := insert o' (m_used_ip_offsets m)\<rparr>"

definition created_handle :: "mgr \<Rightarrow> vm_config \<Rightarrow> u8 \<Rightarrow> vm_handle \<Rightarrow> bool" where
  "created_handle m config o' h \<longleftrightarrow> cfg_vm_id (vh_config h) = cfg_vm_id config \<and>
     vh_ip h = allocate_vm_ip (m_gateway_ip m) o' \<and> vh_tap_name h = ''tap-'' @ cfg_vm_id config \<and>
     vh_state h = Running \<and> vh_process h \<noteq> None"

text \<open>The outcomes after the address offset is reserved.\<close>

definition create_outcome ::
  "ipv6_lib \<Rightarrow> vm_config \<Rightarrow> mgr \<Rightarrow> u8 \<Rightarrow> (mgr_error, vm_info) result \<times> 'x mstate \<Rightarrow> bool" where
  "create_outcome L config m o' res \<longleftrightarrow>
     (case res of
        (Inl e, st') \<Rightarrow> frames L (reserve o' m) (fst st')
      | (Inr info, st') \<Rightarrow> (\<exists>h m1. frames L (reserve o' m) m1 \<and> created_handle m config o' h \<and>
           fst st' = m1\<lparr>m_vms := hm_insert (cfg_vm_id config) h (m_vms m1)\<rparr>))"

lemma create_outcome_Err: "frames L (reserve o' m) (fst st) \<Longrightarrow> create_outcome L config m o' (Inl e, st)"
  by (simp add: create_outcome_def)

lemma frames_gateway: "frames L m m' \<Longrightarrow> m_gateway_ip m' = m_gateway_ip m"
  by (simp add: frames_def core_def)

lemma register_outcome:
  assumes "frames L (reserve o' m) (fst st)" "cfg_vm_id config' = cfg_vm_id config"
    and "ip = allocate_vm_ip (m_gateway_ip m) o'"
  shows "create_outcome L config m o'
    (case register_vm E config' (cfg_vm_id config) (''tap-'' @ cfg_vm_id config) mac ip ipv6 p proc st of
       (info, st') \<Rightarrow> (Ok info, st'))"
proof -
  let ?h = "\<lparr>vh_config = config', vh_state = Running, vh_ip = ip, vh_ipv6 = ipv6, vh_process = Some proc,
     vh_tap_name = ''tap-'' @ cfg_vm_id config, vh_created_at_epoch = h_now (e_host E) (snd st),
     vh_numa_node = Some (placed_node p)\<rparr>"
  have "created_handle m config o' ?h" using assms by (simp add: created_handle_def)
  then show ?thesis
    unfolding register_vm_def Let_def create_outcome_def prod.case sum.case fst_conv
    by (intro exI [of _ ?h] exI [of _ "fst st"] conjI assms(1) refl)
qed

lemma frames_step:
  "frames L m (fst s) \<Longrightarrow> frames L (fst s) (fst (snd x)) \<Longrightarrow> x = (res, s') \<Longrightarrow> frames L m (fst s')"
  using frames_trans by fastforce

lemma boot_vm_outcome:
  assumes 0: "frames L (reserve o' m) (fst st)" and ip: "ip = allocate_vm_ip (m_gateway_ip m) o'"
  shows "create_outcome L config m o' (boot_vm E config hint mac ip ipv6 st)"
  unfolding boot_vm_def Let_def
  apply (rule bindE_rule)
  subgoal using 0 by (auto intro: create_outcome_Err)
  apply (rule bindE_rule)
  subgoal for be s5 e s6
    using 0 prepare_boot_mgr [of E config st] by (auto intro!: create_outcome_Err)
  apply (simp only: split_paired_all prod.case)
  apply (rule bindE_rule)
  subgoal premises c for be s5 cmd config1 m6 w6 e s7
    using frames_step [OF _ frames_place c(3)] 0 c(1,2) prepare_boot_mgr [of E config st]
    by (auto intro!: create_outcome_Err)
  apply (simp only: split_paired_all prod.case)
  apply (rule bindE_rule)
  subgoal premises c for be m5 w5 cmd config1 m6 w6 p config2 m7 w7 e s8
    using frames_step [OF frames_step [OF _ frames_place c(3)] frames_launch c(4)] 0 c(1,2)
      prepare_boot_mgr [of E config st] by (auto intro!: create_outcome_Err)
  subgoal premises c for be m5 w5 cmd config1 m6 w6 p config2 m7 w7 proc s8
  proof -
    have "frames L (reserve o' m) (fst (m6, w6))" using 0 c(1,2) prepare_boot_mgr [of E config st] by auto
    from frames_step [OF frames_step [OF this frames_place c(3)] frames_launch c(4)]
    have "frames L (reserve o' m) (fst s8)" .
    moreover have "cfg_vm_id config2 = cfg_vm_id config"
      using prepare_boot_id [OF c(2)] place_vm_id [OF c(3)] by simp
    ultimately show ?thesis using ip by (intro register_outcome)
  qed
  done

lemma create_vm_outcome:
  assumes "\<not> hm_contains_key (m_vms (fst st)) (cfg_vm_id config)" "free_offset (m_used_ip_offsets (fst st)) = Some o'"
  shows "create_outcome (e_lib E) config (fst st) o' (create_vm E config req hint st)"
proof -
  let ?m = "fst st"
  let ?F = "\<lambda>s. frames (e_lib E) (reserve o' ?m) (fst s)"
  have r: "on_mgr reserve_offset st = (Ok o', (reserve o' ?m, snd st))"
    using assms(2) by (simp add: on_mgr_def reserve_offset_def reserve_def)
  have a: "?F s1" if "on_mgr (allocate_ipv6 E (cfg_vm_id config) req) (reserve o' ?m, snd st) = (x, s1)" for x s1
    using that frames_allocate_ipv6 [of E "reserve o' ?m" "cfg_vm_id config" req]
    by (auto simp: on_mgr_def split: prod.splits)
  have gw: "m_gateway_ip (fst (reserve o' ?m, snd st)) = m_gateway_ip ?m" by (simp add: reserve_def)
  show ?thesis
    unfolding create_vm_def Let_def r using assms(1)
    apply (simp only: if_False bindE_simps)
    apply (rule bindE_rule)
    subgoal using a by (blast intro: create_outcome_Err)
    apply (rule bindE_rule)
    subgoal using frames_step [OF a frames_write] by (blast intro: create_outcome_Err)
    apply (rule bindE_rule)
    subgoal using frames_step [OF frames_step [OF a frames_write] frames_setup_tap] by (blast intro: create_outcome_Err)
    apply (rule bindE_rule)
    subgoal premises b
      by (rule create_outcome_Err [OF frames_step [OF frames_step [OF frames_step [OF a [OF b(2)] frames_write b(3)]
            frames_setup_tap b(4)] frames_setup_chains b(5)]])
    subgoal premises b for ipv6 s1 u2 s2 u3 s3 u4 s4
      using frames_step [OF frames_step [OF frames_step [OF a [OF b(2)] frames_write b(3)] frames_setup_tap b(4)]
          frames_setup_chains b(5)] gw
      by (intro boot_vm_outcome) simp_all
    done
qed

section \<open>IPv4 addresses as an exclusive pool\<close>

record 'a ip_pool =
  ip_used :: "u8 set"
  ip_held :: "'a \<Rightarrow> u8 option"

definition ip_inv :: "'a ip_pool \<Rightarrow> bool" where
  "ip_inv p \<longleftrightarrow> (\<forall>a r. ip_held p a = Some r \<longrightarrow> r \<in> ip_used p) \<and>
     (\<forall>a b r. ip_held p a = Some r \<longrightarrow> ip_held p b = Some r \<longrightarrow> a = b)"

definition ip_grant :: "'a ip_pool \<Rightarrow> 'a \<Rightarrow> u8 \<Rightarrow> 'a ip_pool" where
  "ip_grant p a r = \<lparr>ip_used = insert r (ip_used p), ip_held = (ip_held p)(a \<mapsto> r)\<rparr>"

definition ip_revoke :: "'a ip_pool \<Rightarrow> 'a \<Rightarrow> 'a ip_pool" where
  "ip_revoke p a =
     \<lparr>ip_used = (case ip_held p a of None \<Rightarrow> ip_used p | Some r \<Rightarrow> ip_used p - {r}), ip_held = (ip_held p)(a := None)\<rparr>"

definition ip_free :: "'a ip_pool \<Rightarrow> u8 \<Rightarrow> bool" where
  "ip_free p r \<longleftrightarrow> r \<notin> ip_used p"

interpretation ipv4: exclusive_pool ip_inv ip_held "(=)" ip_grant ip_revoke ip_free
proof (unfold_locales, goal_cases)
  case (2 s r a)
  then show ?case unfolding ip_inv_def ip_grant_def ip_free_def by auto
next
  case (3 s a)
  then show ?case unfolding ip_inv_def ip_revoke_def by (auto split: option.splits)
qed (auto simp: ip_inv_def ip_grant_def ip_revoke_def ip_free_def split: option.splits)

text \<open>The addresses the manager has given out, seen as such a pool.\<close>

definition ip_view :: "mgr \<Rightarrow> string ip_pool" where
  "ip_view m = \<lparr>ip_used = m_used_ip_offsets m,
     ip_held = (\<lambda>v. map_option (\<lambda>h. ip_offset (m_gateway_ip m) (vh_ip h)) (hm_get (m_vms m) v))\<rparr>"

definition handle_ok :: "mgr \<Rightarrow> string \<Rightarrow> vm_handle \<Rightarrow> bool" where
  "handle_ok m v h \<longleftrightarrow> cfg_vm_id (vh_config h) = v \<and>
     vh_ip h = allocate_vm_ip (m_gateway_ip m) (ip_offset (m_gateway_ip m) (vh_ip h))"

definition mgr_inv :: "ipv6_lib \<Rightarrow> mgr \<Rightarrow> bool" where
  "mgr_inv L m \<longleftrightarrow> hm_wf (m_vms m) \<and> pf_inv (m_port_forwards m) \<and> pools_ok L m \<and> ip_inv (ip_view m) \<and>
     (\<forall>v h. hm_get (m_vms m) v = Some h \<longrightarrow> handle_ok m v h) \<and>
     (\<forall>p proto f. pf_lookup (m_port_forwards m) p proto = Some f \<longrightarrow> hm_contains_key (m_vms m) (pf_vm_id f))"

lemma frames_mgr_inv: "frames L m m' \<Longrightarrow> mgr_inv L m \<Longrightarrow> mgr_inv L m'"
  by (auto simp: mgr_inv_def frames_def core_def ip_view_def handle_ok_def)

lemma ip_offset_allocate [simp]: "ip_offset gw (allocate_vm_ip gw o') = o'"
  by (simp add: ip_offset_def offset_recovered)

lemma mgr_inv_reserve: "mgr_inv L m \<Longrightarrow> mgr_inv L (reserve o' m)"
  by (auto simp: mgr_inv_def reserve_def ip_view_def handle_ok_def ip_inv_def pools_ok_def)

lemma mgr_inv_new: "mgr_inv L (mgr_new rd sd br gw be dh ei p6 ndp topo)"
  by (auto simp: mgr_inv_def mgr_new_def Let_def pools_ok_def ip_inv_def ip_view_def)

lemma ip_view_insert:
  "frames L (reserve o' m) m1 \<Longrightarrow> created_handle m config o' h \<Longrightarrow>
   ip_view (m1\<lparr>m_vms := hm_insert (cfg_vm_id config) h (m_vms m1)\<rparr>) = ip_grant (ip_view m) (cfg_vm_id config) o'"
  by (auto simp: ip_view_def ip_grant_def frames_def core_def reserve_def created_handle_def)

lemma create_vm_inv [inv_intros]:
  assumes "mgr_inv (e_lib E) (fst st)"
  shows "mgr_inv (e_lib E) (fst (snd (create_vm E config req hint st)))"
proof (cases "hm_contains_key (m_vms (fst st)) (cfg_vm_id config) \<or> free_offset (m_used_ip_offsets (fst st)) = None")
  case True
  then have "fst (snd (create_vm E config req hint st)) = fst st"
    by (auto simp: create_vm_def Let_def on_mgr_def reserve_offset_def)
  with assms show ?thesis by simp
next
  case False
  then obtain o' where o': "free_offset (m_used_ip_offsets (fst st)) = Some o'" "\<not> hm_contains_key (m_vms (fst st)) (cfg_vm_id config)"
    by auto
  obtain res st' where r: "create_vm E config req hint st = (res, st')" by (cases "create_vm E config req hint st")
  note out = create_vm_outcome [OF o'(2,1), of E req hint, unfolded r]
  have rinv: "mgr_inv (e_lib E) (reserve o' (fst st))" using assms by (rule mgr_inv_reserve)
  show ?thesis
  proof (cases res)
    case (Inl e)
    with out r rinv frames_mgr_inv show ?thesis by (auto simp: create_outcome_def)
  next
    case (Inr info)
    with out obtain h m1 where m1: "frames (e_lib E) (reserve o' (fst st)) m1" "created_handle (fst st) config o' h"
        "fst st' = m1\<lparr>m_vms := hm_insert (cfg_vm_id config) h (m_vms m1)\<rparr>"
      by (auto simp: create_outcome_def)
    have inv1: "mgr_inv (e_lib E) m1" using m1(1) rinv by (rule frames_mgr_inv)
    have "ip_inv (ip_grant (ip_view (fst st)) (cfg_vm_id config) o')"
      using assms free_offset_Some [OF o'(1)]
      by (intro ipv4.inv_grant) (auto simp: mgr_inv_def ip_free_def ip_view_def)
    then have "ip_inv (ip_view (fst st'))" unfolding m1(3) ip_view_insert [OF m1(1,2)] .
    moreover have "handle_ok (fst st') v h'" if "hm_get (m_vms (fst st')) v = Some h'" for v h'
      using that inv1 m1(1,2) by (auto simp: m1(3) mgr_inv_def handle_ok_def created_handle_def frames_def core_def
          reserve_def split: if_splits)
    ultimately show ?thesis
      using inv1 by (auto simp: r m1(3) mgr_inv_def pools_ok_def)
  qed
qed

section \<open>Deletion and port forwards\<close>

lemma release_numa_frames: "frames L m (release_numa h m)"
  by (auto simp: release_numa_def split: option.splits intro!: frames_numa numa_release_inv)

lemma release_network_frames: "frames L (fst st) (fst (release_vm_network E v h st))"
proof -
  have "frames L (fst st) (release_ipv6 v ((fst st)\<lparr>m_ndp_proxy := x\<rparr>))" for x
    by (rule frames_trans [OF frames_ndp frames_release_ipv6])
  then show ?thesis
    by (cases "m_ndp_proxy (fst st)"; cases "vh_ipv6 h")
       (simp_all add: release_vm_network_def Let_def split_beta)
qed

lemma frames_pf_update: "frames L a b \<Longrightarrow> frames L (a\<lparr>m_port_forwards := x\<rparr>) (b\<lparr>m_port_forwards := x\<rparr>)"
proof -
  have c: "core (m\<lparr>m_port_forwards := x\<rparr>) = (case core m of (v, u, g, p, d) \<Rightarrow> (v, u, g, x, d))" for m
    by (simp add: core_def)
  have p: "pools_ok L (m\<lparr>m_port_forwards := x\<rparr>) = pools_ok L m" for m
    by (simp add: pools_ok_def)
  show "frames L a b \<Longrightarrow> ?thesis" unfolding frames_def c p by simp
qed

text \<open>The manager after the deletion of a VM it holds.\<close>

lemma delete_vm_result:
  assumes "hm_get (m_vms (fst st)) v = Some h"
  obtains m4 st' where "delete_vm E v st = (Ok (), st')"
    "frames L ((fst st)\<lparr>m_vms := hm_remove v (m_vms (fst st)),
        m_port_forwards := snd (remove_all_for_vm (m_port_forwards (fst st)) v)\<rparr>) m4"
    "fst st' = m4\<lparr>m_used_ip_offsets := m_used_ip_offsets m4 - {ip_offset (m_gateway_ip m4) (vh_ip h)}\<rparr>"
proof -
  let ?m1 = "(fst st)\<lparr>m_vms := hm_remove v (m_vms (fst st))\<rparr>"
  let ?m2 = "release_numa h ?m1"
  let ?m3 = "?m2\<lparr>m_port_forwards := snd (remove_all_for_vm (m_port_forwards ?m2) v)\<rparr>"
  have pf: "m_port_forwards ?m2 = m_port_forwards (fst st)"
    by (simp add: release_numa_def split: option.splits)
  have 3: "frames L ((fst st)\<lparr>m_vms := hm_remove v (m_vms (fst st)),
        m_port_forwards := snd (remove_all_for_vm (m_port_forwards (fst st)) v)\<rparr>) ?m3"
    unfolding pf by (rule frames_pf_update [OF release_numa_frames])
  let ?w2 = "remove_forward_rules E ?m3 (fst (remove_all_for_vm (m_port_forwards ?m2) v))
      (case vh_process h of None \<Rightarrow> snd st | Some p \<Rightarrow> ignore (qemu_stop (e_host E) p (snd st)))"
  obtain m4 w3 where 4: "release_vm_network E v h (?m3, ?w2) = (m4, w3)" by (cases "release_vm_network E v h (?m3, ?w2)")
  have "frames L ?m3 m4" using release_network_frames [of L "(?m3, ?w2)" E v h] 4 by simp
  note f = frames_trans [OF 3 this]
  let ?m5 = "m4\<lparr>m_used_ip_offsets := m_used_ip_offsets m4 - {ip_offset (m_gateway_ip m4) (vh_ip h)}\<rparr>"
  have "delete_vm E v st = (Ok (), (?m5,
      w3\<lparr>w_fs := snd (delete_persisted (h_io (e_host E)) (m_state_dir ?m5) v (w_fs w3))\<rparr>))"
    using 4 by (simp add: delete_vm_def Let_def assms split_beta)
  from that [OF this f] show ?thesis by simp
qed

lemma ip_view_delete:
  assumes "hm_get (m_vms m) v = Some h"
    and "frames L (m\<lparr>m_vms := hm_remove v (m_vms m), m_port_forwards := pf\<rparr>) m4"
  shows "ip_view (m4\<lparr>m_used_ip_offsets := m_used_ip_offsets m4 - {ip_offset (m_gateway_ip m4) (vh_ip h)}\<rparr>) =
    ip_revoke (ip_view m) v"
  using assms by (auto simp: ip_view_def ip_revoke_def frames_def core_def)

lemma delete_vm_inv [inv_intros]:
  assumes "mgr_inv L (fst st)"
  shows "mgr_inv L (fst (snd (delete_vm E v st)))"
proof (cases "hm_get (m_vms (fst st)) v")
  case None
  with assms show ?thesis by (simp add: delete_vm_def)
next
  case (Some h)
  let ?m = "fst st"
  let ?pf = "snd (remove_all_for_vm (m_port_forwards ?m) v)"
  obtain m4 st' where d: "delete_vm E v st = (Ok (), st')"
      "frames L (?m\<lparr>m_vms := hm_remove v (m_vms ?m), m_port_forwards := ?pf\<rparr>) m4"
      "fst st' = m4\<lparr>m_used_ip_offsets := m_used_ip_offsets m4 - {ip_offset (m_gateway_ip m4) (vh_ip h)}\<rparr>"
    by (rule delete_vm_result [OF Some])
  have pinv: "pf_inv (m_port_forwards ?m)" using assms by (simp add: mgr_inv_def)
  have c: "m_vms m4 = hm_remove v (m_vms ?m)" "m_port_forwards m4 = ?pf" "m_gateway_ip m4 = m_gateway_ip ?m"
    "pools_ok L m4"
    using framesD [OF d(2)] assms by (simp_all add: mgr_inv_def)
  have "ip_inv (ip_view (fst st'))"
    unfolding d(3) ip_view_delete [OF Some d(2)] using assms by (intro ipv4.inv_revoke) (simp add: mgr_inv_def)
  moreover have "pf_inv ?pf" using pinv by (rule remove_all_for_vm_inv)
  moreover have "hm_contains_key (hm_remove v (m_vms ?m)) (pf_vm_id f)" if "pf_lookup ?pf p proto = Some f" for p proto f
    using that assms by (auto simp: remove_all_for_vm_lookup [OF pinv] mgr_inv_def split: option.splits if_splits)
  moreover have "handle_ok (fst st') v' h'" if "hm_get (hm_remove v (m_vms ?m)) v' = Some h'" for v' h'
    using that assms c(3) by (auto simp: d(3) mgr_inv_def handle_ok_def split: if_splits)
  moreover have "pools_ok L (fst st')" using c(4) by (simp add: d(3) pools_ok_def)
  ultimately show ?thesis
    using assms c by (auto simp: d(1) d(3) mgr_inv_def)
qed

lemma update_persisted_mgr [simp]: "fst (update_persisted_port_forwards E v st) = fst st"
  by (simp add: update_persisted_port_forwards_def Let_def split: sum.splits option.splits)

lemma choose_host_port_free: "choose_host_port pf hp proto = Ok p \<Longrightarrow> is_available pf p proto"
proof (cases "hp = 0")
  case True
  assume "choose_host_port pf hp proto = Ok p"
  with True have "find_port (\<lambda>q. is_available pf q proto) (unat (10000 :: u16)) = Some p"
    by (simp add: choose_host_port_def auto_allocate_def)
  from find_port_Some [OF this] show ?thesis by simp
qed (simp add: choose_host_port_def split: if_splits)

lemma pf_add_remove:
  assumes "is_available pf (pf_host_port f) (pf_protocol f)"
  shows "snd (pf_remove (pf_add pf f) (pf_host_port f) (pf_protocol f)) = pf"
proof -
  have "hm_remove k m = m" if "\<not> hm_contains_key m k" for k and m :: "(u16 \<times> protocol, port_forward) hmap"
    using that by (auto simp: hm_remove_def filter_id_conv hm_contains_key_def hm_get_def) (metis map_of_eq_None_iff image_eqI fst_conv)
  with assms show ?thesis
    by (simp add: pf_remove_def pf_add_def is_available_def hm_insert_def) (simp add: hm_remove_def)
qed

lemma add_port_forward_cases:
  obtains (Err) e w where "add_port_forward E v hp vp proto st = (Err e, (fst st, w))"
  | (Ok) f w h where "add_port_forward E v hp vp proto st =
        (Ok f, update_persisted_port_forwards E v ((fst st)\<lparr>m_port_forwards := pf_add (m_port_forwards (fst st)) f\<rparr>, w))"
      "hm_get (m_vms (fst st)) v = Some h" "pf_vm_id f = v" "pf_vm_port f = vp" "pf_protocol f = proto"
      "is_available (m_port_forwards (fst st)) (pf_host_port f) proto"
      "choose_host_port (m_port_forwards (fst st)) hp proto = Ok (pf_host_port f)"
proof (cases "hm_get (m_vms (fst st)) v")
  case None
  then show ?thesis using Err [of "VmNotFound v" "snd st"] by (simp add: add_port_forward_def)
next
  case (Some h)
  show ?thesis
  proof (cases "choose_host_port (m_port_forwards (fst st)) hp proto")
    case (Inl e)
    with Some Err [of e "snd st"] show ?thesis by (simp add: add_port_forward_def)
  next
    case (Inr p)
    let ?f = "\<lparr>pf_vm_id = v, pf_host_port = p, pf_vm_port = vp, pf_protocol = proto\<rparr>"
    let ?r = "on_ext id (nft_add_port_forward (h_nft (e_host E)) (m_nftables (fst st)) v (vh_ip h) p vp proto) (snd st)"
    have av: "is_available (m_port_forwards (fst st)) p proto" using Inr by (rule choose_host_port_free)
    have undo: "snd (pf_remove (pf_add (m_port_forwards (fst st)) ?f) p proto) = m_port_forwards (fst st)"
      using pf_add_remove [of "m_port_forwards (fst st)" ?f] av by simp
    show ?thesis
    proof (cases ?r)
      case (Pair r w)
      then show ?thesis
        using Some Inr undo av Err [of "NftForwardFailed (projl r)" w] Ok [of ?f w h]
        by (cases r) (simp_all add: add_port_forward_def Let_def)
    qed
  qed
qed

lemma add_port_forward_inv [inv_intros]:
  assumes "mgr_inv L (fst st)"
  shows "mgr_inv L (fst (snd (add_port_forward E v hp vp proto st)))"
proof (cases rule: add_port_forward_cases [of E v hp vp proto st])
  case (Ok f w h)
  then show ?thesis
    using assms
    by (auto simp: mgr_inv_def pools_ok_def ip_view_def handle_ok_def hm_contains_key_def split: if_splits intro: pf_inv_add)
qed (use assms in simp)

lemma remove_port_forward_mgr:
  "fst (snd (remove_port_forward E hp proto st)) =
     (fst st)\<lparr>m_port_forwards := snd (pf_remove (m_port_forwards (fst st)) hp proto)\<rparr>"
  by (auto simp: remove_port_forward_def Let_def split: prod.splits option.splits sum.splits)

lemma remove_port_forward_inv [inv_intros]:
  assumes "mgr_inv L (fst st)"
  shows "mgr_inv L (fst (snd (remove_port_forward E hp proto st)))"
  using assms pf_inv_remove [of "m_port_forwards (fst st)" hp proto]
  by (auto simp: remove_port_forward_mgr mgr_inv_def pools_ok_def ip_view_def handle_ok_def split: if_splits)

datatype mgr_request =
    CreateVm vm_config "ipv6net option" "u32 option"
  | DeleteVm string
  | AddForward string u16 u16 protocol
  | RemoveForward u16 protocol

fun mgr_step :: "'x mgr_env \<Rightarrow> 'x mstate \<Rightarrow> mgr_request \<Rightarrow> 'x mstate" where
  "mgr_step E st (CreateVm config req hint) = snd (create_vm E config req hint st)"
| "mgr_step E st (DeleteVm v) = snd (delete_vm E v st)"
| "mgr_step E st (AddForward v hp vp proto) = snd (add_port_forward E v hp vp proto st)"
| "mgr_step E st (RemoveForward hp proto) = snd (remove_port_forward E hp proto st)"

lemma mgr_step_inv: "mgr_inv (e_lib E) (fst st) \<Longrightarrow> mgr_inv (e_lib E) (fst (mgr_step E st q))"
  by (cases q) (auto intro: create_vm_inv delete_vm_inv add_port_forward_inv remove_port_forward_inv)

interpretation mgr_requests: request_system "mgr_step E" "\<lambda>st. mgr_inv (e_lib E) (fst st)" for E
  by unfold_locales (rule mgr_step_inv)

section \<open>Properties\<close>

definition demo_env :: "(json list) mgr_env" where
  "demo_env = \<lparr>e_host = demo_host, e_text = \<lparr>show_ipv6 = (\<lambda>_. ''::1''), parse_ipv6 = (\<lambda>_. None)\<rparr>,
     e_lib = prefix_lib, e_codec = demo_codec\<rparr>"

definition demo_mgr :: mgr where
  "demo_mgr = mgr_new ''/run'' ''/s'' ''br0'' (10, 0, 0, 1) [(NoTee, NoTeeImpl)] None ''eth0'' None False two_nodes"

definition demo_config :: "string \<Rightarrow> tee_type \<Rightarrow> vm_config" where
  "demo_config v t = \<lparr>cfg_vm_id = v, cfg_kernel = None, cfg_initrd = None,
     cfg_disks = [\<lparr>disk_path = ''/d'', disk_readonly = False, disk_format = ''raw''\<rparr>],
     cfg_vcpus = 1, cfg_memory_mb = 512, cfg_tee = \<lparr>tee_backend_type = t, tee_policy = None\<rparr>,
     cfg_encrypted = False, cfg_numa_node = None, cfg_hugepage_size = None\<rparr>"

definition demo_after :: "mgr_request list \<Rightarrow> (json list) mstate" where
  "demo_after qs = foldl (mgr_step demo_env) (demo_mgr, demo_world) qs"

lemma demo_inv: "mgr_inv (e_lib demo_env) (fst (demo_after qs))"
  unfolding demo_after_def by (rule mgr_requests.run_inv) (simp add: demo_mgr_def mgr_inv_new)


lemma demo_two: "map_option vh_ip (hm_get (m_vms (fst (demo_after
    [CreateVm (demo_config ''a'' NoTee) None None, CreateVm (demo_config ''b'' NoTee) None None]))) ''b'') = Some (10, 0, 0, 3)"
  by code_simp


lemma create_vm_result:
  "case create_vm E config req hint st of
     (Inr info, st') \<Rightarrow>
       (\<exists>o' h. free_offset (m_used_ip_offsets (fst st)) = Some o' \<and> created_handle (fst st) config o' h \<and>
          (\<forall>v. hm_get (m_vms (fst st')) v = (if v = cfg_vm_id config then Some h else hm_get (m_vms (fst st)) v)) \<and>
          m_used_ip_offsets (fst st') = insert o' (m_used_ip_offsets (fst st))) \<and>
       hm_get (m_vms (fst st)) (cfg_vm_id config) = None \<and> m_port_forwards (fst st') = m_port_forwards (fst st)
   | (Inl e, st') \<Rightarrow> m_vms (fst st') = m_vms (fst st) \<and> m_port_forwards (fst st') = m_port_forwards (fst st)"
proof (cases "hm_contains_key (m_vms (fst st)) (cfg_vm_id config) \<or> free_offset (m_used_ip_offsets (fst st)) = None")
  case True
  then show ?thesis by (auto simp: create_vm_def Let_def on_mgr_def reserve_offset_def)
next
  case False
  then obtain o' where o': "free_offset (m_used_ip_offsets (fst st)) = Some o'" "\<not> hm_contains_key (m_vms (fst st)) (cfg_vm_id config)"
    by auto
  obtain res st' where r: "create_vm E config req hint st = (res, st')" by (cases "create_vm E config req hint st")
  note out = create_vm_outcome [OF o'(2,1), of E req hint, unfolded r]
  show ?thesis
  proof (cases res)
    case (Inl e)
    with out have "frames (e_lib E) (reserve o' (fst st)) (fst st')" by (simp add: create_outcome_def)
    from framesD [OF this] show ?thesis by (simp add: r Inl reserve_def)
  next
    case (Inr info)
    with out obtain h m1 where m1: "frames (e_lib E) (reserve o' (fst st)) m1" "created_handle (fst st) config o' h"
        "fst st' = m1\<lparr>m_vms := hm_insert (cfg_vm_id config) h (m_vms m1)\<rparr>"
      by (auto simp: create_outcome_def)
    show ?thesis
      using framesD [OF m1(1)] m1(2) o' by (auto simp: r Inr m1(3) reserve_def hm_contains_key_def)
  qed
qed

text \<open>
  C7: a successful creation enters exactly one new VM, running, under its own name, with
  the address at the lowest free offset from the gateway and its TAP device named after it;
  every other VM and every port forward stays. A failed creation changes neither the table
  nor the forwards.
\<close>

theorem create_vm_exact:
  "case create_vm E config req hint st of
     (Inr info, st') \<Rightarrow>
       (\<exists>o' h. free_offset (m_used_ip_offsets (fst st)) = Some o' \<and> created_handle (fst st) config o' h \<and>
          (\<forall>v. hm_get (m_vms (fst st')) v = (if v = cfg_vm_id config then Some h else hm_get (m_vms (fst st)) v)) \<and>
          m_used_ip_offsets (fst st') = insert o' (m_used_ip_offsets (fst st))) \<and>
       hm_get (m_vms (fst st)) (cfg_vm_id config) = None \<and> m_port_forwards (fst st') = m_port_forwards (fst st)
   | (Inl e, st') \<Rightarrow> m_vms (fst st') = m_vms (fst st) \<and> m_port_forwards (fst st') = m_port_forwards (fst st)"
  by (rule create_vm_result)

text \<open>
  C17: a creation that fails after its address was reserved never gives the address back:
  the offset stays reserved although no VM has it, so each such failure shrinks the pool.
\<close>

theorem failed_create_leaks_address:
  assumes "create_vm E config req hint st = (Err e, st')" "e \<noteq> AddressPoolExhausted"
    and "hm_get (m_vms (fst st)) (cfg_vm_id config) = None"
  shows "\<exists>o'. free_offset (m_used_ip_offsets (fst st)) = Some o' \<and>
    m_used_ip_offsets (fst st') = insert o' (m_used_ip_offsets (fst st)) \<and> o' \<notin> m_used_ip_offsets (fst st) \<and>
    m_vms (fst st') = m_vms (fst st)"
proof -
  have nk: "\<not> hm_contains_key (m_vms (fst st)) (cfg_vm_id config)" using assms(3) by (simp add: hm_contains_key_def)
  then obtain o' where o': "free_offset (m_used_ip_offsets (fst st)) = Some o'"
    using assms(1,2) by (cases "free_offset (m_used_ip_offsets (fst st))")
      (auto simp: create_vm_def Let_def on_mgr_def reserve_offset_def)
  have "frames (e_lib E) (reserve o' (fst st)) (fst st')"
    using create_vm_outcome [OF nk o', of E req hint] assms(1) by (simp add: create_outcome_def)
  from framesD [OF this] o' free_offset_Some [OF o'] show ?thesis by (simp add: reserve_def)
qed

theorem failed_create_leaks_address_witness:
  "let r = create_vm demo_env (demo_config ''a'' SevSnp) None None (demo_mgr, demo_world)
   in fst r = Err (NoBackend SevSnp) \<and> (\<exists>o'. m_used_ip_offsets (fst (snd r)) = insert o' {})"
proof -
  let ?r = "create_vm demo_env (demo_config ''a'' SevSnp) None None (demo_mgr, demo_world)"
  have f: "fst ?r = Err (NoBackend SevSnp)" by code_simp
  then have r: "?r = (Err (NoBackend SevSnp), snd ?r)" by (metis prod.collapse)
  have n: "hm_get (m_vms (fst (demo_mgr, demo_world))) (cfg_vm_id (demo_config ''a'' SevSnp)) = None"
    and u: "m_used_ip_offsets (fst (demo_mgr, demo_world)) = {}"
    by (simp_all add: demo_mgr_def mgr_new_def Let_def)
  from failed_create_leaks_address [OF r _ n] show ?thesis
    unfolding Let_def using f u by auto
qed

lemma delete_vm_effects:
  assumes "mgr_inv L (fst st)" "hm_get (m_vms (fst st)) v = Some h"
  shows "\<exists>st'. delete_vm E v st = (Ok (), st') \<and> mgr_inv L (fst st') \<and>
    (\<forall>u. hm_get (m_vms (fst st')) u = (if u = v then None else hm_get (m_vms (fst st)) u)) \<and>
    list_for_vm (m_port_forwards (fst st')) v = [] \<and>
    (\<forall>u. u \<noteq> v \<longrightarrow> set (list_for_vm (m_port_forwards (fst st')) u) = set (list_for_vm (m_port_forwards (fst st)) u)) \<and>
    m_used_ip_offsets (fst st') = m_used_ip_offsets (fst st) - {ip_offset (m_gateway_ip (fst st)) (vh_ip h)}"
proof -
  let ?m = "fst st"
  let ?pf = "snd (remove_all_for_vm (m_port_forwards ?m) v)"
  obtain m4 st' where d: "delete_vm E v st = (Ok (), st')"
      "frames L (?m\<lparr>m_vms := hm_remove v (m_vms ?m), m_port_forwards := ?pf\<rparr>) m4"
      "fst st' = m4\<lparr>m_used_ip_offsets := m_used_ip_offsets m4 - {ip_offset (m_gateway_ip m4) (vh_ip h)}\<rparr>"
    by (rule delete_vm_result [OF assms(2)])
  have pinv: "pf_inv (m_port_forwards ?m)" using assms(1) by (simp add: mgr_inv_def)
  have pinv': "pf_inv ?pf" using pinv by (rule remove_all_for_vm_inv)
  have mem: "f \<in> set (list_for_vm ?pf u) \<longleftrightarrow> f \<in> set (list_for_vm (m_port_forwards ?m) u) \<and> u \<noteq> v" for f u
    by (auto simp: list_for_vm_lookup [OF pinv'] list_for_vm_lookup [OF pinv]
        remove_all_for_vm_lookup [OF pinv] split: option.splits if_splits)
  have "list_for_vm ?pf v = []" using mem [where u = v] by (metis list.set_intros(1) neq_Nil_conv)
  moreover have "mgr_inv L (fst st')" using delete_vm_inv [OF assms(1), of E v] d(1) by simp
  ultimately show ?thesis
    using framesD [OF d(2)] mem d(1,3) by (intro exI [of _ st']) auto
qed

text \<open>
  C8: deleting a VM removes exactly it: the other VMs and their port forwards stay, none of
  its forwards is left, its address is free again and belongs to no other VM, and the
  manager's invariant holds on.
\<close>

theorem delete_vm_exact:
  assumes "mgr_inv L (fst st)" "hm_get (m_vms (fst st)) v = Some h"
  shows "\<exists>st'. delete_vm E v st = (Ok (), st') \<and> mgr_inv L (fst st') \<and>
    (\<forall>u. hm_get (m_vms (fst st')) u = (if u = v then None else hm_get (m_vms (fst st)) u)) \<and>
    list_for_vm (m_port_forwards (fst st')) v = [] \<and>
    (\<forall>u. u \<noteq> v \<longrightarrow> set (list_for_vm (m_port_forwards (fst st')) u) = set (list_for_vm (m_port_forwards (fst st)) u)) \<and>
    m_used_ip_offsets (fst st') = m_used_ip_offsets (fst st) - {ip_offset (m_gateway_ip (fst st)) (vh_ip h)}"
  by (rule delete_vm_effects [OF assms])

theorem delete_vm_exact_witness:
  "\<exists>st'. delete_vm demo_env ''b'' (demo_after [CreateVm (demo_config ''a'' NoTee) None None,
       CreateVm (demo_config ''b'' NoTee) None None]) = (Ok (), st') \<and>
     hm_get (m_vms (fst st')) ''b'' = None"
proof -
  let ?st = "demo_after [CreateVm (demo_config ''a'' NoTee) None None, CreateVm (demo_config ''b'' NoTee) None None]"
  obtain h where h: "hm_get (m_vms (fst ?st)) ''b'' = Some h" "vh_ip h = (10, 0, 0, 3)"
    using demo_two by (auto simp: map_option_eq_Some)
  from delete_vm_exact [OF demo_inv h(1), of demo_env] obtain st' where
    "delete_vm demo_env ''b'' ?st = (Ok (), st')" "hm_get (m_vms (fst st')) ''b'' = None" by auto
  then show ?thesis by blast
qed

text \<open>
  C11: adding a port forward reserves a host port that was free for the protocol (the
  requested one, or the lowest free one from 10000 on), for a VM in the table; if it fails
  for any reason, the manager is exactly as before, the reservation rolled back.
\<close>

theorem add_port_forward_exact:
  "case add_port_forward E v hp vp proto st of
     (Inr f, st') \<Rightarrow> hm_contains_key (m_vms (fst st)) v \<and>
        f = \<lparr>pf_vm_id = v, pf_host_port = pf_host_port f, pf_vm_port = vp, pf_protocol = proto\<rparr> \<and>
        is_available (m_port_forwards (fst st)) (pf_host_port f) proto \<and>
        (if hp = 0 then auto_allocate (m_port_forwards (fst st)) proto 10000 = Some (pf_host_port f) else pf_host_port f = hp) \<and>
        (\<forall>p q. pf_lookup (m_port_forwards (fst st')) p q =
           (if p = pf_host_port f \<and> q = proto then Some f else pf_lookup (m_port_forwards (fst st)) p q))
   | (Inl e, st') \<Rightarrow> fst st' = fst st"
proof (cases rule: add_port_forward_cases [of E v hp vp proto st])
  case (Ok f w h)
  then show ?thesis
    by (auto simp: hm_contains_key_def choose_host_port_def split: if_splits)
qed simp

lemma recover_phases:
  "m_vms (recover_numa p s m) = m_vms m" "m_used_ip_offsets (recover_numa p s m) = m_used_ip_offsets m"
  "m_gateway_ip (recover_numa p s m) = m_gateway_ip m"
  "m_vms (recover_ipv6 E p m) = m_vms m" "m_used_ip_offsets (recover_ipv6 E p m) = m_used_ip_offsets m"
  "m_gateway_ip (recover_ipv6 E p m) = m_gateway_ip m"
  "m_vms (fst (recover_rules E p st)) = m_vms (fst st)"
  "m_used_ip_offsets (fst (recover_rules E p st)) = m_used_ip_offsets (fst st)"
  "m_gateway_ip (fst (recover_rules E p st)) = m_gateway_ip (fst st)"
  by (simp_all add: recover_numa_def recover_ipv6_def recover_rules_def Let_def split_beta
      split: option.splits vm_state.splits)

lemma recover_vm_result:
  "m_used_ip_offsets (fst (recover_vm E st p)) =
     insert (ip_offset (m_gateway_ip (fst st)) (pv_ip p)) (m_used_ip_offsets (fst st))"
  "m_gateway_ip (fst (recover_vm E st p)) = m_gateway_ip (fst st)"
  "\<exists>h. m_vms (fst (recover_vm E st p)) = hm_insert (cfg_vm_id (pv_config p)) h (m_vms (fst st)) \<and>
     vh_config h = pv_config p \<and> vh_ip h = pv_ip p \<and> vh_tap_name h = pv_tap_name p"
proof -
  let ?r = "qemu_reconnect (e_host E) (paths_for_vm (m_run_dir (fst st)) (cfg_vm_id (pv_config p)))
      (cfg_vm_id (pv_config p)) (snd st)"
  let ?h = "\<lparr>vh_config = pv_config p, vh_state = (if fst ?r \<noteq> None then Running else Stopped), vh_ip = pv_ip p,
      vh_ipv6 = pv_ipv6 p, vh_process = fst ?r, vh_tap_name = pv_tap_name p,
      vh_created_at_epoch = pv_created_at_epoch p, vh_numa_node = pv_numa_node p\<rparr>"
  show "m_used_ip_offsets (fst (recover_vm E st p)) =
      insert (ip_offset (m_gateway_ip (fst st)) (pv_ip p)) (m_used_ip_offsets (fst st))"
    "m_gateway_ip (fst (recover_vm E st p)) = m_gateway_ip (fst st)"
    by (simp_all add: recover_vm_def Let_def split_beta recover_phases)
  have "m_vms (fst (recover_vm E st p)) = hm_insert (cfg_vm_id (pv_config p)) ?h (m_vms (fst st))"
    by (simp add: recover_vm_def Let_def split_beta recover_phases)
  then show "\<exists>h. m_vms (fst (recover_vm E st p)) = hm_insert (cfg_vm_id (pv_config p)) h (m_vms (fst st)) \<and>
     vh_config h = pv_config p \<and> vh_ip h = pv_ip p \<and> vh_tap_name h = pv_tap_name p"
    by (intro exI [of _ ?h]) simp
qed

lemma recover_fold:
  "m_gateway_ip (fst (foldl (recover_vm E) st ps)) = m_gateway_ip (fst st)"
  "m_used_ip_offsets (fst (foldl (recover_vm E) st ps)) =
     m_used_ip_offsets (fst st) \<union> (\<lambda>p. ip_offset (m_gateway_ip (fst st)) (pv_ip p)) ` set ps"
  by (induction ps arbitrary: st) (auto simp: recover_vm_result)

lemma recover_fold_vms:
  "hm_contains_key (m_vms (fst (foldl (recover_vm E) st ps))) v \<longleftrightarrow>
     hm_contains_key (m_vms (fst st)) v \<or> v \<in> (\<lambda>p. cfg_vm_id (pv_config p)) ` set ps"
proof (induction ps arbitrary: st)
  case (Cons p ps)
  obtain h where "m_vms (fst (recover_vm E st p)) = hm_insert (cfg_vm_id (pv_config p)) h (m_vms (fst st))"
    using recover_vm_result(3) [of E st p] by blast
  with Cons show ?case by auto
qed simp

text \<open>
  Recovery brings back every loaded record: its VM is in the table, and its address is
  reserved, so no VM created afterwards gets the address of a recovered one.
\<close>

theorem recover_vms_reserves:
  assumes "recover_vms E st = (Ok (), st1)"
    and "load_all_vms (h_io (e_host E)) (e_codec E) (m_state_dir (fst st)) (w_fs (snd st)) = Ok pvms"
    and "pvm \<in> set pvms"
  shows "hm_contains_key (m_vms (fst st1)) (cfg_vm_id (pv_config pvm)) \<and>
    ip_offset (m_gateway_ip (fst st1)) (pv_ip pvm) \<in> m_used_ip_offsets (fst st1) \<and>
    (\<forall>config req hint info st2 h. create_vm E config req hint st1 = (Ok info, st2) \<longrightarrow>
       hm_get (m_vms (fst st2)) (cfg_vm_id config) = Some h \<longrightarrow> vh_ip h \<noteq> pv_ip pvm)"
proof -
  have st1: "st1 = foldl (recover_vm E) st pvms" using assms(1,2) by (simp add: recover_vms_def)
  have used: "ip_offset (m_gateway_ip (fst st1)) (pv_ip pvm) \<in> m_used_ip_offsets (fst st1)"
    using assms(3) by (simp add: st1 recover_fold)
  have "vh_ip h \<noteq> pv_ip pvm" if c: "create_vm E config req hint st1 = (Ok info, st2)"
      "hm_get (m_vms (fst st2)) (cfg_vm_id config) = Some h" for config req hint info st2 h
  proof -
    from create_vm_result [where E = E and config = config and req = req and hint = hint and st = st1] c obtain o' where
      o': "free_offset (m_used_ip_offsets (fst st1)) = Some o'" "created_handle (fst st1) config o' h" by auto
    then have "ip_offset (m_gateway_ip (fst st1)) (vh_ip h) = o'" by (simp add: created_handle_def)
    with free_offset_Some [OF o'(1)] used show ?thesis by auto
  qed
  with used assms(3) show ?thesis by (auto simp: st1 recover_fold_vms)
qed

definition demo_saved_world :: "(json list) world" where
  "demo_saved_world = demo_world\<lparr>w_fs := snd (save_vm quiet_io demo_codec ''/s'' ''vm1'' demo_vm empty_fs)\<rparr>"

theorem recover_vms_reserves_witness:
  "hm_contains_key (m_vms (fst (snd (recover_vms demo_env (demo_mgr, demo_saved_world))))) ''vm1''"
proof -
  let ?st = "(demo_mgr, demo_saved_world)"
  have l: "load_all_vms (h_io (e_host demo_env)) (e_codec demo_env) (m_state_dir (fst ?st)) (w_fs (snd ?st)) = Ok [demo_vm]"
    by code_simp
  then have "recover_vms demo_env ?st = (Ok (), snd (recover_vms demo_env ?st))" by (simp add: recover_vms_def)
  from recover_vms_reserves [OF this l, of demo_vm] show ?thesis by (simp add: demo_vm_def)
qed

theorem add_port_forward_exact_witness:
  "case add_port_forward demo_env ''a'' 8080 80 Tcp (demo_mgr, demo_world) of (Inr f, st') \<Rightarrow> False | (Inl e, st') \<Rightarrow> fst st' = demo_mgr"
proof -
  have "hm_get (m_vms demo_mgr) ''a'' = None" by (simp add: demo_mgr_def mgr_new_def Let_def)
  then have "add_port_forward demo_env ''a'' 8080 80 Tcp (demo_mgr, demo_world) = (Err (VmNotFound ''a''), (demo_mgr, demo_world))"
    by (simp add: add_port_forward_def)
  with add_port_forward_exact [where E = demo_env and v = "''a''" and hp = 8080 and vp = 80 and proto = Tcp
      and st = "(demo_mgr, demo_world)"] show ?thesis by simp
qed

end
