(* ===== verification/Overlapping.thy ===== *)
theory Overlapping
  imports Vm_Manager
begin

text \<open>
  Requests that overlap. The manager (\<^verbatim>\<open>vm/manager.rs\<close>) is shared by all requests; each of its
  fields has a lock of its own, and an operation takes and releases several of them in turn. A
  request is a task here, and a step of a task is the work between two points where others may
  come in: the phases of \<^verbatim>\<open>create_vm\<close>, the parts of \<^verbatim>\<open>delete_vm\<close> (which keeps the table of VMs locked
  from its first step to its last), and the parts of the two port-forward operations. A phase
  itself is one step, with its rollback. Steps of different tasks interleave arbitrarily, except
  that a task that needs the table waits while a deletion holds it. The locks of the forwards, the
  offsets, the NUMA accounts and the IPv6 ranges are taken and released within a step, so they never
  keep another task waiting between steps; whether the code can deadlock inside one is not modelled.
\<close>

section \<open>Tasks\<close>

text \<open>A creation under way: its configuration, hint, address offset and IPv6 range.\<close>

record creation =
  cn_config :: vm_config
  cn_hint :: "u32 option"
  cn_offset :: u8
  cn_ipv6 :: "ipv6net option"

datatype task_result =
    CreateResult "(mgr_error, vm_info) result"
  | DeleteResult "(mgr_error, unit) result"
  | AddResult "(mgr_error, port_forward) result"
  | RemoveResult "(mgr_error, unit) result"

datatype task =
    CheckName vm_config "ipv6net option" "u32 option"
  | ReserveAddress vm_config "ipv6net option" "u32 option"
  | AllocateRange vm_config "ipv6net option" "u32 option" u8
  | WriteDhcp creation
  | MakeTap creation
  | MakeChains creation
  | PrepareBoot creation
  | PlaceVm creation tee_impl "string option"
  | LaunchVm creation tee_impl "string option" numa_placement
  | PersistVm creation numa_placement qemu_process
  | EnterVm string vm_handle vm_info
  | RemoveHandle string
  | StopVm string vm_handle
  | DropForwards string vm_handle
  | DropRules string vm_handle "port_forward list"
  | ReleaseNetwork string vm_handle
  | ReclaimAddress string vm_handle
  | FindVm string u16 u16 protocol
  | ReservePort string ipv4 u16 u16 protocol
  | AddRules ipv4 port_forward
  | RollbackForward port_forward nft_error
  | SaveAdded port_forward
  | TakeForward u16 protocol
  | RemoveRules u16 protocol port_forward
  | SaveRemoved port_forward
  | Finished task_result

definition cn_id :: "creation \<Rightarrow> string" where
  "cn_id c = cfg_vm_id (cn_config c)"

definition cn_tap :: "creation \<Rightarrow> string" where
  "cn_tap c = ''tap-'' @ cn_id c"

definition cn_ip :: "mgr \<Rightarrow> creation \<Rightarrow> ipv4" where
  "cn_ip m c = allocate_vm_ip (m_gateway_ip m) (cn_offset c)"

definition cn_mac :: "mgr \<Rightarrow> creation \<Rightarrow> string" where
  "cn_mac m c = mac_for_vm_ip (cn_ip m c)"

text \<open>The first error ends a task.\<close>

definition proceed ::
  "((mgr_error, 'b) result \<Rightarrow> task_result) \<Rightarrow> (mgr_error, 'a) result \<times> 'x mstate \<Rightarrow> ('a \<Rightarrow> task) \<Rightarrow> task \<times> 'x mstate" where
  "proceed R r k = (case r of (Inl e, st) \<Rightarrow> (Finished (R (Err e)), st) | (Inr a, st) \<Rightarrow> (k a, st))"

fun task_step :: "'x mgr_env \<Rightarrow> task \<Rightarrow> 'x mstate \<Rightarrow> task \<times> 'x mstate" where
  "task_step E (CheckName config req hint) st =
     (if hm_contains_key (m_vms (fst st)) (cfg_vm_id config)
      then (Finished (CreateResult (Err (VmExists (cfg_vm_id config)))), st)
      else (ReserveAddress config req hint, st))"
| "task_step E (ReserveAddress config req hint) st =
     proceed CreateResult (on_mgr reserve_offset st) (AllocateRange config req hint)"
| "task_step E (AllocateRange config req hint offset) st =
     proceed CreateResult (on_mgr (allocate_ipv6 E (cfg_vm_id config) req) st)
       (\<lambda>ipv6. WriteDhcp \<lparr>cn_config = config, cn_hint = hint, cn_offset = offset, cn_ipv6 = ipv6\<rparr>)"
| "task_step E (WriteDhcp c) st =
     proceed CreateResult (write_reservations E (cn_id c) (cn_mac (fst st) c) (cn_ip (fst st) c) (cn_ipv6 c) st) (\<lambda>_. MakeTap c)"
| "task_step E (MakeTap c) st =
     proceed CreateResult (setup_tap E (cn_id c) (cn_tap c) (cn_ipv6 c) st) (\<lambda>_. MakeChains c)"
| "task_step E (MakeChains c) st =
     proceed CreateResult (setup_chains E (cn_id c) (cn_tap c) (cn_ipv6 c) st) (\<lambda>_. PrepareBoot c)"
| "task_step E (PrepareBoot c) st =
     proceed CreateResult
       (bindE (get_backend (fst st) (tee_backend_type (cfg_tee (cn_config c))), st) (\<lambda>backend st.
        bindE (prepare_boot E (cn_config c) st) (\<lambda>(cmdline, config) st. (Ok (backend, cmdline, config), st))))
       (\<lambda>(backend, cmdline, config). PlaceVm (c\<lparr>cn_config := config\<rparr>) backend cmdline)"
| "task_step E (PlaceVm c backend cmdline) st =
     proceed CreateResult (place_vm (cn_config c) (cn_hint c) st)
       (\<lambda>(placement, config). LaunchVm (c\<lparr>cn_config := config\<rparr>) backend cmdline placement)"
| "task_step E (LaunchVm c backend cmdline placement) st =
     proceed CreateResult
       (launch_vm E (cn_config c) (cn_id c) (cn_tap c) (cn_mac (fst st) c) (cn_ipv6 c) backend cmdline placement st)
       (PersistVm c placement)"
| "task_step E (PersistVm c placement process) st =
     (let now_epoch = h_now (e_host E) (snd st);
          persisted = \<lparr>pv_config = cn_config c, pv_ip = cn_ip (fst st) c, pv_ipv6 = cn_ipv6 c, pv_tap_name = cn_tap c,
            pv_mac_addr = cn_mac (fst st) c, pv_port_forwards = [], pv_created_at_epoch = now_epoch,
            pv_numa_node = Some (placed_node placement)\<rparr>;
          w1 = save_state E (m_state_dir (fst st)) (cn_id c) persisted (snd st);
          handle = \<lparr>vh_config = cn_config c, vh_state = Running, vh_ip = cn_ip (fst st) c, vh_ipv6 = cn_ipv6 c,
            vh_process = Some process, vh_tap_name = cn_tap c, vh_created_at_epoch = now_epoch,
            vh_numa_node = Some (placed_node placement)\<rparr>
      in (EnterVm (cn_id c) handle (vm_info_from_handle E w1 handle), (fst st, w1)))"
| "task_step E (EnterVm vid handle info) st =
     (Finished (CreateResult (Ok info)), ((fst st)\<lparr>m_vms := hm_insert vid handle (m_vms (fst st))\<rparr>, snd st))"
| "task_step E (RemoveHandle vid) st =
     (case hm_get (m_vms (fst st)) vid of
        None \<Rightarrow> (Finished (DeleteResult (Err (VmNotFound vid))), st)
      | Some handle \<Rightarrow> (StopVm vid handle, ((fst st)\<lparr>m_vms := hm_remove vid (m_vms (fst st))\<rparr>, snd st)))"
| "task_step E (StopVm vid handle) st =
     (DropForwards vid handle,
      (release_numa handle (fst st),
       (case vh_process handle of None \<Rightarrow> snd st | Some p \<Rightarrow> ignore (qemu_stop (e_host E) p (snd st)))))"
| "task_step E (DropForwards vid handle) st =
     (case remove_all_for_vm (m_port_forwards (fst st)) vid of
        (removed_forwards, pf') \<Rightarrow>
          (DropRules vid handle removed_forwards, ((fst st)\<lparr>m_port_forwards := pf'\<rparr>, snd st)))"
| "task_step E (DropRules vid handle removed_forwards) st =
     (ReleaseNetwork vid handle, (fst st, remove_forward_rules E (fst st) removed_forwards (snd st)))"
| "task_step E (ReleaseNetwork vid handle) st = (ReclaimAddress vid handle, release_vm_network E vid handle st)"
| "task_step E (ReclaimAddress vid handle) st =
     (let m5 = (fst st)\<lparr>m_used_ip_offsets :=
            m_used_ip_offsets (fst st) - {ip_offset (m_gateway_ip (fst st)) (vh_ip handle)}\<rparr>;
          w4 = (snd st)\<lparr>w_fs := snd (delete_persisted (h_io (e_host E)) (m_state_dir m5) vid (w_fs (snd st)))\<rparr>
      in (Finished (DeleteResult (Ok ())), (m5, w4)))"
| "task_step E (FindVm vid host_port vm_port proto) st =
     (case hm_get (m_vms (fst st)) vid of
        None \<Rightarrow> (Finished (AddResult (Err (VmNotFound vid))), st)
      | Some handle \<Rightarrow> (ReservePort vid (vh_ip handle) host_port vm_port proto, st))"
| "task_step E (ReservePort vid guest_ip host_port vm_port proto) st =
     (case choose_host_port (m_port_forwards (fst st)) host_port proto of
        Inl e \<Rightarrow> (Finished (AddResult (Err e)), st)
      | Inr actual_host_port \<Rightarrow>
          (let forward = \<lparr>pf_vm_id = vid, pf_host_port = actual_host_port, pf_vm_port = vm_port, pf_protocol = proto\<rparr>
           in (AddRules guest_ip forward,
               ((fst st)\<lparr>m_port_forwards := pf_add (m_port_forwards (fst st)) forward\<rparr>, snd st))))"
| "task_step E (AddRules guest_ip f) st =
     (case on_ext id (nft_add_port_forward (h_nft (e_host E)) (m_nftables (fst st)) (pf_vm_id f) guest_ip
             (pf_host_port f) (pf_vm_port f) (pf_protocol f)) (snd st) of
        (Inl e, w1) \<Rightarrow> (RollbackForward f e, (fst st, w1))
      | (Inr _, w1) \<Rightarrow> (SaveAdded f, (fst st, w1)))"
| "task_step E (RollbackForward f e) st =
     (Finished (AddResult (Err (NftForwardFailed e))),
      ((fst st)\<lparr>m_port_forwards := snd (pf_remove (m_port_forwards (fst st)) (pf_host_port f) (pf_protocol f))\<rparr>, snd st))"
| "task_step E (SaveAdded f) st =
     (Finished (AddResult (Ok f)), update_persisted_port_forwards E (pf_vm_id f) st)"
| "task_step E (TakeForward host_port proto) st =
     (case pf_remove (m_port_forwards (fst st)) host_port proto of
        (None, pf') \<Rightarrow> (Finished (RemoveResult (Err ForwardNotFound)), ((fst st)\<lparr>m_port_forwards := pf'\<rparr>, snd st))
      | (Some f, pf') \<Rightarrow> (RemoveRules host_port proto f, ((fst st)\<lparr>m_port_forwards := pf'\<rparr>, snd st)))"
| "task_step E (RemoveRules host_port proto f) st =
     (case on_ext id (nft_remove_port_forward (h_nft (e_host E)) (m_nftables (fst st)) host_port (pf_vm_port f) proto) (snd st) of
        (Inl e, w1) \<Rightarrow> (Finished (RemoveResult (Err (NftForwardFailed e))), (fst st, w1))
      | (Inr _, w1) \<Rightarrow> (SaveRemoved f, (fst st, w1)))"
| "task_step E (SaveRemoved f) st =
     (Finished (RemoveResult (Ok ())), update_persisted_port_forwards E (pf_vm_id f) st)"
| "task_step E (Finished r) st = (Finished r, st)"

section \<open>Interleaving\<close>

fun initial_task :: "task \<Rightarrow> bool" where
  "initial_task (CheckName config req hint) = True"
| "initial_task (RemoveHandle vid) = True"
| "initial_task (FindVm vid host_port vm_port proto) = True"
| "initial_task (TakeForward host_port proto) = True"
| "initial_task _ = False"

fun is_finished :: "task \<Rightarrow> bool" where
  "is_finished (Finished r) = True"
| "is_finished _ = False"

text \<open>The steps that take the lock of the table, and those of a task that holds it.\<close>

fun needs_table :: "task \<Rightarrow> bool" where
  "needs_table (CheckName config req hint) = True"
| "needs_table (EnterVm vid handle info) = True"
| "needs_table (RemoveHandle vid) = True"
| "needs_table (FindVm vid host_port vm_port proto) = True"
| "needs_table _ = False"

fun holds_table :: "task \<Rightarrow> bool" where
  "holds_table (StopVm vid handle) = True"
| "holds_table (DropForwards vid handle) = True"
| "holds_table (DropRules vid handle removed_forwards) = True"
| "holds_table (ReleaseNetwork vid handle) = True"
| "holds_table (ReclaimAddress vid handle) = True"
| "holds_table _ = False"

definition enabled :: "task list \<Rightarrow> nat \<Rightarrow> bool" where
  "enabled ts i \<longleftrightarrow> i < length ts \<and> \<not> is_finished (ts ! i) \<and>
     (needs_table (ts ! i) \<longrightarrow> \<not> list_ex holds_table ts)"

inductive overlap_run :: "'x mgr_env \<Rightarrow> mgr \<Rightarrow> 'x world \<Rightarrow> task list \<times> 'x mstate \<Rightarrow> bool" for E m0 w0 where
  Begin: "overlap_run E m0 w0 ([], (m0, w0))"
| Arrive: "overlap_run E m0 w0 (ts, st) \<Longrightarrow> initial_task t \<Longrightarrow> overlap_run E m0 w0 (ts @ [t], st)"
| Act: "overlap_run E m0 w0 (ts, st) \<Longrightarrow> enabled ts i \<Longrightarrow> task_step E (ts ! i) st = (t', st') \<Longrightarrow>
    overlap_run E m0 w0 (ts[i := t'], st')"

definition schedule_step :: "'x mgr_env \<Rightarrow> task list \<times> 'x mstate \<Rightarrow> nat \<Rightarrow> task list \<times> 'x mstate" where
  "schedule_step E s i =
     (if enabled (fst s) i then (case task_step E (fst s ! i) (snd s) of (t', st') \<Rightarrow> ((fst s)[i := t'], st')) else s)"

definition run_schedule :: "'x mgr_env \<Rightarrow> nat list \<Rightarrow> task list \<times> 'x mstate \<Rightarrow> task list \<times> 'x mstate" where
  "run_schedule E is s = foldl (schedule_step E) s is"

lemma schedule_reachable: "overlap_run E m0 w0 s \<Longrightarrow> overlap_run E m0 w0 (run_schedule E is s)"
proof (induction "is" arbitrary: s)
  case (Cons i "is")
  have "overlap_run E m0 w0 (schedule_step E s i)"
    using Cons.prems by (cases s) (auto simp: schedule_step_def split: prod.split intro: Act)
  then show ?case using Cons.IH by (simp add: run_schedule_def)
qed (simp add: run_schedule_def)

section \<open>A task by itself\<close>

definition run_task :: "'x mgr_env \<Rightarrow> nat \<Rightarrow> task \<Rightarrow> 'x mstate \<Rightarrow> task \<times> 'x mstate" where
  "run_task E n t st = ((\<lambda>(t, st). task_step E t st) ^^ n) (t, st)"

definition finish_with :: "((mgr_error, 'a) result \<Rightarrow> task_result) \<Rightarrow> (mgr_error, 'a) result \<times> 'x mstate \<Rightarrow> task \<times> 'x mstate" where
  "finish_with R r = (Finished (R (fst r)), snd r)"

lemma run_task_0 [simp]: "run_task E 0 t st = (t, st)"
  by (simp add: run_task_def)

lemma run_task_Suc: "run_task E (Suc n) t st = (case task_step E t st of (t', st') \<Rightarrow> run_task E n t' st')"
  by (simp add: run_task_def funpow_Suc_right split_beta del: funpow.simps)

lemma run_task_Finished [simp]: "run_task E n (Finished r) st = (Finished r, st)"
  by (induction n) (simp_all add: run_task_Suc)

lemma run_proceed:
  assumes "\<And>a st'. r = (Ok a, st') \<Longrightarrow> run_task E n (k a) st' = finish_with R (g a st')"
  shows "(case proceed R r k of (t', st') \<Rightarrow> run_task E n t' st') = finish_with R (bindE r g)"
  using assms by (cases r; cases "fst r") (auto simp: proceed_def finish_with_def)

lemma run_persist:
  "run_task E (Suc (Suc 0)) (PersistVm c p process) st = finish_with CreateResult
     (case register_vm E (cn_config c) (cn_id c) (cn_tap c) (cn_mac (fst st) c) (cn_ip (fst st) c) (cn_ipv6 c) p process st
      of (info, st') \<Rightarrow> (Ok info, st'))"
  by (simp add: run_task_Suc register_vm_def finish_with_def Let_def)

lemma cn_keeps [simp]:
  "cfg_vm_id config = cn_id c \<Longrightarrow> cn_id (c\<lparr>cn_config := config\<rparr>) = cn_id c"
  "cfg_vm_id config = cn_id c \<Longrightarrow> cn_tap (c\<lparr>cn_config := config\<rparr>) = cn_tap c"
  "cn_ip m (c\<lparr>cn_config := config\<rparr>) = cn_ip m c" "cn_mac m (c\<lparr>cn_config := config\<rparr>) = cn_mac m c"
  by (simp_all add: cn_ip_def cn_mac_def cn_id_def cn_tap_def)

lemma cn_step:
  assumes "frames L (fst st) (fst (snd x))" "x = (r, st')"
  shows "cn_ip (fst st') c = cn_ip (fst st) c \<and> cn_mac (fst st') c = cn_mac (fst st) c"
  using frames_gateway [OF assms(1)] assms(2) by (simp add: cn_ip_def cn_mac_def)

lemma run_launch:
  "run_task E (Suc (Suc (Suc 0))) (LaunchVm c backend cmdline p) st = finish_with CreateResult
     (bindE (launch_vm E (cn_config c) (cn_id c) (cn_tap c) (cn_mac (fst st) c) (cn_ipv6 c) backend cmdline p st) (\<lambda>process st'.
        case register_vm E (cn_config c) (cn_id c) (cn_tap c) (cn_mac (fst st) c) (cn_ip (fst st) c) (cn_ipv6 c) p process st'
        of (info, st'') \<Rightarrow> (Ok info, st'')))"
  unfolding run_task_Suc [of E "Suc (Suc 0)"] task_step.simps
  by (rule run_proceed) (auto dest: cn_step [OF frames_launch, where c = c] simp: run_persist)

lemma run_place:
  "run_task E (Suc (Suc (Suc (Suc 0)))) (PlaceVm c backend cmdline) st =
      finish_with CreateResult (bindE (place_vm (cn_config c) (cn_hint c) st) (\<lambda>(placement, config) st'.
        bindE (launch_vm E config (cn_id c) (cn_tap c) (cn_mac (fst st) c) (cn_ipv6 c) backend cmdline placement st')
          (\<lambda>process st'. case register_vm E config (cn_id c) (cn_tap c) (cn_mac (fst st) c) (cn_ip (fst st) c) (cn_ipv6 c)
              placement process st' of (info, st'') \<Rightarrow> (Ok info, st''))))"
  unfolding run_task_Suc [of E "Suc (Suc (Suc 0))"] task_step.simps
proof (rule run_proceed, clarify)
  fix placement config m w
  assume p: "place_vm (cn_config c) (cn_hint c) st = (Ok (placement, config), m, w)"
  have "cfg_vm_id config = cn_id c" using place_vm_id [OF p] by (simp add: cn_id_def)
  then show "run_task E (Suc (Suc (Suc 0))) (LaunchVm (c\<lparr>cn_config := config\<rparr>) backend cmdline placement) (m, w) =
      finish_with CreateResult
        (bindE (launch_vm E config (cn_id c) (cn_tap c) (cn_mac (fst st) c) (cn_ipv6 c) backend cmdline placement (m, w))
          (\<lambda>process st'. case register_vm E config (cn_id c) (cn_tap c) (cn_mac (fst st) c) (cn_ip (fst st) c) (cn_ipv6 c)
              placement process st' of (info, st'') \<Rightarrow> (Ok info, st'')))"
    using cn_step [OF frames_place p, where c = c] by (simp add: run_launch)
qed

lemma run_boot:
  "run_task E (Suc (Suc (Suc (Suc (Suc 0))))) (PrepareBoot c) st = finish_with CreateResult
     (boot_vm E (cn_config c) (cn_hint c) (cn_mac (fst st) c) (cn_ip (fst st) c) (cn_ipv6 c) st)"
proof -
  have mgr: "fst st' = fst st" "cfg_vm_id config = cn_id c"
    if "bindE (get_backend (fst st) (tee_backend_type (cfg_tee (cn_config c))), st) (\<lambda>backend st.
        bindE (prepare_boot E (cn_config c) st) (\<lambda>(cmdline, config) st. (Ok (backend, cmdline, config), st))) =
      (Ok (backend, cmdline, config), st')" for backend cmdline config st'
    using that prepare_boot_mgr [of E "cn_config c" st]
    by (auto simp: bindE_Ok cn_id_def dest: prepare_boot_id)
  let ?g = "\<lambda>(backend, cmdline, config) st1.
      bindE (place_vm config (cn_hint c) st1) (\<lambda>(placement, config) st'.
      bindE (launch_vm E config (cn_id c) (cn_tap c) (cn_mac (fst st) c) (cn_ipv6 c) backend cmdline placement st')
        (\<lambda>process st'. case register_vm E config (cn_id c) (cn_tap c) (cn_mac (fst st) c) (cn_ip (fst st) c) (cn_ipv6 c)
            placement process st' of (info, st'') \<Rightarrow> (Ok info, st'')))"
  let ?x = "bindE (get_backend (fst st) (tee_backend_type (cfg_tee (cn_config c))), st) (\<lambda>backend st.
        bindE (prepare_boot E (cn_config c) st) (\<lambda>(cmdline, config) st. (Ok (backend, cmdline, config), st)))"
  have "run_task E (Suc (Suc (Suc (Suc (Suc 0))))) (PrepareBoot c) st = finish_with CreateResult (bindE ?x ?g)"
    unfolding run_task_Suc [of E "Suc (Suc (Suc (Suc 0)))"] task_step.simps
  proof (rule run_proceed, goal_cases)
    case (1 a st1)
    then show ?case using mgr [of "fst a" "fst (snd a)" "snd (snd a)" st1] by (cases a) (simp add: run_place)
  qed
  also have "bindE ?x ?g = boot_vm E (cn_config c) (cn_hint c) (cn_mac (fst st) c) (cn_ip (fst st) c) (cn_ipv6 c) st"
    unfolding boot_vm_def Let_def bindE_assoc cn_id_def [symmetric] cn_tap_def [symmetric]
    by (intro bindE_cong refl) (simp add: split_beta)
  finally show ?thesis .
qed

text \<open>The five phases after the address is reserved.\<close>

lemma run_network:
  "run_task E (Suc (Suc (Suc (Suc (Suc (Suc (Suc (Suc 0)))))))) (WriteDhcp c) st = finish_with CreateResult
     (bindE (write_reservations E (cn_id c) (cn_mac (fst st) c) (cn_ip (fst st) c) (cn_ipv6 c) st) (\<lambda>_ st1.
      bindE (setup_tap E (cn_id c) (cn_tap c) (cn_ipv6 c) st1) (\<lambda>_ st2.
      bindE (setup_chains E (cn_id c) (cn_tap c) (cn_ipv6 c) st2) (\<lambda>_ st3.
      boot_vm E (cn_config c) (cn_hint c) (cn_mac (fst st) c) (cn_ip (fst st) c) (cn_ipv6 c) st3))))"
  unfolding run_task_Suc [of E "Suc (Suc (Suc (Suc (Suc (Suc (Suc 0))))))"] task_step.simps
proof (rule run_proceed, goal_cases)
  case (1 _ st1)
  note a = cn_step [OF frames_write 1, where c = c]
  show ?case
    unfolding run_task_Suc [of E "Suc (Suc (Suc (Suc (Suc (Suc 0)))))"] task_step.simps
  proof (rule run_proceed, goal_cases)
    case (1 _ st2)
    note b = cn_step [OF frames_setup_tap 1, where c = c]
    show ?case
      unfolding run_task_Suc [of E "Suc (Suc (Suc (Suc (Suc 0))))"] task_step.simps
    proof (rule run_proceed, goal_cases)
      case (1 _ st3)
      show ?case using a b cn_step [OF frames_setup_chains 1, where c = c] by (simp add: run_boot)
    qed
  qed
qed

lemma run_create:
  "run_task E 11 (CheckName config req hint) st = finish_with CreateResult (create_vm E config req hint st)"
proof (cases "hm_contains_key (m_vms (fst st)) (cfg_vm_id config)")
  case True
  then show ?thesis by (simp add: eval_nat_numeral run_task_Suc create_vm_def finish_with_def Let_def)
next
  case False
  have r: "run_task E (Suc (Suc (Suc (Suc (Suc (Suc (Suc (Suc (Suc (Suc 0)))))))))) (ReserveAddress config req hint) st =
      finish_with CreateResult (bindE (on_mgr reserve_offset st) (\<lambda>offset st.
        bindE (on_mgr (allocate_ipv6 E (cfg_vm_id config) req) st) (\<lambda>vm_ipv6 st'.
        let c = \<lparr>cn_config = config, cn_hint = hint, cn_offset = offset, cn_ipv6 = vm_ipv6\<rparr> in
        bindE (write_reservations E (cn_id c) (cn_mac (fst st') c) (cn_ip (fst st') c) (cn_ipv6 c) st') (\<lambda>_ st1.
        bindE (setup_tap E (cn_id c) (cn_tap c) (cn_ipv6 c) st1) (\<lambda>_ st2.
        bindE (setup_chains E (cn_id c) (cn_tap c) (cn_ipv6 c) st2) (\<lambda>_ st3.
        boot_vm E (cn_config c) (cn_hint c) (cn_mac (fst st') c) (cn_ip (fst st') c) (cn_ipv6 c) st3))))))"
    unfolding run_task_Suc [of E "Suc (Suc (Suc (Suc (Suc (Suc (Suc (Suc (Suc 0))))))))"] task_step.simps
    by (rule run_proceed) (unfold run_task_Suc [of E "Suc (Suc (Suc (Suc (Suc (Suc (Suc (Suc 0)))))))"] task_step.simps,
        rule run_proceed, simp only: run_network Let_def)
  have gw: "m_gateway_ip (fst st') = m_gateway_ip (fst s)"
    if "on_mgr (allocate_ipv6 E (cfg_vm_id config) req) s = (x, st')" for s x st'
    using that frames_gateway [OF frames_allocate_ipv6 [of E "fst s" "cfg_vm_id config" req]]
    by (auto simp: on_mgr_def split: prod.splits)
  have "run_task E 11 (CheckName config req hint) st =
      run_task E (Suc (Suc (Suc (Suc (Suc (Suc (Suc (Suc (Suc (Suc 0)))))))))) (ReserveAddress config req hint) st"
    using False by (simp add: eval_nat_numeral run_task_Suc)
  also have "\<dots> = finish_with CreateResult (create_vm E config req hint st)"
    unfolding r create_vm_def Let_def if_not_P [OF False]
    by (rule arg_cong [where f = "finish_with CreateResult"], rule bindE_cong [OF refl], rule bindE_cong [OF refl], drule gw)
       (simp add: cn_id_def cn_ip_def cn_mac_def cn_tap_def)
  finally show ?thesis .
qed

lemma run_delete:
  "run_task E 6 (RemoveHandle v) st = finish_with DeleteResult (delete_vm E v st)"
  by (simp add: eval_nat_numeral run_task_Suc delete_vm_def finish_with_def Let_def split_beta split: option.split)

lemma run_add:
  "run_task E 4 (FindVm v hp vp proto) st = finish_with AddResult (add_port_forward E v hp vp proto st)"
  by (auto simp: eval_nat_numeral run_task_Suc add_port_forward_def finish_with_def Let_def
      split: option.splits sum.splits prod.splits)

lemma run_remove:
  "run_task E 3 (TakeForward hp proto) st = finish_with RemoveResult (remove_port_forward E hp proto st)"
  by (auto simp: eval_nat_numeral run_task_Suc remove_port_forward_def finish_with_def Let_def
      split: option.splits sum.splits prod.splits)

section \<open>Who holds which address\<close>

text \<open>
  An address offset belongs to the VM in the table that has it, to the creation that reserved it
  and has not entered its VM yet, or to the deletion that took the VM out and has not given the
  offset back.
\<close>

fun held_by :: "ipv4 \<Rightarrow> task \<Rightarrow> u8 option" where
  "held_by gw (AllocateRange config req hint offset) = Some offset"
| "held_by gw (WriteDhcp c) = Some (cn_offset c)"
| "held_by gw (MakeTap c) = Some (cn_offset c)"
| "held_by gw (MakeChains c) = Some (cn_offset c)"
| "held_by gw (PrepareBoot c) = Some (cn_offset c)"
| "held_by gw (PlaceVm c backend cmdline) = Some (cn_offset c)"
| "held_by gw (LaunchVm c backend cmdline placement) = Some (cn_offset c)"
| "held_by gw (PersistVm c placement process) = Some (cn_offset c)"
| "held_by gw (EnterVm vid handle info) = Some (ip_offset gw (vh_ip handle))"
| "held_by gw (StopVm vid handle) = Some (ip_offset gw (vh_ip handle))"
| "held_by gw (DropForwards vid handle) = Some (ip_offset gw (vh_ip handle))"
| "held_by gw (DropRules vid handle fs) = Some (ip_offset gw (vh_ip handle))"
| "held_by gw (ReleaseNetwork vid handle) = Some (ip_offset gw (vh_ip handle))"
| "held_by gw (ReclaimAddress vid handle) = Some (ip_offset gw (vh_ip handle))"
| "held_by gw _ = None"

definition overlap_view :: "task list \<Rightarrow> mgr \<Rightarrow> (string + nat) ip_pool" where
  "overlap_view ts m = \<lparr>ip_used = m_used_ip_offsets m,
     ip_held = case_sum (ip_held (ip_view m)) (\<lambda>i. if i < length ts then held_by (m_gateway_ip m) (ts ! i) else None)\<rparr>"

definition overlap_inv :: "ipv6_lib \<Rightarrow> ipv4 \<Rightarrow> task list \<Rightarrow> mgr \<Rightarrow> bool" where
  "overlap_inv L gw ts m \<longleftrightarrow> ip_inv (overlap_view ts m) \<and> m_gateway_ip m = gw \<and> hm_wf (m_vms m) \<and>
     pf_inv (m_port_forwards m) \<and> pools_ok L m \<and> length (filter holds_table ts) \<le> 1"

lemma ip_inv_drop: "ip_inv p \<Longrightarrow> ip_inv (p\<lparr>ip_held := (ip_held p)(a := None)\<rparr>)"
  by (auto simp: ip_inv_def)

lemma ip_inv_move: "ip_inv p \<Longrightarrow> ip_inv (p\<lparr>ip_held := (ip_held p)(a := None, b := ip_held p a)\<rparr>)"
  by (auto simp: ip_inv_def)

text \<open>The steps that leave the table and the addresses in use as they are.\<close>

definition quiet :: "ipv6_lib \<Rightarrow> task \<Rightarrow> mgr \<Rightarrow> task \<Rightarrow> mgr \<Rightarrow> bool" where
  "quiet L t m t' m' \<longleftrightarrow> m_vms m' = m_vms m \<and> m_used_ip_offsets m' = m_used_ip_offsets m \<and>
     m_gateway_ip m' = m_gateway_ip m \<and> (pf_inv (m_port_forwards m) \<longrightarrow> pf_inv (m_port_forwards m')) \<and>
     (pools_ok L m \<longrightarrow> pools_ok L m') \<and> (held_by (m_gateway_ip m) t' = held_by (m_gateway_ip m) t \<or> held_by (m_gateway_ip m) t' = None) \<and>
     (holds_table t' \<longrightarrow> holds_table t)"

fun moves_address :: "task \<Rightarrow> bool" where
  "moves_address (ReserveAddress config req hint) = True"
| "moves_address (EnterVm vid handle info) = True"
| "moves_address (RemoveHandle vid) = True"
| "moves_address (ReclaimAddress vid handle) = True"
| "moves_address _ = False"

lemma frames_quiet:
  "frames L m m' \<Longrightarrow> held_by (m_gateway_ip m) t' = held_by (m_gateway_ip m) t \<or> held_by (m_gateway_ip m) t' = None \<Longrightarrow> (holds_table t' \<Longrightarrow> holds_table t) \<Longrightarrow>
   quiet L t m t' m'"
  by (auto simp: quiet_def frames_def core_def)

lemma proceed_quiet:
  assumes "proceed R r k = (t', st')" "frames L (fst st) (fst (snd r))"
    and "\<And>a. held_by (m_gateway_ip (fst st)) (k a) = held_by (m_gateway_ip (fst st)) t \<and> \<not> holds_table (k a)"
  shows "quiet L t (fst st) t' (fst st')"
  using assms by (cases r; cases "fst r") (auto simp: proceed_def intro!: frames_quiet)

lemma frames_on_mgr: "frames L (fst st) (snd (f (fst st))) \<Longrightarrow> frames L (fst st) (fst (snd (on_mgr f st)))"
  by (simp add: on_mgr_def split_beta)

lemma frames_prepare:
  "frames L (fst st) (fst (snd (bindE (b, st) (\<lambda>backend st.
     bindE (prepare_boot E config st) (\<lambda>(cmdline, config) st. (Ok (backend, cmdline, config), st))))))"
  using prepare_boot_mgr [of E config st] by (cases b) (auto simp: bindE_def split: prod.splits sum.splits)

lemma step_quiet:
  assumes "task_step E t st = (t', st')" "\<not> moves_address t"
  shows "quiet (e_lib E) t (fst st) t' (fst st')"
proof (cases t)
  case (AllocateRange config req hint offset)
  show ?thesis using assms(1) unfolding AllocateRange task_step.simps
    by (rule proceed_quiet) (simp_all add: frames_on_mgr frames_allocate_ipv6)
next
  case (WriteDhcp c)
  show ?thesis using assms(1) unfolding WriteDhcp task_step.simps
    by (rule proceed_quiet) (simp_all add: frames_write)
next
  case (MakeTap c)
  show ?thesis using assms(1) unfolding MakeTap task_step.simps
    by (rule proceed_quiet) (simp_all add: frames_setup_tap)
next
  case (MakeChains c)
  show ?thesis using assms(1) unfolding MakeChains task_step.simps
    by (rule proceed_quiet) (simp_all add: frames_setup_chains)
next
  case (PrepareBoot c)
  show ?thesis using assms(1) unfolding PrepareBoot task_step.simps
    by (rule proceed_quiet [OF _ frames_prepare]) (auto split: prod.split)
next
  case (PlaceVm c backend cmdline)
  show ?thesis using assms(1) unfolding PlaceVm task_step.simps
    by (rule proceed_quiet) (auto simp: frames_place split: prod.split)
next
  case (LaunchVm c backend cmdline placement)
  show ?thesis using assms(1) unfolding LaunchVm task_step.simps
    by (rule proceed_quiet) (simp_all add: frames_launch)
next
  case (PersistVm c placement process)
  then show ?thesis using assms(1) by (auto simp: Let_def cn_ip_def quiet_def)
next
  case (StopVm vid handle)
  then show ?thesis using assms(1) by (auto intro!: frames_quiet release_numa_frames)
next
  case (ReleaseNetwork vid handle)
  then show ?thesis
    using assms(1) release_network_frames [of "e_lib E" st E vid handle] by (auto intro!: frames_quiet)
next
  case (DropForwards vid handle)
  then show ?thesis
    using assms(1) remove_all_for_vm_inv [of "m_port_forwards (fst st)" vid]
    by (auto simp: quiet_def split: prod.splits)
next
  case (TakeForward host_port proto)
  then show ?thesis
    using assms(1) pf_inv_remove [of "m_port_forwards (fst st)" host_port proto]
    by (auto simp: quiet_def split: prod.splits option.splits)
qed (use assms in \<open>auto simp: quiet_def Let_def split: if_splits option.splits sum.splits prod.splits
  intro: pf_inv_add pf_inv_remove\<close>)

lemma count_update:
  assumes "i < length ts"
  shows "length (filter P (ts[i := t'])) + (if P (ts ! i) then 1 else 0) = length (filter P ts) + (if P t' then 1 else 0)"
proof -
  have "filter P ts = filter P (take i ts) @ filter P (ts ! i # drop (Suc i) ts)"
    by (subst id_take_nth_drop [OF assms]) (rule filter_append)
  moreover have "filter P (ts[i := t']) = filter P (take i ts) @ filter P (t' # drop (Suc i) ts)"
    by (subst upd_conv_take_nth_drop [OF assms]) (rule filter_append)
  ultimately show ?thesis by simp
qed

text \<open>The holders after the step of a task.\<close>

lemma overlap_view_update:
  assumes "i < length ts" "m_gateway_ip m' = m_gateway_ip m"
  shows "overlap_view (ts[i := t']) m' = \<lparr>ip_used = m_used_ip_offsets m',
    ip_held = case_sum (ip_held (ip_view m')) (\<lambda>j. if j = i then held_by (m_gateway_ip m) t'
       else if j < length ts then held_by (m_gateway_ip m) (ts ! j) else None)\<rparr>"
  using assms by (auto simp: overlap_view_def fun_eq_iff split: sum.split)

lemma ip_view_simps [simp]:
  "ip_used (overlap_view ts m) = m_used_ip_offsets m"
  "ip_held (overlap_view ts m) (Inl v) = map_option (\<lambda>h. ip_offset (m_gateway_ip m) (vh_ip h)) (hm_get (m_vms m) v)"
  "i < length ts \<Longrightarrow> ip_held (overlap_view ts m) (Inr i) = held_by (m_gateway_ip m) (ts ! i)"
  by (simp_all add: overlap_view_def ip_view_def)

lemma quiet_inv:
  assumes "overlap_inv L gw ts m" "i < length ts" "quiet L (ts ! i) m t' m'"
  shows "overlap_inv L gw (ts[i := t']) m'"
proof -
  have same: "ip_view m' = ip_view m" using assms(3) by (simp add: quiet_def ip_view_def)
  have "overlap_view (ts[i := t']) m' = overlap_view ts m \<or>
      overlap_view (ts[i := t']) m' = (overlap_view ts m)\<lparr>ip_held := (ip_held (overlap_view ts m))(Inr i := None)\<rparr>"
    using assms(2,3) overlap_view_update [of i ts m' m t']
    by (auto simp: quiet_def same overlap_view_def fun_eq_iff split: sum.split)
  then have "ip_inv (overlap_view (ts[i := t']) m')"
    using assms(1) ip_inv_drop by (auto simp: overlap_inv_def)
  moreover have "length (filter holds_table (ts[i := t'])) \<le> 1"
    using count_update [OF assms(2), of holds_table t'] assms(1,3) by (auto simp: overlap_inv_def quiet_def split: if_splits)
  ultimately show ?thesis using assms(1,3) by (auto simp: overlap_inv_def quiet_def)
qed

text \<open>The four steps that change who holds an address.\<close>

lemma reserve_inv:
  assumes "overlap_inv L gw ts (fst st)" "i < length ts" "ts ! i = ReserveAddress config req hint"
    and "task_step E (ts ! i) st = (t', st')"
  shows "overlap_inv L gw (ts[i := t']) (fst st')"
proof (cases "free_offset (m_used_ip_offsets (fst st))")
  case None
  then show ?thesis
    using assms(3,4) by (intro quiet_inv [OF assms(1,2)])
      (auto simp: quiet_def proceed_def on_mgr_def reserve_offset_def)
next
  case (Some o')
  let ?m' = "(fst st)\<lparr>m_used_ip_offsets := insert o' (m_used_ip_offsets (fst st))\<rparr>"
  have t': "t' = AllocateRange config req hint o'" "fst st' = ?m'"
    using assms(3,4) Some by (auto simp: proceed_def on_mgr_def reserve_offset_def)
  have "overlap_view (ts[i := t']) ?m' = ip_grant (overlap_view ts (fst st)) (Inr i) o'"
    using assms(2) overlap_view_update [of i ts ?m' "fst st" t']
    by (auto simp: overlap_view_def ip_grant_def ip_view_def t'(1) fun_eq_iff split: sum.split)
  moreover have "ip_free (overlap_view ts (fst st)) o'" using free_offset_Some [OF Some] by (simp add: ip_free_def)
  ultimately have "ip_inv (overlap_view (ts[i := t']) ?m')"
    using assms(1) ipv4.inv_grant by (auto simp: overlap_inv_def)
  then show ?thesis
    using assms(1,3) count_update [OF assms(2), of holds_table t'] by (auto simp: overlap_inv_def t')
qed

lemma enter_inv:
  assumes "overlap_inv L gw ts (fst st)" "i < length ts" "ts ! i = EnterVm vid handle info"
    and "task_step E (ts ! i) st = (t', st')"
  shows "overlap_inv L gw (ts[i := t']) (fst st')"
proof -
  let ?m' = "(fst st)\<lparr>m_vms := hm_insert vid handle (m_vms (fst st))\<rparr>"
  have t': "t' = Finished (CreateResult (Ok info))" "fst st' = ?m'" using assms(3,4) by auto
  have "overlap_view (ts[i := t']) ?m' = (overlap_view ts (fst st))\<lparr>ip_held :=
      (ip_held (overlap_view ts (fst st)))(Inr i := None, Inl vid := ip_held (overlap_view ts (fst st)) (Inr i))\<rparr>"
    using assms(2,3) overlap_view_update [of i ts ?m' "fst st" t']
    by (auto simp: overlap_view_def ip_view_def t'(1) fun_eq_iff split: sum.split)
  then have "ip_inv (overlap_view (ts[i := t']) ?m')"
    using assms(1) ip_inv_move by (auto simp: overlap_inv_def)
  then show ?thesis
    using assms(1,3) count_update [OF assms(2), of holds_table t'] by (auto simp: overlap_inv_def t')
qed

lemma remove_handle_inv:
  assumes "overlap_inv L gw ts (fst st)" "i < length ts" "ts ! i = RemoveHandle vid" "\<not> list_ex holds_table ts"
    and "task_step E (ts ! i) st = (t', st')"
  shows "overlap_inv L gw (ts[i := t']) (fst st')"
proof (cases "hm_get (m_vms (fst st)) vid")
  case None
  then show ?thesis using assms(3,5) by (intro quiet_inv [OF assms(1,2)]) (auto simp: quiet_def)
next
  case (Some handle)
  let ?m' = "(fst st)\<lparr>m_vms := hm_remove vid (m_vms (fst st))\<rparr>"
  have t': "t' = StopVm vid handle" "fst st' = ?m'" using assms(3,5) Some by auto
  have "overlap_view (ts[i := t']) ?m' = (overlap_view ts (fst st))\<lparr>ip_held :=
      (ip_held (overlap_view ts (fst st)))(Inl vid := None, Inr i := ip_held (overlap_view ts (fst st)) (Inl vid))\<rparr>"
    using assms(2,3) Some overlap_view_update [of i ts ?m' "fst st" t']
    by (auto simp: overlap_view_def ip_view_def t'(1) fun_eq_iff split: sum.split)
  moreover have "ip_inv (overlap_view ts (fst st))" using assms(1) by (simp add: overlap_inv_def)
  ultimately have "ip_inv (overlap_view (ts[i := t']) ?m')" by (simp only: ip_inv_move)
  moreover have "filter holds_table ts = []" using assms(4) by (auto simp: list_ex_iff filter_empty_conv)
  ultimately show ?thesis
    using assms(1,3) count_update [OF assms(2), of holds_table t'] by (auto simp: overlap_inv_def t')
qed

lemma reclaim_inv:
  assumes "overlap_inv L gw ts (fst st)" "i < length ts" "ts ! i = ReclaimAddress vid handle"
    and "task_step E (ts ! i) st = (t', st')"
  shows "overlap_inv L gw (ts[i := t']) (fst st')"
proof -
  let ?m' = "(fst st)\<lparr>m_used_ip_offsets := m_used_ip_offsets (fst st) - {ip_offset (m_gateway_ip (fst st)) (vh_ip handle)}\<rparr>"
  have t': "t' = Finished (DeleteResult (Ok ()))" "fst st' = ?m'" using assms(3,4) by (auto simp: Let_def)
  have "overlap_view (ts[i := t']) ?m' = ip_revoke (overlap_view ts (fst st)) (Inr i)"
    using assms(2,3) overlap_view_update [of i ts ?m' "fst st" t']
    by (auto simp: overlap_view_def ip_view_def ip_revoke_def t'(1) fun_eq_iff split: sum.split)
  then have "ip_inv (overlap_view (ts[i := t']) ?m')"
    using assms(1) ipv4.inv_revoke by (auto simp: overlap_inv_def)
  then show ?thesis
    using assms(1,3) count_update [OF assms(2), of holds_table t'] by (auto simp: overlap_inv_def t')
qed

lemma step_inv:
  assumes "overlap_inv (e_lib E) gw ts (fst st)" "enabled ts i" "task_step E (ts ! i) st = (t', st')"
  shows "overlap_inv (e_lib E) gw (ts[i := t']) (fst st')"
proof (cases "moves_address (ts ! i)")
  case True
  have i: "i < length ts" using assms(2) by (simp add: enabled_def)
  show ?thesis
  proof (cases "ts ! i")
    case (RemoveHandle vid)
    then have "\<not> list_ex holds_table ts" using assms(2) by (simp add: enabled_def)
    from remove_handle_inv [OF assms(1) i RemoveHandle this assms(3)] show ?thesis .
  qed (use True reserve_inv [OF assms(1) i _ assms(3)] enter_inv [OF assms(1) i _ assms(3)]
        reclaim_inv [OF assms(1) i _ assms(3)] in auto)
next
  case False
  with assms show ?thesis by (intro quiet_inv) (auto simp: enabled_def intro: step_quiet)
qed

lemma arrive_inv:
  assumes "overlap_inv L gw ts m" "initial_task t"
  shows "overlap_inv L gw (ts @ [t]) m"
proof -
  have none: "held_by g t = None" "\<not> holds_table t" for g using assms(2) by (cases t; simp)+
  then have "overlap_view (ts @ [t]) m = overlap_view ts m"
    by (auto simp: overlap_view_def fun_eq_iff nth_append split: sum.split)
  with assms(1) none show ?thesis by (simp add: overlap_inv_def)
qed

lemma begin_inv: "mgr_inv L m \<Longrightarrow> overlap_inv L (m_gateway_ip m) [] m"
  by (auto simp: overlap_inv_def mgr_inv_def ip_inv_def overlap_view_def ip_view_def split: sum.splits)

lemma overlap_run_inv:
  assumes "overlap_run E m0 w0 s" "mgr_inv (e_lib E) m0"
  shows "overlap_inv (e_lib E) (m_gateway_ip m0) (fst s) (fst (snd s))"
  using assms(1)
proof (induction rule: overlap_run.induct)
  case Begin
  then show ?case using begin_inv [OF assms(2)] by simp
next
  case (Arrive ts st t)
  then show ?case using arrive_inv by auto
next
  case (Act ts st i t' st')
  then show ?case using step_inv [of E _ ts st i t' st'] by simp
qed

section \<open>Properties\<close>

lemma needs_not_holds: "needs_table t \<Longrightarrow> \<not> holds_table t"
  by (cases t) simp_all

lemma schedule_alone:
  assumes "i < length ts" "\<And>j. j < length ts \<Longrightarrow> j \<noteq> i \<Longrightarrow> \<not> holds_table (ts ! j)"
  shows "run_schedule E (replicate n i) (ts, st) = (case run_task E n (ts ! i) st of (t', st') \<Rightarrow> (ts[i := t'], st'))"
  using assms
proof (induction n arbitrary: ts st)
  case (Suc n)
  obtain t' st' where t': "task_step E (ts ! i) st = (t', st')" by (rule prod.exhaust)
  have "schedule_step E (ts, st) i = (ts[i := t'], st')"
  proof (cases "is_finished (ts ! i)")
    case True
    then have "t' = ts ! i" "st' = st" using t' by (cases "ts ! i"; simp)+
    then show ?thesis using True by (simp add: schedule_step_def enabled_def)
  next
    case False
    have "\<not> list_ex holds_table ts" if "needs_table (ts ! i)"
      using Suc.prems(2) needs_not_holds [OF that] by (auto simp: list_ex_length)
    then show ?thesis using False Suc.prems(1) t' by (simp add: schedule_step_def enabled_def)
  qed
  then have "run_schedule E (replicate (Suc n) i) (ts, st) = run_schedule E (replicate n i) (ts[i := t'], st')"
    by (simp add: run_schedule_def)
  also have "\<dots> = (case run_task E n t' st' of (t'', st'') \<Rightarrow> (ts[i := t''], st''))"
    using Suc.IH [of "ts[i := t']" st'] Suc.prems by (simp split: prod.split)
  finally show ?case by (simp add: run_task_Suc t')
qed (simp add: run_schedule_def)

lemma overlap_arrivals: "list_all initial_task ts \<Longrightarrow> overlap_run E m0 w0 (ts, (m0, w0))"
  by (induction ts rule: rev_induct) (auto intro: Begin Arrive)

lemma overlap_schedule: "list_all initial_task ts \<Longrightarrow> overlap_run E m0 w0 (run_schedule E is (ts, (m0, w0)))"
  by (intro schedule_reachable overlap_arrivals)

lemma schedule_single:
  "run_schedule E (replicate n 0) ([t], st) = (case run_task E n t st of (t', st') \<Rightarrow> ([t'], st'))"
  using schedule_alone [of 0 "[t]" E n st] by simp

definition demo_tasks :: "task list" where
  "demo_tasks = [CheckName (demo_config ''a'' NoTee) None None, CheckName (demo_config ''b'' NoTee) None None]"

definition demo_overlap :: "nat list \<Rightarrow> task list \<times> (json list) mstate" where
  "demo_overlap is = run_schedule demo_env is (demo_tasks, (demo_mgr, demo_world))"

text \<open>
  The split into steps changes nothing for a request that runs by itself: result, manager and host
  are those of the operation.
\<close>

lemma tasks_sequential:
  "run_schedule E (replicate 11 0) ([CheckName config req hint], st) =
     (case create_vm E config req hint st of (r, st') \<Rightarrow> ([Finished (CreateResult r)], st')) \<and>
   run_schedule E (replicate 6 0) ([RemoveHandle v], st) =
     (case delete_vm E v st of (r, st') \<Rightarrow> ([Finished (DeleteResult r)], st')) \<and>
   run_schedule E (replicate 4 0) ([FindVm v hp vp proto], st) =
     (case add_port_forward E v hp vp proto st of (r, st') \<Rightarrow> ([Finished (AddResult r)], st')) \<and>
   run_schedule E (replicate 3 0) ([TakeForward hp proto], st) =
     (case remove_port_forward E hp proto st of (r, st') \<Rightarrow> ([Finished (RemoveResult r)], st'))"
  using run_create [of E config req hint st] run_delete [of E v st] run_add [of E v hp vp proto st] run_remove [of E hp proto st]
  by (simp add: schedule_single finish_with_def split_beta)

text \<open>
  C2: however requests overlap, two VMs in the table never have the same IPv4 address, and the offset
  of each is in use; an offset
  that a creation has reserved or a deletion has not given back yet is in use, is no VM's and is
  no other request's; no NUMA node is over-committed, the recorded IPv6 ranges are disjoint, and at
  most one request holds the table.
\<close>

theorem overlapping_addresses_exclusive:
  assumes "overlap_run E m0 w0 (ts, (m, w))" "mgr_inv (e_lib E) m0"
  shows "(\<forall>a b h h'. hm_get (m_vms m) a = Some h \<longrightarrow> hm_get (m_vms m) b = Some h' \<longrightarrow> a \<noteq> b \<longrightarrow> vh_ip h \<noteq> vh_ip h') \<and>
    (\<forall>i o'. i < length ts \<longrightarrow> held_by (m_gateway_ip m) (ts ! i) = Some o' \<longrightarrow>
       o' \<in> m_used_ip_offsets m \<and>
       (\<forall>v h. hm_get (m_vms m) v = Some h \<longrightarrow> ip_offset (m_gateway_ip m) (vh_ip h) \<noteq> o') \<and>
       (\<forall>j. j < length ts \<longrightarrow> held_by (m_gateway_ip m) (ts ! j) = Some o' \<longrightarrow> j = i)) \<and>
    (\<forall>v h. hm_get (m_vms m) v = Some h \<longrightarrow> ip_offset (m_gateway_ip m) (vh_ip h) \<in> m_used_ip_offsets m) \<and>
    pools_ok (e_lib E) m \<and> pf_inv (m_port_forwards m) \<and> length (filter holds_table ts) \<le> 1"
proof -
  have inv: "overlap_inv (e_lib E) (m_gateway_ip m0) ts m" using overlap_run_inv [OF assms] by simp
  then have ip: "ip_inv (overlap_view ts m)" by (simp add: overlap_inv_def)
  note ex = ipv4.exclusive [OF ip]
  have used: "o' \<in> m_used_ip_offsets m" if "ip_held (overlap_view ts m) x = Some o'" for x o'
    using ip that by (auto simp: ip_inv_def overlap_view_def)
  have "vh_ip h \<noteq> vh_ip h'" if "hm_get (m_vms m) a = Some h" "hm_get (m_vms m) b = Some h'" "a \<noteq> b" for a b h h'
    using ex [of "Inl a" _ "Inl b"] that by auto
  moreover have "ip_offset (m_gateway_ip m) (vh_ip h) \<noteq> o'"
    if "i < length ts" "held_by (m_gateway_ip m) (ts ! i) = Some o'" "hm_get (m_vms m) v = Some h" for i o' v h
    using ex [of "Inr i" _ "Inl v"] that by auto
  moreover have "j = i"
    if "i < length ts" "held_by (m_gateway_ip m) (ts ! i) = Some o'" "j < length ts" "held_by (m_gateway_ip m) (ts ! j) = Some o'" for i j o'
    using ex [of "Inr i" _ "Inr j"] that by auto
  moreover have "ip_offset (m_gateway_ip m) (vh_ip h) \<in> m_used_ip_offsets m" if "hm_get (m_vms m) v = Some h" for v h
    using used [of "Inl v"] that by simp
  moreover have "o' \<in> m_used_ip_offsets m" if "i < length ts" "held_by (m_gateway_ip m) (ts ! i) = Some o'" for i o'
    using used [of "Inr i"] that by simp
  ultimately show ?thesis using inv by (auto simp: overlap_inv_def)
qed

theorem overlapping_addresses_exclusive_witness:
  "let s = demo_overlap ([0, 1, 0, 1, 1, 0] @ replicate 8 1)
   in held_by (10, 0, 0, 1) (fst s ! 0) = Some 1 \<and> 1 \<in> m_used_ip_offsets (fst (snd s)) \<and>
      (\<exists>h. hm_get (m_vms (fst (snd s))) ''b'' = Some h \<and> ip_offset (10, 0, 0, 1) (vh_ip h) \<noteq> 1)"
proof -
  define s where "s = demo_overlap ([0, 1, 0, 1, 1, 0] @ replicate 8 1)"
  have run: "overlap_run demo_env demo_mgr demo_world (fst s, (fst (snd s), snd (snd s)))"
    unfolding s_def demo_overlap_def prod.collapse by (rule overlap_schedule) (simp add: demo_tasks_def)
  have inv: "mgr_inv (e_lib demo_env) demo_mgr" by (simp add: demo_mgr_def mgr_inv_new)
  have h: "held_by (m_gateway_ip (fst (snd s))) (fst s ! 0) = Some 1 \<and> m_gateway_ip (fst (snd s)) = (10, 0, 0, 1) \<and>
    0 < length (fst s) \<and> hm_get (m_vms (fst (snd s))) ''b'' \<noteq> None"
    unfolding s_def by code_simp
  note ex = overlapping_addresses_exclusive [OF run inv, THEN conjunct2, THEN conjunct1, rule_format, of 0 1]
  show ?thesis unfolding Let_def s_def [symmetric] using h ex by auto
qed

text \<open>The two requests once the deletion has dropped the forwards of the VM.\<close>

lemma forward_during_delete:
  assumes "hm_get (m_vms (fst st)) v = Some h" "pf_inv (m_port_forwards (fst st))"
    and "hp \<noteq> 0" "is_available (m_port_forwards (fst st)) hp proto"
  obtains m w where "run_schedule E [0, 1, 1, 1, 1] ([FindVm v hp vp proto, RemoveHandle v], st) =
      ([ReservePort v (vh_ip h) hp vp proto, ReleaseNetwork v h], (m, w))"
    "choose_host_port (m_port_forwards m) hp proto = Ok hp" "hm_get (m_vms m) v = None" "m_gateway_ip m = m_gateway_ip (fst st)"
proof -
  let ?m1 = "(fst st)\<lparr>m_vms := hm_remove v (m_vms (fst st))\<rparr>"
  let ?m = "(release_numa h ?m1)\<lparr>m_port_forwards := snd (remove_all_for_vm (m_port_forwards (release_numa h ?m1)) v)\<rparr>"
  note f = framesD [OF release_numa_frames [of _ ?m1 h]]
  have "\<exists>w. run_schedule E [0, 1, 1, 1, 1] ([FindVm v hp vp proto, RemoveHandle v], st) =
      ([ReservePort v (vh_ip h) hp vp proto, ReleaseNetwork v h], (?m, w))"
    using assms(1) by (simp add: run_schedule_def schedule_step_def enabled_def split_beta)
  moreover have "choose_host_port (m_port_forwards ?m) hp proto = Ok hp"
    using assms(2-4) f(4) by (simp add: choose_host_port_def is_available_lookup remove_all_for_vm_lookup)
  moreover have "hm_get (m_vms ?m) v = None" "m_gateway_ip ?m = m_gateway_ip (fst st)" using f(1,3) by simp_all
  ultimately show ?thesis using that by blast
qed

lemma release_reclaim:
  assumes "is_finished t"
  obtains m' w' where "run_schedule E [1, 1] ([t, ReleaseNetwork v h], (m, w)) = ([t, Finished (DeleteResult (Ok ()))], (m', w'))"
    "m_vms m' = m_vms m" "m_port_forwards m' = m_port_forwards m"
    "m_used_ip_offsets m' = m_used_ip_offsets m - {ip_offset (m_gateway_ip m) (vh_ip h)}"
proof -
  let ?s = "release_vm_network E v h (m, w)"
  let ?m' = "(fst ?s)\<lparr>m_used_ip_offsets := m_used_ip_offsets (fst ?s) - {ip_offset (m_gateway_ip (fst ?s)) (vh_ip h)}\<rparr>"
  have "\<exists>w'. run_schedule E [1, 1] ([t, ReleaseNetwork v h], (m, w)) = ([t, Finished (DeleteResult (Ok ()))], (?m', w'))"
    by (simp add: run_schedule_def schedule_step_def enabled_def Let_def split_beta)
  moreover note framesD [OF release_network_frames [of _ "(m, w)" E v h]]
  ultimately show ?thesis using that [of ?m'] by auto
qed

text \<open>
  C18: a port forward can outlive its VM. When a request to forward a port has found the VM, and a
  deletion of the VM then drops its forwards before the request goes on, either the firewall
  refuses the rule, or both requests succeed and a forward is left for a VM that is not in the
  table, to an address that is free to be given to another VM.
\<close>

theorem forward_outlives_vm:
  assumes "mgr_inv L (fst st)" "hm_get (m_vms (fst st)) v = Some h" "hp \<noteq> 0" "is_available (m_port_forwards (fst st)) hp proto"
    and "run_schedule E [0, 1, 1, 1, 1, 0, 0, 0, 1, 1] ([FindVm v hp vp proto, RemoveHandle v], st) = (ts, st')"
  shows "(\<exists>e. ts = [Finished (AddResult (Err (NftForwardFailed e))), Finished (DeleteResult (Ok ()))]) \<or>
    (\<exists>f. ts = [Finished (AddResult (Ok f)), Finished (DeleteResult (Ok ()))] \<and> pf_vm_id f = v \<and>
       pf_lookup (m_port_forwards (fst st')) hp proto = Some f \<and> hm_get (m_vms (fst st')) v = None \<and>
       ip_offset (m_gateway_ip (fst st)) (vh_ip h) \<notin> m_used_ip_offsets (fst st'))"
proof -
  let ?f = "\<lparr>pf_vm_id = v, pf_host_port = hp, pf_vm_port = vp, pf_protocol = proto\<rparr>"
  have pf: "pf_inv (m_port_forwards (fst st))" using assms(1) by (simp add: mgr_inv_def)
  obtain m w where 1: "run_schedule E [0, 1, 1, 1, 1] ([FindVm v hp vp proto, RemoveHandle v], st) =
      ([ReservePort v (vh_ip h) hp vp proto, ReleaseNetwork v h], (m, w))"
    "choose_host_port (m_port_forwards m) hp proto = Ok hp" "hm_get (m_vms m) v = None" "m_gateway_ip m = m_gateway_ip (fst st)"
    by (rule forward_during_delete [OF assms(2) pf assms(3,4)])
  obtain t s2 where 2: "run_schedule E [0, 0, 0] ([ReservePort v (vh_ip h) hp vp proto, ReleaseNetwork v h], (m, w)) =
      ([t, ReleaseNetwork v h], s2)" "m_vms (fst s2) = m_vms m" "m_gateway_ip (fst s2) = m_gateway_ip m"
    "(\<exists>e. t = Finished (AddResult (Err (NftForwardFailed e)))) \<or>
     t = Finished (AddResult (Ok ?f)) \<and> m_port_forwards (fst s2) = pf_add (m_port_forwards m) ?f"
    using 1(2) by (cases "on_ext id (nft_add_port_forward (h_nft (e_host E)) (m_nftables m) v (vh_ip h) hp vp proto) w"
      ; cases "fst (on_ext id (nft_add_port_forward (h_nft (e_host E)) (m_nftables m) v (vh_ip h) hp vp proto) w)")
      (simp_all add: run_schedule_def schedule_step_def enabled_def Let_def)
  have "is_finished t" using 2(4) by auto
  then obtain m' w' where 3: "run_schedule E [1, 1] ([t, ReleaseNetwork v h], (fst s2, snd s2)) =
      ([t, Finished (DeleteResult (Ok ()))], (m', w'))" "m_vms m' = m_vms (fst s2)"
    "m_port_forwards m' = m_port_forwards (fst s2)"
    "m_used_ip_offsets m' = m_used_ip_offsets (fst s2) - {ip_offset (m_gateway_ip (fst s2)) (vh_ip h)}"
    by (rule release_reclaim)
  have "run_schedule E ([0, 1, 1, 1, 1] @ [0, 0, 0] @ [1, 1]) ([FindVm v hp vp proto, RemoveHandle v], st) =
      ([t, Finished (DeleteResult (Ok ()))], (m', w'))"
    using 1(1) 2(1) 3(1) by (simp only: run_schedule_def foldl_append prod.collapse)
  then show ?thesis using assms(5) 1(3,4) 2(2-4) 3(2-4) by auto
qed

text \<open>A host whose firewall has the chain that forwards go to.\<close>

definition forward_world :: "(json list) world" where
  "forward_world = demo_world\<lparr>w_ext := demo_base @ [JObj [(''chain'', chain_obj ''ip'' ''nat'' ''aleph-supervisor-prerouting'')]]\<rparr>"

definition demo_table :: "(json list) mstate" where
  "demo_table = mgr_step demo_env (demo_mgr, forward_world) (CreateVm (demo_config ''a'' NoTee) None None)"

definition demo_deleted :: "task list \<times> (json list) mstate" where
  "demo_deleted = run_schedule demo_env [0, 1, 1, 1, 1, 0, 0, 0, 1, 1] ([FindVm ''a'' 81 80 Tcp, RemoveHandle ''a''], demo_table)"

theorem forward_outlives_vm_witness:
  "pf_lookup (m_port_forwards (fst (snd demo_deleted))) 81 Tcp \<noteq> None \<and> hm_get (m_vms (fst (snd demo_deleted))) ''a'' = None"
proof -
  have inv: "mgr_inv (e_lib demo_env) (fst demo_table)"
    unfolding demo_table_def by (rule mgr_step_inv) (simp add: demo_mgr_def mgr_inv_new)
  have t: "hm_get (m_vms (fst demo_table)) ''a'' \<noteq> None \<and> is_available (m_port_forwards (fst demo_table)) 81 Tcp" by code_simp
  then obtain h where h: "hm_get (m_vms (fst demo_table)) ''a'' = Some h" by blast
  have ok: "(case fst demo_deleted ! 0 of Finished (AddResult (Inr f)) \<Rightarrow> True | _ \<Rightarrow> False)" by code_simp
  have "run_schedule demo_env [0, 1, 1, 1, 1, 0, 0, 0, 1, 1] ([FindVm ''a'' 81 80 Tcp, RemoveHandle ''a''], demo_table) =
      (fst demo_deleted, snd demo_deleted)" by (simp add: demo_deleted_def)
  from forward_outlives_vm [OF inv h _ _ this] t ok show ?thesis by auto
qed

text \<open>The name and the range of a creation that was granted one.\<close>

fun range_held :: "task \<Rightarrow> (string \<times> ipv6net) option" where
  "range_held (WriteDhcp c) = map_option (Pair (cn_id c)) (cn_ipv6 c)"
| "range_held (MakeTap c) = map_option (Pair (cn_id c)) (cn_ipv6 c)"
| "range_held (MakeChains c) = map_option (Pair (cn_id c)) (cn_ipv6 c)"
| "range_held (PrepareBoot c) = map_option (Pair (cn_id c)) (cn_ipv6 c)"
| "range_held (PlaceVm c backend cmdline) = map_option (Pair (cn_id c)) (cn_ipv6 c)"
| "range_held (LaunchVm c backend cmdline placement) = map_option (Pair (cn_id c)) (cn_ipv6 c)"
| "range_held (PersistVm c placement process) = map_option (Pair (cn_id c)) (cn_ipv6 c)"
| "range_held (EnterVm vid handle info) = map_option (Pair vid) (vh_ipv6 handle)"
| "range_held _ = None"

text \<open>A manager with a pool of IPv6 ranges, and two ranges in it.\<close>

definition pool_mgr :: mgr where
  "pool_mgr = mgr_new ''/run'' ''/s'' ''br0'' (10, 0, 0, 1) [(NoTee, NoTeeImpl)] None ''eth0''
     (Some \<lparr>addr = 0x20010db8000000000000000000000000, prefix_len = 48\<rparr>) False two_nodes"

definition range_of :: "u128 \<Rightarrow> ipv6net" where
  "range_of k = \<lparr>addr = 0x20010db8000000000000000000000000 + k, prefix_len = 128\<rparr>"

text \<open>A creation that finishes has entered its VM with the range it was granted.\<close>

lemma boot_vm_entered:
  assumes "boot_vm E config hint mac ip ipv6 st = (Ok info, st')"
  shows "\<exists>h. m_vms (fst st') = hm_insert (cfg_vm_id config) h (m_vms (fst st)) \<and> vh_ipv6 h = ipv6"
proof -
  obtain backend cmdline config1 st1 placement config2 st2 process st3 where b:
      "prepare_boot E config st = (Ok (cmdline, config1), st1)" "place_vm config1 hint st1 = (Ok (placement, config2), st2)"
      "launch_vm E config2 (cfg_vm_id config) (''tap-'' @ cfg_vm_id config) mac ipv6 backend cmdline placement st2 = (Ok process, st3)"
      "register_vm E config2 (cfg_vm_id config) (''tap-'' @ cfg_vm_id config) mac ip ipv6 placement process st3 = (info, st')"
    using assms unfolding boot_vm_def Let_def bindE_Ok case_prod_unfold
    by (metis (no_types, lifting) prod.collapse prod.inject sum.inject(2))
  have "fst st1 = fst st" using prepare_boot_mgr [of E config st] b(1) by simp
  moreover have "m_vms (fst st2) = m_vms (fst st1)"
    using framesD(1) [OF frames_place [of "e_lib E" st1 config1 hint]] b(2) by simp
  moreover have "m_vms (fst st3) = m_vms (fst st2)"
    using framesD(1) [OF frames_launch [of "e_lib E" st2 E config2 "cfg_vm_id config" "''tap-'' @ cfg_vm_id config" mac ipv6
        backend cmdline placement]] b(3) by simp
  ultimately show ?thesis using b(4) by (auto simp: register_vm_def Let_def)
qed

lemma finish_create: "finish_with CreateResult r = (Finished (CreateResult x), st') \<longleftrightarrow> r = (x, st')"
  by (cases r) (simp add: finish_with_def)

lemma schedule_three:
  "\<not> holds_table t1 \<Longrightarrow> \<not> holds_table t2 \<Longrightarrow>
     run_schedule E (replicate n 0) ([t0, t1, t2], st) = (case run_task E n t0 st of (t', st') \<Rightarrow> ([t', t1, t2], st'))"
  "\<not> holds_table t0 \<Longrightarrow> \<not> holds_table t1 \<Longrightarrow>
     run_schedule E (replicate n 2) ([t0, t1, t2], st) = (case run_task E n t2 st of (t', st') \<Rightarrow> ([t0, t1, t'], st'))"
proof -
  have j: "j = 0 \<or> j = 1 \<or> j = 2" if "j < length [t0, t1, t2]" for j using that by auto
  show "\<not> holds_table t1 \<Longrightarrow> \<not> holds_table t2 \<Longrightarrow>
     run_schedule E (replicate n 0) ([t0, t1, t2], st) = (case run_task E n t0 st of (t', st') \<Rightarrow> ([t', t1, t2], st'))"
    using j by (subst schedule_alone) (fastforce split: prod.split)+
  show "\<not> holds_table t0 \<Longrightarrow> \<not> holds_table t1 \<Longrightarrow>
     run_schedule E (replicate n 2) ([t0, t1, t2], st) = (case run_task E n t2 st of (t', st') \<Rightarrow> ([t0, t1, t'], st'))"
    using j by (subst schedule_alone) (fastforce split: prod.split)+
qed

lemma creation_entered:
  assumes "run_task E 8 (WriteDhcp c) st = (Finished (CreateResult (Ok info)), st')"
  shows "\<exists>h. m_vms (fst st') = hm_insert (cn_id c) h (m_vms (fst st)) \<and> vh_ipv6 h = cn_ipv6 c"
proof -
  have "(8 :: nat) = Suc (Suc (Suc (Suc (Suc (Suc (Suc (Suc 0)))))))" by simp
  then have "finish_with CreateResult
     (bindE (write_reservations E (cn_id c) (cn_mac (fst st) c) (cn_ip (fst st) c) (cn_ipv6 c) st) (\<lambda>_ st1.
      bindE (setup_tap E (cn_id c) (cn_tap c) (cn_ipv6 c) st1) (\<lambda>_ st2.
      bindE (setup_chains E (cn_id c) (cn_tap c) (cn_ipv6 c) st2) (\<lambda>_ st3.
      boot_vm E (cn_config c) (cn_hint c) (cn_mac (fst st) c) (cn_ip (fst st) c) (cn_ipv6 c) st3)))) =
      (Finished (CreateResult (Ok info)), st')"
    using assms run_network [of E c st] by (simp only:)
  then obtain u1 st1 u2 st2 u3 st3 where w:
      "write_reservations E (cn_id c) (cn_mac (fst st) c) (cn_ip (fst st) c) (cn_ipv6 c) st = (Ok u1, st1)"
      "setup_tap E (cn_id c) (cn_tap c) (cn_ipv6 c) st1 = (Ok u2, st2)"
      "setup_chains E (cn_id c) (cn_tap c) (cn_ipv6 c) st2 = (Ok u3, st3)"
      "boot_vm E (cn_config c) (cn_hint c) (cn_mac (fst st) c) (cn_ip (fst st) c) (cn_ipv6 c) st3 = (Ok info, st')"
    unfolding finish_create by (auto simp: bindE_Ok)
  have "m_vms (fst st1) = m_vms (fst st)"
    using framesD(1) [OF frames_write [of "e_lib E" st E "cn_id c" "cn_mac (fst st) c" "cn_ip (fst st) c" "cn_ipv6 c"]] w(1) by simp
  moreover have "m_vms (fst st2) = m_vms (fst st1)"
    using framesD(1) [OF frames_setup_tap [of "e_lib E" st1 E "cn_id c" "cn_tap c" "cn_ipv6 c"]] w(2) by simp
  moreover have "m_vms (fst st3) = m_vms (fst st2)"
    using framesD(1) [OF frames_setup_chains [of "e_lib E" st2 E "cn_id c" "cn_tap c" "cn_ipv6 c"]] w(3) by simp
  ultimately show ?thesis using boot_vm_entered [OF w(4)] by (simp add: cn_id_def)
qed

lemma free_offset_exists: "q \<notin> used \<Longrightarrow> q \<in> {1..254} \<Longrightarrow> \<exists>o'. free_offset used = Some o'"
proof (rule ccontr)
  assume q: "q \<notin> used" "q \<in> {1..254}" "\<nexists>o'. free_offset used = Some o'"
  then have "\<forall>x \<in> set (map of_nat [1..<255]). x \<in> used" by (auto simp: free_offset_def find_None_iff)
  moreover have "unat q \<in> set [1..<255]" using q(2) by (auto simp: word_le_nat_alt)
  ultimately have "of_nat (unat q) \<in> used" by (auto simp only: set_map)
  then show False using q(1) by simp
qed

text \<open>The grants of one name twice and then of another name.\<close>

lemma three_grants:
  assumes "alloc6_inv L al" "grantable6 L al n1" "grantable6 L al n2" "\<not> conflict6 L n1 n2"
  shows "allocate6 L al v (Some n1) = (Ok n1, grant6 al v n1)"
    "allocate6 L (grant6 al v n1) v (Some n2) = (Ok n2, grant6 (grant6 al v n1) v n2)"
    "allocate6 L (grant6 (grant6 al v n1) v n2) u (Some n1) = (Ok n1, grant6 (grant6 (grant6 al v n1) v n2) u n1)"
proof -
  have wf: "hm_wf (allocations al)" using assms(1) by (simp add: alloc6_inv_def)
  have free: "\<not> conflict6 L n q" if "n \<in> {n1, n2}" "alloc6_held al x = Some q" for n x q
    using assms(2,3) that by (auto simp: grantable6_def overlaps6_held [OF wf])
  have "\<not> overlaps6 L (grant6 al v n1) n2" "\<not> overlaps6 L (grant6 (grant6 al v n1) v n2) n1"
    using wf free assms(4) conflict6_sym [of L n1 n2] by (auto simp: overlaps6_held alloc6_held_grant split: if_splits)
  then show "allocate6 L al v (Some n1) = (Ok n1, grant6 al v n1)"
    "allocate6 L (grant6 al v n1) v (Some n2) = (Ok n2, grant6 (grant6 al v n1) v n2)"
    "allocate6 L (grant6 (grant6 al v n1) v n2) u (Some n1) = (Ok n1, grant6 (grant6 (grant6 al v n1) v n2) u n1)"
    using assms(2,3) by (simp_all add: allocate6_def grantable6_def) (simp_all add: grant6_def)
qed

text \<open>Both creations under one name have their ranges when the third asks for the first range.\<close>

lemma ranges_granted:
  assumes "alloc6_inv (e_lib E) al" "m_ipv6_allocator m = Some al"
    and "grantable6 (e_lib E) al n1" "grantable6 (e_lib E) al n2" "\<not> conflict6 (e_lib E) n1 n2"
    and "cfg_vm_id c1 = v" "cfg_vm_id c2 = v" "cfg_vm_id c3 = u" "hm_get (m_vms m) v = None" "hm_get (m_vms m) u = None"
    and "{a, b, c} \<subseteq> {1..254} - m_used_ip_offsets m" "distinct [a, b, c]"
  obtains o1 o2 o3 m' where
    "run_schedule E [0, 1, 0, 1, 0, 1, 2, 2, 2]
       ([CheckName c1 (Some n1) h1, CheckName c2 (Some n2) h2, CheckName c3 (Some n1) h3], (m, w)) =
     ([WriteDhcp \<lparr>cn_config = c1, cn_hint = h1, cn_offset = o1, cn_ipv6 = Some n1\<rparr>,
       WriteDhcp \<lparr>cn_config = c2, cn_hint = h2, cn_offset = o2, cn_ipv6 = Some n2\<rparr>,
       WriteDhcp \<lparr>cn_config = c3, cn_hint = h3, cn_offset = o3, cn_ipv6 = Some n1\<rparr>], (m', w))"
    "m_vms m' = m_vms m"
proof -
  let ?used = "m_used_ip_offsets m"
  have ex: "\<exists>q. free_offset (ofs \<union> ?used) = Some q" if "card ofs \<le> 2" "finite ofs" for ofs
  proof -
    have "card {a, b, c} = 3" using assms(12) by simp
    then have "\<not> {a, b, c} \<subseteq> ofs" using that card_mono [of ofs "{a, b, c}"] by linarith
    then obtain q where "q \<in> {a, b, c}" "q \<notin> ofs" by blast
    then show ?thesis using assms(11) by (intro free_offset_exists [of q]) auto
  qed
  obtain o1 where o1: "free_offset ?used = Some o1" using ex [of "{}"] by auto
  obtain o2 where o2: "free_offset (insert o1 ?used) = Some o2" using ex [of "{o1}"] by auto
  obtain o3 where o3: "free_offset (insert o2 (insert o1 ?used)) = Some o3"
    using ex [of "{o1, o2}"] card_insert_le_m1 [of 2 "{o2}" o1] by (auto simp: insert_commute)
  note g = three_grants [OF assms(1,3-5)]
  let ?m' = "m\<lparr>m_used_ip_offsets := insert o3 (insert o2 (insert o1 ?used)),
    m_ipv6_allocator := Some (grant6 (grant6 (grant6 al v n1) v n2) u n1)\<rparr>"
  have "run_schedule E [0, 1, 0, 1, 0, 1, 2, 2, 2]
       ([CheckName c1 (Some n1) h1, CheckName c2 (Some n2) h2, CheckName c3 (Some n1) h3], (m, w)) =
     ([WriteDhcp \<lparr>cn_config = c1, cn_hint = h1, cn_offset = o1, cn_ipv6 = Some n1\<rparr>,
       WriteDhcp \<lparr>cn_config = c2, cn_hint = h2, cn_offset = o2, cn_ipv6 = Some n2\<rparr>,
       WriteDhcp \<lparr>cn_config = c3, cn_hint = h3, cn_offset = o3, cn_ipv6 = Some n1\<rparr>], (?m', w))"
    using assms(2,6-10) o1 o2 o3 g
    by (simp add: run_schedule_def schedule_step_def enabled_def hm_contains_key_def on_mgr_def reserve_offset_def
        allocate_ipv6_def proceed_def)
  then show ?thesis by (rule that) simp
qed

text \<open>
  C19: overlapping requests give one IPv6 range to two VMs. In any manager with a pool of ranges, two
  creations under one name, for different free ranges, both pass the check of the name; the
  allocator keeps one range per name, so the second forgets the range of the first, and a creation
  under another name is granted the first range while the first creation goes on with it. When the
  two then complete, two VMs are in the table with the same range.
\<close>

theorem overlapping_ranges_collide:
  assumes "mgr_inv (e_lib E) m" "m_ipv6_allocator m = Some al"
    and "grantable6 (e_lib E) al n1" "grantable6 (e_lib E) al n2" "\<not> conflict6 (e_lib E) n1 n2"
    and "cfg_vm_id c1 = v" "cfg_vm_id c2 = v" "cfg_vm_id c3 = u" "v \<noteq> u"
    and "hm_get (m_vms m) v = None" "hm_get (m_vms m) u = None"
    and "{a, b, c} \<subseteq> {1..254} - m_used_ip_offsets m" "distinct [a, b, c]"
    and "s = run_schedule E [0, 1, 0, 1, 0, 1, 2, 2, 2]
      ([CheckName c1 (Some n1) h1, CheckName c2 (Some n2) h2, CheckName c3 (Some n1) h3], (m, w))"
  shows "overlap_run E m w s \<and> range_held (fst s ! 0) = Some (v, n1) \<and> range_held (fst s ! 2) = Some (u, n1) \<and>
    (\<forall>i1 t i3 m' w'. run_schedule E (replicate 8 2 @ replicate 8 0) s =
       ([Finished (CreateResult (Ok i1)), t, Finished (CreateResult (Ok i3))], (m', w')) \<longrightarrow>
       (\<exists>h h'. hm_get (m_vms m') v = Some h \<and> hm_get (m_vms m') u = Some h' \<and> vh_ipv6 h = Some n1 \<and> vh_ipv6 h' = Some n1))"
proof (intro conjI allI impI)
  have "alloc6_inv (e_lib E) al" using assms(1,2) by (simp add: mgr_inv_def pools_ok_def)
  then obtain o1 o2 o3 m1 where s: "s =
     ([WriteDhcp \<lparr>cn_config = c1, cn_hint = h1, cn_offset = o1, cn_ipv6 = Some n1\<rparr>,
       WriteDhcp \<lparr>cn_config = c2, cn_hint = h2, cn_offset = o2, cn_ipv6 = Some n2\<rparr>,
       WriteDhcp \<lparr>cn_config = c3, cn_hint = h3, cn_offset = o3, cn_ipv6 = Some n1\<rparr>], (m1, w))" "m_vms m1 = m_vms m"
    using ranges_granted [OF _ assms(2-8,10-13)] assms(14) by metis
  show "overlap_run E m w s" unfolding assms(14) by (rule overlap_schedule) simp
  show "range_held (fst s ! 0) = Some (v, n1)" "range_held (fst s ! 2) = Some (u, n1)"
    using assms(6,8) by (simp_all add: s(1) cn_id_def)
  let ?c1 = "\<lparr>cn_config = c1, cn_hint = h1, cn_offset = o1, cn_ipv6 = Some n1\<rparr>"
  let ?c2 = "\<lparr>cn_config = c2, cn_hint = h2, cn_offset = o2, cn_ipv6 = Some n2\<rparr>"
  let ?c3 = "\<lparr>cn_config = c3, cn_hint = h3, cn_offset = o3, cn_ipv6 = Some n1\<rparr>"
  fix i1 t i3 m' w'
  assume f: "run_schedule E (replicate 8 2 @ replicate 8 0) s =
      ([Finished (CreateResult (Ok i1)), t, Finished (CreateResult (Ok i3))], (m', w'))"
  obtain t3 st3 where 3: "run_task E 8 (WriteDhcp ?c3) (m1, w) = (t3, st3)" by (rule prod.exhaust)
  obtain t1 st1 where 1: "run_task E 8 (WriteDhcp ?c1) st3 = (t1, st1)" by (rule prod.exhaust)
  have "\<not> holds_table t3" using 3 run_network [of E ?c3 "(m1, w)"] by (auto simp: eval_nat_numeral finish_with_def)
  then have "run_schedule E (replicate 8 0) ([WriteDhcp ?c1, WriteDhcp ?c2, t3], st3) = ([t1, WriteDhcp ?c2, t3], st1)"
    using 1 by (simp add: schedule_three(1))
  moreover have "run_schedule E (replicate 8 2) s = ([WriteDhcp ?c1, WriteDhcp ?c2, t3], st3)"
    using 3 by (simp add: s(1) schedule_three(2))
  ultimately have "run_schedule E (replicate 8 2 @ replicate 8 0) s = ([t1, WriteDhcp ?c2, t3], st1)"
    by (simp only: run_schedule_def foldl_append)
  with f have t: "t1 = Finished (CreateResult (Ok i1))" "t3 = Finished (CreateResult (Ok i3))" "st1 = (m', w')" by simp_all
  obtain h h' where "m_vms m' = hm_insert v h (m_vms (fst st3))" "vh_ipv6 h = Some n1"
      "m_vms (fst st3) = hm_insert u h' (m_vms m1)" "vh_ipv6 h' = Some n1"
    using creation_entered [OF 1 [unfolded t]] creation_entered [OF 3 [unfolded t]] assms(6,8) by (auto simp: cn_id_def)
  with assms(9) show "\<exists>h h'. hm_get (m_vms m') v = Some h \<and> hm_get (m_vms m') u = Some h' \<and>
      vh_ipv6 h = Some n1 \<and> vh_ipv6 h' = Some n1"
    by auto
qed

definition demo_collision :: "task list \<times> (json list) mstate" where
  "demo_collision = run_schedule demo_env [0, 1, 0, 1, 0, 1, 2, 2, 2]
     ([CheckName (demo_config ''a'' NoTee) (Some (range_of 1)) None, CheckName (demo_config ''a'' NoTee) (Some (range_of 2)) None,
       CheckName (demo_config ''b'' NoTee) (Some (range_of 1)) None], (pool_mgr, demo_world))"

theorem overlapping_ranges_collide_witness:
  "let m' = fst (snd (run_schedule demo_env (replicate 8 2 @ replicate 8 0) demo_collision))
   in map_option vh_ipv6 (hm_get (m_vms m') ''a'') = Some (Some (range_of 1)) \<and>
      map_option vh_ipv6 (hm_get (m_vms m') ''b'') = Some (Some (range_of 1))"
proof -
  define f where "f = run_schedule demo_env (replicate 8 2 @ replicate 8 0) demo_collision"
  have inv: "mgr_inv (e_lib demo_env) pool_mgr" by (simp add: pool_mgr_def mgr_inv_new)
  obtain al where al: "m_ipv6_allocator pool_mgr = Some al" "al = the (m_ipv6_allocator pool_mgr)"
    by (cases "m_ipv6_allocator pool_mgr") (simp_all add: pool_mgr_def mgr_new_def)
  have g: "grantable6 (e_lib demo_env) al (range_of 1)" "grantable6 (e_lib demo_env) al (range_of 2)"
      "\<not> conflict6 (e_lib demo_env) (range_of 1) (range_of 2)"
    unfolding al(2) by code_simp+
  have o: "{1, 2, 3} \<subseteq> {1..254} - m_used_ip_offsets pool_mgr" "distinct [1, 2, 3 :: u8]"
    by (simp_all add: pool_mgr_def mgr_new_def)
  have none: "hm_get (m_vms pool_mgr) x = None" for x by (simp add: pool_mgr_def mgr_new_def)
  have "case fst f of [Finished (CreateResult (Inr _)), _, Finished (CreateResult (Inr _))] \<Rightarrow> True | _ \<Rightarrow> False"
    unfolding f_def by code_simp
  then obtain i1 t i3 where "fst f = [Finished (CreateResult (Ok i1)), t, Finished (CreateResult (Ok i3))]"
    by (auto split: list.splits task.splits task_result.splits sum.splits)
  then have e: "run_schedule demo_env (replicate 8 2 @ replicate 8 0) demo_collision =
      ([Finished (CreateResult (Ok i1)), t, Finished (CreateResult (Ok i3))], (fst (snd f), snd (snd f)))"
    by (simp add: f_def prod_eq_iff)
  have id: "cfg_vm_id (demo_config v NoTee) = v" for v by (simp add: demo_config_def)
  have ab: "''a'' \<noteq> ''b''" by simp
  note c = overlapping_ranges_collide [OF inv al(1) g id id id ab none none o demo_collision_def]
  from c [THEN conjunct2, THEN conjunct2, THEN conjunct2, rule_format, OF e]
  show ?thesis by (auto simp only: Let_def f_def [symmetric] option.map)
qed

end
