(* ===== verification/Serde.thy ===== *)
theory Serde
  imports Json
begin

text \<open>
  The derived serialisation the sources use (\<^verbatim>\<open>serde\<close>'s \<^verbatim>\<open>Serialize\<close> and \<^verbatim>\<open>Deserialize\<close> with their
  attributes), between values and JSON: members that are required, have a default or an
  \<^verbatim>\<open>Option\<close> type, sequences, sets, maps and variants without data. A value is read from a JSON
  object; an unknown member is ignored and a repeated one rejected. The positional form of a
  struct, a JSON array, is left out. The locale \<open>json_codec\<close> is the contract of an encoding.
\<close>

section \<open>Reading members of an object\<close>

definition struct_fields :: "string list \<Rightarrow> json \<Rightarrow> (string \<Rightarrow> json option) option" where
  "struct_fields ks j =
     (case j of
        JObj ms \<Rightarrow> if distinct (filter (\<lambda>k. k \<in> set ks) (map fst ms)) then Some (map_of ms) else None
      | _ \<Rightarrow> None)"

text \<open>A required member, one with a default, and one of an \<^verbatim>\<open>Option\<close> type.\<close>

definition req_field :: "(json \<Rightarrow> 'a option) \<Rightarrow> (string \<Rightarrow> json option) \<Rightarrow> string \<Rightarrow> 'a option" where
  "req_field d f k = Option.bind (f k) d"

definition def_field :: "(json \<Rightarrow> 'a option) \<Rightarrow> 'a \<Rightarrow> (string \<Rightarrow> json option) \<Rightarrow> string \<Rightarrow> 'a option" where
  "def_field d v f k = (case f k of None \<Rightarrow> Some v | Some j \<Rightarrow> d j)"

definition opt_json :: "(json \<Rightarrow> 'a option) \<Rightarrow> json \<Rightarrow> 'a option option" where
  "opt_json d j = (if is_null j then Some None else map_option Some (d j))"

definition opt_field :: "(json \<Rightarrow> 'a option) \<Rightarrow> (string \<Rightarrow> json option) \<Rightarrow> string \<Rightarrow> 'a option option" where
  "opt_field d f k = (case f k of None \<Rightarrow> Some None | Some j \<Rightarrow> opt_json d j)"

fun uint_json :: "int \<Rightarrow> json \<Rightarrow> int option" where
  "uint_json bound (JInt n) = (if 0 \<le> n \<and> n < bound then Some n else None)"
| "uint_json bound _ = None"

definition u16_json :: "json \<Rightarrow> u16 option" where
  "u16_json j = map_option word_of_int (uint_json (2 ^ 16) j)"

definition u32_json :: "json \<Rightarrow> u32 option" where
  "u32_json j = map_option word_of_int (uint_json (2 ^ 32) j)"

definition u64_json :: "json \<Rightarrow> u64 option" where
  "u64_json j = map_option word_of_int (uint_json (2 ^ 64) j)"

definition vec_json :: "(json \<Rightarrow> 'a option) \<Rightarrow> json \<Rightarrow> 'a list option" where
  "vec_json d j = Option.bind (as_array j) (\<lambda>xs. those (map d xs))"

text \<open>A \<^verbatim>\<open>HashSet\<close> of strings keeps one copy of each, a \<^verbatim>\<open>HashMap\<close> the last value of a key.\<close>

definition set_json :: "json \<Rightarrow> string list option" where
  "set_json j = map_option remdups (vec_json as_str j)"

definition hm_of_list :: "('k \<times> 'v) list \<Rightarrow> ('k, 'v) hmap" where
  "hm_of_list kvs = foldr (\<lambda>(k, v) m. if hm_contains_key m k then m else (k, v) # m) kvs []"

fun string_map_json :: "json \<Rightarrow> (string, string) hmap option" where
  "string_map_json (JObj ms) =
     map_option (\<lambda>vs. hm_of_list (zip (map fst ms) vs)) (those (map (\<lambda>m. as_str (snd m)) ms))"
| "string_map_json _ = None"

text \<open>A variant without data: its name, or an object with the name as its only member and null.\<close>

definition enum_json :: "(string \<times> 'a) list \<Rightarrow> json \<Rightarrow> 'a option" where
  "enum_json names j =
     (case j of
        JStr s \<Rightarrow> map_of names s
      | JObj [(s, JNull)] \<Rightarrow> map_of names s
      | _ \<Rightarrow> None)"

section \<open>Writing\<close>

definition enc_word :: "'w::len word \<Rightarrow> json" where
  "enc_word w = JInt (uint w)"

definition string_map_to_json :: "(string, string) hmap \<Rightarrow> json" where
  "string_map_to_json m = JObj (map (\<lambda>(k, v). (k, JStr v)) m)"

definition enc_opt :: "('a \<Rightarrow> json) \<Rightarrow> 'a option \<Rightarrow> json" where
  "enc_opt e x = (case x of None \<Rightarrow> JNull | Some a \<Rightarrow> e a)"

definition enc_vec :: "('a \<Rightarrow> json) \<Rightarrow> 'a list \<Rightarrow> json" where
  "enc_vec e xs = JArr (map e xs)"

section \<open>The contract of an encoding\<close>

text \<open>
  What the composite types rely on of the types of their members: on the values that are
  \<open>ok\<close>, decoding undoes encoding, and no value is encoded as null. Sequences and optional
  members inherit it.
\<close>

locale json_codec =
  fixes enc :: "'a \<Rightarrow> json" and dec :: "json \<Rightarrow> 'a option" and ok :: "'a \<Rightarrow> bool"
  assumes dec_enc: "ok x \<Longrightarrow> dec (enc x) = Some x"
    and not_null: "\<not> is_null (enc x)"
begin

lemma vec_round: "list_all ok xs \<Longrightarrow> vec_json dec (enc_vec enc xs) = Some xs"
  by (induction xs) (auto simp: vec_json_def enc_vec_def dec_enc)

lemma opt_round: "pred_option ok x \<Longrightarrow> opt_json dec (enc_opt enc x) = Some x"
  by (cases x) (auto simp: opt_json_def enc_opt_def dec_enc not_null)

end

lemma struct_fields_obj: "distinct (map fst ms) \<Longrightarrow> struct_fields ks (JObj ms) = Some (map_of ms)"
  by (simp add: struct_fields_def)

lemmas member_simps = req_field_def def_field_def opt_field_def

interpretation str_codec: json_codec JStr as_str "\<lambda>_. True"
  by unfold_locales simp_all

lemma u16_round [simp]: "u16_json (enc_word w) = Some w"
  using uint_bounded [of w] by (simp add: u16_json_def enc_word_def)

lemma u32_round [simp]: "u32_json (enc_word w) = Some w"
  using uint_bounded [of w] by (simp add: u32_json_def enc_word_def)

lemma u64_round [simp]: "u64_json (enc_word w) = Some w"
  using uint_bounded [of w] by (simp add: u64_json_def enc_word_def)

lemma all_True [simp]: "list_all (\<lambda>_. True) xs" "pred_option (\<lambda>_. True) x"
  by (simp_all add: list_all_iff option.pred_True)

lemma hm_of_list_id: "hm_wf m \<Longrightarrow> hm_of_list m = m"
proof (induction m)
  case (Cons e m)
  then have "hm_wf m" "fst e \<notin> set (map fst m)" by (auto simp: hm_wf_def)
  with Cons show ?case
    by (cases e) (auto simp: hm_of_list_def hm_contains_key_def hm_get_def map_of_eq_None_iff)
qed (simp add: hm_of_list_def)

lemma hm_of_list_wf: "hm_wf (hm_of_list kvs)"
proof (induction kvs)
  case (Cons e kvs)
  then show ?case
    by (cases e) (auto simp: hm_of_list_def hm_wf_def hm_contains_key_def hm_get_def map_of_eq_None_iff)
qed (simp add: hm_of_list_def)

text \<open>Of several members with one name the last counts.\<close>

lemma hm_of_list_last: "hm_get (hm_of_list (kvs @ [(k, v)])) k = Some v"
proof (induction kvs)
  case (Cons e kvs)
  then show ?case by (cases e) (auto simp: hm_of_list_def hm_get_def hm_contains_key_def)
qed (simp add: hm_of_list_def hm_get_def hm_contains_key_def)

lemma string_map_round: "hm_wf m \<Longrightarrow> string_map_json (string_map_to_json m) = Some m"
proof -
  have "those (map (\<lambda>e. as_str (snd (case e of (k, v) \<Rightarrow> (k, JStr v)))) m) = Some (map snd m)"
    by (induction m) auto
  moreover have "map (fst \<circ> (\<lambda>(k, v). (k, JStr v))) m = map fst m" by auto
  ultimately show "hm_wf m \<Longrightarrow> ?thesis"
    by (simp add: string_map_to_json_def comp_def zip_map_fst_snd hm_of_list_id case_prod_beta)
qed

end
