(* ===== verification/Messages.thy ===== *)
theory Messages
  imports Serde
begin

text \<open>
  The Aleph messages of \<^verbatim>\<open>crates/aleph-scheduler-agent/src/aleph/messages.rs\<close>: their types,
  the queries on them, and their JSON form as the serialisation attributes of the types
  prescribe it (renamed members, defaults, optional members, the untagged union of volumes).
  The reading and writing of single members is that of \<open>Serde\<close>.
\<close>

section \<open>Types\<close>

type_synonym item_hash = string

datatype machine_type = VmFunction | VmInstance

record published_port =
  pp_protocol :: string
  pp_port :: u16

record machine_resources =
  res_vcpus :: u32
  res_memory :: u32
  res_seconds :: u32
  res_published_ports :: "published_port list"

datatype volume_persistence = HostPersistence | StorePersistence

record immutable_volume =
  iv_item_ref :: item_hash
  iv_mount :: string
  iv_use_latest :: bool

record parent_volume =
  par_item_ref :: item_hash
  par_use_latest :: bool

record persistent_volume =
  psv_mount :: string
  psv_name :: "string option"
  psv_size_mib :: u64
  psv_parent :: "parent_volume option"
  psv_persistence :: volume_persistence

record ephemeral_volume =
  ev_mount :: string
  ev_ephemeral :: bool
  ev_size_mib :: u64

datatype machine_volume =
    Immutable immutable_volume
  | Persistent persistent_volume
  | Ephemeral ephemeral_volume

record rootfs_volume =
  rf_parent :: parent_volume
  rf_persistence :: volume_persistence
  rf_size_mib :: u64

datatype hypervisor_type = QemuHypervisor | Firecracker

record trusted_execution =
  te_firmware :: "item_hash option"
  te_policy :: u64
  te_encrypted :: bool

record instance_environment =
  ie_internet :: bool
  ie_aleph_api :: bool
  ie_hypervisor :: "hypervisor_type option"
  ie_trusted_execution :: "trusted_execution option"

record function_environment =
  fe_reproducible :: bool
  fe_internet :: bool
  fe_aleph_api :: bool

datatype encoding = Plain | Zip | Squashfs

record code_content =
  cc_encoding :: encoding
  cc_entrypoint :: string
  cc_item_ref :: item_hash
  cc_interface :: "string option"
  cc_args :: "string list"

record function_runtime =
  fr_item_ref :: item_hash
  fr_use_latest :: bool
  fr_comment :: string

datatype payment_type = Hold | Superfluid | Credit

record payment =
  pay_chain :: "string option"
  pay_receiver :: "string option"
  pay_type :: payment_type

record executable_message =
  em_item_hash :: item_hash
  em_machine_type :: machine_type
  em_resources :: machine_resources
  em_volumes :: "machine_volume list"
  em_variables :: "(string, string) hmap"
  em_allow_amend :: bool
  em_replaces :: "item_hash option"
  em_payment :: "payment option"
  em_environment :: "instance_environment option"
  em_rootfs :: "rootfs_volume option"
  em_code :: "code_content option"
  em_runtime :: "function_runtime option"

section \<open>Queries\<close>

fun volume_mount :: "machine_volume \<Rightarrow> string" where
  "volume_mount (Immutable v) = iv_mount v"
| "volume_mount (Persistent v) = psv_mount v"
| "volume_mount (Ephemeral v) = ev_mount v"

fun is_read_only :: "machine_volume \<Rightarrow> bool" where
  "is_read_only (Immutable v) = True"
| "is_read_only _ = False"

definition is_stream :: "payment \<Rightarrow> bool" where
  "is_stream p = (pay_type p = Superfluid)"

definition message_tee :: "executable_message \<Rightarrow> trusted_execution option" where
  "message_tee msg = Option.bind (em_environment msg) ie_trusted_execution"

definition is_confidential :: "executable_message \<Rightarrow> bool" where
  "is_confidential msg = (message_tee msg \<noteq> None)"

definition is_persistent :: "executable_message \<Rightarrow> bool" where
  "is_persistent msg = (em_machine_type msg = VmInstance)"

definition sev_policy :: "executable_message \<Rightarrow> u64 option" where
  "sev_policy msg = map_option te_policy (message_tee msg)"

definition is_encrypted :: "executable_message \<Rightarrow> bool" where
  "is_encrypted msg = unwrap_or (map_option te_encrypted (message_tee msg)) False"

section \<open>Decoding\<close>

definition machine_type_from_json :: "json \<Rightarrow> machine_type option" where
  "machine_type_from_json = enum_json [(''vm_function'', VmFunction), (''vm_instance'', VmInstance)]"

definition persistence_from_json :: "json \<Rightarrow> volume_persistence option" where
  "persistence_from_json = enum_json [(''host'', HostPersistence), (''store'', StorePersistence)]"

definition hypervisor_from_json :: "json \<Rightarrow> hypervisor_type option" where
  "hypervisor_from_json = enum_json [(''qemu'', QemuHypervisor), (''firecracker'', Firecracker)]"

definition encoding_from_json :: "json \<Rightarrow> encoding option" where
  "encoding_from_json = enum_json [(''plain'', Plain), (''zip'', Zip), (''squashfs'', Squashfs)]"

definition payment_type_from_json :: "json \<Rightarrow> payment_type option" where
  "payment_type_from_json = enum_json [(''hold'', Hold), (''superfluid'', Superfluid), (''credit'', Credit)]"

definition published_port_from_json :: "json \<Rightarrow> published_port option" where
  "published_port_from_json j =
     Option.bind (struct_fields [''protocol'', ''port''] j) (\<lambda>f.
     Option.bind (req_field as_str f ''protocol'') (\<lambda>protocol.
     Option.bind (req_field u16_json f ''port'') (\<lambda>port.
       Some \<lparr>pp_protocol = protocol, pp_port = port\<rparr>)))"

definition default_vcpus :: u32 where "default_vcpus = 1"
definition default_memory :: u32 where "default_memory = 128"
definition default_seconds :: u32 where "default_seconds = 1"
definition default_true :: bool where "default_true = True"

definition resources_from_json :: "json \<Rightarrow> machine_resources option" where
  "resources_from_json j =
     Option.bind (struct_fields [''vcpus'', ''memory'', ''seconds'', ''published_ports''] j) (\<lambda>f.
     Option.bind (def_field u32_json default_vcpus f ''vcpus'') (\<lambda>vcpus.
     Option.bind (def_field u32_json default_memory f ''memory'') (\<lambda>memory.
     Option.bind (def_field u32_json default_seconds f ''seconds'') (\<lambda>seconds.
     Option.bind (def_field (vec_json published_port_from_json) [] f ''published_ports'') (\<lambda>ports.
       Some \<lparr>res_vcpus = vcpus, res_memory = memory, res_seconds = seconds, res_published_ports = ports\<rparr>)))))"

definition immutable_from_json :: "json \<Rightarrow> immutable_volume option" where
  "immutable_from_json j =
     Option.bind (struct_fields [''ref'', ''mount'', ''use_latest''] j) (\<lambda>f.
     Option.bind (req_field as_str f ''ref'') (\<lambda>item_ref.
     Option.bind (req_field as_str f ''mount'') (\<lambda>mount.
     Option.bind (def_field as_bool default_true f ''use_latest'') (\<lambda>use_latest.
       Some \<lparr>iv_item_ref = item_ref, iv_mount = mount, iv_use_latest = use_latest\<rparr>))))"

definition parent_from_json :: "json \<Rightarrow> parent_volume option" where
  "parent_from_json j =
     Option.bind (struct_fields [''ref'', ''use_latest''] j) (\<lambda>f.
     Option.bind (req_field as_str f ''ref'') (\<lambda>item_ref.
     Option.bind (def_field as_bool default_true f ''use_latest'') (\<lambda>use_latest.
       Some \<lparr>par_item_ref = item_ref, par_use_latest = use_latest\<rparr>)))"

definition persistent_from_json :: "json \<Rightarrow> persistent_volume option" where
  "persistent_from_json j =
     Option.bind (struct_fields [''mount'', ''name'', ''size_mib'', ''parent'', ''persistence''] j) (\<lambda>f.
     Option.bind (req_field as_str f ''mount'') (\<lambda>mount.
     Option.bind (opt_field as_str f ''name'') (\<lambda>name.
     Option.bind (req_field u64_json f ''size_mib'') (\<lambda>size_mib.
     Option.bind (opt_field parent_from_json f ''parent'') (\<lambda>parent.
     Option.bind (def_field persistence_from_json HostPersistence f ''persistence'') (\<lambda>persistence.
       Some \<lparr>psv_mount = mount, psv_name = name, psv_size_mib = size_mib, psv_parent = parent,
             psv_persistence = persistence\<rparr>))))))"

definition ephemeral_from_json :: "json \<Rightarrow> ephemeral_volume option" where
  "ephemeral_from_json j =
     Option.bind (struct_fields [''mount'', ''ephemeral'', ''size_mib''] j) (\<lambda>f.
     Option.bind (req_field as_str f ''mount'') (\<lambda>mount.
     Option.bind (req_field as_bool f ''ephemeral'') (\<lambda>ephemeral.
     Option.bind (req_field u64_json f ''size_mib'') (\<lambda>size_mib.
       Some \<lparr>ev_mount = mount, ev_ephemeral = ephemeral, ev_size_mib = size_mib\<rparr>))))"

text \<open>The untagged union: the first variant that reads the value is taken.\<close>

definition machine_volume_from_json :: "json \<Rightarrow> machine_volume option" where
  "machine_volume_from_json j =
     (case immutable_from_json j of
        Some v \<Rightarrow> Some (Immutable v)
      | None \<Rightarrow>
          (case persistent_from_json j of
             Some v \<Rightarrow> Some (Persistent v)
           | None \<Rightarrow> map_option Ephemeral (ephemeral_from_json j)))"

definition rootfs_from_json :: "json \<Rightarrow> rootfs_volume option" where
  "rootfs_from_json j =
     Option.bind (struct_fields [''parent'', ''persistence'', ''size_mib''] j) (\<lambda>f.
     Option.bind (req_field parent_from_json f ''parent'') (\<lambda>parent.
     Option.bind (def_field persistence_from_json HostPersistence f ''persistence'') (\<lambda>persistence.
     Option.bind (req_field u64_json f ''size_mib'') (\<lambda>size_mib.
       Some \<lparr>rf_parent = parent, rf_persistence = persistence, rf_size_mib = size_mib\<rparr>))))"

definition trusted_execution_from_json :: "json \<Rightarrow> trusted_execution option" where
  "trusted_execution_from_json j =
     Option.bind (struct_fields [''firmware'', ''policy'', ''encrypted''] j) (\<lambda>f.
     Option.bind (opt_field as_str f ''firmware'') (\<lambda>firmware.
     Option.bind (def_field u64_json 0 f ''policy'') (\<lambda>policy.
     Option.bind (def_field as_bool False f ''encrypted'') (\<lambda>encrypted.
       Some \<lparr>te_firmware = firmware, te_policy = policy, te_encrypted = encrypted\<rparr>))))"

definition environment_from_json :: "json \<Rightarrow> instance_environment option" where
  "environment_from_json j =
     Option.bind (struct_fields [''internet'', ''aleph_api'', ''hypervisor'', ''trusted_execution''] j) (\<lambda>f.
     Option.bind (def_field as_bool False f ''internet'') (\<lambda>internet.
     Option.bind (def_field as_bool False f ''aleph_api'') (\<lambda>aleph_api.
     Option.bind (opt_field hypervisor_from_json f ''hypervisor'') (\<lambda>hypervisor.
     Option.bind (opt_field trusted_execution_from_json f ''trusted_execution'') (\<lambda>tee.
       Some \<lparr>ie_internet = internet, ie_aleph_api = aleph_api, ie_hypervisor = hypervisor,
             ie_trusted_execution = tee\<rparr>)))))"

definition function_environment_from_json :: "json \<Rightarrow> function_environment option" where
  "function_environment_from_json j =
     Option.bind (struct_fields [''reproducible'', ''internet'', ''aleph_api''] j) (\<lambda>f.
     Option.bind (def_field as_bool False f ''reproducible'') (\<lambda>reproducible.
     Option.bind (def_field as_bool False f ''internet'') (\<lambda>internet.
     Option.bind (def_field as_bool False f ''aleph_api'') (\<lambda>aleph_api.
       Some \<lparr>fe_reproducible = reproducible, fe_internet = internet, fe_aleph_api = aleph_api\<rparr>))))"

definition code_from_json :: "json \<Rightarrow> code_content option" where
  "code_from_json j =
     Option.bind (struct_fields [''encoding'', ''entrypoint'', ''ref'', ''interface'', ''args''] j) (\<lambda>f.
     Option.bind (req_field encoding_from_json f ''encoding'') (\<lambda>encoding.
     Option.bind (req_field as_str f ''entrypoint'') (\<lambda>entrypoint.
     Option.bind (req_field as_str f ''ref'') (\<lambda>item_ref.
     Option.bind (opt_field as_str f ''interface'') (\<lambda>interface.
     Option.bind (def_field (vec_json as_str) [] f ''args'') (\<lambda>args.
       Some \<lparr>cc_encoding = encoding, cc_entrypoint = entrypoint, cc_item_ref = item_ref,
             cc_interface = interface, cc_args = args\<rparr>))))))"

definition runtime_from_json :: "json \<Rightarrow> function_runtime option" where
  "runtime_from_json j =
     Option.bind (struct_fields [''ref'', ''use_latest'', ''comment''] j) (\<lambda>f.
     Option.bind (req_field as_str f ''ref'') (\<lambda>item_ref.
     Option.bind (def_field as_bool default_true f ''use_latest'') (\<lambda>use_latest.
     Option.bind (def_field as_str [] f ''comment'') (\<lambda>comment.
       Some \<lparr>fr_item_ref = item_ref, fr_use_latest = use_latest, fr_comment = comment\<rparr>))))"

definition payment_from_json :: "json \<Rightarrow> payment option" where
  "payment_from_json j =
     Option.bind (struct_fields [''chain'', ''receiver'', ''type''] j) (\<lambda>f.
     Option.bind (opt_field as_str f ''chain'') (\<lambda>chain.
     Option.bind (opt_field as_str f ''receiver'') (\<lambda>receiver.
     Option.bind (req_field payment_type_from_json f ''type'') (\<lambda>payment_type.
       Some \<lparr>pay_chain = chain, pay_receiver = receiver, pay_type = payment_type\<rparr>))))"

definition message_fields :: "string list" where
  "message_fields =
     [''item_hash'', ''type'', ''resources'', ''volumes'', ''variables'', ''allow_amend'', ''replaces'',
      ''payment'', ''environment'', ''rootfs'', ''code'', ''runtime'']"

definition message_from_json :: "json \<Rightarrow> executable_message option" where
  "message_from_json j =
     Option.bind (struct_fields message_fields j) (\<lambda>f.
     Option.bind (req_field as_str f ''item_hash'') (\<lambda>item_hash.
     Option.bind (req_field machine_type_from_json f ''type'') (\<lambda>machine_type.
     Option.bind (req_field resources_from_json f ''resources'') (\<lambda>resources.
     Option.bind (def_field (vec_json machine_volume_from_json) [] f ''volumes'') (\<lambda>volumes.
     Option.bind (def_field string_map_json [] f ''variables'') (\<lambda>variables.
     Option.bind (def_field as_bool False f ''allow_amend'') (\<lambda>allow_amend.
     Option.bind (opt_field as_str f ''replaces'') (\<lambda>replaces.
     Option.bind (opt_field payment_from_json f ''payment'') (\<lambda>payment.
     Option.bind (opt_field environment_from_json f ''environment'') (\<lambda>environment.
     Option.bind (opt_field rootfs_from_json f ''rootfs'') (\<lambda>rootfs.
     Option.bind (opt_field code_from_json f ''code'') (\<lambda>code.
     Option.bind (opt_field runtime_from_json f ''runtime'') (\<lambda>runtime.
       Some \<lparr>em_item_hash = item_hash, em_machine_type = machine_type, em_resources = resources,
             em_volumes = volumes, em_variables = variables, em_allow_amend = allow_amend,
             em_replaces = replaces, em_payment = payment, em_environment = environment,
             em_rootfs = rootfs, em_code = code, em_runtime = runtime\<rparr>)))))))))))))"

section \<open>Encoding\<close>

fun machine_type_name :: "machine_type \<Rightarrow> string" where
  "machine_type_name VmFunction = ''vm_function''"
| "machine_type_name VmInstance = ''vm_instance''"

fun persistence_name :: "volume_persistence \<Rightarrow> string" where
  "persistence_name HostPersistence = ''host''"
| "persistence_name StorePersistence = ''store''"

fun hypervisor_name :: "hypervisor_type \<Rightarrow> string" where
  "hypervisor_name QemuHypervisor = ''qemu''"
| "hypervisor_name Firecracker = ''firecracker''"

fun encoding_name :: "encoding \<Rightarrow> string" where
  "encoding_name Plain = ''plain''"
| "encoding_name Zip = ''zip''"
| "encoding_name Squashfs = ''squashfs''"

fun payment_type_name :: "payment_type \<Rightarrow> string" where
  "payment_type_name Hold = ''hold''"
| "payment_type_name Superfluid = ''superfluid''"
| "payment_type_name Credit = ''credit''"

definition published_port_to_json :: "published_port \<Rightarrow> json" where
  "published_port_to_json p = JObj [(''protocol'', JStr (pp_protocol p)), (''port'', enc_word (pp_port p))]"

definition resources_to_json :: "machine_resources \<Rightarrow> json" where
  "resources_to_json r =
     JObj [(''vcpus'', enc_word (res_vcpus r)), (''memory'', enc_word (res_memory r)),
           (''seconds'', enc_word (res_seconds r)),
           (''published_ports'', enc_vec published_port_to_json (res_published_ports r))]"

definition immutable_to_json :: "immutable_volume \<Rightarrow> json" where
  "immutable_to_json v =
     JObj [(''ref'', JStr (iv_item_ref v)), (''mount'', JStr (iv_mount v)), (''use_latest'', JBool (iv_use_latest v))]"

definition parent_to_json :: "parent_volume \<Rightarrow> json" where
  "parent_to_json v = JObj [(''ref'', JStr (par_item_ref v)), (''use_latest'', JBool (par_use_latest v))]"

definition persistent_to_json :: "persistent_volume \<Rightarrow> json" where
  "persistent_to_json v =
     JObj [(''mount'', JStr (psv_mount v)), (''name'', enc_opt JStr (psv_name v)),
           (''size_mib'', enc_word (psv_size_mib v)), (''parent'', enc_opt parent_to_json (psv_parent v)),
           (''persistence'', JStr (persistence_name (psv_persistence v)))]"

definition ephemeral_to_json :: "ephemeral_volume \<Rightarrow> json" where
  "ephemeral_to_json v =
     JObj [(''mount'', JStr (ev_mount v)), (''ephemeral'', JBool (ev_ephemeral v)),
           (''size_mib'', enc_word (ev_size_mib v))]"

fun machine_volume_to_json :: "machine_volume \<Rightarrow> json" where
  "machine_volume_to_json (Immutable v) = immutable_to_json v"
| "machine_volume_to_json (Persistent v) = persistent_to_json v"
| "machine_volume_to_json (Ephemeral v) = ephemeral_to_json v"

definition rootfs_to_json :: "rootfs_volume \<Rightarrow> json" where
  "rootfs_to_json v =
     JObj [(''parent'', parent_to_json (rf_parent v)),
           (''persistence'', JStr (persistence_name (rf_persistence v))), (''size_mib'', enc_word (rf_size_mib v))]"

definition trusted_execution_to_json :: "trusted_execution \<Rightarrow> json" where
  "trusted_execution_to_json t =
     JObj [(''firmware'', enc_opt JStr (te_firmware t)), (''policy'', enc_word (te_policy t)),
           (''encrypted'', JBool (te_encrypted t))]"

definition environment_to_json :: "instance_environment \<Rightarrow> json" where
  "environment_to_json e =
     JObj [(''internet'', JBool (ie_internet e)), (''aleph_api'', JBool (ie_aleph_api e)),
           (''hypervisor'', enc_opt (\<lambda>h. JStr (hypervisor_name h)) (ie_hypervisor e)),
           (''trusted_execution'', enc_opt trusted_execution_to_json (ie_trusted_execution e))]"

definition function_environment_to_json :: "function_environment \<Rightarrow> json" where
  "function_environment_to_json e =
     JObj [(''reproducible'', JBool (fe_reproducible e)), (''internet'', JBool (fe_internet e)),
           (''aleph_api'', JBool (fe_aleph_api e))]"

definition code_to_json :: "code_content \<Rightarrow> json" where
  "code_to_json c =
     JObj [(''encoding'', JStr (encoding_name (cc_encoding c))), (''entrypoint'', JStr (cc_entrypoint c)),
           (''ref'', JStr (cc_item_ref c)), (''interface'', enc_opt JStr (cc_interface c)),
           (''args'', enc_vec JStr (cc_args c))]"

definition runtime_to_json :: "function_runtime \<Rightarrow> json" where
  "runtime_to_json r =
     JObj [(''ref'', JStr (fr_item_ref r)), (''use_latest'', JBool (fr_use_latest r)), (''comment'', JStr (fr_comment r))]"

definition payment_to_json :: "payment \<Rightarrow> json" where
  "payment_to_json p =
     JObj [(''chain'', enc_opt JStr (pay_chain p)), (''receiver'', enc_opt JStr (pay_receiver p)),
           (''type'', JStr (payment_type_name (pay_type p)))]"

definition message_to_json :: "executable_message \<Rightarrow> json" where
  "message_to_json m =
     JObj [(''item_hash'', JStr (em_item_hash m)), (''type'', JStr (machine_type_name (em_machine_type m))),
           (''resources'', resources_to_json (em_resources m)),
           (''volumes'', enc_vec machine_volume_to_json (em_volumes m)),
           (''variables'', string_map_to_json (em_variables m)), (''allow_amend'', JBool (em_allow_amend m)),
           (''replaces'', enc_opt JStr (em_replaces m)), (''payment'', enc_opt payment_to_json (em_payment m)),
           (''environment'', enc_opt environment_to_json (em_environment m)),
           (''rootfs'', enc_opt rootfs_to_json (em_rootfs m)), (''code'', enc_opt code_to_json (em_code m)),
           (''runtime'', enc_opt runtime_to_json (em_runtime m))]"

section \<open>Round trips\<close>

interpretation port_codec: json_codec published_port_to_json published_port_from_json "\<lambda>_. True"
  by unfold_locales
     (simp_all add: published_port_from_json_def published_port_to_json_def struct_fields_obj member_simps)

lemma resources_round: "resources_from_json (resources_to_json r) = Some r"
  by (simp add: resources_from_json_def resources_to_json_def struct_fields_obj member_simps port_codec.vec_round)

interpretation parent_codec: json_codec parent_to_json parent_from_json "\<lambda>_. True"
  by unfold_locales (simp_all add: parent_from_json_def parent_to_json_def struct_fields_obj member_simps)

lemma persistence_round [simp]: "persistence_from_json (JStr (persistence_name p)) = Some p"
  by (cases p) (simp_all add: persistence_from_json_def enum_json_def)

lemma immutable_round: "immutable_from_json (immutable_to_json v) = Some v"
  by (simp add: immutable_from_json_def immutable_to_json_def struct_fields_obj member_simps)

lemma persistent_round: "persistent_from_json (persistent_to_json v) = Some v"
  by (simp add: persistent_from_json_def persistent_to_json_def struct_fields_obj member_simps
      str_codec.opt_round parent_codec.opt_round)


text \<open>
  The volumes that survive the untagged union: a persistent volume has no member \<^verbatim>\<open>ref\<close>, so it is
  not taken for an immutable one, but an ephemeral one has all that a persistent one requires.
\<close>

definition distinguishable :: "machine_volume \<Rightarrow> bool" where
  "distinguishable v = (case v of Ephemeral _ \<Rightarrow> False | _ \<Rightarrow> True)"

lemma persistent_not_immutable: "immutable_from_json (persistent_to_json v) = None"
  by (simp add: immutable_from_json_def persistent_to_json_def struct_fields_obj member_simps)

interpretation volume_codec: json_codec machine_volume_to_json machine_volume_from_json distinguishable
proof
  show "distinguishable v \<Longrightarrow> machine_volume_from_json (machine_volume_to_json v) = Some v" for v
    by (cases v) (auto simp: distinguishable_def machine_volume_from_json_def immutable_round persistent_round
        persistent_not_immutable)
  show "\<not> is_null (machine_volume_to_json v)" for v
    by (cases v) (auto simp: immutable_to_json_def persistent_to_json_def ephemeral_to_json_def)
qed

interpretation rootfs_codec: json_codec rootfs_to_json rootfs_from_json "\<lambda>_. True"
  by unfold_locales
     (simp_all add: rootfs_from_json_def rootfs_to_json_def struct_fields_obj member_simps parent_codec.dec_enc)

interpretation tee_codec: json_codec trusted_execution_to_json trusted_execution_from_json "\<lambda>_. True"
  by unfold_locales
     (simp_all add: trusted_execution_from_json_def trusted_execution_to_json_def struct_fields_obj member_simps
        str_codec.opt_round)

interpretation hypervisor_codec: json_codec "\<lambda>h. JStr (hypervisor_name h)" hypervisor_from_json "\<lambda>_. True"
proof
  show "hypervisor_from_json (JStr (hypervisor_name h)) = Some h" for h
    by (cases h) (simp_all add: hypervisor_from_json_def enum_json_def)
qed simp

interpretation environment_codec: json_codec environment_to_json environment_from_json "\<lambda>_. True"
  by unfold_locales
     (simp_all add: environment_from_json_def environment_to_json_def struct_fields_obj member_simps
        hypervisor_codec.opt_round tee_codec.opt_round)

interpretation function_environment_codec:
  json_codec function_environment_to_json function_environment_from_json "\<lambda>_. True"
  by unfold_locales
     (simp_all add: function_environment_from_json_def function_environment_to_json_def struct_fields_obj member_simps)

lemma encoding_round [simp]: "encoding_from_json (JStr (encoding_name e)) = Some e"
  by (cases e) (simp_all add: encoding_from_json_def enum_json_def)

interpretation code_codec: json_codec code_to_json code_from_json "\<lambda>_. True"
  by unfold_locales
     (simp_all add: code_from_json_def code_to_json_def struct_fields_obj member_simps
        str_codec.opt_round str_codec.vec_round)

interpretation runtime_codec: json_codec runtime_to_json runtime_from_json "\<lambda>_. True"
  by unfold_locales (simp_all add: runtime_from_json_def runtime_to_json_def struct_fields_obj member_simps)

lemma payment_type_round [simp]: "payment_type_from_json (JStr (payment_type_name t)) = Some t"
  by (cases t) (simp_all add: payment_type_from_json_def enum_json_def)

interpretation payment_codec: json_codec payment_to_json payment_from_json "\<lambda>_. True"
  by unfold_locales
     (simp_all add: payment_from_json_def payment_to_json_def struct_fields_obj member_simps str_codec.opt_round)

lemma machine_type_round [simp]: "machine_type_from_json (JStr (machine_type_name t)) = Some t"
  by (cases t) (simp_all add: machine_type_from_json_def enum_json_def)

lemma message_round:
  assumes "hm_wf (em_variables m)" "list_all distinguishable (em_volumes m)"
  shows "message_from_json (message_to_json m) = Some m"
  using assms
  by (simp add: message_from_json_def message_to_json_def struct_fields_obj member_simps resources_round
      volume_codec.vec_round string_map_round str_codec.opt_round payment_codec.opt_round
      environment_codec.opt_round rootfs_codec.opt_round code_codec.opt_round runtime_codec.opt_round)


section \<open>Properties\<close>

definition demo_message :: "item_hash \<Rightarrow> executable_message" where
  "demo_message h =
     \<lparr>em_item_hash = h, em_machine_type = VmInstance,
      em_resources = \<lparr>res_vcpus = 2, res_memory = 2048, res_seconds = 1,
        res_published_ports = [\<lparr>pp_protocol = ''tcp'', pp_port = 8080\<rparr>]\<rparr>,
      em_volumes = [Immutable \<lparr>iv_item_ref = ''vol'', iv_mount = ''/data'', iv_use_latest = True\<rparr>],
      em_variables = [(''ENV'', ''production'')], em_allow_amend = True, em_replaces = None, em_payment = None,
      em_environment = Some \<lparr>ie_internet = True, ie_aleph_api = False, ie_hypervisor = Some QemuHypervisor,
        ie_trusted_execution = Some \<lparr>te_firmware = None, te_policy = 7, te_encrypted = False\<rparr>\<rparr>,
      em_rootfs = Some \<lparr>rf_parent = \<lparr>par_item_ref = ''root'', par_use_latest = True\<rparr>,
        rf_persistence = HostPersistence, rf_size_mib = 10240\<rparr>,
      em_code = None, em_runtime = None\<rparr>"

text \<open>
  The members a message must have, under the names of the Aleph format, and the values that the
  absent ones stand for: a message with nothing but an identifier, a type, empty resources and a
  root file system is one for a CPU, 128 MiB and a second, whose root file system follows its
  parent and is kept on the host.
\<close>

lemma minimal_message_defaults:
  assumes "0 \<le> n" "n < 2 ^ 64"
  shows "message_from_json (JObj [(''item_hash'', JStr h), (''type'', JStr ''vm_instance''), (''resources'', JObj []),
      (''rootfs'', JObj [(''parent'', JObj [(''ref'', JStr r)]), (''size_mib'', JInt n)])]) =
    Some \<lparr>em_item_hash = h, em_machine_type = VmInstance,
      em_resources = \<lparr>res_vcpus = 1, res_memory = 128, res_seconds = 1, res_published_ports = []\<rparr>,
      em_volumes = [], em_variables = [], em_allow_amend = False, em_replaces = None, em_payment = None,
      em_environment = None,
      em_rootfs = Some \<lparr>rf_parent = \<lparr>par_item_ref = r, par_use_latest = True\<rparr>, rf_persistence = HostPersistence,
        rf_size_mib = word_of_int n\<rparr>,
      em_code = None, em_runtime = None\<rparr>"
  using assms
  by (simp add: message_from_json_def struct_fields_obj member_simps machine_type_from_json_def enum_json_def
      resources_from_json_def rootfs_from_json_def parent_from_json_def opt_json_def u64_json_def
      default_vcpus_def default_memory_def default_seconds_def default_true_def)

text \<open>
  An ephemeral volume is never read back as one: the union tries the persistent variant
  first, which requires only a mount point and a size, so the volume comes back as a persistent
  volume kept on the host.
\<close>

theorem ephemeral_read_as_persistent:
  "machine_volume_from_json (machine_volume_to_json (Ephemeral v)) =
     Some (Persistent \<lparr>psv_mount = ev_mount v, psv_name = None, psv_size_mib = ev_size_mib v,
       psv_parent = None, psv_persistence = HostPersistence\<rparr>)"
  by (simp add: machine_volume_from_json_def ephemeral_to_json_def immutable_from_json_def
      persistent_from_json_def struct_fields_obj member_simps)

end
