(* ===== verification/Allocations.thy ===== *)
theory Allocations
  imports Messages Tee
begin

text \<open>
  Allocations (\<^verbatim>\<open>crates/aleph-scheduler-agent/src/aleph/allocations.rs\<close>): their JSON form, the
  signature on them and the comparison of the desired with the running VMs. A \<^verbatim>\<open>HashSet\<close> is
  a list without repetitions, in an order nothing relies on. HMAC-SHA256 is a function of the
  key and the message, a parameter.
\<close>

section \<open>Allocations and signatures\<close>

record allocation =
  al_persistent_vms :: "item_hash list"
  al_instances :: "item_hash list"

definition allocation_from_json :: "json \<Rightarrow> allocation option" where
  "allocation_from_json j =
     Option.bind (struct_fields [''persistent_vms'', ''instances''] j) (\<lambda>f.
     Option.bind (def_field set_json [] f ''persistent_vms'') (\<lambda>persistent_vms.
     Option.bind (def_field set_json [] f ''instances'') (\<lambda>instances.
       Some \<lparr>al_persistent_vms = persistent_vms, al_instances = instances\<rparr>)))"

definition all_vms :: "allocation \<Rightarrow> item_hash list" where
  "all_vms a = remdups (al_persistent_vms a @ al_instances a)"

definition allocation_contains :: "allocation \<Rightarrow> item_hash \<Rightarrow> bool" where
  "allocation_contains a h = (h \<in> set (al_persistent_vms a) \<or> h \<in> set (al_instances a))"

definition verify_allocation_signature ::
  "(bytes \<Rightarrow> bytes \<Rightarrow> bytes) \<Rightarrow> hex_lib \<Rightarrow> bytes \<Rightarrow> string \<Rightarrow> bytes \<Rightarrow> bool" where
  "verify_allocation_signature hmac X body signature token_hash =
     (case hex_decode X signature of
        None \<Rightarrow> False
      | Some sig_bytes \<Rightarrow> hmac token_hash body = sig_bytes)"

section \<open>Reconciliation\<close>

record reconcile_actions =
  to_start :: "item_hash list"
  to_stop :: "item_hash list"
  unchanged :: "item_hash list"

definition reconcile :: "allocation \<Rightarrow> item_hash list \<Rightarrow> reconcile_actions" where
  "reconcile a running =
     (let desired = all_vms a
      in \<lparr>to_start = filter (\<lambda>h. h \<notin> set running) desired,
          to_stop = filter (\<lambda>h. h \<notin> set desired) running,
          unchanged = filter (\<lambda>h. h \<in> set desired) running\<rparr>)"

lemma set_all_vms: "h \<in> set (all_vms a) \<longleftrightarrow> allocation_contains a h"
  by (simp add: all_vms_def allocation_contains_def)

lemma distinct_all_vms [simp]: "distinct (all_vms a)"
  by (simp add: all_vms_def)

lemma reconcile_sets:
  "set (to_start (reconcile a running)) = {h. allocation_contains a h} - set running"
  "set (to_stop (reconcile a running)) = set running - {h. allocation_contains a h}"
  "set (unchanged (reconcile a running)) = set running \<inter> {h. allocation_contains a h}"
  by (auto simp: reconcile_def Let_def set_all_vms)

lemma reconcile_distinct:
  "distinct (to_start (reconcile a running))"
  "distinct running \<Longrightarrow> distinct (to_stop (reconcile a running))"
  by (simp_all add: reconcile_def Let_def)

section \<open>Properties\<close>

text \<open>
  The three lists of a reconciliation are without repetitions and pairwise disjoint;
  starting the first and stopping the second turns the running VMs into exactly the allocated
  ones, the third are those that stay, and a second reconciliation has nothing to do.
\<close>

theorem reconcile_partition:
  assumes "distinct running"
  shows "distinct (to_start (reconcile a running) @ to_stop (reconcile a running) @ unchanged (reconcile a running)) \<and>
    (set running - set (to_stop (reconcile a running))) \<union> set (to_start (reconcile a running)) =
      {h. allocation_contains a h} \<and>
    set (unchanged (reconcile a running)) = set running \<inter> {h. allocation_contains a h} \<and>
    (set after = {h. allocation_contains a h} \<longrightarrow>
      to_start (reconcile a after) = [] \<and> to_stop (reconcile a after) = [])"
proof -
  have "distinct (unchanged (reconcile a running))" using assms by (simp add: reconcile_def Let_def)
  moreover have "to_start (reconcile a after) = [] \<and> to_stop (reconcile a after) = []"
    if "set after = {h. allocation_contains a h}"
    using that reconcile_sets [of a after] by (simp flip: set_empty)
  ultimately show ?thesis
    using assms by (auto simp: reconcile_sets reconcile_distinct)
qed

theorem reconcile_partition_witness:
  "let r = reconcile \<lparr>al_persistent_vms = [], al_instances = [''vm1'', ''vm3'']\<rparr> [''vm1'', ''vm2'']
   in to_start r = [''vm3''] \<and> to_stop r = [''vm2''] \<and> distinct (to_start r @ to_stop r @ unchanged r)"
proof -
  let ?a = "\<lparr>al_persistent_vms = [], al_instances = [''vm1'', ''vm3'']\<rparr>"
  have "to_start (reconcile ?a [''vm1'', ''vm2'']) = [''vm3'']" "to_stop (reconcile ?a [''vm1'', ''vm2'']) = [''vm2'']"
    by (simp_all add: reconcile_def all_vms_def)
  moreover have "distinct [''vm1'', ''vm2'']" by simp
  ultimately show ?thesis
    using reconcile_partition [of "[''vm1'', ''vm2'']" ?a "[]"] unfolding Let_def by blast
qed

end
