(* ===== verification/Certs.thy ===== *)
theory Certs
  imports Tee Filesystem
begin

unbundle bit_operations_syntax

text \<open>
  The AMD certificates of \<^verbatim>\<open>crates/aleph-tee/src/sev_snp/certs.rs\<close>: fetching the VCEK and the
  CA chain from AMD's key distribution service with a cache on disk, and splitting two
  concatenated DER objects. The HTTP client is an operation on the world, the certificate
  library a record of functions over a certificate type; \<^verbatim>\<open>usize\<close> is a 64-bit word whose
  additions wrap, as they do in a release build.
\<close>

section \<open>Types and parameters\<close>

record cert_chain =
  vcek_der :: bytes
  ask_der :: bytes
  ark_der :: bytes

record tcb_params =
  bl_spl :: u8
  tee_spl :: u8
  snp_spl :: u8
  ucode_spl :: u8

record http_response =
  http_status :: u16
  http_body :: "(string, bytes) result"

record 'x kds_env =
  k_io :: io_env
  k_xdg_cache_home :: "string option"
  k_home :: "string option"
  k_http_get :: "string \<Rightarrow> 'x \<Rightarrow> (string, http_response) result \<times> 'x"

text \<open>
  The certificate and signature library: certificates \<open>'c\<close>, public keys \<open>'k\<close>, elliptic
  curve keys \<open>'e\<close>, big numbers \<open>'n\<close> and ECDSA signatures \<open>'s\<close>. Every call may fail. A name entry
  that is no UTF-8 text is \<open>None\<close>.
\<close>

record ('c, 'k, 'e, 'n, 's) openssl =
  x509_from_der :: "bytes \<Rightarrow> 'c option"
  x509_to_der :: "'c \<Rightarrow> bytes option"
  stack_from_pem :: "bytes \<Rightarrow> 'c list option"
  x509_public_key :: "'c \<Rightarrow> 'k option"
  x509_verify :: "'c \<Rightarrow> 'k \<Rightarrow> bool option"
  x509_common_names :: "'c \<Rightarrow> string option list"
  x509_organizations :: "'c \<Rightarrow> string option list"
  x509_subject_der :: "'c \<Rightarrow> bytes option"
  x509_issuer_der :: "'c \<Rightarrow> bytes option"
  hash_sha384 :: "bytes \<Rightarrow> bytes option"
  bn_from_slice :: "bytes \<Rightarrow> 'n option"
  ecdsa_from_components :: "'n \<Rightarrow> 'n \<Rightarrow> 's option"
  pkey_ec_key :: "'k \<Rightarrow> 'e option"
  ecdsa_verify :: "'s \<Rightarrow> bytes \<Rightarrow> 'e \<Rightarrow> bool option"

datatype der_error =
    CertTooShort
  | EmptyDer
  | DerTooShort
  | IndefiniteLength
  | LengthTruncated
  | FirstTooLong u64 nat
  | OnlyOneCert

datatype fetch_error =
    SendFailed string string
  | HttpStatus u16 string
  | BodyFailed string
  | BadPem
  | TooFewCerts nat
  | DerConversion string
  | SplitFailed der_error

section \<open>The cache\<close>

definition kds_base_url :: string where
  "kds_base_url = ''https://kdsintf.amd.com/vcek/v1''"

definition cache_dir :: "'x kds_env \<Rightarrow> path option" where
  "cache_dir K =
     map_option (\<lambda>base. path_join (path_join base ''aleph-tee'') ''kds'')
       (case k_xdg_cache_home K of
          Some x \<Rightarrow> Some x
        | None \<Rightarrow> map_option (\<lambda>h. path_join h ''.cache'') (k_home K))"

definition read_cached :: "io_env \<Rightarrow> path \<Rightarrow> filesystem \<Rightarrow> bytes option" where
  "read_cached I p fs =
     (case fs_read I p fs of
        Inr data \<Rightarrow> if data \<noteq> [] then Some data else None
      | Inl _ \<Rightarrow> None)"

definition write_cache :: "io_env \<Rightarrow> path \<Rightarrow> bytes \<Rightarrow> filesystem \<Rightarrow> filesystem" where
  "write_cache I p data fs =
     (let fs1 = (case path_parent p of Some d \<Rightarrow> ignore (fs_exec I (Mkdir d) fs) | None \<Rightarrow> fs)
      in ignore (fs_write I p (string_of_bytes data) fs1))"

section \<open>Splitting DER\<close>

text \<open>
  The loop over the length bytes. \<^verbatim>\<open>checked_shl(8)\<close> fails only for a shift of at least the
  width of the type, so it never does here: bits shifted out are lost.
\<close>

definition der_length_value :: "bytes \<Rightarrow> u64" where
  "der_length_value bs = foldl (\<lambda>content_len b. push_bit 8 content_len OR ucast b) 0 bs"

definition der_object_length :: "bytes \<Rightarrow> (der_error, u64) result" where
  "der_object_length data =
     (if data = [] then Err EmptyDer
      else if length data < 2 then Err DerTooShort
      else
        let length_byte = data ! 1
        in if length_byte AND 0x80 = 0 then Ok (2 + ucast length_byte)
           else
             let num_length_bytes = unat (length_byte AND 0x7F)
             in if num_length_bytes = 0 then Err IndefiniteLength
                else if 2 + num_length_bytes > length data then Err LengthTruncated
                else Ok (2 + of_nat num_length_bytes + der_length_value (take num_length_bytes (drop 2 data))))"

definition split_der_certs :: "bytes \<Rightarrow> (der_error, bytes \<times> bytes) result" where
  "split_der_certs data =
     (if length data < 2 then Err CertTooShort
      else and_then (der_object_length data) (\<lambda>first_len.
        if unat first_len > length data then Err (FirstTooLong first_len (length data))
        else
          let first = take (unat first_len) data; second = drop (unat first_len) data
          in if second = [] then Err OnlyOneCert else Ok (first, second)))"

section \<open>Fetching\<close>

definition is_success :: "u16 \<Rightarrow> bool" where
  "is_success status = (200 \<le> status \<and> status < 300)"

definition kds_get :: "'x kds_env \<Rightarrow> string \<Rightarrow> 'x world \<Rightarrow> (fetch_error, bytes) result \<times> 'x world" where
  "kds_get K url w =
     bindE (on_ext (\<lambda>e. SendFailed url e) (k_http_get K url) w) (\<lambda>response w.
       if \<not> is_success (http_status response) then (Err (HttpStatus (http_status response) url), w)
       else (map_err BodyFailed (http_body response), w))"

definition vcek_cache_path :: "path \<Rightarrow> string \<Rightarrow> string \<Rightarrow> tcb_params \<Rightarrow> path" where
  "vcek_cache_path d product chip_id_hex tcb =
     path_join (path_join d product)
       (''vcek_'' @ chip_id_hex @ ''_'' @ show_word (bl_spl tcb) @ ''_'' @ show_word (tee_spl tcb) @ ''_'' @
        show_word (snp_spl tcb) @ ''_'' @ show_word (ucode_spl tcb) @ ''.der'')"

definition vcek_url :: "string \<Rightarrow> string \<Rightarrow> tcb_params \<Rightarrow> string" where
  "vcek_url product chip_id_hex tcb =
     kds_base_url @ ''/'' @ product @ ''/'' @ chip_id_hex @ ''?blSPL='' @ show_word (bl_spl tcb) @
     ''&teeSPL='' @ show_word (tee_spl tcb) @ ''&snpSPL='' @ show_word (snp_spl tcb) @
     ''&ucodeSPL='' @ show_word (ucode_spl tcb)"

definition fetch_vcek ::
  "'x kds_env \<Rightarrow> hex_lib \<Rightarrow> string \<Rightarrow> bytes \<Rightarrow> tcb_params \<Rightarrow> 'x world \<Rightarrow> (fetch_error, bytes) result \<times> 'x world" where
  "fetch_vcek K X product chip_id tcb w =
     (let chip_id_hex = hex_encode X chip_id;
          cache_path = map_option (\<lambda>d. vcek_cache_path d product chip_id_hex tcb) (cache_dir K)
      in case Option.bind cache_path (\<lambda>p. read_cached (k_io K) p (w_fs w)) of
           Some data \<Rightarrow> (Ok data, w)
         | None \<Rightarrow>
             bindE (kds_get K (vcek_url product chip_id_hex tcb) w) (\<lambda>data w.
               (Ok data,
                case cache_path of None \<Rightarrow> w | Some p \<Rightarrow> w\<lparr>w_fs := write_cache (k_io K) p data (w_fs w)\<rparr>)))"

definition pem_chain :: "('c, 'k, 'e, 'n, 's) openssl \<Rightarrow> bytes \<Rightarrow> (fetch_error, bytes \<times> bytes) result" where
  "pem_chain S body =
     and_then (ok_or (stack_from_pem S body) BadPem) (\<lambda>certs.
       if length certs < 2 then Err (TooFewCerts (length certs))
       else and_then (ok_or (x509_to_der S (certs ! 0)) (DerConversion ''ASK'')) (\<lambda>ask.
            and_then (ok_or (x509_to_der S (certs ! 1)) (DerConversion ''ARK'')) (\<lambda>ark.
              Ok (ask, ark))))"

definition ca_cache_paths :: "'x kds_env \<Rightarrow> string \<Rightarrow> (path \<times> path) option" where
  "ca_cache_paths K product =
     map_option (\<lambda>d. let dir = path_join d product in (path_join dir ''ask.der'', path_join dir ''ark.der''))
       (cache_dir K)"

definition read_cached_chain :: "'x kds_env \<Rightarrow> string \<Rightarrow> filesystem \<Rightarrow> (bytes \<times> bytes) option" where
  "read_cached_chain K product fs =
     (case ca_cache_paths K product of
        None \<Rightarrow> None
      | Some (ask_path, ark_path) \<Rightarrow>
          (case (read_cached (k_io K) ask_path fs, read_cached (k_io K) ark_path fs) of
             (Some ask, Some ark) \<Rightarrow> Some (ask, ark)
           | _ \<Rightarrow> None))"

definition fetch_ca_chain ::
  "'x kds_env \<Rightarrow> ('c, 'k, 'e, 'n, 's) openssl \<Rightarrow> string \<Rightarrow> 'x world \<Rightarrow>
   (fetch_error, bytes \<times> bytes) result \<times> 'x world" where
  "fetch_ca_chain K S product w =
     (case read_cached_chain K product (w_fs w) of
        Some chain \<Rightarrow> (Ok chain, w)
      | None \<Rightarrow>
          bindE (kds_get K (kds_base_url @ ''/'' @ product @ ''/cert_chain'') w) (\<lambda>body w.
          bindE ((if take 10 body = bytes_of_string ''-----BEGIN'' then pem_chain S body
                  else map_err SplitFailed (split_der_certs body)), w) (\<lambda>(ask, ark) w.
            (Ok (ask, ark),
             case ca_cache_paths K product of
               None \<Rightarrow> w
             | Some (ask_path, ark_path) \<Rightarrow>
                 w\<lparr>w_fs := write_cache (k_io K) ark_path ark (write_cache (k_io K) ask_path ask (w_fs w))\<rparr>))))"

section \<open>DER lengths\<close>

text \<open>
  The reference: the definite-length encoding of DER, with the big-endian bytes of a length
  that does not fit seven bits.
\<close>

fun be_bytes :: "nat \<Rightarrow> bytes" where
  "be_bytes n = (if n < 256 then [of_nat n] else be_bytes (n div 256) @ [of_nat (n mod 256)])"

declare be_bytes.simps [simp del]

definition der_length :: "nat \<Rightarrow> bytes" where
  "der_length n =
     (if n < 128 then [of_nat n] else of_nat (128 + length (be_bytes n)) # be_bytes n)"

definition der_object :: "u8 \<Rightarrow> bytes \<Rightarrow> bytes" where
  "der_object tag content = tag # der_length (length content) @ content"

lemma be_bytes_pos: "0 < length (be_bytes n)"
  by (subst be_bytes.simps) simp

lemma length_be_bytes: "n < 256 ^ k \<Longrightarrow> 0 < k \<Longrightarrow> length (be_bytes n) \<le> k"
proof (induction k arbitrary: n)
  case (Suc k)
  show ?case
  proof (cases "n < 256")
    case True
    then show ?thesis by (simp add: be_bytes.simps [of n])
  next
    case False
    then have "0 < k" using Suc.prems by (cases k) auto
    moreover have "n div 256 < 256 ^ k" using Suc.prems by (simp add: less_mult_imp_div_less mult.commute)
    ultimately show ?thesis using Suc.IH [of "n div 256"] False by (simp add: be_bytes.simps [of n])
  qed
qed simp

lemma push_or_byte: "push_bit 8 a OR ucast (b :: u8) = (256 * a + ucast b :: u64)"
proof -
  have "push_bit 8 a OR ucast b = push_bit 8 a + (ucast b :: u64)"
    by (rule disjunctive_add [symmetric]) (auto simp: bit_push_bit_iff bit_ucast_iff dest: bit_imp_le_length)
  then show ?thesis by (simp add: push_bit_eq_mult)
qed

lemma der_length_value_snoc: "der_length_value (bs @ [b]) = 256 * der_length_value bs + ucast b"
  by (simp add: der_length_value_def push_or_byte)

lemma ucast_of_nat_byte: "m < 256 \<Longrightarrow> (ucast (of_nat m :: u8) :: u64) = of_nat m"
  by (simp add: word_unat_eq_iff unsigned_ucast_eq unat_of_nat take_bit_eq_mod)

lemma der_length_value_be_bytes: "der_length_value (be_bytes n) = of_nat n"
proof (induction n rule: be_bytes.induct)
  case (1 n)
  show ?case
  proof (cases "n < 256")
    case True
    then have "der_length_value (be_bytes n) = der_length_value ([] @ [of_nat n])"
      by (simp add: be_bytes.simps [of n])
    with True show ?thesis
      unfolding der_length_value_snoc by (simp add: der_length_value_def ucast_of_nat_byte)
  next
    case False
    have "of_nat n = (256 * of_nat (n div 256) + of_nat (n mod 256) :: u64)"
      by (metis mult_div_mod_eq of_nat_add of_nat_mult of_nat_numeral)
    with 1 False show ?thesis
      by (simp add: be_bytes.simps [of n] der_length_value_snoc ucast_of_nat_byte)
  qed
qed

lemma long_form_byte: "k < 128 \<Longrightarrow> of_nat (128 + k) AND (0x80 :: u8) \<noteq> 0 \<and> unat (of_nat (128 + k) AND (0x7F :: u8)) = k"
proof -
  have "\<forall>k \<in> set [0..<128]. of_nat (128 + k) AND (0x80 :: u8) \<noteq> 0 \<and> unat (of_nat (128 + k) AND (0x7F :: u8)) = k"
    by code_simp
  then show "k < 128 \<Longrightarrow> ?thesis" by simp
qed

lemma short_form_byte: "k < 128 \<Longrightarrow> of_nat k AND (0x80 :: u8) = 0"
proof -
  have "\<forall>k \<in> set [0..<128]. of_nat k AND (0x80 :: u8) = 0" by code_simp
  then show "k < 128 \<Longrightarrow> ?thesis" by simp
qed

lemma der_long_form:
  assumes "0 < length ls" "length ls < 128"
  shows "der_object_length (tag # of_nat (128 + length ls) # ls @ rest) =
     Ok (2 + of_nat (length ls) + der_length_value ls)"
  using assms long_form_byte [OF assms(2)] by (simp add: der_object_length_def Let_def)

lemma der_object_length_object:
  assumes "length content < 2 ^ 62"
  shows "der_object_length (der_object tag content @ rest) = Ok (of_nat (length (der_object tag content)))"
proof (cases "length content < 128")
  case True
  then show ?thesis
    by (simp add: der_object_def der_length_def der_object_length_def short_form_byte ucast_of_nat_byte)
next
  case False
  have "length (be_bytes (length content)) \<le> 8" by (rule length_be_bytes) (use assms in simp_all)
  moreover have "0 < length (be_bytes (length content))" by (rule be_bytes_pos)
  ultimately show ?thesis
    using False der_long_form [of "be_bytes (length content)" tag "content @ rest"]
    by (simp add: der_object_def der_length_def der_length_value_be_bytes)
qed

section \<open>Properties\<close>

text \<open>
  A CA chain of two concatenated DER certificates is split where the first one ends:
  for every first object in definite-length encoding, short or long form, and every
  non-empty rest, the two parts come back.
\<close>

theorem split_der_certs_round_trip:
  assumes "length content < 2 ^ 62" "rest \<noteq> []"
  shows "split_der_certs (der_object tag content @ rest) = Ok (der_object tag content, rest)"
proof -
  let ?o = "der_object tag content"
  have "length (be_bytes (length content)) \<le> 8"
    by (rule length_be_bytes) (use assms in simp_all)
  then have len: "2 \<le> length ?o" "length ?o < 2 ^ 64"
    using assms(1) by (auto simp: der_object_def der_length_def)
  then have "unat (of_nat (length ?o) :: u64) = length ?o"
    by (simp add: unat_of_nat)
  with len assms show ?thesis
    by (simp add: split_der_certs_def der_object_length_object [OF assms(1)] and_then_def)
qed

theorem split_der_certs_round_trip_witness:
  "split_der_certs (der_object 0x30 [1, 2, 3] @ [0x30, 0]) = Ok (der_object 0x30 [1, 2, 3], [0x30, 0])"
  by (rule split_der_certs_round_trip) simp_all

lemma der_length_value_low_bytes:
  assumes "length lo = 8"
  shows "der_length_value (hi @ lo) = der_length_value lo"
proof -
  have shift: "foldl (\<lambda>c b. push_bit 8 c OR ucast b) a bs =
      (256 ^ length bs * a + foldl (\<lambda>c b. push_bit 8 c OR ucast b) 0 bs :: u64)" for a :: u64 and bs :: bytes
  proof (induction bs rule: rev_induct)
    case (snoc b bs)
    then show ?case by (simp add: push_or_byte algebra_simps)
  qed simp
  have "256 ^ length lo = (0 :: u64)" using assms by simp
  then show ?thesis
    using shift [of "der_length_value hi" lo] by (simp only: der_length_value_def foldl_append) simp
qed

text \<open>
  The overflow check of the DER length does not detect overflow: of a length given in
  more than eight bytes all but the last eight are dropped, so an object that announces
  \<open>2 ^ 64 + n\<close> bytes is taken to have \<open>n\<close>.
\<close>

theorem der_length_overflow_undetected:
  assumes "length lo = 8" "length hi < 120"
  shows "der_object_length (tag # of_nat (128 + (length hi + 8)) # hi @ lo @ rest) =
     Ok (2 + of_nat (length hi + 8) + der_length_value lo)"
  using der_long_form [of "hi @ lo" tag rest] assms by (simp add: der_length_value_low_bytes)

theorem der_length_overflow_undetected_witness:
  "der_object_length (0x30 # 0x89 # [1] @ [0, 0, 0, 0, 0, 0, 0, 3] @ [7, 7, 7]) = Ok 14"
  using der_length_overflow_undetected [of "[0, 0, 0, 0, 0, 0, 0, 3]" "[1]" "0x30" "[7, 7, 7]"]
  by (simp add: der_length_value_def push_or_byte)

lemma read_after_write_cache:
  assumes "reliable_io I" "data \<noteq> []"
  shows "read_cached I p (write_cache I p data fs) = Some data"
  using assms by (simp add: read_cached_def write_cache_def ignore_def fs_read_def reliable_write reliable_read and_then_def ok_or_def Let_def)

lemma read_cached_content: "reliable_io I \<Longrightarrow> fs_content fs p = fs_content fs' p \<Longrightarrow> read_cached I p fs = read_cached I p fs'"
  by (simp add: read_cached_def fs_read_def reliable_read)

lemma append_sep_eq: "c \<notin> set a \<Longrightarrow> c \<notin> set b \<Longrightarrow> a @ c # x = b @ c # y \<longleftrightarrow> a = b \<and> x = y"
proof (induction a arbitrary: b)
  case Nil
  then show ?case by (cases b) auto
next
  case (Cons a as)
  then show ?case by (cases b) auto
qed

lemma show_nat_no_sep: "CHR ''_'' \<notin> set (show_nat n)" "CHR ''.'' \<notin> set (show_nat n)"
  using show_nat_digits [of "CHR ''_''" n] show_nat_digits [of "CHR ''.''" n] by (auto simp: is_ascii_digit_def)

lemma vcek_cache_path_inject:
  assumes "hex_ok X" "\<And>b. CHR ''_'' \<notin> set (hex_encode X b)"
  shows "vcek_cache_path d product (hex_encode X a) t = vcek_cache_path d product (hex_encode X b) u \<longleftrightarrow> a = b \<and> t = u"
proof -
  have "hex_encode X a = hex_encode X b \<longleftrightarrow> a = b" using assms(1) by (metis hex_ok_def option.inject)
  moreover have "show_word (ucode_spl t) @ ''.der'' = show_word (ucode_spl u) @ ''.der'' \<longleftrightarrow> ucode_spl t = ucode_spl u"
    by (simp add: show_nat_inj word_unat_eq_iff)
  moreover have "t = u \<longleftrightarrow> bl_spl t = bl_spl u \<and> tee_spl t = tee_spl u \<and> snp_spl t = snp_spl u \<and> ucode_spl t = ucode_spl u"
    by (cases t; cases u) simp
  ultimately show ?thesis
    by (simp add: vcek_cache_path_def path_join_def starts_with_def append_sep_eq assms(2) show_nat_no_sep show_nat_inj word_unat_eq_iff)
qed

text \<open>
  A fetched VCEK is cached for exactly its chip and TCB version. When the file
  operations succeed, a later fetch for them is served from the file and sends no request,
  as long as the file is left alone; and the file is that of no other chip or version.
\<close>

theorem vcek_cache_exact:
  assumes io: "reliable_io (k_io K)" and d: "cache_dir K = Some d"
    and X: "hex_ok X" "\<And>b. CHR ''_'' \<notin> set (hex_encode X b)"
    and f: "fetch_vcek K X product chip tcb w = (Ok data, w1)" "data \<noteq> []"
    and p: "p = vcek_cache_path d product (hex_encode X chip) tcb"
    and same: "fs_content (w_fs w2) p = fs_content (w_fs w1) p"
  shows "fetch_vcek K X product chip tcb w2 = (Ok data, w2) \<and>
    ((chip', tcb') \<noteq> (chip, tcb) \<longrightarrow> vcek_cache_path d product (hex_encode X chip') tcb' \<noteq> p)"
proof -
  have "read_cached (k_io K) p (w_fs w1) = Some data"
    using f d unfolding p
    by (auto simp: fetch_vcek_def Let_def bindE_Ok read_after_write_cache [OF io] split: option.splits)
  then have "read_cached (k_io K) p (w_fs w2) = Some data"
    using read_cached_content [OF io same] by simp
  then show ?thesis
    using d by (simp add: fetch_vcek_def Let_def p vcek_cache_path_inject [OF X])
qed

text \<open>A key distribution service that serves one certificate, and a file system that works.\<close>

definition demo_kds :: "nat kds_env" where
  "demo_kds = \<lparr>k_io = \<lparr>step_fault = (\<lambda>_ _. None), read_fault = (\<lambda>_ _. None), dir_fault = (\<lambda>_ _. None)\<rparr>,
     k_xdg_cache_home = None, k_home = Some ''/root'',
     k_http_get = (\<lambda>url n. (Ok \<lparr>http_status = 200, http_body = Ok [0x30, 0, 0x30, 0]\<rparr>, Suc n))\<rparr>"

definition demo_client_world :: "nat world" where
  "demo_client_world = \<lparr>w_fs = \<lparr>fs_files = hm_empty, fs_dirs = [], fs_clock = 0\<rparr>, w_ext = 0\<rparr>"

definition demo_tcb :: tcb_params where
  "demo_tcb = \<lparr>bl_spl = 3, tee_spl = 0, snp_spl = 10, ucode_spl = 169\<rparr>"

lemma demo_kds_reliable: "reliable_io (k_io demo_kds)"
  by (simp add: reliable_io_def demo_kds_def)

theorem vcek_cache_exact_witness:
  "let r = fetch_vcek demo_kds demo_hex ''Genoa'' [1, 2] demo_tcb demo_client_world
   in w_ext (snd r) = 1 \<and> fetch_vcek demo_kds demo_hex ''Genoa'' [1, 2] demo_tcb (snd r) = (Ok [0x30, 0, 0x30, 0], snd r)"
proof -
  let ?r = "fetch_vcek demo_kds demo_hex ''Genoa'' [1, 2] demo_tcb demo_client_world"
  have r: "fst ?r = Ok [0x30, 0, 0x30, 0] \<and> w_ext (snd ?r) = 1" by code_simp
  have no_sep: "CHR ''_'' \<notin> set (hex_encode demo_hex b)" for b
    using demo_hex_chars [of "CHR ''_''" b] by (auto simp: is_ascii_digit_def is_ascii_lowercase_def)
  have d: "cache_dir demo_kds = Some ''/root/.cache/aleph-tee/kds''" by code_simp
  have "?r = (Ok [0x30, 0, 0x30, 0], snd ?r)" using r by (metis prod.collapse)
  from vcek_cache_exact [OF demo_kds_reliable d demo_hex_ok no_sep this _ refl refl]
  have "fetch_vcek demo_kds demo_hex ''Genoa'' [1, 2] demo_tcb (snd ?r) = (Ok [0x30, 0, 0x30, 0], snd ?r)" by simp
  with r show ?thesis by (simp add: Let_def)
qed

end
