(* ===== verification/Volumes.thy ===== *)
theory Volumes
  imports Messages Certs Persistence
begin

text \<open>
  The volume cache of the scheduler agent
  (\<^verbatim>\<open>crates/aleph-scheduler-agent/src/aleph/volumes.rs\<close>): content is downloaded from a
  connector into a temporary file that is renamed to its final name. The HTTP client is an
  operation on the rest of the world and SHA-256 a function, both parameters. The flush of the
  temporary file is the step \<open>SyncAll\<close>: it may fail, and changes nothing.
\<close>

section \<open>The cache\<close>

datatype volume_category = CodeVolume | RuntimeVolume | DataVolume

fun url_segment :: "volume_category \<Rightarrow> string" where
  "url_segment CodeVolume = ''code''"
| "url_segment RuntimeVolume = ''runtime''"
| "url_segment DataVolume = ''data''"

fun cache_subdir :: "volume_category \<Rightarrow> string" where
  "cache_subdir CodeVolume = ''code''"
| "cache_subdir RuntimeVolume = ''runtime''"
| "cache_subdir DataVolume = ''data''"

record volume_cache =
  vc_base_dir :: path
  vc_connector_url :: string

record 'x volume_env =
  v_io :: io_env
  v_http_get :: "string \<Rightarrow> 'x \<Rightarrow> (string, http_response) result \<times> 'x"
  v_sha256 :: "bytes \<Rightarrow> bytes"
  v_hex :: hex_lib

datatype volume_error =
    CreatingCacheDir io_error
  | Requesting string string
  | HttpErrorFor string u16
  | CreatingTemp io_error
  | ReadingBody string string
  | WritingVolume io_error
  | RenamingTemp io_error
  | VolumeIo io_error

definition volume_cache_new :: "path \<Rightarrow> string \<Rightarrow> volume_cache" where
  "volume_cache_new base_dir connector_url =
     \<lparr>vc_base_dir = base_dir, vc_connector_url = trim_end_matches CHR ''/'' connector_url\<rparr>"

text \<open>
  \<^verbatim>\<open>Path::with_extension\<close> on a path with a file name: the extension of the last component is
  replaced, or added when there is none.
\<close>

definition with_extension :: "path \<Rightarrow> string \<Rightarrow> path" where
  "with_extension p ext =
     (let n = file_name p; d = take (length p - length n) p;
          stem = (case before_last CHR ''.'' n of None \<Rightarrow> n | Some s \<Rightarrow> if s = [] then n else s)
      in d @ stem @ ''.'' @ ext)"

text \<open>\<^verbatim>\<open>error_for_status\<close>: client and server errors only.\<close>

definition is_error_status :: "u16 \<Rightarrow> bool" where
  "is_error_status status = (400 \<le> status \<and> status < 600)"

definition local_path :: "volume_cache \<Rightarrow> item_hash \<Rightarrow> volume_category \<Rightarrow> path" where
  "local_path c item_hash category =
     path_join (path_join (vc_base_dir c) (cache_subdir category)) item_hash"

definition download_url :: "volume_cache \<Rightarrow> item_hash \<Rightarrow> volume_category \<Rightarrow> string" where
  "download_url c item_hash category =
     vc_connector_url c @ ''/download/'' @ url_segment category @ ''/'' @ item_hash"

definition http_body_of :: "string \<Rightarrow> http_response \<Rightarrow> (volume_error, bytes) result" where
  "http_body_of url response = map_err (ReadingBody url) (http_body response)"

definition download ::
  "'x volume_env \<Rightarrow> string \<Rightarrow> 'x world \<Rightarrow> (volume_error, http_response) result \<times> 'x world" where
  "download V url w =
     bindE (on_ext (Requesting url) (v_http_get V url) w) (\<lambda>response w.
       if is_error_status (http_status response) then (Err (HttpErrorFor url (http_status response)), w)
       else (Ok response, w))"

text \<open>The download of a missing volume: the file is only complete when it gets its final name.\<close>

definition fetch_volume ::
  "'x volume_env \<Rightarrow> string \<Rightarrow> path \<Rightarrow> 'x world \<Rightarrow> (volume_error, path) result \<times> 'x world" where
  "fetch_volume V url p w =
     (let tmp = with_extension p ''tmp'' in
      bindE (download V url w) (\<lambda>response w.
      bindE (on_fs CreatingTemp (fs_exec (v_io V) (Create tmp)) w) (\<lambda>_ w.
      bindE (http_body_of url response, w) (\<lambda>bs w.
      bindE (on_fs WritingVolume (fs_exec (v_io V) (WriteAll tmp (string_of_bytes bs))) w) (\<lambda>_ w.
      bindE (on_fs VolumeIo (fs_exec (v_io V) (SyncAll tmp)) w) (\<lambda>_ w.
      bindE (on_fs RenamingTemp (fs_exec (v_io V) (Rename tmp p)) w) (\<lambda>_ w.
        (Ok p, w))))))))"

definition ensure_cached ::
  "'x volume_env \<Rightarrow> volume_cache \<Rightarrow> item_hash \<Rightarrow> volume_category \<Rightarrow> 'x world \<Rightarrow>
   (volume_error, path) result \<times> 'x world" where
  "ensure_cached V c item_hash category w =
     (let cache_dir = path_join (vc_base_dir c) (cache_subdir category) in
      bindE (on_fs CreatingCacheDir (fs_exec (v_io V) (Mkdir cache_dir)) w) (\<lambda>_ w.
      let p = path_join cache_dir item_hash in
      if path_exists p (w_fs w) then (Ok p, w)
      else fetch_volume V (download_url c item_hash category) p w))"

definition verify_hash ::
  "'x volume_env \<Rightarrow> path \<Rightarrow> string \<Rightarrow> filesystem \<Rightarrow> (volume_error, bool) result" where
  "verify_hash V p expected_hash fs =
     and_then (map_err VolumeIo (fs_read (v_io V) p fs)) (\<lambda>data.
       Ok (hex_encode (v_hex V) (v_sha256 V data) = expected_hash))"

definition evict ::
  "'x volume_env \<Rightarrow> volume_cache \<Rightarrow> item_hash \<Rightarrow> volume_category \<Rightarrow> 'x world \<Rightarrow>
   (volume_error, unit) result \<times> 'x world" where
  "evict V c item_hash category w =
     (let p = local_path c item_hash category
      in if path_exists p (w_fs w) then on_fs VolumeIo (remove_file (v_io V) p) w else (Ok (), w))"


section \<open>What a download does\<close>

lemma download_fs: "w_fs (snd (download V url w)) = w_fs w"
  unfolding download_def by (rule bindE_world) (auto simp: fs_exec_def)

lemma download_Ok:
  "download V url w = (Ok response, w') \<longleftrightarrow>
     (\<exists>x'. v_http_get V url (w_ext w) = (Ok response, x') \<and> w' = w\<lparr>w_ext := x'\<rparr>) \<and>
     \<not> is_error_status (http_status response)"
  by (auto simp: download_def bindE_Ok on_ext_Ok split: if_splits)

lemma rename_Err_content:
  "fst (fs_exec I (Rename t p) fs) = Err e \<Longrightarrow> fs_content (snd (fs_exec I (Rename t p) fs)) q = fs_content fs q"
  by (cases "fs_exec I (Rename t p) fs") (auto dest!: fs_exec_Rename)

text \<open>Whatever happens, no file but the volume and its temporary file changes.\<close>

lemma fetch_volume_frame:
  assumes "q \<noteq> p" "q \<noteq> with_extension p ''tmp''"
  shows "fs_content (w_fs (snd (fetch_volume V url p w))) q = fs_content (w_fs w) q"
proof -
  let ?P = "\<lambda>w'. fs_content (w_fs w') q = fs_content (w_fs w) q"
  have step: "?P w' \<Longrightarrow> q \<notin> step_targets st \<Longrightarrow> ?P (snd (on_fs c (fs_exec I st) w'))"
    for w' st I and c :: "io_error \<Rightarrow> volume_error"
    by (simp add: on_fs_frame)
  show ?thesis
    unfolding fetch_volume_def Let_def
    by (intro bindE_world [of ?P] step) (use assms in \<open>simp_all add: download_fs\<close>)
qed

text \<open>A failed download leaves the final name alone.\<close>

lemma fetch_volume_Err:
  assumes "with_extension p ''tmp'' \<noteq> p" "fst (fetch_volume V url p w) = Err e"
  shows "fs_content (w_fs (snd (fetch_volume V url p w))) p = fs_content (w_fs w) p"
proof -
  let ?P = "\<lambda>r. (\<exists>e. fst r = Err e) \<longrightarrow> fs_content (w_fs (snd r)) p = fs_content (w_fs w) p"
  have bind: "?P (bindE r k)" if "fs_content (w_fs (snd r)) p = fs_content (w_fs w) p"
      "\<And>a w'. fs_content (w_fs w') p = fs_content (w_fs w) p \<Longrightarrow> ?P (k a w')" for r k
    using that by (cases r; cases "fst r") auto
  have step: "fs_content (w_fs w') p = fs_content (w_fs w) p \<Longrightarrow> p \<notin> step_targets st \<Longrightarrow>
      fs_content (w_fs (snd (on_fs c (fs_exec I st) w'))) p = fs_content (w_fs w) p"
    for w' st I and c :: "io_error \<Rightarrow> volume_error"
    by (simp add: on_fs_frame)
  have last: "?P (bindE (on_fs c (fs_exec I (Rename t p)) w') (\<lambda>_ w. (Ok p, w)))"
    if "fs_content (w_fs w') p = fs_content (w_fs w) p" for w' t I and c :: "io_error \<Rightarrow> volume_error"
    using that rename_Err_content [of I t p "w_fs w'" _ p]
    by (cases "fs_exec I (Rename t p) (w_fs w')"; cases "fst (fs_exec I (Rename t p) (w_fs w'))")
       (auto simp: on_fs_def)
  have "?P (fetch_volume V url p w)"
    unfolding fetch_volume_def Let_def
    by (intro bind step last) (use assms(1) in \<open>simp_all add: download_fs\<close>)
  with assms(2) show ?thesis by blast
qed

lemma fetch_volume_Ok:
  assumes "with_extension p ''tmp'' \<noteq> p" "fetch_volume V url p w = (Ok q, w')"
  shows "q = p \<and> (\<exists>response bs. v_http_get V url (w_ext w) = (Ok response, w_ext w') \<and>
     \<not> is_error_status (http_status response) \<and> http_body response = Ok bs \<and>
     fs_content (w_fs w') p = Some (string_of_bytes bs))"
proof -
  let ?t = "with_extension p ''tmp''"
  obtain response x bs f1 f2 f3 f4 where s:
      "v_http_get V url (w_ext w) = (Ok response, x)" "\<not> is_error_status (http_status response)"
      "http_body response = Ok bs"
      "fs_exec (v_io V) (Create ?t) (w_fs w) = (Ok (), f1)"
      "fs_exec (v_io V) (WriteAll ?t (string_of_bytes bs)) f1 = (Ok (), f2)"
      "fs_exec (v_io V) (SyncAll ?t) f2 = (Ok (), f3)"
      "fs_exec (v_io V) (Rename ?t p) f3 = (Ok (), f4)" "w' = w\<lparr>w_ext := x, w_fs := f4\<rparr>" "q = p"
    using assms(2) by (auto simp: fetch_volume_def Let_def bindE_Ok download_Ok on_fs_Ok http_body_of_def)
  have "f3 = fs_append ?t (string_of_bytes bs) (fs_put ?t [] (w_fs w))"
    using fs_exec_Create [OF s(4)] fs_exec_Write [OF s(5)] fs_exec_Sync [of "v_io V" ?t f2] s(6) by simp
  then have "fs_content f3 ?t = Some (string_of_bytes bs)" by simp
  moreover obtain n where "hm_get (fs_files f3) ?t = Some n"
      "f4 = f3\<lparr>fs_files := hm_insert p n (hm_remove ?t (fs_files f3))\<rparr>"
    using fs_exec_Rename [OF s(7)] by auto
  ultimately have "fs_content f4 p = Some (string_of_bytes bs)" by (simp add: fs_content_def)
  with s show ?thesis by simp
qed


section \<open>Names in the cache\<close>

text \<open>An item hash names a file of the cache directory when it has neither separator nor dot.\<close>

definition plain_hash :: "item_hash \<Rightarrow> bool" where
  "plain_hash h \<longleftrightarrow> clean_name h \<and> CHR ''.'' \<notin> set h"

lemma cache_dir_clean: "clean_dir base \<Longrightarrow> clean_dir (path_join base (cache_subdir k))"
  by (cases k) (auto simp: clean_dir_def path_join_def starts_with_def)

lemma with_extension_plain:
  "clean_dir d \<Longrightarrow> plain_hash h \<Longrightarrow> with_extension (path_join d h) e = path_join d h @ ''.'' @ e"
  using before_last_None [of "CHR ''.''" h] file_name_join [of d h] clean_join [of d h]
  by (simp add: with_extension_def plain_hash_def)

lemma ensure_cached_path:
  "path_join (path_join (vc_base_dir c) (cache_subdir k)) h = local_path c h k"
  by (simp add: local_path_def)

text \<open>Different volumes have different files, and no temporary file is a volume.\<close>

lemma local_path_inject:
  assumes "clean_dir (vc_base_dir c)" "plain_hash h" "plain_hash h'"
  shows "local_path c h k = local_path c h' k' \<longleftrightarrow> h = h' \<and> k = k'"
    and "local_path c h k \<noteq> with_extension (local_path c h' k') ''tmp''"
proof -
  have d: "clean_dir (path_join (vc_base_dir c) (cache_subdir k))" for k using assms(1) by (rule cache_dir_clean)
  have n: "clean_name (cache_subdir k)" for k by (cases k) (simp_all add: clean_name_def)
  have c: "clean_name h" "clean_name h'" "clean_name (h' @ ''.tmp'')"
    using assms by (auto simp: plain_hash_def clean_name_def)
  have j: "path_join d a = path_join d' b \<longleftrightarrow> d = d' \<and> a = b"
    if "clean_dir d" "clean_dir d'" "clean_name a" "clean_name b" for d d' a b
    using that parent_join [OF that(1,3)] parent_join [OF that(2,4)] file_name_join [OF that(1,3)]
      file_name_join [OF that(2,4)] by (metis option.inject)
  have sub: "path_join (vc_base_dir c) (cache_subdir k) = path_join (vc_base_dir c) (cache_subdir k') \<longleftrightarrow> k = k'"
    using j [OF assms(1) assms(1) n n, of k k'] by (cases k; cases k') auto
  show "local_path c h k = local_path c h' k' \<longleftrightarrow> h = h' \<and> k = k'"
    using j [OF d d c(1,2), of k k'] sub by (auto simp: local_path_def)
  have "with_extension (local_path c h' k') ''tmp'' =
      path_join (path_join (vc_base_dir c) (cache_subdir k')) (h' @ ''.tmp'')"
    using with_extension_plain [OF d assms(3)] c by (simp add: local_path_def clean_join [OF d])
  moreover have "h \<noteq> h' @ ''.tmp''" using assms(2) by (auto simp: plain_hash_def)
  ultimately show "local_path c h k \<noteq> with_extension (local_path c h' k') ''tmp''"
    using j [OF d d c(1,3), of k k'] by (simp add: local_path_def)
qed

lemma mkdir_content: "fs_content (snd (fs_exec I (Mkdir d) fs)) q = fs_content fs q"
  by (rule fs_exec_frame) simp

lemma ensure_cached_cases:
  fixes V :: "'x volume_env"
  obtains (NoDir) e where "ensure_cached V c h k w = (Err e, w\<lparr>w_fs := snd (fs_exec (v_io V)
      (Mkdir (path_join (vc_base_dir c) (cache_subdir k))) (w_fs w))\<rparr>)"
  | (Hit) fs where "ensure_cached V c h k w = (Ok (local_path c h k), w\<lparr>w_fs := fs\<rparr>)"
      "fs_content fs = fs_content (w_fs w)" "path_exists (local_path c h k) fs"
  | (Miss) fs where "ensure_cached V c h k w =
        fetch_volume V (download_url c h k) (local_path c h k) (w\<lparr>w_fs := fs\<rparr>)"
      "fs_content fs = fs_content (w_fs w)" "\<not> path_exists (local_path c h k) fs"
proof -
  let ?m = "fs_exec (v_io V) (Mkdir (path_join (vc_base_dir c) (cache_subdir k))) (w_fs w)"
  have m: "fs_content (snd ?m) = fs_content (w_fs w)" by (rule ext) (rule mkdir_content)
  show ?thesis
  proof (cases "fst ?m")
    case (Inl e)
    then have "ensure_cached V c h k w = (Err (CreatingCacheDir e), w\<lparr>w_fs := snd ?m\<rparr>)"
      by (cases ?m) (simp add: ensure_cached_def on_fs_def ensure_cached_path)
    then show ?thesis by (rule NoDir)
  next
    case (Inr u)
    then have e: "ensure_cached V c h k w =
        (if path_exists (local_path c h k) (snd ?m) then (Ok (local_path c h k), w\<lparr>w_fs := snd ?m\<rparr>)
         else fetch_volume V (download_url c h k) (local_path c h k) (w\<lparr>w_fs := snd ?m\<rparr>))"
      by (cases ?m) (simp add: ensure_cached_def on_fs_def ensure_cached_path)
    show ?thesis
    proof (cases "path_exists (local_path c h k) (snd ?m)")
      case True
      with e m show ?thesis by (intro Hit) simp_all
    next
      case False
      with e m show ?thesis by (intro Miss) simp_all
    qed
  qed
qed


section \<open>Properties\<close>

text \<open>
  C35: fetching a volume is all or nothing: on an error the file of the volume is as before; on
  success it exists, and is either the one that was there, with no request made, or holds the
  complete body of a response that is no HTTP error. The files of other volumes never change.
\<close>

theorem ensure_cached_exact:
  assumes d: "clean_dir (vc_base_dir c)" and h: "plain_hash h"
    and e: "ensure_cached V c h k w = (r, w')"
  shows "(case r of
       Inl e \<Rightarrow> fs_content (w_fs w') (local_path c h k) = fs_content (w_fs w) (local_path c h k)
     | Inr q \<Rightarrow> q = local_path c h k \<and> path_exists q (w_fs w') \<and>
         (fs_content (w_fs w') q = fs_content (w_fs w) q \<and> w_ext w' = w_ext w \<or>
          (\<exists>response bs. v_http_get V (download_url c h k) (w_ext w) = (Ok response, w_ext w') \<and>
             \<not> is_error_status (http_status response) \<and> http_body response = Ok bs \<and>
             fs_content (w_fs w') q = Some (string_of_bytes bs)))) \<and>
     (plain_hash h' \<and> (h', k') \<noteq> (h, k) \<longrightarrow>
        fs_content (w_fs w') (local_path c h' k') = fs_content (w_fs w) (local_path c h' k'))"
proof -
  let ?p = "local_path c h k"
  note t = local_path_inject(2) [OF d h h, of k k, symmetric]
  show ?thesis
  proof (cases rule: ensure_cached_cases [of V c h k w])
    case (NoDir e')
    with e show ?thesis by (auto simp: mkdir_content)
  next
    case (Hit fs)
    with e show ?thesis by auto
  next
    case (Miss fs)
    let ?w = "w\<lparr>w_fs := fs\<rparr>"
    have f: "fetch_volume V (download_url c h k) ?p ?w = (r, w')" using Miss(1) e by simp
    have "fs_content (w_fs w') (local_path c h' k') = fs_content (w_fs w) (local_path c h' k')"
      if "plain_hash h'" "(h', k') \<noteq> (h, k)"
      using fetch_volume_frame [of "local_path c h' k'" ?p V "download_url c h k" ?w] f Miss(2) that
        local_path_inject [OF d that(1) h, of k' k] by simp
    moreover have "fs_content (w_fs w') ?p = fs_content (w_fs w) ?p" if "r = Err e'" for e'
      using fetch_volume_Err [OF t, of V "download_url c h k" ?w e'] f Miss(2) that by simp
    moreover have "q = ?p \<and> path_exists q (w_fs w') \<and>
        (\<exists>response bs. v_http_get V (download_url c h k) (w_ext w) = (Ok response, w_ext w') \<and>
           \<not> is_error_status (http_status response) \<and> http_body response = Ok bs \<and>
           fs_content (w_fs w') q = Some (string_of_bytes bs))" if "r = Ok q" for q
      using fetch_volume_Ok [OF t f [unfolded that]] by (auto simp: path_exists_def)
    ultimately show ?thesis by (cases r) auto
  qed
qed

definition demo_volumes :: "nat volume_env" where
  "demo_volumes = \<lparr>v_io = calm_io, v_http_get = (\<lambda>url n. (Ok \<lparr>http_status = 200, http_body = Ok [1, 2, 3]\<rparr>, Suc n)),
     v_sha256 = (\<lambda>bs. take 2 bs), v_hex = demo_hex\<rparr>"

definition demo_cache :: volume_cache where
  "demo_cache = volume_cache_new ''/var/cache'' ''https://aleph.example/''"

lemma demo_cache_simps:
  "clean_dir (vc_base_dir demo_cache)" "plain_hash ''abc''"
  "local_path demo_cache ''abc'' DataVolume = ''/var/cache/data/abc''"
  by (simp_all add: demo_cache_def volume_cache_new_def clean_dir_def plain_hash_def clean_name_def local_path_def
      path_join_def starts_with_def)

theorem ensure_cached_exact_witness:
  "fst (ensure_cached demo_volumes demo_cache ''abc'' DataVolume demo_client_world) = Ok ''/var/cache/data/abc'' \<and>
   path_exists ''/var/cache/data/abc''
     (w_fs (snd (ensure_cached demo_volumes demo_cache ''abc'' DataVolume demo_client_world)))"
proof -
  let ?r = "ensure_cached demo_volumes demo_cache ''abc'' DataVolume demo_client_world"
  have r: "fst ?r = Ok ''/var/cache/data/abc''" by code_simp
  then have "?r = (Ok ''/var/cache/data/abc'', snd ?r)" by (metis prod.collapse)
  from ensure_cached_exact [OF demo_cache_simps(1,2) this, of "''abc''" DataVolume] have "path_exists ''/var/cache/data/abc'' (w_fs (snd ?r))"
    unfolding sum.case by blast
  with r show ?thesis by simp
qed

text \<open>
  What was downloaded is never compared with the hash that names it: whatever body the
  connector serves is stored and its path handed out, also when the check of the cache itself,
  \<^verbatim>\<open>verify_hash\<close>, says that it is other content.
\<close>

theorem ensure_cached_unverified:
  assumes "reliable_io (v_io V)" "clean_dir (vc_base_dir c)" "plain_hash h"
    and "fs_content (w_fs w) (local_path c h k) = None" "local_path c h k \<notin> set (fs_dirs (w_fs w))"
    and "v_http_get V (download_url c h k) (w_ext w) = (Ok response, x)"
    and "\<not> is_error_status (http_status response)" "http_body response = Ok bs"
  shows "\<exists>w'. ensure_cached V c h k w = (Ok (local_path c h k), w') \<and>
    verify_hash V (local_path c h k) h (w_fs w') = Ok (hex_encode (v_hex V) (v_sha256 V bs) = h)"
proof -
  let ?p = "local_path c h k" and ?t = "with_extension (local_path c h k) ''tmp''"
  let ?d = "path_join (vc_base_dir c) (cache_subdir k)"
  note t = local_path_inject(2) [OF assms(2,3,3), of k k]
  have ok: "step_fault (v_io V) fs st = None" for fs st using assms(1) by (simp add: reliable_io_def)
  have "?p \<noteq> ?d"
  proof -
    have "?p = ?d @ CHR ''/'' # h"
      using assms(3) clean_join [OF cache_dir_clean [OF assms(2)]] by (simp add: local_path_def plain_hash_def)
    then show ?thesis by simp
  qed
  then have miss: "\<not> path_exists ?p (snd (fs_exec (v_io V) (Mkdir ?d) (w_fs w)))"
    using assms(4,5) by (simp add: path_exists_def fs_exec_def ok fs_content_def)
  define fs where "fs = snd (fs_exec (v_io V) (Mkdir ?d) (w_fs w))"
  have "fs_exec (v_io V) (Mkdir ?d) (w_fs w) = (Ok (), fs)" by (simp add: fs_def fs_exec_def ok)
  with miss have fs: "ensure_cached V c h k w = fetch_volume V (download_url c h k) ?p (w\<lparr>w_fs := fs\<rparr>)"
    by (simp add: ensure_cached_def Let_def on_fs_def ensure_cached_path)
  have "is_ok (fst (fetch_volume V (download_url c h k) ?p (w\<lparr>w_fs := fs\<rparr>)))"
    using assms(6-8) by (simp add: fetch_volume_def Let_def download_def on_ext_def on_fs_def fs_exec_def ok
        http_body_of_def fs_append_def fs_put_def fs_content_def)
  then obtain w' where w': "fetch_volume V (download_url c h k) ?p (w\<lparr>w_fs := fs\<rparr>) = (Ok ?p, w')"
    using fetch_volume_Ok [OF t [symmetric], of V "download_url c h k" "w\<lparr>w_fs := fs\<rparr>"]
    by (metis is_ok_Ex prod.collapse)
  then have "fs_content (w_fs w') ?p = Some (string_of_bytes bs)"
    using fetch_volume_Ok [OF t [symmetric] w'] assms(6-8) by auto
  then have "verify_hash V ?p h (w_fs w') = Ok (hex_encode (v_hex V) (v_sha256 V bs) = h)"
    using assms(1) by (simp add: verify_hash_def fs_read_def reliable_read)
  with fs w' show ?thesis by auto
qed

theorem ensure_cached_unverified_witness:
  "\<exists>w'. ensure_cached demo_volumes demo_cache ''abc'' DataVolume demo_client_world = (Ok ''/var/cache/data/abc'', w') \<and>
     verify_hash demo_volumes ''/var/cache/data/abc'' ''abc'' (w_fs w') = Ok False"
proof -
  have "hex_encode (v_hex demo_volumes) (v_sha256 demo_volumes [1, 2, 3]) \<noteq> ''abc''" by code_simp
  with ensure_cached_unverified [of demo_volumes demo_cache "''abc''" demo_client_world DataVolume
      "\<lparr>http_status = 200, http_body = Ok [1, 2, 3]\<rparr>" 1 "[1, 2, 3]"] demo_cache_simps
  show ?thesis by (simp add: demo_volumes_def demo_client_world_def fs_content_def is_error_status_def)
qed

text \<open>
  A reference that is an absolute path leaves the cache: any existing file of the host
  is handed out as the volume, without a download.
\<close>

theorem absolute_reference_escapes:
  assumes "reliable_io (v_io V)" "starts_with h ''/''" "path_exists h (w_fs w)"
  shows "\<exists>fs. ensure_cached V c h k w = (Ok h, w\<lparr>w_fs := fs\<rparr>) \<and> fs_content fs = fs_content (w_fs w)"
proof -
  let ?d = "path_join (vc_base_dir c) (cache_subdir k)"
  obtain fs where m: "fs_exec (v_io V) (Mkdir ?d) (w_fs w) = (Ok (), fs)"
    using assms(1) by (simp add: reliable_io_def fs_exec_def)
  then have "path_exists h fs"
    using assms(1,3) by (auto simp: reliable_io_def fs_exec_def path_exists_def fs_content_def split: if_splits)
  moreover have "path_join ?d h = h" using assms(2) by (simp add: path_join_def)
  moreover have "fs_content fs = fs_content (w_fs w)"
    using mkdir_content [of "v_io V" ?d "w_fs w"] m by auto
  ultimately show ?thesis
    using m by (intro exI [of _ fs]) (simp add: ensure_cached_def Let_def on_fs_def)
qed

definition demo_host_world :: "nat world" where
  "demo_host_world =
     demo_client_world\<lparr>w_fs := \<lparr>fs_files = [(''/etc/shadow'', \<lparr>contents = ''root'', mtime = 0\<rparr>)], fs_dirs = [], fs_clock = 0\<rparr>\<rparr>"

theorem absolute_reference_escapes_witness:
  "fst (ensure_cached demo_volumes demo_cache ''/etc/shadow'' RuntimeVolume demo_host_world) = Ok ''/etc/shadow''"
proof -
  have "path_exists ''/etc/shadow'' (w_fs demo_host_world)" by (simp add: demo_host_world_def path_exists_def fs_content_def hm_get_def)
  from absolute_reference_escapes [of demo_volumes, OF _ _ this, of demo_cache RuntimeVolume] show ?thesis
    by (auto simp: demo_volumes_def starts_with_def)
qed

text \<open>After a successful eviction the volume is gone, and the next request downloads it again.\<close>

lemma evict_removes:
  assumes "evict V c h k w = (Ok (), w')" "local_path c h k \<notin> set (fs_dirs (w_fs w))"
  shows "fs_content (w_fs w') (local_path c h k) = None"
  using assms
  by (auto simp: evict_def Let_def on_fs_Ok remove_file_def fs_exec_def fs_content_def path_exists_def
      split: if_splits option.splits)

end
