(* ===== verification/Grpc_Service.thy ===== *)
theory Grpc_Service
  imports Vm_Manager
begin

text \<open>
  The gRPC front end (\<^verbatim>\<open>crates/aleph-compute-node/src/grpc/service.rs\<close>): validation of
  requests, their translation for the VM manager, and of its answers. Messages are the
  records of the protocol definition; a status is a value, with the text of its message less
  the part a library's own error contributes.
\<close>

section \<open>Messages\<close>

record disk_msg =
  dm_path :: string
  dm_readonly :: bool
  dm_format :: string

record tee_msg =
  tm_backend :: string
  tm_policy :: string

record create_vm_request =
  rq_vm_id :: string
  rq_kernel :: string
  rq_initrd :: string
  rq_disks :: "disk_msg list"
  rq_vcpus :: u32
  rq_memory_mb :: u32
  rq_tee :: "tee_msg option"
  rq_encrypted :: bool
  rq_ipv6_address :: string
  rq_ipv6_prefix_len :: u32
  rq_numa_node :: u32

record vm_info_msg =
  vm_msg_id :: string
  vm_msg_status :: string
  vm_msg_ipv4 :: string
  vm_msg_ipv6 :: string
  vm_msg_tee_backend :: string
  vm_msg_uptime_secs :: u64
  vm_msg_numa_node :: u32

record port_forward_msg =
  pm_vm_id :: string
  pm_host_port :: u32
  pm_vm_port :: u32
  pm_protocol :: string

datatype status =
    InvalidArgument string
  | StatusNotFound mgr_error
  | StatusInternal mgr_error

section \<open>Validation\<close>

definition max_vm_id_len :: nat where
  "max_vm_id_len = 11"

definition validate_vm_id :: "string \<Rightarrow> (status, unit) result" where
  "validate_vm_id vm_id =
     (if vm_id = [] then Err (InvalidArgument ''vm_id must not be empty'')
      else if length vm_id > max_vm_id_len then 
        Err (InvalidArgument (''vm_id too long: max '' @ show_nat max_vm_id_len @ '' chars (TAP name limit), got '' @
          show_nat (length vm_id)))
      else if \<not> list_all (\<lambda>c. is_ascii_lowercase c \<or> is_ascii_digit c \<or> c = CHR ''-'') vm_id
      then Err (InvalidArgument ''vm_id must contain only lowercase alphanumeric characters and hyphens'')
      else if hd vm_id = CHR ''-'' \<or> last vm_id = CHR ''-''
      then Err (InvalidArgument ''vm_id must not start or end with a hyphen'')
      else Ok ())"

definition validate_file_path :: "filesystem \<Rightarrow> string \<Rightarrow> string \<Rightarrow> (status, unit) result" where
  "validate_file_path fs p field_name =
     (if p = [] then Err (InvalidArgument (field_name @ '' must not be empty''))
      else if \<not> starts_with p ''/'' then Err (InvalidArgument (field_name @ '' must be an absolute path''))
      else if \<not> path_exists p fs then Err (InvalidArgument (field_name @ '' does not exist: '' @ p))
      else Ok ())"

definition validate_vm_resources :: "u32 \<Rightarrow> u32 \<Rightarrow> (status, unit) result" where
  "validate_vm_resources vcpus memory_mb =
     (if vcpus = 0 then Err (InvalidArgument ''vcpus must be > 0'')
      else if memory_mb = 0 then Err (InvalidArgument ''memory_mb must be > 0'')
      else Ok ())"

definition parse_tee_config :: "tee_msg option \<Rightarrow> (status, tee_config) result" where
  "parse_tee_config proto =
     (let p = unwrap_or proto \<lparr>tm_backend = [], tm_policy = []\<rparr>;
          b = tm_backend p;
          policy = (if tm_policy p = [] then None else Some (tm_policy p))
      in and_then
           (if b = ''sev-snp'' \<or> b = [] then Ok SevSnp
            else if b = ''tdx'' then Ok Tdx
            else if b = ''nvidia-cc'' then Ok NvidiaCc
            else if b = ''none'' then Ok NoTee
            else Err (InvalidArgument (''unknown TEE backend: '' @ b)))
           (\<lambda>t. Ok \<lparr>tee_backend_type = t, tee_policy = policy\<rparr>))"

definition disk_msg_format :: "disk_msg \<Rightarrow> string" where
  "disk_msg_format d = (if dm_format d = [] then ''raw'' else dm_format d)"

fun validate_disks :: "filesystem \<Rightarrow> disk_msg list \<Rightarrow> (status, unit) result" where
  "validate_disks fs [] = Ok ()"
| "validate_disks fs (d # ds) =
     and_then (validate_file_path fs (dm_path d) ''disk path'') (\<lambda>_.
       if disk_msg_format d \<noteq> ''raw'' \<and> disk_msg_format d \<noteq> ''qcow2''
       then Err (InvalidArgument (''unsupported disk format: '' @ disk_msg_format d @ '' (allowed: raw, qcow2)''))
       else if CHR '','' \<in> set (dm_path d) then Err (InvalidArgument ''disk path must not contain commas'')
       else validate_disks fs ds)"

definition boot_file :: "filesystem \<Rightarrow> tee_type \<Rightarrow> string \<Rightarrow> string \<Rightarrow> (status, string option) result" where
  "boot_file fs t p field_name =
     (if p = [] then
        (if t \<noteq> NoTee then Err (InvalidArgument (field_name @ '' is required for confidential VMs'')) else Ok None)
      else and_then (validate_file_path fs p field_name) (\<lambda>_. Ok (Some p)))"

definition parse_requested_ipv6 :: "ipv6_text \<Rightarrow> ipv6_lib \<Rightarrow> string \<Rightarrow> u32 \<Rightarrow> (status, ipv6net option) result" where
  "parse_requested_ipv6 X L address plen =
     (if address = [] then Ok None
      else and_then (ok_or (parse_ipv6 X address) (InvalidArgument ''invalid ipv6_address'')) (\<lambda>a.
           and_then (ok_or (net_new L a (if plen = 0 then 128 else ucast plen)) (InvalidArgument ''invalid IPv6 prefix''))
             (\<lambda>net. Ok (Some net))))"

text \<open>The checks and translations of a creation request, in the order of the code.\<close>

definition translate_create ::
  "ipv6_text \<Rightarrow> ipv6_lib \<Rightarrow> filesystem \<Rightarrow> create_vm_request \<Rightarrow>
   (status, vm_config \<times> ipv6net option \<times> u32 option) result" where
  "translate_create X L fs req =
     and_then (validate_vm_id (rq_vm_id req)) (\<lambda>_.
     and_then (parse_tee_config (rq_tee req)) (\<lambda>tee.
     and_then (boot_file fs (tee_backend_type tee) (rq_kernel req) ''kernel'') (\<lambda>kernel_path.
     and_then (boot_file fs (tee_backend_type tee) (rq_initrd req) ''initrd'') (\<lambda>initrd_path.
     and_then (validate_vm_resources (rq_vcpus req) (rq_memory_mb req)) (\<lambda>_.
     if tee_backend_type tee = NoTee \<and> rq_encrypted req
     then Err (InvalidArgument ''encrypted mode is not supported for non-confidential VMs'')
     else
     and_then (validate_disks fs (rq_disks req)) (\<lambda>_.
     if kernel_path = None \<and> rq_disks req = []
     then Err (InvalidArgument ''at least one disk is required for disk-boot VMs (no kernel specified)'')
     else
     and_then (parse_requested_ipv6 X L (rq_ipv6_address req) (rq_ipv6_prefix_len req)) (\<lambda>requested_ipv6.
       Ok (\<lparr>cfg_vm_id = rq_vm_id req, cfg_kernel = kernel_path, cfg_initrd = initrd_path,
             cfg_disks = map (\<lambda>d. \<lparr>disk_path = dm_path d, disk_readonly = dm_readonly d,
               disk_format = disk_msg_format d\<rparr>) (rq_disks req),
             cfg_vcpus = rq_vcpus req, cfg_memory_mb = rq_memory_mb req, cfg_tee = tee,
             cfg_encrypted = rq_encrypted req, cfg_numa_node = None, cfg_hugepage_size = None\<rparr>,
           requested_ipv6, if rq_numa_node req = 0 then None else Some (rq_numa_node req - 1)))))))))"

section \<open>The service\<close>

definition vm_info_to_proto :: "vm_info \<Rightarrow> vm_info_msg" where
  "vm_info_to_proto info =
     \<lparr>vm_msg_id = vi_vm_id info, vm_msg_status = vi_status info, vm_msg_ipv4 = vi_ip info,
      vm_msg_ipv6 = vi_ipv6 info, vm_msg_tee_backend = vi_tee info, vm_msg_uptime_secs = vi_uptime_secs info,
      vm_msg_numa_node = unwrap_or (vi_numa_node info) 0\<rparr>"

definition forward_to_proto :: "port_forward \<Rightarrow> port_forward_msg" where
  "forward_to_proto f =
     \<lparr>pm_vm_id = pf_vm_id f, pm_host_port = ucast (pf_host_port f), pm_vm_port = ucast (pf_vm_port f),
      pm_protocol = protocol_to_string (pf_protocol f)\<rparr>"

definition grpc_create_vm ::
  "'x mgr_env \<Rightarrow> create_vm_request \<Rightarrow> 'x mstate \<Rightarrow> (status, vm_info_msg) result \<times> 'x mstate" where
  "grpc_create_vm E req st =
     (case translate_create (e_text E) (e_lib E) (w_fs (snd st)) req of
        Inl e \<Rightarrow> (Err e, st)
      | Inr (config, requested_ipv6, numa_hint) \<Rightarrow>
          (case create_vm E config requested_ipv6 numa_hint st of
             (r, st') \<Rightarrow> (and_then (map_err StatusInternal r) (\<lambda>info. Ok (vm_info_to_proto info)), st')))"

definition grpc_get_vm :: "'x mgr_env \<Rightarrow> string \<Rightarrow> 'x mstate \<Rightarrow> (status, vm_info_msg) result" where
  "grpc_get_vm E vm_id st =
     and_then (map_err StatusNotFound (get_vm E vm_id st)) (\<lambda>info. Ok (vm_info_to_proto info))"

definition grpc_delete_vm :: "'x mgr_env \<Rightarrow> string \<Rightarrow> 'x mstate \<Rightarrow> (status, unit) result \<times> 'x mstate" where
  "grpc_delete_vm E vm_id st =
     (case delete_vm E vm_id st of (r, st') \<Rightarrow> (map_err StatusNotFound r, st'))"

definition grpc_list_vms :: "'x mgr_env \<Rightarrow> 'x mstate \<Rightarrow> vm_info_msg list" where
  "grpc_list_vms E st = map vm_info_to_proto (list_vms E st)"

definition parse_protocol :: "string \<Rightarrow> (status, protocol) result" where
  "parse_protocol s = map_err (\<lambda>_. InvalidArgument (''unknown protocol: '' @ s)) (protocol_from_str s)"

definition grpc_add_port_forward ::
  "'x mgr_env \<Rightarrow> port_forward_msg \<Rightarrow> 'x mstate \<Rightarrow> (status, port_forward_msg) result \<times> 'x mstate" where
  "grpc_add_port_forward E req st =
     (case parse_protocol (pm_protocol req) of
        Inl e \<Rightarrow> (Err e, st)
      | Inr proto \<Rightarrow>
          (case add_port_forward E (pm_vm_id req) (ucast (pm_host_port req)) (ucast (pm_vm_port req)) proto st of
             (r, st') \<Rightarrow> (and_then (map_err StatusInternal r) (\<lambda>f. Ok (forward_to_proto f)), st')))"

definition grpc_remove_port_forward ::
  "'x mgr_env \<Rightarrow> u32 \<Rightarrow> string \<Rightarrow> 'x mstate \<Rightarrow> (status, unit) result \<times> 'x mstate" where
  "grpc_remove_port_forward E host_port proto_name st =
     (case parse_protocol proto_name of
        Inl e \<Rightarrow> (Err e, st)
      | Inr proto \<Rightarrow>
          (case remove_port_forward E (ucast host_port) proto st of (r, st') \<Rightarrow> (map_err StatusInternal r, st')))"

definition grpc_list_port_forwards :: "string \<Rightarrow> 'x mstate \<Rightarrow> port_forward_msg list" where
  "grpc_list_port_forwards vm_id st =
     map forward_to_proto (list_port_forwards (if vm_id = [] then None else Some vm_id) (fst st))"

definition grpc_health :: "'x mgr_env \<Rightarrow> 'x mstate \<Rightarrow> string \<times> u32" where
  "grpc_health E st = (''ok'', of_nat (length (list_vms E st)))"

section \<open>What a validated request guarantees\<close>

definition vm_id_char :: "char \<Rightarrow> bool" where
  "vm_id_char c \<longleftrightarrow> is_ascii_lowercase c \<or> is_ascii_digit c \<or> c = CHR ''-''"

lemma validate_vm_id_Ok:
  "validate_vm_id v = Ok () \<longleftrightarrow>
     v \<noteq> [] \<and> length v \<le> 11 \<and> list_all vm_id_char v \<and> hd v \<noteq> CHR ''-'' \<and> last v \<noteq> CHR ''-''"
  by (auto simp: validate_vm_id_def max_vm_id_len_def vm_id_char_def list_all_iff)

lemma vm_id_char_excludes: "\<not> vm_id_char (CHR '','')" "\<not> vm_id_char (CHR ''/'')" "\<not> vm_id_char (CHR ''.'')"
  by (simp_all add: vm_id_char_def is_ascii_lowercase_def is_ascii_digit_def)

lemma validate_disks_Ok:
  "validate_disks fs ds = Ok () \<Longrightarrow>
     list_all disk_ok (map (\<lambda>d. \<lparr>disk_path = dm_path d, disk_readonly = dm_readonly d, disk_format = disk_msg_format d\<rparr>) ds)"
  by (induction ds) (auto simp: disk_ok_def and_then_Ok split: if_splits)

lemma translate_create_Ok:
  assumes "translate_create X L fs req = Ok (config, ipv6, hint)"
  shows "validate_vm_id (cfg_vm_id config) = Ok ()" "list_all disk_ok (cfg_disks config)"
    "0 < cfg_vcpus config" "0 < cfg_memory_mb config"
    "tee_backend_type (cfg_tee config) \<noteq> NoTee \<Longrightarrow> cfg_kernel config \<noteq> None \<and> cfg_initrd config \<noteq> None"
    "tee_backend_type (cfg_tee config) = NoTee \<Longrightarrow> \<not> cfg_encrypted config"
    "cfg_kernel config = None \<Longrightarrow> cfg_disks config \<noteq> []"
  using assms validate_disks_Ok [of fs "rq_disks req"]
  by (auto simp: translate_create_def and_then_Ok validate_vm_resources_def boot_file_def word_gt_0
      split: if_splits)

text \<open>Disks stay acceptable to the command-line builder when hash trees are inserted.\<close>

lemma disk_ok_vec_insert: "list_all disk_ok ds \<Longrightarrow> disk_ok d \<Longrightarrow> list_all disk_ok (vec_insert i d ds)"
  by (auto simp: vec_insert_def list_all_iff dest: in_set_takeD in_set_dropD)

lemma disk_ok_hashtree: "CHR '','' \<notin> set p \<Longrightarrow> disk_ok (hashtree_disk p)"
  by (simp add: disk_ok_def hashtree_disk_def)

lemma ensure_verity_path: "ensure_verity H p w = (Ok v, w') \<Longrightarrow> hashtree_path v = p @ ''.verity''"
  by (auto simp: ensure_verity_def compute_verity_def Let_def and_then_Ok bindE_Ok
      split: if_splits prod.splits sum.splits option.splits)

lemma verity_disk_ok: "disk_ok d \<Longrightarrow> ensure_verity H (disk_path d) w = (Ok v, w') \<Longrightarrow> disk_ok (hashtree_disk (hashtree_path v))"
  by (rule disk_ok_hashtree) (simp add: ensure_verity_path disk_ok_def)

lemma prepare_boot_disks:
  assumes "list_all disk_ok (cfg_disks config)" "prepare_boot E config st = (Ok (cmd, config'), st')"
  shows "list_all disk_ok (cfg_disks config')"
proof (cases "tee_backend_type (cfg_tee config) = NoTee \<or> cfg_encrypted config \<or> cfg_disks config = []")
  case True
  with assms show ?thesis by (auto simp: prepare_boot_def split: if_splits list.splits)
next
  case False
  then obtain d ds where ds: "cfg_disks config = d # ds" by (cases "cfg_disks config") auto
  with False assms(2) have v: "verity_boot E config d st = (Ok (cmd, config'), st')"
    by (simp add: prepare_boot_def)
  obtain vi w1 where 1: "ensure_verity (e_host E) (disk_path d) (snd st) = (Ok vi, w1)"
    using v by (auto simp: verity_boot_def Let_def split: prod.splits sum.splits if_splits)
  have ok1: "list_all disk_ok (vec_insert 1 (hashtree_disk (hashtree_path vi)) (cfg_disks config))"
    using assms(1) ds verity_disk_ok [OF _ 1] by (intro disk_ok_vec_insert) auto
  show ?thesis
  proof (cases "length (cfg_disks config) > 1")
    case False
    with v 1 ok1 show ?thesis by (auto simp: verity_boot_def Let_def)
  next
    case True
    let ?ds1 = "vec_insert 1 (hashtree_disk (hashtree_path vi)) (cfg_disks config)"
    have "2 < length ?ds1" using True by (simp add: vec_insert_def)
    then have "disk_ok (?ds1 ! 2)" using ok1 by (auto simp: list_all_length)
    with v 1 True ok1 show ?thesis
      by (auto simp: verity_boot_def Let_def split: prod.splits sum.splits intro!: disk_ok_vec_insert dest: verity_disk_ok)
  qed
qed

lemma place_vm_disks: "place_vm config hint st = (Ok (p, config'), st') \<Longrightarrow> cfg_disks config' = cfg_disks config"
  by (auto simp: place_vm_def Let_def split: prod.splits sum.splits if_splits)

lemma launch_no_panic:
  assumes "list_all disk_ok (cfg_disks config)"
  shows "fst (launch_vm E config v tap mac net b cmd p st) \<noteq> Err (QemuPanic x)"
  using assms
  by (auto simp: launch_vm_def Let_def build_qemu_command_def drive_args_Ok split: prod.splits sum.splits)

lemma boot_vm_no_panic:
  assumes "list_all disk_ok (cfg_disks config)"
  shows "fst (boot_vm E config hint mac ip ipv6 st) \<noteq> Err (QemuPanic x)"
  unfolding boot_vm_def Let_def
  apply (rule bindE_rule [where P = "\<lambda>r. fst r \<noteq> Err (QemuPanic x)"])
  subgoal by (auto simp: get_backend_def ok_or_def split: option.splits)
  apply (rule bindE_rule [where P = "\<lambda>r. fst r \<noteq> Err (QemuPanic x)"])
  subgoal
    by (auto simp: prepare_boot_def verity_boot_def Let_def split: if_splits list.splits prod.splits sum.splits)
  apply (simp only: split_paired_all prod.case)
  apply (rule bindE_rule [where P = "\<lambda>r. fst r \<noteq> Err (QemuPanic x)"])
  subgoal by (auto simp: place_vm_def Let_def split: prod.splits sum.splits)
  apply (simp only: split_paired_all prod.case)
  apply (rule bindE_rule [where P = "\<lambda>r. fst r \<noteq> Err (QemuPanic x)"])
  subgoal premises c for be m5 w5 cmd config1 m6 w6 p config2 m7 w7 e s8
  proof -
    have "list_all disk_ok (cfg_disks config2)"
      using prepare_boot_disks [OF assms c(2)] place_vm_disks [OF c(3)] by simp
    from launch_no_panic [OF this, where E = E and v = "cfg_vm_id config" and tap = "''tap-'' @ cfg_vm_id config"
        and mac = mac and net = ipv6 and b = be and cmd = cmd and p = p and st = "(m7, w7)" and x = x] c(4)
    show ?thesis by simp
  qed
  subgoal by (simp split: prod.splits)
  done

lemma create_vm_no_panic:
  assumes "list_all disk_ok (cfg_disks config)"
  shows "fst (create_vm E config req hint st) \<noteq> Err (QemuPanic x)"
proof -
  let ?P = "\<lambda>r :: (mgr_error, vm_info) result \<times> 'a mstate. fst r \<noteq> Err (QemuPanic x)"
  show ?thesis
  proof (cases "hm_contains_key (m_vms (fst st)) (cfg_vm_id config)")
    case False
    then show ?thesis
      unfolding create_vm_def Let_def
      apply (simp only: if_False)
      apply (rule bindE_rule [where P = ?P])
      subgoal by (auto simp: on_mgr_def reserve_offset_def split: option.splits)
      apply (rule bindE_rule [where P = ?P])
      subgoal by (auto simp: on_mgr_def allocate_ipv6_def split: option.splits prod.splits sum.splits)
      apply (rule bindE_rule [where P = ?P])
      subgoal by (auto simp: write_reservations_def split: option.splits prod.splits sum.splits)
      apply (rule bindE_rule [where P = ?P])
      subgoal by (auto simp: setup_tap_def split: option.splits prod.splits sum.splits)
      apply (rule bindE_rule [where P = ?P])
      subgoal by (auto simp: setup_chains_def split: option.splits prod.splits sum.splits)
      subgoal by (rule boot_vm_no_panic [OF assms])
      done
  qed (simp add: create_vm_def Let_def)
qed

section \<open>Properties\<close>

text \<open>
  A VM identifier is accepted exactly when it has one to eleven characters, all of them
  lower-case letters, digits or inner hyphens; then the TAP device name fits Linux's fifteen
  characters, and the identifier holds no path separator, comma or dot, so that the names
  derived from it (state file, unit, chains, QEMU options) stay what they are meant to be.
\<close>

theorem validate_vm_id_exact:
  "(validate_vm_id v = Ok () \<longleftrightarrow>
      1 \<le> length v \<and> length v \<le> 11 \<and> list_all vm_id_char v \<and> hd v \<noteq> CHR ''-'' \<and> last v \<noteq> CHR ''-'') \<and>
   (validate_vm_id v = Ok () \<longrightarrow>
      length (''tap-'' @ v) \<le> 15 \<and> clean_name v \<and> CHR '','' \<notin> set v \<and> CHR ''.'' \<notin> set v)"
proof -
  have "CHR ''/'' \<notin> set v \<and> CHR '','' \<notin> set v \<and> CHR ''.'' \<notin> set v" if "list_all vm_id_char v"
    using that vm_id_char_excludes by (auto simp: list_all_iff)
  then show ?thesis
    unfolding validate_vm_id_Ok by (auto simp: clean_name_def Suc_le_eq)
qed

theorem validate_vm_id_exact_witness: "validate_vm_id ''vm-01'' = Ok () \<and> length (''tap-'' @ ''vm-01'') \<le> 15"
  using validate_vm_id_exact [of "''vm-01''"]
  by (simp add: vm_id_char_def is_ascii_lowercase_def is_ascii_digit_def)

text \<open>
  C12: a creation request that passes validation never makes the node panic while it builds
  the QEMU command line, whatever its disks and whatever hash trees are inserted for them;
  and a configuration that reaches the manager has vCPUs and memory, a kernel and an initrd
  if it is confidential, no encryption if it is not, and something to boot from.
\<close>

theorem grpc_create_vm_safe:
  "fst (grpc_create_vm E req st) \<noteq> Err (StatusInternal (QemuPanic p)) \<and>
   (case translate_create (e_text E) (e_lib E) (w_fs (snd st)) req of
      Inl e \<Rightarrow> grpc_create_vm E req st = (Err e, st)
    | Inr (config, ipv6, hint) \<Rightarrow>
        0 < cfg_vcpus config \<and> 0 < cfg_memory_mb config \<and> list_all disk_ok (cfg_disks config) \<and>
        (if tee_backend_type (cfg_tee config) = NoTee then \<not> cfg_encrypted config
         else cfg_kernel config \<noteq> None \<and> cfg_initrd config \<noteq> None) \<and>
        (cfg_kernel config = None \<longrightarrow> cfg_disks config \<noteq> []))"
proof (cases "translate_create (e_text E) (e_lib E) (w_fs (snd st)) req")
  case (Inl e)
  have "e \<noteq> StatusInternal x" for x
  proof -
    have v: "validate_vm_id s \<noteq> Err (StatusInternal x)" "validate_file_path fs q n \<noteq> Err (StatusInternal x)"
      "validate_vm_resources a b \<noteq> Err (StatusInternal x)" "parse_tee_config t \<noteq> Err (StatusInternal x)"
      "parse_requested_ipv6 X L ad pl \<noteq> Err (StatusInternal x)" for s fs q n a b t X L ad pl
      by (auto simp: validate_vm_id_def validate_file_path_def validate_vm_resources_def parse_tee_config_def
          parse_requested_ipv6_def Let_def and_then_def ok_or_def split: if_splits option.splits sum.splits)
    have d: "validate_disks fs ds \<noteq> Err (StatusInternal x)" for fs ds
      using v(2) by (induction ds) (auto simp: and_then_def split: sum.splits)
    have b: "boot_file fs t q n \<noteq> Err (StatusInternal x)" for fs t q n
      using v(2) by (auto simp: boot_file_def and_then_def split: sum.splits)
    show ?thesis
      using Inl v d b unfolding translate_create_def and_then_def
      by (auto split: sum.splits if_splits)
  qed
  with Inl show ?thesis by (auto simp: grpc_create_vm_def)
next
  case (Inr r)
  obtain config ipv6 hint where r: "r = (config, ipv6, hint)" by (cases r)
  note t = translate_create_Ok [OF Inr [unfolded r]]
  have "fst (create_vm E config ipv6 hint st) \<noteq> Err (QemuPanic p)" using t(2) by (rule create_vm_no_panic)
  then have "fst (grpc_create_vm E req st) \<noteq> Err (StatusInternal (QemuPanic p))"
    by (auto simp: grpc_create_vm_def Inr r and_then_def map_err_def split: prod.splits sum.splits)
  with t Inr r show ?thesis by auto
qed

definition demo_request :: create_vm_request where
  "demo_request = \<lparr>rq_vm_id = ''a'', rq_kernel = [], rq_initrd = [],
     rq_disks = [\<lparr>dm_path = ''/d'', dm_readonly = False, dm_format = []\<rparr>], rq_vcpus = 1, rq_memory_mb = 512,
     rq_tee = Some \<lparr>tm_backend = ''none'', tm_policy = []\<rparr>, rq_encrypted = False, rq_ipv6_address = [],
     rq_ipv6_prefix_len = 0, rq_numa_node = 0\<rparr>"

definition demo_disk_world :: "(json list) world" where
  "demo_disk_world = demo_world\<lparr>w_fs := fs_put ''/d'' [] empty_fs\<rparr>"

theorem grpc_create_vm_safe_witness:
  "(\<forall>p. fst (grpc_create_vm demo_env demo_request (demo_mgr, demo_disk_world)) \<noteq> Err (StatusInternal (QemuPanic p))) \<and>
   (case translate_create (e_text demo_env) (e_lib demo_env) (w_fs demo_disk_world) demo_request of
      Inl e \<Rightarrow> False | Inr (config, ipv6, hint) \<Rightarrow> list_all disk_ok (cfg_disks config) \<and> cfg_disks config \<noteq> [])"
proof -
  have t: "translate_create (e_text demo_env) (e_lib demo_env) (w_fs demo_disk_world) demo_request =
      Ok (demo_config ''a'' NoTee, None, None)" by code_simp
  have k: "cfg_kernel (demo_config ''a'' NoTee) = None" by (simp add: demo_config_def)
  from grpc_create_vm_safe [where E = demo_env and req = demo_request and st = "(demo_mgr, demo_disk_world)"]
  show ?thesis by (simp add: t k)
qed

text \<open>
  Host ports are truncated to sixteen bits without a check: a request for port 65536 or
  above is served as a request for the port modulo 65536, and a multiple of 65536 as a
  request for automatic allocation.
\<close>

theorem grpc_host_port_truncated:
  "grpc_add_port_forward E (req\<lparr>pm_host_port := pm_host_port req + 65536\<rparr>) st = grpc_add_port_forward E req st"
proof -
  have "(ucast (x + 65536 :: u32) :: u16) = ucast x" for x :: u32
  proof -
    have "unat (ucast (x + 65536 :: u32) :: u16) = unat (ucast x :: u16)"
      by (simp add: unsigned_ucast_eq take_bit_eq_mod unat_word_ariths mod_mod_cancel)
    then show ?thesis by (simp add: word_unat_eq_iff)
  qed
  then show ?thesis by (simp add: grpc_add_port_forward_def split: sum.splits)
qed

end
