(* ===== verification/Adapter.thy ===== *)
theory Adapter
  imports Volumes Grpc_Service
begin

text \<open>
  The translation of Aleph messages into requests for the compute node
  (\<^verbatim>\<open>crates/aleph-scheduler-agent/src/adapter.rs\<close>): the volumes of a message are fetched in
  turn, and the request is built from their paths and the resources of the message.
\<close>

section \<open>Translation\<close>

record adapter_config =
  ac_kernel_path :: string
  ac_initrd_path :: string

datatype adapter_error =
    DownloadingRootfs volume_error
  | DownloadingRuntime volume_error
  | DownloadingCode volume_error
  | DownloadingVolume item_hash volume_error
  | DownloadingParent item_hash volume_error

text \<open>\<^verbatim>\<open>format!("{:?}", code.encoding)\<close>.\<close>

fun encoding_debug :: "encoding \<Rightarrow> string" where
  "encoding_debug Plain = ''Plain''"
| "encoding_debug Zip = ''Zip''"
| "encoding_debug Squashfs = ''Squashfs''"

definition fetch_disk ::
  "'x volume_env \<Rightarrow> volume_cache \<Rightarrow> (volume_error \<Rightarrow> adapter_error) \<Rightarrow> item_hash \<Rightarrow> volume_category \<Rightarrow> bool \<Rightarrow>
   string \<Rightarrow> 'x world \<Rightarrow> (adapter_error, disk_msg) result \<times> 'x world" where
  "fetch_disk V c ctx h category readonly format w =
     (case ensure_cached V c h category w of
        (r, w') \<Rightarrow>
          (and_then (map_err ctx r) (\<lambda>p. Ok \<lparr>dm_path = p, dm_readonly = readonly, dm_format = format\<rparr>), w'))"

text \<open>The disk of an optional part of the message: none when the part is missing.\<close>

definition fetch_part ::
  "('a \<Rightarrow> 'x world \<Rightarrow> (adapter_error, disk_msg) result \<times> 'x world) \<Rightarrow> 'a option \<Rightarrow> 'x world \<Rightarrow>
   (adapter_error, disk_msg list) result \<times> 'x world" where
  "fetch_part f part w =
     (case part of None \<Rightarrow> (Ok [], w) | Some x \<Rightarrow> bindE (f x w) (\<lambda>d w. (Ok [d], w)))"

fun fetch_volumes ::
  "'x volume_env \<Rightarrow> volume_cache \<Rightarrow> machine_volume list \<Rightarrow> 'x world \<Rightarrow>
   (adapter_error, disk_msg list) result \<times> 'x world" where
  "fetch_volumes V c [] w = (Ok [], w)"
| "fetch_volumes V c (vol # vols) w =
     bindE
       (case vol of
          Immutable v \<Rightarrow>
            fetch_part (\<lambda>h. fetch_disk V c (DownloadingVolume h) h DataVolume True ''raw'') (Some (iv_item_ref v)) w
        | Persistent v \<Rightarrow>
            fetch_part (\<lambda>p. fetch_disk V c (DownloadingParent (par_item_ref p)) (par_item_ref p) DataVolume False ''qcow2'')
              (psv_parent v) w
        | Ephemeral v \<Rightarrow> (Ok [], w))
       (\<lambda>ds w. bindE (fetch_volumes V c vols w) (\<lambda>rest w. (Ok (ds @ rest), w)))"

definition tee_request :: "executable_message \<Rightarrow> tee_msg option" where
  "tee_request msg =
     (if is_confidential msg then
        let policy = unwrap_or (sev_policy msg) 0
        in Some \<lparr>tm_backend = ''sev-snp'', tm_policy = (if policy > 0 then ''0x'' @ show_hex (unat policy) else [])\<rparr>
      else None)"

definition build_request :: "adapter_config \<Rightarrow> executable_message \<Rightarrow> disk_msg list \<Rightarrow> create_vm_request" where
  "build_request config msg disks =
     \<lparr>rq_vm_id = em_item_hash msg, rq_kernel = ac_kernel_path config, rq_initrd = ac_initrd_path config,
      rq_disks = disks, rq_vcpus = res_vcpus (em_resources msg), rq_memory_mb = res_memory (em_resources msg),
      rq_tee = tee_request msg, rq_encrypted = is_encrypted msg, rq_ipv6_address = [], rq_ipv6_prefix_len = 0,
      rq_numa_node = 0\<rparr>"

definition translate_message ::
  "'x volume_env \<Rightarrow> volume_cache \<Rightarrow> adapter_config \<Rightarrow> executable_message \<Rightarrow> 'x world \<Rightarrow>
   (adapter_error, create_vm_request) result \<times> 'x world" where
  "translate_message V c config msg w =
     bindE (fetch_part (\<lambda>rootfs. fetch_disk V c DownloadingRootfs (par_item_ref (rf_parent rootfs)) RuntimeVolume
              False ''raw'') (em_rootfs msg) w) (\<lambda>d1 w.
     bindE (fetch_part (\<lambda>runtime. fetch_disk V c DownloadingRuntime (fr_item_ref runtime) RuntimeVolume
              True ''squashfs'') (em_runtime msg) w) (\<lambda>d2 w.
     bindE (fetch_part (\<lambda>code. fetch_disk V c DownloadingCode (cc_item_ref code) CodeVolume
              True (to_lowercase (encoding_debug (cc_encoding code)))) (em_code msg) w) (\<lambda>d3 w.
     bindE (fetch_volumes V c (em_volumes msg) w) (\<lambda>d4 w.
       (Ok (build_request config msg (d1 @ d2 @ d3 @ d4)), w)))))"

definition translate_port_forwards :: "executable_message \<Rightarrow> port_forward_msg list" where
  "translate_port_forwards msg =
     map (\<lambda>p. \<lparr>pm_vm_id = em_item_hash msg, pm_host_port = 0, pm_vm_port = ucast (pp_port p),
        pm_protocol = pp_protocol p\<rparr>) (res_published_ports (em_resources msg))"

section \<open>The reference: disks of a message\<close>

text \<open>The disks a message stands for, without any download.\<close>

definition volume_disk :: "volume_cache \<Rightarrow> item_hash \<Rightarrow> volume_category \<Rightarrow> bool \<Rightarrow> string \<Rightarrow> disk_msg" where
  "volume_disk c h k readonly format = \<lparr>dm_path = local_path c h k, dm_readonly = readonly, dm_format = format\<rparr>"

fun volume_disks :: "volume_cache \<Rightarrow> machine_volume \<Rightarrow> disk_msg list" where
  "volume_disks c (Immutable v) = [volume_disk c (iv_item_ref v) DataVolume True ''raw'']"
| "volume_disks c (Persistent v) =
     (case psv_parent v of None \<Rightarrow> [] | Some p \<Rightarrow> [volume_disk c (par_item_ref p) DataVolume False ''qcow2''])"
| "volume_disks c (Ephemeral v) = []"

definition message_disks :: "volume_cache \<Rightarrow> executable_message \<Rightarrow> disk_msg list" where
  "message_disks c msg =
     (case em_rootfs msg of None \<Rightarrow> []
      | Some r \<Rightarrow> [volume_disk c (par_item_ref (rf_parent r)) RuntimeVolume False ''raw'']) @
     (case em_runtime msg of None \<Rightarrow> []
      | Some r \<Rightarrow> [volume_disk c (fr_item_ref r) RuntimeVolume True ''squashfs'']) @
     (case em_code msg of None \<Rightarrow> []
      | Some x \<Rightarrow> [volume_disk c (cc_item_ref x) CodeVolume True (encoding_name (cc_encoding x))]) @
     concat (map (volume_disks c) (em_volumes msg))"

lemma fetch_volume_path: "fetch_volume V url p w = (Ok q, w') \<Longrightarrow> q = p"
  by (auto simp: fetch_volume_def Let_def bindE_Ok)

lemma ensure_cached_Ok_path: "ensure_cached V c h k w = (Ok p, w') \<Longrightarrow> p = local_path c h k"
  by (cases rule: ensure_cached_cases [of V c h k w]) (auto dest: fetch_volume_path)

lemma fetch_disk_Ok: "fetch_disk V c ctx h k ro fmt w = (Ok d, w') \<Longrightarrow> d = volume_disk c h k ro fmt"
  by (auto simp: fetch_disk_def and_then_Ok volume_disk_def dest: ensure_cached_Ok_path split: prod.splits)

lemma fetch_part_Ok:
  assumes "fetch_part f part w = (Ok ds, w')" "\<And>x w d w'. f x w = (Ok d, w') \<Longrightarrow> d = g x"
  shows "ds = (case part of None \<Rightarrow> [] | Some x \<Rightarrow> [g x])"
  using assms by (auto simp: fetch_part_def bindE_Ok split: option.splits)

lemma fetch_part_disk:
  "fetch_part (\<lambda>p. fetch_disk V c (ctx p) (h p) k ro (fmt p)) x w = (Ok ds, w') \<Longrightarrow>
     ds = (case x of None \<Rightarrow> [] | Some p \<Rightarrow> [volume_disk c (h p) k ro (fmt p)])"
  by (erule fetch_part_Ok) (rule fetch_disk_Ok)

lemma fetch_volumes_Ok:
  "fetch_volumes V c vols w = (Ok ds, w') \<Longrightarrow> ds = concat (map (volume_disks c) vols)"
proof (induction vols arbitrary: w ds w')
  case (Cons vol vols)
  show ?case
    using Cons.prems by (cases vol) (auto simp: bindE_Ok dest!: fetch_part_disk Cons.IH)
qed simp

lemma lowercase_encoding: "to_lowercase (encoding_debug e) = encoding_name e"
  by (cases e; hypsubst; code_simp)


lemma translate_message_Ok:
  assumes "translate_message V c config msg w = (Ok req, w')"
  shows "req = build_request config msg (message_disks c msg)"
proof -
  obtain d1 d2 d3 d4 w1 w2 w3 where f:
      "fetch_part (\<lambda>rootfs. fetch_disk V c DownloadingRootfs (par_item_ref (rf_parent rootfs)) RuntimeVolume
         False ''raw'') (em_rootfs msg) w = (Ok d1, w1)"
      "fetch_part (\<lambda>runtime. fetch_disk V c DownloadingRuntime (fr_item_ref runtime) RuntimeVolume
         True ''squashfs'') (em_runtime msg) w1 = (Ok d2, w2)"
      "fetch_part (\<lambda>code. fetch_disk V c DownloadingCode (cc_item_ref code) CodeVolume
         True (to_lowercase (encoding_debug (cc_encoding code)))) (em_code msg) w2 = (Ok d3, w3)"
      "fetch_volumes V c (em_volumes msg) w3 = (Ok d4, w')"
      "req = build_request config msg (d1 @ d2 @ d3 @ d4)"
    using assms by (auto simp: translate_message_def bindE_Ok)
  show ?thesis
    using f(5) fetch_part_disk [OF f(1)] fetch_part_disk [OF f(2)] fetch_part_disk [OF f(3)] fetch_volumes_Ok [OF f(4)]
    by (simp add: message_disks_def lowercase_encoding cong: option.case_cong)
qed

section \<open>Properties\<close>

definition demo_adapter :: adapter_config where
  "demo_adapter = \<lparr>ac_kernel_path = ''/boot/vmlinuz'', ac_initrd_path = ''/boot/initrd''\<rparr>"

text \<open>What the service requires of an accepted request, on its disks and its identifier.\<close>

lemma validate_disks_formats:
  "validate_disks fs ds = Ok () \<Longrightarrow> d \<in> set ds \<Longrightarrow> disk_msg_format d = ''raw'' \<or> disk_msg_format d = ''qcow2''"
  by (induction ds) (auto simp: and_then_Ok split: if_splits)

lemma translate_create_parts:
  assumes "translate_create X L fs req = Ok (config, ipv6, hint)"
  shows "validate_vm_id (rq_vm_id req) = Ok ()" "validate_disks fs (rq_disks req) = Ok ()"
    "parse_tee_config (rq_tee req) = Ok (cfg_tee config)" "cfg_vm_id config = rq_vm_id req"
    "parse_requested_ipv6 X L (rq_ipv6_address req) (rq_ipv6_prefix_len req) = Ok ipv6"
    "hint = (if rq_numa_node req = 0 then None else Some (rq_numa_node req - 1))"
  using assms by (auto simp: translate_create_def and_then_Ok split: if_splits)

lemma parse_tee_request:
  "parse_tee_config (tee_request msg) =
     Ok \<lparr>tee_backend_type = SevSnp, tee_policy = (case sev_policy msg of None \<Rightarrow> None
       | Some p \<Rightarrow> if p = 0 then None else Some (''0x'' @ show_hex (unat p)))\<rparr>"
  by (simp add: tee_request_def parse_tee_config_def is_confidential_def sev_policy_def word_gt_0 Let_def
      split: option.splits)

lemma accepted_parts:
  assumes "translate_message V c config msg w = (Ok req, w')"
    and "translate_create X L fs req = Ok (vm, ipv6, hint)"
  shows "em_runtime msg = None" "em_code msg = None" "tee_backend_type (cfg_tee vm) = SevSnp"
    "length (em_item_hash msg) \<le> 11" "ipv6 = None" "hint = None"
    "tee_policy (cfg_tee vm) = (case sev_policy msg of None \<Rightarrow> None
       | Some p \<Rightarrow> if p = 0 then None else Some (''0x'' @ show_hex (unat p)))"
proof -
  note r = translate_message_Ok [OF assms(1)] and t = translate_create_parts [OF assms(2)]
  show "length (em_item_hash msg) \<le> 11" using t(1) r by (simp add: validate_vm_id_Ok build_request_def)
  have fmt: "disk_msg_format d = ''raw'' \<or> disk_msg_format d = ''qcow2''" if "d \<in> set (message_disks c msg)" for d
    using validate_disks_formats [OF t(2)] r that by (simp add: build_request_def)
  show "em_runtime msg = None"
  proof (rule ccontr)
    assume "em_runtime msg \<noteq> None"
    then obtain x where "em_runtime msg = Some x" by blast
    then have "volume_disk c (fr_item_ref x) RuntimeVolume True ''squashfs'' \<in> set (message_disks c msg)"
      by (simp add: message_disks_def)
    from fmt [OF this] show False by (simp add: disk_msg_format_def volume_disk_def)
  qed
  show "em_code msg = None"
  proof (rule ccontr)
    assume "em_code msg \<noteq> None"
    then obtain x where "em_code msg = Some x" by blast
    then have "volume_disk c (cc_item_ref x) CodeVolume True (encoding_name (cc_encoding x)) \<in> set (message_disks c msg)"
      by (simp add: message_disks_def)
    from fmt [OF this] show False by (cases "cc_encoding x") (simp_all add: disk_msg_format_def volume_disk_def)
  qed
  have "cfg_tee vm = \<lparr>tee_backend_type = SevSnp, tee_policy = (case sev_policy msg of None \<Rightarrow> None
       | Some p \<Rightarrow> if p = 0 then None else Some (''0x'' @ show_hex (unat p)))\<rparr>"
    using t(3) r parse_tee_request [of msg] by (simp add: build_request_def)
  then show "tee_backend_type (cfg_tee vm) = SevSnp" "tee_policy (cfg_tee vm) = (case sev_policy msg of None \<Rightarrow> None
       | Some p \<Rightarrow> if p = 0 then None else Some (''0x'' @ show_hex (unat p)))" by simp_all
  show "ipv6 = None" "hint = None"
    using t(5,6) r by (simp_all add: build_request_def parse_requested_ipv6_def)
qed


text \<open>
  C36: the requests of the adapter that the service accepts: the identifier of the message
  has at most eleven characters, so a message named by its 64-digit hash is refused; the
  message is no program, as the disks of a program have formats the service does not take; and
  the VM is a SEV-SNP guest, also when the message asks for no trusted execution. No address
  and no NUMA node is ever asked for.
\<close>

theorem scheduled_request_accepted:
  assumes "translate_message V c config msg w = (Ok req, w')"
    and "translate_create X L fs req = Ok (vm, ipv6, hint)"
  shows "length (em_item_hash msg) \<le> 11 \<and> em_runtime msg = None \<and> em_code msg = None \<and>
    tee_backend_type (cfg_tee vm) = SevSnp \<and> ipv6 = None \<and> hint = None \<and>
    tee_policy (cfg_tee vm) = (case sev_policy msg of None \<Rightarrow> None
       | Some p \<Rightarrow> if p = 0 then None else Some (''0x'' @ show_hex (unat p)))"
  using accepted_parts [OF assms] by simp

definition demo_boot_world :: "nat world" where
  "demo_boot_world = demo_client_world\<lparr>w_fs := fs_put ''/boot/vmlinuz'' [] (fs_put ''/boot/initrd'' [] (w_fs demo_client_world))\<rparr>"

lemma demo_scheduled:
  obtains req w' vm where
    "translate_message demo_volumes demo_cache demo_adapter (demo_message ''vm-a'') demo_boot_world = (Ok req, w')"
    "translate_create (e_text demo_env) (e_lib demo_env) (w_fs w') req = Ok (vm, None, None)"
proof -
  let ?r = "translate_message demo_volumes demo_cache demo_adapter (demo_message ''vm-a'') demo_boot_world"
  have "case ?r of (Inr req, w') \<Rightarrow> is_ok (translate_create (e_text demo_env) (e_lib demo_env) (w_fs w') req) | _ \<Rightarrow> False"
    by code_simp
  then obtain req w' vm ipv6 hint where r: "?r = (Ok req, w')"
      "translate_create (e_text demo_env) (e_lib demo_env) (w_fs w') req = Ok (vm, ipv6, hint)"
    by (auto simp: is_ok_Ex split: prod.splits sum.splits)
  with accepted_parts(5,6) [OF r] that show ?thesis by blast
qed

theorem scheduled_request_accepted_witness:
  "\<exists>req w' vm. translate_message demo_volumes demo_cache demo_adapter (demo_message ''vm-a'') demo_boot_world = (Ok req, w') \<and>
     translate_create (e_text demo_env) (e_lib demo_env) (w_fs w') req = Ok (vm, None, None) \<and>
     tee_policy (cfg_tee vm) = Some ''0x7''"
proof -
  obtain req w' vm where r: "translate_message demo_volumes demo_cache demo_adapter (demo_message ''vm-a'') demo_boot_world = (Ok req, w')"
      "translate_create (e_text demo_env) (e_lib demo_env) (w_fs w') req = Ok (vm, None, None)"
    by (rule demo_scheduled)
  have "sev_policy (demo_message ''vm-a'') = Some 7"
    by (simp add: demo_message_def sev_policy_def message_tee_def)
  moreover have "show_hex (unat (7 :: u64)) = ''7''" by code_simp
  ultimately show ?thesis using scheduled_request_accepted [OF r] r by auto
qed

lemma validate_disks_exist: "validate_disks fs ds = Ok () \<Longrightarrow> d \<in> set ds \<Longrightarrow> path_exists (dm_path d) fs"
  by (induction ds) (auto simp: and_then_Ok validate_file_path_def split: if_splits)

lemma boot_file_confidential: "t \<noteq> NoTee \<Longrightarrow> boot_file fs t p field = Ok q \<Longrightarrow> q = Some p \<and> path_exists p fs"
  by (auto simp: boot_file_def and_then_Ok validate_file_path_def split: if_splits)

lemma translate_create_config:
  assumes "translate_create X L fs req = Ok (vm, ipv6, hint)"
  shows "vm = \<lparr>cfg_vm_id = rq_vm_id req, cfg_kernel = cfg_kernel vm, cfg_initrd = cfg_initrd vm,
      cfg_disks = map (\<lambda>d. \<lparr>disk_path = dm_path d, disk_readonly = dm_readonly d, disk_format = disk_msg_format d\<rparr>) (rq_disks req),
      cfg_vcpus = rq_vcpus req, cfg_memory_mb = rq_memory_mb req, cfg_tee = cfg_tee vm, cfg_encrypted = rq_encrypted req,
      cfg_numa_node = None, cfg_hugepage_size = None\<rparr>"
    "boot_file fs (tee_backend_type (cfg_tee vm)) (rq_kernel req) ''kernel'' = Ok (cfg_kernel vm)"
    "boot_file fs (tee_backend_type (cfg_tee vm)) (rq_initrd req) ''initrd'' = Ok (cfg_initrd vm)"
  using assms by (auto simp: translate_create_def and_then_Ok split: if_splits)

lemma volume_disk_config:
  "(\<lambda>d. \<lparr>disk_path = dm_path d, disk_readonly = dm_readonly d, disk_format = disk_msg_format d\<rparr>) (volume_disk c h k ro fmt) =
     \<lparr>disk_path = local_path c h k, disk_readonly = ro, disk_format = (if fmt = [] then ''raw'' else fmt)\<rparr>"
  by (simp add: volume_disk_def disk_msg_format_def)

lemma volume_disks_config:
  "map (\<lambda>d. \<lparr>disk_path = dm_path d, disk_readonly = dm_readonly d, disk_format = disk_msg_format d\<rparr>) (concat (map (volume_disks c) vols)) =
     concat (map (\<lambda>vol. case vol of
          Immutable v \<Rightarrow> [\<lparr>disk_path = path_join (path_join (vc_base_dir c) ''data'') (iv_item_ref v),
            disk_readonly = True, disk_format = ''raw''\<rparr>]
        | Persistent v \<Rightarrow> (case psv_parent v of None \<Rightarrow> []
            | Some p \<Rightarrow> [\<lparr>disk_path = path_join (path_join (vc_base_dir c) ''data'') (par_item_ref p),
                disk_readonly = False, disk_format = ''qcow2''\<rparr>])
        | Ephemeral v \<Rightarrow> []) vols)"
  by (induction vols) (auto simp: volume_disk_config local_path_def split: machine_volume.splits option.splits)

lemma message_disks_config:
  assumes "em_runtime msg = None" "em_code msg = None"
  shows "map (\<lambda>d. \<lparr>disk_path = dm_path d, disk_readonly = dm_readonly d, disk_format = disk_msg_format d\<rparr>) (message_disks c msg) =
      (case em_rootfs msg of None \<Rightarrow> []
       | Some r \<Rightarrow> [\<lparr>disk_path = path_join (path_join (vc_base_dir c) ''runtime'') (par_item_ref (rf_parent r)),
           disk_readonly = False, disk_format = ''raw''\<rparr>]) @
      concat (map (\<lambda>vol. case vol of
          Immutable v \<Rightarrow> [\<lparr>disk_path = path_join (path_join (vc_base_dir c) ''data'') (iv_item_ref v),
            disk_readonly = True, disk_format = ''raw''\<rparr>]
        | Persistent v \<Rightarrow> (case psv_parent v of None \<Rightarrow> []
            | Some p \<Rightarrow> [\<lparr>disk_path = path_join (path_join (vc_base_dir c) ''data'') (par_item_ref p),
                disk_readonly = False, disk_format = ''qcow2''\<rparr>])
        | Ephemeral v \<Rightarrow> []) (em_volumes msg))"
  using assms
  by (simp add: message_disks_def volume_disks_config volume_disk_config local_path_def split: option.splits)

text \<open>
  C34: the VM that a message becomes, from the agent's translation through the node's checks. The
  node is given the identifier, CPUs, memory and encryption of the message, boots the kernel and
  the initial file system of the agent's configuration, and gets as disks, in this order, the
  root file system, writable, and then of every volume of the message the cached file: an
  immutable volume read-only, the parent of a persistent one writable. Every one of these files
  exists. A persistent volume without a parent and an ephemeral volume become no disk at all.
\<close>

theorem scheduled_vm_exact:
  assumes "translate_message V c config msg w = (Ok req, w')" "translate_create X L fs req = Ok (vm, ipv6, hint)"
  shows "cfg_vm_id vm = em_item_hash msg \<and> cfg_vcpus vm = res_vcpus (em_resources msg) \<and>
    cfg_memory_mb vm = res_memory (em_resources msg) \<and> cfg_encrypted vm = is_encrypted msg \<and>
    cfg_kernel vm = Some (ac_kernel_path config) \<and> cfg_initrd vm = Some (ac_initrd_path config) \<and>
    cfg_disks vm =
      (case em_rootfs msg of None \<Rightarrow> []
       | Some r \<Rightarrow> [\<lparr>disk_path = path_join (path_join (vc_base_dir c) ''runtime'') (par_item_ref (rf_parent r)),
           disk_readonly = False, disk_format = ''raw''\<rparr>]) @
      concat (map (\<lambda>vol. case vol of
          Immutable v \<Rightarrow> [\<lparr>disk_path = path_join (path_join (vc_base_dir c) ''data'') (iv_item_ref v),
            disk_readonly = True, disk_format = ''raw''\<rparr>]
        | Persistent v \<Rightarrow> (case psv_parent v of None \<Rightarrow> []
            | Some p \<Rightarrow> [\<lparr>disk_path = path_join (path_join (vc_base_dir c) ''data'') (par_item_ref p),
                disk_readonly = False, disk_format = ''qcow2''\<rparr>])
        | Ephemeral v \<Rightarrow> []) (em_volumes msg)) \<and>
    (\<forall>p \<in> {ac_kernel_path config, ac_initrd_path config} \<union> disk_path ` set (cfg_disks vm). path_exists p fs)"
proof -
  note r = translate_message_Ok [OF assms(1)] and t = translate_create_parts [OF assms(2)]
    and g = translate_create_config [OF assms(2)] and a = accepted_parts [OF assms]
  have sev: "tee_backend_type (cfg_tee vm) \<noteq> NoTee" using a(3) by simp
  have boot: "cfg_kernel vm = Some (ac_kernel_path config) \<and> path_exists (ac_kernel_path config) fs"
      "cfg_initrd vm = Some (ac_initrd_path config) \<and> path_exists (ac_initrd_path config) fs"
    using boot_file_confidential [OF sev g(2)] boot_file_confidential [OF sev g(3)] by (simp_all add: r build_request_def)
  have exist: "path_exists (dm_path d) fs" if "d \<in> set (message_disks c msg)" for d
    using validate_disks_exist [OF t(2)] that by (simp add: r build_request_def)
  have disks: "cfg_disks vm = map (\<lambda>d. \<lparr>disk_path = dm_path d, disk_readonly = dm_readonly d, disk_format = disk_msg_format d\<rparr>)
      (message_disks c msg)"
    by (subst g(1)) (simp add: r build_request_def)
  note disks [unfolded message_disks_config [OF a(1,2)]]
  moreover have "\<forall>p \<in> disk_path ` set (cfg_disks vm). path_exists p fs" using exist by (auto simp: disks)
  moreover have "cfg_vm_id vm = em_item_hash msg \<and> cfg_vcpus vm = res_vcpus (em_resources msg) \<and>
      cfg_memory_mb vm = res_memory (em_resources msg) \<and> cfg_encrypted vm = is_encrypted msg"
    using g(1) by (simp add: r build_request_def) (metis vm_config.select_convs)
  ultimately show ?thesis using boot by blast
qed

theorem scheduled_vm_exact_witness:
  "\<exists>req w' vm. translate_message demo_volumes demo_cache demo_adapter (demo_message ''vm-a'') demo_boot_world = (Ok req, w') \<and>
     translate_create (e_text demo_env) (e_lib demo_env) (w_fs w') req = Ok (vm, None, None) \<and>
     cfg_vcpus vm = 2 \<and> cfg_memory_mb vm = 2048 \<and> cfg_kernel vm = Some ''/boot/vmlinuz'' \<and>
     cfg_disks vm = [\<lparr>disk_path = ''/var/cache/runtime/root'', disk_readonly = False, disk_format = ''raw''\<rparr>,
       \<lparr>disk_path = ''/var/cache/data/vol'', disk_readonly = True, disk_format = ''raw''\<rparr>]"
proof -
  obtain req w' vm where r: "translate_message demo_volumes demo_cache demo_adapter (demo_message ''vm-a'') demo_boot_world = (Ok req, w')"
      "translate_create (e_text demo_env) (e_lib demo_env) (w_fs w') req = Ok (vm, None, None)"
    by (rule demo_scheduled)
  have "path_join (path_join (vc_base_dir demo_cache) ''runtime'') ''root'' = ''/var/cache/runtime/root''"
      "path_join (path_join (vc_base_dir demo_cache) ''data'') ''vol'' = ''/var/cache/data/vol''"
    by code_simp+
  with scheduled_vm_exact [OF r] r show ?thesis
    by (intro exI [of _ req] exI [of _ w'] exI [of _ vm]) (simp add: demo_message_def demo_adapter_def)
qed

end
