(* ===== verification/Node_Hash.thy ===== *)
theory Node_Hash
  imports Messages Persistence
begin

text \<open>
  The identity of the node (\<^verbatim>\<open>crates/aleph-scheduler-agent/src/aleph/node_hash.rs\<close> and the
  discovery task, signal handler and \<^verbatim>\<open>set-node-hash\<close> command of \<^verbatim>\<open>main.rs\<close>): a node hash
  comes from a flag, from a cache file or from the registrations of the Aleph network. The item
  hash type, the client of the network and the \<^verbatim>\<open>kill\<close> command are parameters; \<open>hash_lib_ok\<close>
  is what the code relies on of the former: reading undoes printing, and a printed hash has no
  blanks around it. The discovery task runs beside the signal handler: the interleavings of
  their steps are the inductive relation \<open>ident_step\<close>.
\<close>

section \<open>Parameters\<close>

record 'h hash_lib =
  hash_parse :: "string \<Rightarrow> 'h option"
  hash_show :: "'h \<Rightarrow> string"

definition hash_lib_ok :: "'h hash_lib \<Rightarrow> bool" where
  "hash_lib_ok H \<longleftrightarrow> (\<forall>h. hash_parse H (hash_show H h) = Some h \<and> hash_show H h \<noteq> [] \<and>
     trim (hash_show H h) = hash_show H h)"

record post_filter =
  flt_addresses :: "string list"
  flt_post_types :: "string list"
  flt_pagination :: u32

record 'h post_v0 =
  po_original_item_hash :: 'h
  po_content :: json

record 'h posts_response =
  pr_posts :: "'h post_v0 list"
  pr_pagination_total :: u32

record ('h, 'x) agent_env =
  ae_io :: io_env
  ae_hash :: "'h hash_lib"
  ae_get_posts :: "post_filter \<Rightarrow> 'x \<Rightarrow> (string, 'h posts_response) result \<times> 'x"
  ae_kill :: "string list \<Rightarrow> 'x \<Rightarrow> (string, bool) result \<times> 'x"
  ae_pid :: u32

datatype node_error =
    InvalidNodeHash string
  | CreatingStateDir io_error
  | WritingCache io_error
  | WritingPid io_error
  | KillFailed string
  | KillStatus u32
  | QueryingPosts string

section \<open>The cache and PID files\<close>

definition node_hash_parse :: "'h hash_lib \<Rightarrow> string \<Rightarrow> (node_error, 'h) result" where
  "node_hash_parse H hash = ok_or (hash_parse H hash) (InvalidNodeHash hash)"

definition normalize_url :: "string \<Rightarrow> string" where
  "normalize_url url = to_lowercase (trim_end_matches CHR ''/'' url)"

definition node_hash_path :: "path \<Rightarrow> path" where
  "node_hash_path state_dir = path_join state_dir ''node-hash''"

definition pid_path :: "path \<Rightarrow> path" where
  "pid_path state_dir = path_join state_dir ''scheduler-agent.pid''"

definition read_cached_hash_raw :: "io_env \<Rightarrow> path \<Rightarrow> filesystem \<Rightarrow> string option" where
  "read_cached_hash_raw I state_dir fs =
     (case read_to_string I (node_hash_path state_dir) fs of
        Inl _ \<Rightarrow> None
      | Inr s \<Rightarrow> (let hash = trim s in if hash = [] then None else Some hash))"

definition read_cached_hash :: "io_env \<Rightarrow> 'h hash_lib \<Rightarrow> path \<Rightarrow> filesystem \<Rightarrow> 'h option" where
  "read_cached_hash I H state_dir fs =
     Option.bind (read_cached_hash_raw I state_dir fs) (\<lambda>raw.
       case node_hash_parse H raw of Inr hash \<Rightarrow> Some hash | Inl e \<Rightarrow> None)"

text \<open>\<^verbatim>\<open>create_dir_all\<close> and \<^verbatim>\<open>fs::write\<close>, in this order.\<close>

definition write_state_file ::
  "io_env \<Rightarrow> (io_error \<Rightarrow> node_error) \<Rightarrow> path \<Rightarrow> path \<Rightarrow> string \<Rightarrow> 'x world \<Rightarrow> (node_error, unit) result \<times> 'x world" where
  "write_state_file I ctx state_dir p s w =
     bindE (on_fs CreatingStateDir (fs_exec I (Mkdir state_dir)) w) (\<lambda>_ w. on_fs ctx (fs_write I p s) w)"

definition write_cached_hash ::
  "io_env \<Rightarrow> 'h hash_lib \<Rightarrow> path \<Rightarrow> 'h \<Rightarrow> 'x world \<Rightarrow> (node_error, unit) result \<times> 'x world" where
  "write_cached_hash I H state_dir hash =
     write_state_file I WritingCache state_dir (node_hash_path state_dir) (hash_show H hash)"

definition write_pid_file :: "io_env \<Rightarrow> u32 \<Rightarrow> path \<Rightarrow> 'x world \<Rightarrow> (node_error, unit) result \<times> 'x world" where
  "write_pid_file I pid state_dir =
     write_state_file I WritingPid state_dir (pid_path state_dir) (show_word pid)"

definition remove_pid_file :: "io_env \<Rightarrow> path \<Rightarrow> 'x world \<Rightarrow> 'x world" where
  "remove_pid_file I state_dir w = ignore (on_fs id (remove_file I (pid_path state_dir)) w)"

definition read_pid :: "io_env \<Rightarrow> path \<Rightarrow> filesystem \<Rightarrow> u32 option" where
  "read_pid I state_dir fs =
     (case read_to_string I (pid_path state_dir) fs of Inl _ \<Rightarrow> None | Inr s \<Rightarrow> parse_u32 (trim s))"

definition send_sighup :: "('h, 'x) agent_env \<Rightarrow> u32 \<Rightarrow> 'x world \<Rightarrow> (node_error, unit) result \<times> 'x world" where
  "send_sighup A pid w =
     bindE (on_ext KillFailed (ae_kill A [''-HUP'', show_word pid]) w) (\<lambda>success w.
       if \<not> success then (Err (KillStatus pid), w) else (Ok (), w))"

definition resolve_initial_hash ::
  "io_env \<Rightarrow> 'h hash_lib \<Rightarrow> string option \<Rightarrow> path \<Rightarrow> filesystem \<Rightarrow> (node_error, 'h option) result" where
  "resolve_initial_hash I H explicit_hash state_dir fs =
     (case explicit_hash of
        Some hash \<Rightarrow> and_then (node_hash_parse H hash) (\<lambda>h. Ok (Some h))
      | None \<Rightarrow>
          (case read_cached_hash I H state_dir fs of
             Some cached \<Rightarrow> Ok (Some cached)
           | None \<Rightarrow> Ok None))"

section \<open>Discovery\<close>

record crn_details =
  cd_name :: "string option"
  cd_address :: "string option"

record corechan_content =
  co_action :: "string option"
  co_details :: "crn_details option"

record 'h discovered_node =
  dn_hash :: 'h
  dn_name :: string
  dn_address :: string

definition crn_details_from_json :: "json \<Rightarrow> crn_details option" where
  "crn_details_from_json j =
     Option.bind (struct_fields [''name'', ''address''] j) (\<lambda>f.
     Option.bind (opt_field as_str f ''name'') (\<lambda>name.
     Option.bind (opt_field as_str f ''address'') (\<lambda>address.
       Some \<lparr>cd_name = name, cd_address = address\<rparr>)))"

definition corechan_from_json :: "json \<Rightarrow> corechan_content option" where
  "corechan_from_json j =
     Option.bind (struct_fields [''action'', ''details''] j) (\<lambda>f.
     Option.bind (opt_field as_str f ''action'') (\<lambda>action.
     Option.bind (opt_field crn_details_from_json f ''details'') (\<lambda>details.
       Some \<lparr>co_action = action, co_details = details\<rparr>)))"

definition parse_crn_post :: "'h post_v0 \<Rightarrow> corechan_content option" where
  "parse_crn_post p =
     Option.bind (corechan_from_json (po_content p)) (\<lambda>content.
       if co_action content = Some ''create-resource-node'' then Some content else None)"

definition crn_address :: "corechan_content \<Rightarrow> string option" where
  "crn_address content = Option.bind (co_details content) cd_address"

definition crn_matches :: "string \<Rightarrow> corechan_content \<Rightarrow> bool" where
  "crn_matches expected_url content =
     (case crn_address content of None \<Rightarrow> False | Some a \<Rightarrow> normalize_url a = expected_url)"

definition create_ops :: "'h post_v0 list \<Rightarrow> ('h post_v0 \<times> corechan_content) list" where
  "create_ops posts = List.map_filter (\<lambda>p. map_option (\<lambda>c. (p, c)) (parse_crn_post p)) posts"

definition node_of_match :: "'h post_v0 \<times> corechan_content \<Rightarrow> 'h discovered_node" where
  "node_of_match m =
     \<lparr>dn_hash = po_original_item_hash (fst m),
      dn_name = unwrap_or (Option.bind (co_details (snd m)) cd_name) ''unnamed'',
      dn_address = unwrap_or (crn_address (snd m)) []\<rparr>"

definition select_node :: "string \<Rightarrow> 'h post_v0 list \<Rightarrow> 'h discovered_node option" where
  "select_node expected_url posts =
     (case filter (\<lambda>m. crn_matches expected_url (snd m)) (create_ops posts) of
        [m] \<Rightarrow> Some (node_of_match m)
      | _ \<Rightarrow> None)"

definition discovery_filter :: "string \<Rightarrow> post_filter" where
  "discovery_filter owner_address =
     \<lparr>flt_addresses = [owner_address], flt_post_types = [''corechan-operation''], flt_pagination = 200\<rparr>"

definition discover_node_hash ::
  "('h, 'x) agent_env \<Rightarrow> string \<Rightarrow> string \<Rightarrow> 'x world \<Rightarrow>
   (node_error, 'h discovered_node option) result \<times> 'x world" where
  "discover_node_hash A owner_address domain_name w =
     bindE (on_ext QueryingPosts (ae_get_posts A (discovery_filter owner_address)) w) (\<lambda>response w.
       (Ok (select_node (normalize_url (''https://'' @ domain_name)) (pr_posts response)), w))"

section \<open>The discovery task, the signal handler and the command\<close>

datatype discovery_phase = Checking | Querying | Finished

record 'h identity =
  id_hash :: "'h option"
  id_phase :: discovery_phase

text \<open>One turn of the loop: the check at its head, and what it does with an answer.\<close>

definition discovery_check :: "'h identity \<Rightarrow> 'h identity" where
  "discovery_check s = s\<lparr>id_phase := (if id_hash s \<noteq> None then Finished else Querying)\<rparr>"

definition discovery_answer ::
  "('h, 'x) agent_env \<Rightarrow> path \<Rightarrow> (node_error, 'h discovered_node option) result \<Rightarrow> 'h identity \<times> 'x world \<Rightarrow>
   'h identity \<times> 'x world" where
  "discovery_answer A state_dir r sw =
     (case r of
        Inr (Some discovered) \<Rightarrow>
          ((fst sw)\<lparr>id_hash := Some (dn_hash discovered), id_phase := Finished\<rparr>,
           ignore (write_cached_hash (ae_io A) (ae_hash A) state_dir (dn_hash discovered) (snd sw)))
      | _ \<Rightarrow> ((fst sw)\<lparr>id_phase := Checking\<rparr>, snd sw))"

text \<open>The loop alone, for at most so many turns; \<open>None\<close> when it has not returned by then.\<close>

fun discovery_loop ::
  "nat \<Rightarrow> ('h, 'x) agent_env \<Rightarrow> string \<Rightarrow> string \<Rightarrow> path \<Rightarrow> 'h identity \<times> 'x world \<Rightarrow>
   ('h identity \<times> 'x world) option" where
  "discovery_loop 0 A owner domain state_dir sw = None"
| "discovery_loop (Suc n) A owner domain state_dir (s, w) =
     (let s1 = discovery_check s in
      if id_phase s1 = Finished then Some (s1, w)
      else
        let (r, w1) = discover_node_hash A owner domain w; sw2 = discovery_answer A state_dir r (s1, w1)
        in if id_phase (fst sw2) = Finished then Some sw2
           else discovery_loop n A owner domain state_dir sw2)"

definition sighup ::
  "('h, 'x) agent_env \<Rightarrow> path \<Rightarrow> 'h identity \<times> 'x world \<Rightarrow> 'h identity \<times> 'x world" where
  "sighup A state_dir sw =
     (case read_cached_hash (ae_io A) (ae_hash A) state_dir (w_fs (snd sw)) of
        Some hash \<Rightarrow>
          (if id_hash (fst sw) \<noteq> Some hash then ((fst sw)\<lparr>id_hash := Some hash\<rparr>, snd sw) else sw)
      | None \<Rightarrow> sw)"

datatype set_outcome = Signalled u32 | NotSignalled u32 | NoAgent

definition cmd_set_node_hash ::
  "('h, 'x) agent_env \<Rightarrow> path \<Rightarrow> string \<Rightarrow> 'x world \<Rightarrow> (node_error, set_outcome) result \<times> 'x world" where
  "cmd_set_node_hash A state_dir hash w =
     bindE (node_hash_parse (ae_hash A) hash, w) (\<lambda>h w.
     bindE (write_cached_hash (ae_io A) (ae_hash A) state_dir h w) (\<lambda>_ w.
       case read_pid (ae_io A) state_dir (w_fs w) of
         None \<Rightarrow> (Ok NoAgent, w)
       | Some pid \<Rightarrow>
           (case send_sighup A pid w of
              (Inr _, w') \<Rightarrow> (Ok (Signalled pid), w')
            | (Inl _, w') \<Rightarrow> (Ok (NotSignalled pid), w'))))"


text \<open>
  What can happen to the identity of a running agent, one step at a time: the discovery task
  looks at the hash or receives an answer to its query, a signal arrives, the operator
  runs the command. Between the check and the answer of the task anything else may happen.
\<close>

inductive ident_step ::
  "('h, 'x) agent_env \<Rightarrow> string \<Rightarrow> string \<Rightarrow> path \<Rightarrow> 'h identity \<times> 'x world \<Rightarrow> 'h identity \<times> 'x world \<Rightarrow> bool"
  for A owner domain dir where
  Check: "id_phase s = Checking \<Longrightarrow> ident_step A owner domain dir (s, w) (discovery_check s, w)"
| Answer: "id_phase s = Querying \<Longrightarrow> discover_node_hash A owner domain w = (r, w1) \<Longrightarrow>
     ident_step A owner domain dir (s, w) (discovery_answer A dir r (s, w1))"
| Hup: "ident_step A owner domain dir sw (sighup A dir sw)"
| SetHash: "cmd_set_node_hash A dir hash w = (r, w') \<Longrightarrow> ident_step A owner domain dir (s, w) (s, w')"

inductive_cases ident_stepE: "ident_step A owner domain dir sw sw'"

section \<open>The files\<close>

lemma write_state_file_Ok:
  "write_state_file I ctx d p s w = (Ok (), w') \<Longrightarrow> fs_content (w_fs w') p = Some s \<and> w_ext w' = w_ext w"
  by (auto simp: write_state_file_def bindE_Ok on_fs_Ok dest!: fs_write_Ok [where q = p])

lemma write_cached_hash_ext: "w_ext (snd (write_cached_hash I H d h w)) = w_ext w"
  unfolding write_cached_hash_def write_state_file_def by (rule bindE_world) simp_all

lemma read_pid_written:
  assumes "\<And>fs. read_fault I fs (pid_path d) = None" "fs_content fs (pid_path d) = Some (show_word pid)"
  shows "read_pid I d fs = Some pid"
proof -
  have "trim (show_word pid) = show_word pid"
    using show_nat_digits digit_not_whitespace by (intro trim_id) blast
  then show ?thesis using assms by (simp add: read_pid_def read_to_string_def)
qed

lemma read_cached_written:
  assumes "hash_lib_ok H" "reliable_io I" "fs_content fs (node_hash_path d) = Some (hash_show H h)"
  shows "read_cached_hash I H d fs = Some h"
  using assms
  by (simp add: read_cached_hash_def read_cached_hash_raw_def reliable_read hash_lib_ok_def Let_def node_hash_parse_def)

lemma write_cached_reliable:
  assumes "hash_lib_ok H" "reliable_io I"
  shows "read_cached_hash I H d (w_fs (snd (write_cached_hash I H d h w))) = Some h"
proof -
  have "fst (write_cached_hash I H d h w) = Ok ()"
    using assms(2) by (simp add: write_cached_hash_def write_state_file_def on_fs_def fs_exec_def reliable_write reliable_io_def)
  then have "write_cached_hash I H d h w = (Ok (), snd (write_cached_hash I H d h w))" by (metis prod.collapse)
  from write_state_file_Ok [OF this [unfolded write_cached_hash_def]] show ?thesis
    using assms by (auto intro: read_cached_written simp: write_cached_hash_def)
qed

lemma send_sighup_fs: "w_fs (snd (send_sighup A pid w)) = w_fs w"
  unfolding send_sighup_def by (rule bindE_world [of "\<lambda>w'. w_fs w' = w_fs w"]) simp_all

lemma set_node_hash_written:
  assumes "cmd_set_node_hash A d hash w = (Ok out, w')"
  obtains h where "hash_parse (ae_hash A) hash = Some h"
    "fs_content (w_fs w') (node_hash_path d) = Some (hash_show (ae_hash A) h)"
proof -
  obtain h w1 where h: "hash_parse (ae_hash A) hash = Some h"
      "write_cached_hash (ae_io A) (ae_hash A) d h w = (Ok (), w1)"
    and rest: "(case read_pid (ae_io A) d (w_fs w1) of None \<Rightarrow> (Ok NoAgent, w1)
       | Some pid \<Rightarrow> (case send_sighup A pid w1 of (Inr _, w') \<Rightarrow> (Ok (Signalled pid), w')
            | (Inl _, w') \<Rightarrow> (Ok (NotSignalled pid), w'))) = (Ok out :: (node_error, set_outcome) result, w')"
    using assms by (simp add: cmd_set_node_hash_def bindE_Ok node_hash_parse_def) blast
  have "w_fs w' = w_fs w1"
    using rest send_sighup_fs [of A "the (read_pid (ae_io A) d (w_fs w1))" w1]
    by (auto split: option.splits prod.splits sum.splits)
  with write_state_file_Ok [OF h(2) [unfolded write_cached_hash_def]] h(1) show ?thesis
    by (intro that [of h]) simp_all
qed

section \<open>Registrations\<close>

definition registers :: "string \<Rightarrow> 'h post_v0 \<Rightarrow> bool" where
  "registers url p = (case parse_crn_post p of None \<Rightarrow> False | Some c \<Rightarrow> crn_matches url c)"

lemma matching_posts:
  "map fst (filter (\<lambda>m. crn_matches url (snd m)) (create_ops posts)) = filter (registers url) posts"
  by (induction posts) (auto simp: create_ops_def map_filter_simps registers_def List.map_filter_def split: option.splits)

lemma select_node_Some:
  "select_node url posts = Some node \<Longrightarrow> \<exists>p. filter (registers url) posts = [p] \<and> dn_hash node = po_original_item_hash p"
  using matching_posts [of url posts, symmetric]
  by (auto simp: select_node_def node_of_match_def split: list.splits)

lemma select_node_None:
  "select_node url posts = None \<longleftrightarrow> length (filter (registers url) posts) \<noteq> 1"
  unfolding select_node_def
  by (subst matching_posts [symmetric]) (auto split: list.splits)


section \<open>The identity of a running agent\<close>

definition ident_inv :: "'h identity \<Rightarrow> bool" where
  "ident_inv s \<longleftrightarrow> (id_phase s = Finished \<longrightarrow> id_hash s \<noteq> None)"

lemma ident_step_inv: "ident_step A owner domain dir sw sw' \<Longrightarrow> ident_inv (fst sw) \<Longrightarrow> ident_inv (fst sw')"
  by (erule ident_stepE)
     (auto simp: ident_inv_def discovery_check_def discovery_answer_def sighup_def split: option.splits sum.splits)

lemma ident_step_keeps: "ident_step A owner domain dir sw sw' \<Longrightarrow> id_hash (fst sw) \<noteq> None \<Longrightarrow> id_hash (fst sw') \<noteq> None"
  by (erule ident_stepE)
     (auto simp: discovery_check_def discovery_answer_def sighup_def split: option.splits sum.splits)

text \<open>The world after so many queries, and whether a query finds the node.\<close>

fun query_world :: "('h, 'x) agent_env \<Rightarrow> string \<Rightarrow> string \<Rightarrow> nat \<Rightarrow> 'x world \<Rightarrow> 'x world" where
  "query_world A owner domain 0 w = w"
| "query_world A owner domain (Suc n) w = query_world A owner domain n (snd (discover_node_hash A owner domain w))"

definition found_at :: "('h, 'x) agent_env \<Rightarrow> string \<Rightarrow> string \<Rightarrow> 'x world \<Rightarrow> nat \<Rightarrow> 'h option" where
  "found_at A owner domain w k =
     (case fst (discover_node_hash A owner domain (query_world A owner domain k w)) of
        Inr (Some n) \<Rightarrow> Some (dn_hash n)
      | _ \<Rightarrow> None)"

lemma found_at_Suc [simp]:
  "found_at A owner domain w (Suc k) = found_at A owner domain (snd (discover_node_hash A owner domain w)) k"
  by (simp add: found_at_def)

lemma discovery_loop_step:
  assumes "id_hash s = None"
  shows "discovery_loop (Suc n) A owner domain dir (s, w) =
    (case found_at A owner domain w 0 of
       Some h \<Rightarrow> Some (discovery_answer A dir (fst (discover_node_hash A owner domain w))
          (s\<lparr>id_phase := Querying\<rparr>, snd (discover_node_hash A owner domain w)))
     | None \<Rightarrow> discovery_loop n A owner domain dir (s\<lparr>id_phase := Checking\<rparr>, snd (discover_node_hash A owner domain w)))"
  using assms
  by (auto simp: discovery_check_def found_at_def discovery_answer_def Let_def split: prod.splits sum.splits option.splits)

text \<open>The loop returns exactly when one of its queries finds the node, with what the first such query found.\<close>

lemma discovery_loop_result:
  assumes "id_hash s = None"
  shows "map_option (\<lambda>sw. id_hash (fst sw)) (discovery_loop n A owner domain dir (s, w)) =
    (if \<exists>k<n. found_at A owner domain w k \<noteq> None
     then Some (found_at A owner domain w (LEAST k. found_at A owner domain w k \<noteq> None)) else None)"
  using assms
proof (induction n arbitrary: s w)
  case (Suc n)
  let ?w = "snd (discover_node_hash A owner domain w)"
  show ?case
  proof (cases "found_at A owner domain w 0")
    case (Some h)
    then have "(LEAST k. found_at A owner domain w k \<noteq> None) = 0" by (intro Least_equality) auto
    moreover have "id_hash (fst (discovery_answer A dir (fst (discover_node_hash A owner domain w)) sw)) = Some h" for sw
      using Some by (auto simp: found_at_def discovery_answer_def split: sum.splits option.splits)
    moreover have "\<exists>k<Suc n. found_at A owner domain w k \<noteq> None" using Some by (intro exI [of _ 0]) simp
    ultimately show ?thesis using Some by (simp add: discovery_loop_step [OF Suc.prems] del: discovery_loop.simps)
  next
    case None
    have ex: "(\<exists>k<Suc n. found_at A owner domain w k \<noteq> None) \<longleftrightarrow> (\<exists>k<n. found_at A owner domain ?w k \<noteq> None)"
      using None by (metis (no_types, lifting) Suc_less_eq found_at_Suc gr0_implies_Suc not_gr_zero)
    have "(LEAST k. found_at A owner domain w k \<noteq> None) = Suc (LEAST k. found_at A owner domain ?w k \<noteq> None)"
      if "found_at A owner domain ?w k \<noteq> None" for k
      using Least_Suc [of "\<lambda>k. found_at A owner domain w k \<noteq> None" "Suc k"] None that by simp
    then have least: "found_at A owner domain w (LEAST k. found_at A owner domain w k \<noteq> None) =
        found_at A owner domain ?w (LEAST k. found_at A owner domain ?w k \<noteq> None)"
      if "\<exists>k<n. found_at A owner domain ?w k \<noteq> None"
      using that found_at_Suc by metis
    have "discovery_loop (Suc n) A owner domain dir (s, w) = discovery_loop n A owner domain dir (s\<lparr>id_phase := Checking\<rparr>, ?w)"
      by (simp only: discovery_loop_step [OF Suc.prems] None option.case)
    moreover have "id_hash (s\<lparr>id_phase := Checking\<rparr>) = None" using Suc.prems by simp
    ultimately show ?thesis unfolding ex using least Suc.IH [of "s\<lparr>id_phase := Checking\<rparr>" ?w] by metis
  qed
qed simp


section \<open>Properties\<close>

text \<open>
  One query finds the node exactly when one and only one registration of the answer
  has the address of the node, up to letter case and trailing slashes, and then returns
  the hash of that registration; with none or several it returns none, and it fails exactly
  when the query fails.
\<close>

theorem discover_node_hash_exact:
  "case ae_get_posts A (discovery_filter owner) (w_ext w) of
     (Inl e, x) \<Rightarrow> discover_node_hash A owner domain w = (Err (QueryingPosts e), w\<lparr>w_ext := x\<rparr>)
   | (Inr response, x) \<Rightarrow>
       (case filter (registers (normalize_url (''https://'' @ domain))) (pr_posts response) of
          [p] \<Rightarrow> \<exists>node. discover_node_hash A owner domain w = (Ok (Some node), w\<lparr>w_ext := x\<rparr>) \<and>
                   dn_hash node = po_original_item_hash p
        | _ \<Rightarrow> discover_node_hash A owner domain w = (Ok None, w\<lparr>w_ext := x\<rparr>))"
proof (cases "ae_get_posts A (discovery_filter owner) (w_ext w)")
  case (Pair r x)
  show ?thesis
  proof (cases r)
    case (Inl e)
    with Pair show ?thesis by (simp add: discover_node_hash_def on_ext_def)
  next
    case (Inr response)
    let ?url = "normalize_url (''https://'' @ domain)"
    let ?ms = "filter (registers ?url) (pr_posts response)"
    have d: "discover_node_hash A owner domain w = (Ok (select_node ?url (pr_posts response)), w\<lparr>w_ext := x\<rparr>)"
      using Pair Inr by (simp add: discover_node_hash_def on_ext_def)
    show ?thesis
    proof (cases "select_node ?url (pr_posts response)")
      case None
      then have "length ?ms \<noteq> 1" by (simp add: select_node_None)
      then show ?thesis using d None Pair Inr by (auto split: list.splits)
    next
      case (Some node)
      then show ?thesis using d Pair Inr select_node_Some [OF Some] by auto
    qed
  qed
qed

text \<open>
  C39: the discovery loop returns within so many turns exactly when one of its queries
  finds the node, and then the identity is what the first such query found.
\<close>

theorem discovery_loop_terminates:
  assumes "id_hash s = None"
  shows "map_option (\<lambda>sw. id_hash (fst sw)) (discovery_loop n A owner domain dir (s, w)) =
    (if \<exists>k<n. found_at A owner domain w k \<noteq> None
     then Some (found_at A owner domain w (LEAST k. found_at A owner domain w k \<noteq> None)) else None)"
  by (rule discovery_loop_result [OF assms])

definition demo_hashes :: "u8 hash_lib" where
  "demo_hashes = \<lparr>hash_parse = (\<lambda>s. map_option of_nat (parse_uint 256 s)), hash_show = (\<lambda>h. show_word h)\<rparr>"

definition crn_post :: "u8 \<Rightarrow> string \<Rightarrow> u8 post_v0" where
  "crn_post h address = \<lparr>po_original_item_hash = h, po_content = JObj [(''action'', JStr ''create-resource-node''),
     (''details'', JObj [(''name'', JStr ''n''), (''address'', JStr address)])]\<rparr>"

text \<open>A network that knows the node from the second query on.\<close>

definition demo_agent :: "(u8, nat) agent_env" where
  "demo_agent = \<lparr>ae_io = calm_io, ae_hash = demo_hashes,
     ae_get_posts = (\<lambda>f n. (Ok \<lparr>pr_posts = (if n = 0 then [] else [crn_post 1 ''https://CRN.example/'']),
        pr_pagination_total = 1\<rparr>, Suc n)),
     ae_kill = (\<lambda>args n. (Ok True, n)), ae_pid = 7\<rparr>"

definition demo_state_world :: "nat world" where
  "demo_state_world = \<lparr>w_fs = \<lparr>fs_files = hm_empty, fs_dirs = [], fs_clock = 0\<rparr>, w_ext = 0\<rparr>"

definition fresh_identity :: "'h identity" where
  "fresh_identity = \<lparr>id_hash = None, id_phase = Checking\<rparr>"

theorem discovery_loop_terminates_witness:
  "map_option (\<lambda>sw. id_hash (fst sw))
     (discovery_loop 3 demo_agent ''0x1'' ''crn.example'' ''/s'' (fresh_identity, demo_state_world)) = Some (Some 1)"
proof -
  let ?f = "found_at demo_agent ''0x1'' ''crn.example'' demo_state_world"
  have 0: "?f 0 = None" by code_simp
  have 1: "?f 1 = Some 1" by code_simp
  have "(LEAST k. ?f k \<noteq> None) = 1"
    using 0 1 by (intro Least_equality) (auto simp: Suc_le_eq intro: gr0I)
  moreover have "\<exists>k<3. ?f k \<noteq> None" using 1 by (intro exI [of _ 1]) simp
  ultimately show ?thesis
    using 1 discovery_loop_terminates [of fresh_identity 3 demo_agent "''0x1''" "''crn.example''" "''/s''" demo_state_world]
    by (simp add: fresh_identity_def del: discovery_loop.simps)
qed


lemma ident_steps:
  assumes "(ident_step A owner domain dir)\<^sup>*\<^sup>* sw sw'"
  shows "ident_inv (fst sw) \<Longrightarrow> ident_inv (fst sw')" "id_hash (fst sw) \<noteq> None \<Longrightarrow> id_hash (fst sw') \<noteq> None"
  using assms by (induction rule: rtranclp_induct) (auto dest: ident_step_inv ident_step_keeps)

lemma sighup_cached:
  "read_cached_hash (ae_io A) (ae_hash A) dir (w_fs w) = Some h \<Longrightarrow> id_hash (fst (sighup A dir (s, w))) = Some h \<and>
     snd (sighup A dir (s, w)) = w \<and> id_phase (fst (sighup A dir (s, w))) = id_phase s"
  by (simp add: sighup_def)

text \<open>
  Setting the node hash takes effect: after a successful command the cache holds the parsed
  hash, the next signal makes it the identity of the running agent, a restarted agent starts
  with it, and from then on, whatever the discovery task, further signals and commands do, the
  agent never is without a hash again.
\<close>

theorem set_node_hash_takes_effect:
  assumes "hash_lib_ok (ae_hash A)" "reliable_io (ae_io A)"
    and "cmd_set_node_hash A dir raw w = (Ok out, w')"
    and "(ident_step A owner domain dir)\<^sup>*\<^sup>* (sighup A dir (s, w')) (s'', w'')"
  shows "\<exists>h. hash_parse (ae_hash A) raw = Some h \<and> id_hash (fst (sighup A dir (s, w'))) = Some h \<and>
    resolve_initial_hash (ae_io A) (ae_hash A) None dir (w_fs w') = Ok (Some h) \<and> id_hash s'' \<noteq> None"
proof -
  obtain h where h: "hash_parse (ae_hash A) raw = Some h"
      "fs_content (w_fs w') (node_hash_path dir) = Some (hash_show (ae_hash A) h)"
    using assms(3) by (rule set_node_hash_written)
  note c = read_cached_written [OF assms(1,2) h(2)]
  have "id_hash s'' \<noteq> None" using ident_steps(2) [OF assms(4)] sighup_cached [OF c] by simp
  with h(1) c sighup_cached [OF c] show ?thesis by (simp add: resolve_initial_hash_def)
qed

lemma show_word_trim: "trim (show_word w) = show_word w"
  using show_nat_digits digit_not_whitespace by (intro trim_id) blast

lemma demo_hashes_ok: "hash_lib_ok demo_hashes"
  by (simp add: hash_lib_ok_def demo_hashes_def show_word_trim parse_uint_show_nat unat_u8_less)

theorem set_node_hash_takes_effect_witness:
  "\<exists>w'. cmd_set_node_hash demo_agent ''/s'' ''5'' demo_state_world = (Ok NoAgent, w') \<and>
     id_hash (fst (sighup demo_agent ''/s'' (fresh_identity, w'))) = Some 5"
proof -
  let ?r = "cmd_set_node_hash demo_agent ''/s'' ''5'' demo_state_world"
  have "fst ?r = Ok NoAgent" by code_simp
  then obtain w' where w': "?r = (Ok NoAgent, w')" by (cases ?r) auto
  have io: "reliable_io (ae_io demo_agent)" by (simp add: demo_agent_def)
  have ok: "hash_lib_ok (ae_hash demo_agent)" by (simp add: demo_agent_def demo_hashes_ok)
  have "hash_parse (ae_hash demo_agent) ''5'' = Some 5" by code_simp
  then have "id_hash (fst (sighup demo_agent ''/s'' (fresh_identity, w'))) = Some 5"
    using set_node_hash_takes_effect [OF ok io w', of "[]" "[]" fresh_identity
      "fst (sighup demo_agent ''/s'' (fresh_identity, w'))" "snd (sighup demo_agent ''/s'' (fresh_identity, w'))"] by simp
  with w' show ?thesis by blast
qed

text \<open>
  The discovery task can override the operator: when the command and its signal arrive
  while a query is under way, the agent first takes the operator's hash and then, with the
  answer, the discovered one, in memory and in the cache.
\<close>

theorem discovery_overrides_operator:
  assumes "hash_lib_ok (ae_hash A)" "reliable_io (ae_io A)"
    and "cmd_set_node_hash A dir raw w = (Ok out, w1)" "hash_parse (ae_hash A) raw = Some h"
    and "discover_node_hash A owner domain w1 = (Ok (Some node), w2)"
  shows "\<exists>s3 s4 w4. (ident_step A owner domain dir)\<^sup>*\<^sup>* (fresh_identity, w) (s3, w1) \<and> id_hash s3 = Some h \<and>
    (ident_step A owner domain dir)\<^sup>*\<^sup>* (s3, w1) (s4, w4) \<and> id_hash s4 = Some (dn_hash node) \<and>
    read_cached_hash (ae_io A) (ae_hash A) dir (w_fs w4) = Some (dn_hash node)"
proof -
  let ?step = "ident_step A owner domain dir"
  let ?s1 = "discovery_check fresh_identity"
  have q: "id_phase ?s1 = Querying" by (simp add: discovery_check_def fresh_identity_def)
  have c: "read_cached_hash (ae_io A) (ae_hash A) dir (w_fs w1) = Some h"
    using assms(1,2,4) set_node_hash_written [OF assms(3)] by (metis option.inject read_cached_written)
  define s3 where "s3 = fst (sighup A dir (?s1, w1))"
  have s3: "sighup A dir (?s1, w1) = (s3, w1)" "id_hash s3 = Some h" "id_phase s3 = Querying"
    using sighup_cached [OF c, of ?s1] q unfolding s3_def by (auto intro: prod_eqI)
  have "?step (fresh_identity, w) (?s1, w)" by (rule Check) (simp add: fresh_identity_def)
  moreover have "?step (?s1, w) (?s1, w1)" using assms(3) by (rule SetHash)
  moreover have "?step (?s1, w1) (s3, w1)" using Hup [of A owner domain dir "(?s1, w1)"] s3(1) by simp
  ultimately have pre: "?step\<^sup>*\<^sup>* (fresh_identity, w) (s3, w1)"
    by (rule converse_rtranclp_into_rtranclp [OF _ converse_rtranclp_into_rtranclp [OF _ r_into_rtranclp]])
  obtain s4 w4 where a: "discovery_answer A dir (Ok (Some node)) (s3, w2) = (s4, w4)" by fastforce
  then have "?step\<^sup>*\<^sup>* (s3, w1) (s4, w4)"
    using Answer [OF s3(3) assms(5), where dir = dir] by (intro r_into_rtranclp) simp
  moreover have "id_hash s4 = Some (dn_hash node)" using a by (auto simp: discovery_answer_def)
  moreover have "read_cached_hash (ae_io A) (ae_hash A) dir (w_fs w4) = Some (dn_hash node)"
    using a write_cached_reliable [OF assms(1,2), of dir "dn_hash node" w2]
    by (auto simp: discovery_answer_def ignore_def)
  ultimately show ?thesis using pre s3(2) by blast
qed

theorem discovery_overrides_operator_witness:
  "\<exists>s3 w1 s4 w4. (ident_step demo_agent ''0x1'' ''crn.example'' ''/s'')\<^sup>*\<^sup>* (fresh_identity, demo_state_world\<lparr>w_ext := 1\<rparr>) (s3, w1) \<and>
     id_hash s3 = Some 5 \<and> (ident_step demo_agent ''0x1'' ''crn.example'' ''/s'')\<^sup>*\<^sup>* (s3, w1) (s4, w4) \<and> id_hash s4 = Some 1"
proof -
  let ?r = "cmd_set_node_hash demo_agent ''/s'' ''5'' (demo_state_world\<lparr>w_ext := 1\<rparr>)"
  let ?d = "discover_node_hash demo_agent ''0x1'' ''crn.example'' (snd ?r)"
  have "fst ?r = Ok NoAgent" by code_simp
  then have r: "?r = (Ok NoAgent, snd ?r)" by (metis prod.collapse)
  have "fst ?d = Ok (Some \<lparr>dn_hash = 1, dn_name = ''n'', dn_address = ''https://CRN.example/''\<rparr>)" by code_simp
  then have d: "?d = (Ok (Some \<lparr>dn_hash = 1, dn_name = ''n'', dn_address = ''https://CRN.example/''\<rparr>), snd ?d)"
    by (metis prod.collapse)
  have p: "hash_parse (ae_hash demo_agent) ''5'' = Some 5" by code_simp
  have io: "reliable_io (ae_io demo_agent)" by (simp add: demo_agent_def)
  have ok: "hash_lib_ok (ae_hash demo_agent)" by (simp add: demo_agent_def demo_hashes_ok)
  from discovery_overrides_operator [OF ok io r p d] show ?thesis by auto
qed

text \<open>The identifier of the process is read back from its file.\<close>

lemma pid_round_trip:
  assumes "reliable_io I" "write_pid_file I pid dir w = (Ok (), w')"
  shows "read_pid I dir (w_fs w') = Some pid"
  using assms write_state_file_Ok [OF assms(2) [unfolded write_pid_file_def]]
  by (intro read_pid_written) (auto simp: reliable_io_def)

end
