(* ===== verification/Scheduler_Agent.thy ===== *)
theory Scheduler_Agent
  imports Allocations Adapter Node_Hash
begin

text \<open>
  The scheduler agent (\<^verbatim>\<open>crates/aleph-scheduler-agent/src/main.rs\<close>): the HTTP handlers for
  allocations, messages and health, the start-up and the allocation token. The gRPC client is
  a record of operations on the world, an argument of the handlers; the contract the agent
  relies on is the locale \<open>compute_service\<close>, interpreted on the model of the compute
  node's own service, so the agent's theorems hold of the two programs together. The agent
  and the node share the file system of the host. The text forms of library errors are
  functions of the client.
\<close>

section \<open>State and parameters\<close>

record ('e, 'x) compute_client =
  cl_list_vms :: "'x world \<Rightarrow> ('e, vm_info_msg list) result \<times> 'x world"
  cl_create_vm :: "create_vm_request \<Rightarrow> 'x world \<Rightarrow> ('e, vm_info_msg) result \<times> 'x world"
  cl_delete_vm :: "string \<Rightarrow> 'x world \<Rightarrow> ('e, unit) result \<times> 'x world"
  cl_add_port_forward :: "port_forward_msg \<Rightarrow> 'x world \<Rightarrow> ('e, port_forward_msg) result \<times> 'x world"
  cl_health :: "'x world \<Rightarrow> ('e, unit) result \<times> 'x world"
  cl_show_error :: "'e \<Rightarrow> string"

record agent_lib =
  al_parse_json :: "bytes \<Rightarrow> json option"
  al_hmac :: "bytes \<Rightarrow> bytes \<Rightarrow> bytes"
  al_hex :: hex_lib

record 'h app_state =
  app_volume_cache :: volume_cache
  app_adapter_config :: adapter_config
  app_messages :: "(item_hash, executable_message) hmap"
  app_allocation_token_hash :: "bytes option"
  app_node_hash :: "'h option"

datatype 'e alloc_reply =
    Unauthorized
  | BadRequest
  | NodeUnreachable 'e
  | AllocOk nat nat nat
  | MultiStatus nat nat nat "string list"

section \<open>Allocations\<close>

fun adapter_error_text :: "adapter_error \<Rightarrow> string" where
  "adapter_error_text (DownloadingRootfs e) = ''downloading rootfs''"
| "adapter_error_text (DownloadingRuntime e) = ''downloading runtime''"
| "adapter_error_text (DownloadingCode e) = ''downloading code''"
| "adapter_error_text (DownloadingVolume h e) = ''downloading volume '' @ h"
| "adapter_error_text (DownloadingParent h e) = ''downloading parent volume '' @ h"

text \<open>The two loops of the handler; each gives the error messages in order.\<close>

fun stop_vms :: "('e, 'x) compute_client \<Rightarrow> item_hash list \<Rightarrow> 'x world \<Rightarrow> string list \<times> 'x world" where
  "stop_vms C [] w = ([], w)"
| "stop_vms C (vm_id # ids) w =
     (case cl_delete_vm C vm_id w of
        (Inl e, w1) \<Rightarrow>
          (case stop_vms C ids w1 of (es, w2) \<Rightarrow> ((''stop '' @ vm_id @ '': '' @ cl_show_error C e) # es, w2))
      | (Inr _, w1) \<Rightarrow> stop_vms C ids w1)"

definition add_forwards :: "('e, 'x) compute_client \<Rightarrow> port_forward_msg list \<Rightarrow> 'x world \<Rightarrow> 'x world" where
  "add_forwards C pfs w = foldl (\<lambda>w pf. ignore (cl_add_port_forward C pf w)) w pfs"

definition start_vm ::
  "('e, 'x) compute_client \<Rightarrow> 'x volume_env \<Rightarrow> 'h app_state \<Rightarrow> item_hash \<Rightarrow> 'x world \<Rightarrow> string option \<times> 'x world" where
  "start_vm C V app vm_hash w =
     (case hm_get (app_messages app) vm_hash of
        None \<Rightarrow> (Some (''start '' @ vm_hash @ '': message not found''), w)
      | Some msg \<Rightarrow>
          (case translate_message V (app_volume_cache app) (app_adapter_config app) msg w of
             (Inl e, w1) \<Rightarrow> (Some (''translate '' @ vm_hash @ '': '' @ adapter_error_text e), w1)
           | (Inr create_req, w1) \<Rightarrow>
               (case cl_create_vm C create_req w1 of
                  (Inl e, w2) \<Rightarrow> (Some (''start '' @ vm_hash @ '': '' @ cl_show_error C e), w2)
                | (Inr vm_info, w2) \<Rightarrow> (None, add_forwards C (translate_port_forwards msg) w2))))"

fun start_vms ::
  "('e, 'x) compute_client \<Rightarrow> 'x volume_env \<Rightarrow> 'h app_state \<Rightarrow> item_hash list \<Rightarrow> 'x world \<Rightarrow>
   string list \<times> 'x world" where
  "start_vms C V app [] w = ([], w)"
| "start_vms C V app (vm_hash # hashes) w =
     (case start_vm C V app vm_hash w of
        (r, w1) \<Rightarrow>
          (case start_vms C V app hashes w1 of
             (es, w2) \<Rightarrow> (case r of None \<Rightarrow> es | Some e \<Rightarrow> e # es, w2)))"

definition count_prefix :: "string \<Rightarrow> string list \<Rightarrow> nat" where
  "count_prefix p errors = length (filter (\<lambda>e. starts_with e p) errors)"

definition alloc_reply_of :: "reconcile_actions \<Rightarrow> string list \<Rightarrow> 'e alloc_reply" where
  "alloc_reply_of actions errors =
     (if errors = [] then
        AllocOk (length (to_start actions)) (length (to_stop actions)) (length (unchanged actions))
      else
        MultiStatus (length (to_start actions) - count_prefix ''start'' errors)
          (length (to_stop actions) - count_prefix ''stop'' errors) (length (unchanged actions)) errors)"

definition authorized :: "agent_lib \<Rightarrow> 'h app_state \<Rightarrow> string option \<Rightarrow> bytes \<Rightarrow> bool" where
  "authorized L app signature body =
     (case app_allocation_token_hash app of
        None \<Rightarrow> True
      | Some token_hash \<Rightarrow>
          verify_allocation_signature (al_hmac L) (al_hex L) body (unwrap_or signature []) token_hash)"

definition apply_allocation ::
  "('e, 'x) compute_client \<Rightarrow> 'x volume_env \<Rightarrow> 'h app_state \<Rightarrow> allocation \<Rightarrow> 'x world \<Rightarrow> 'e alloc_reply \<times> 'x world" where
  "apply_allocation C V app a w =
     (case cl_list_vms C w of
        (Inl e, w1) \<Rightarrow> (NodeUnreachable e, w1)
      | (Inr infos, w1) \<Rightarrow>
          (let actions = reconcile a (remdups (map vm_msg_id infos));
               (es1, w2) = stop_vms C (to_stop actions) w1;
               (es2, w3) = start_vms C V app (to_start actions) w2
           in (alloc_reply_of actions (es1 @ es2), w3)))"

definition handle_allocation ::
  "agent_lib \<Rightarrow> ('e, 'x) compute_client \<Rightarrow> 'x volume_env \<Rightarrow> 'h app_state \<Rightarrow> string option \<Rightarrow> bytes \<Rightarrow> 'x world \<Rightarrow>
   'e alloc_reply \<times> 'x world" where
  "handle_allocation L C V app signature body w =
     (if \<not> authorized L app signature body then (Unauthorized, w)
      else
        case Option.bind (al_parse_json L body) allocation_from_json of
          None \<Rightarrow> (BadRequest, w)
        | Some a \<Rightarrow> apply_allocation C V app a w)"

section \<open>Messages and health\<close>

definition handle_message :: "executable_message \<Rightarrow> 'h app_state \<Rightarrow> 'h app_state" where
  "handle_message msg app = app\<lparr>app_messages := hm_insert (em_item_hash msg) msg (app_messages app)\<rparr>"

definition health ::
  "('e, 'x) compute_client \<Rightarrow> ('h \<Rightarrow> string) \<Rightarrow> 'h app_state \<Rightarrow> 'x world \<Rightarrow> json \<times> 'x world" where
  "health C show_hash app w =
     (case cl_health C w of
        (r, w') \<Rightarrow>
          (JObj [(''status'', JStr (if is_ok r then ''ok'' else ''degraded'')),
                 (''compute_node'', JStr (if is_ok r then ''connected'' else ''unreachable'')),
                 (''registered_messages'', JInt (int (length (app_messages app)))),
                 (''node_hash'', case app_node_hash app of None \<Rightarrow> JNull | Some h \<Rightarrow> JStr (show_hash h))], w'))"

section \<open>Start-up\<close>

datatype run_error =
    RunNode node_error
  | TokenNotHex
  | TokenLength nat
  | ConnectFailed string
  | InvalidConnectorUrl
  | ServeFailed string

definition parse_allocation_token :: "hex_lib \<Rightarrow> string option \<Rightarrow> (run_error, bytes option) result" where
  "parse_allocation_token X hex_hash =
     (case hex_hash of
        None \<Rightarrow> Ok None
      | Some h \<Rightarrow>
          and_then (ok_or (hex_decode X h) TokenNotHex) (\<lambda>bs.
            if length bs = 32 then Ok (Some bs) else Err (TokenLength (length bs))))"

record run_args =
  ra_state_dir :: path
  ra_compute_socket :: path
  ra_listen :: string
  ra_connector_url :: string
  ra_cache_dir :: path
  ra_kernel :: string
  ra_initrd :: string
  ra_allocation_token_hash :: "string option"
  ra_owner_address :: "string option"
  ra_node_hash :: "string option"
  ra_domain_name :: "string option"

text \<open>The discovery task that is started: the owner and the domain, or none.\<close>

definition discovery_plan :: "(string \<Rightarrow> bool) \<Rightarrow> run_args \<Rightarrow> (run_error, (string \<times> string) option) result" where
  "discovery_plan url_ok args =
     (if ra_node_hash args \<noteq> None then Ok None
      else
        case (ra_owner_address args, ra_domain_name args) of
          (Some owner, Some domain) \<Rightarrow>
            if url_ok (ra_connector_url args) then Ok (Some (owner, domain)) else Err InvalidConnectorUrl
        | _ \<Rightarrow> Ok None)"

text \<open>\<^verbatim>\<open>serve\<close> is the HTTP server, which runs the handlers until it is stopped.\<close>

definition cmd_run ::
  "('h, 'x) agent_env \<Rightarrow> agent_lib \<Rightarrow> (path \<Rightarrow> 'x \<Rightarrow> (string, unit) result \<times> 'x) \<Rightarrow> (string \<Rightarrow> bool) \<Rightarrow>
   ('h app_state \<Rightarrow> (string \<times> string) option \<Rightarrow> 'x world \<Rightarrow> (string, unit) result \<times> 'x world) \<Rightarrow>
   run_args \<Rightarrow> 'x world \<Rightarrow> (run_error, unit) result \<times> 'x world" where
  "cmd_run A L connect url_ok serve args w =
     (let state_dir = ra_state_dir args in
      bindE (apfst (map_err RunNode) (write_pid_file (ae_io A) (ae_pid A) state_dir w)) (\<lambda>_ w.
      bindE (on_ext ConnectFailed (connect (ra_compute_socket args)) w) (\<lambda>_ w.
      bindE (parse_allocation_token (al_hex L) (ra_allocation_token_hash args), w) (\<lambda>token w.
      bindE (map_err RunNode (resolve_initial_hash (ae_io A) (ae_hash A) (ra_node_hash args) state_dir (w_fs w)), w)
        (\<lambda>initial_hash w.
      bindE (discovery_plan url_ok args, w) (\<lambda>plan w.
      let app = \<lparr>app_volume_cache = volume_cache_new (ra_cache_dir args) (ra_connector_url args),
                 app_adapter_config = \<lparr>ac_kernel_path = ra_kernel args, ac_initrd_path = ra_initrd args\<rparr>,
                 app_messages = hm_empty, app_allocation_token_hash = token, app_node_hash = initial_hash\<rparr>
      in bindE (apfst (map_err ServeFailed) (serve app plan w)) (\<lambda>_ w.
           (Ok (), remove_pid_file (ae_io A) state_dir w))))))))"


section \<open>What the agent relies on\<close>

text \<open>
  The contract of the compute node and of the downloads, on the set of VMs the node has: a
  successful creation adds the requested VM and nothing else, a successful deletion removes it, a
  failed request of either kind leaves the set alone, and everything else does so anyway.
\<close>

locale compute_service =
  fixes C :: "('e, 'x) compute_client" and V :: "'x volume_env"
    and vms :: "'x \<Rightarrow> string set" and inv :: "'x \<Rightarrow> bool"
  assumes list_vms: "inv (w_ext w) \<Longrightarrow> cl_list_vms C w = (r, w') \<Longrightarrow>
      inv (w_ext w') \<and> vms (w_ext w') = vms (w_ext w) \<and> (\<forall>vs. r = Ok vs \<longrightarrow> set (map vm_msg_id vs) = vms (w_ext w))"
    and create_vm: "inv (w_ext w) \<Longrightarrow> cl_create_vm C req w = (c, w') \<Longrightarrow>
      inv (w_ext w') \<and> vms (w_ext w') = (if is_ok c then insert (rq_vm_id req) (vms (w_ext w)) else vms (w_ext w))"
    and delete_vm: "inv (w_ext w) \<Longrightarrow> cl_delete_vm C v w = (d, w') \<Longrightarrow>
      inv (w_ext w') \<and> vms (w_ext w') = (if is_ok d then vms (w_ext w) - {v} else vms (w_ext w))"
    and add_port_forward: "inv (w_ext w) \<Longrightarrow> cl_add_port_forward C pf w = (f, w') \<Longrightarrow>
      inv (w_ext w') \<and> vms (w_ext w') = vms (w_ext w)"
    and http_get: "inv x \<Longrightarrow> v_http_get V url x = (q, x') \<Longrightarrow> inv x' \<and> vms x' = vms x"
begin

definition vms_at :: "string set \<Rightarrow> 'x world \<Rightarrow> bool" where
  "vms_at X w \<longleftrightarrow> inv (w_ext w) \<and> vms (w_ext w) = X"

lemma at_on_fs: "vms_at X w \<Longrightarrow> vms_at X (snd (on_fs c f w))"
  by (simp add: vms_at_def)

lemma at_download: "vms_at X w \<Longrightarrow> vms_at X (snd (download V url w))"
  unfolding download_def
  by (rule bindE_world [of "vms_at X"]) (auto simp: vms_at_def on_ext_def dest: http_get split: prod.splits)

lemma at_fetch_volume: "vms_at X w \<Longrightarrow> vms_at X (snd (fetch_volume V url p w))"
  unfolding fetch_volume_def Let_def by (intro bindE_world [of "vms_at X"] at_on_fs at_download) simp_all

lemma at_ensure_cached: "vms_at X w \<Longrightarrow> vms_at X (snd (ensure_cached V c h k w))"
  unfolding ensure_cached_def Let_def by (intro bindE_world [of "vms_at X"] at_on_fs) (simp_all add: at_fetch_volume)

lemma at_fetch_disk: "vms_at X w \<Longrightarrow> vms_at X (snd (fetch_disk V c ctx h k ro fmt w))"
  using at_ensure_cached [of X w c h k] by (cases "ensure_cached V c h k w") (simp add: fetch_disk_def)

lemma at_fetch_part: "vms_at X w \<Longrightarrow> (\<And>x w. vms_at X w \<Longrightarrow> vms_at X (snd (f x w))) \<Longrightarrow> vms_at X (snd (fetch_part f part w))"
  unfolding fetch_part_def by (cases part) (auto intro!: bindE_world [of "vms_at X"])

lemma at_fetch_volumes: "vms_at X w \<Longrightarrow> vms_at X (snd (fetch_volumes V c vols w))"
proof (induction vols arbitrary: w)
  case (Cons vol vols)
  have "vms_at X (snd (case vol of
          Immutable v \<Rightarrow>
            fetch_part (\<lambda>h. fetch_disk V c (DownloadingVolume h) h DataVolume True ''raw'') (Some (iv_item_ref v)) w
        | Persistent v \<Rightarrow>
            fetch_part (\<lambda>p. fetch_disk V c (DownloadingParent (par_item_ref p)) (par_item_ref p) DataVolume False ''qcow2'')
              (psv_parent v) w
        | Ephemeral v \<Rightarrow> (Ok [], w)))"
    using Cons.prems by (cases vol) (auto intro!: at_fetch_part at_fetch_disk)
  then show ?case unfolding fetch_volumes.simps by (intro bindE_world [of "vms_at X"] Cons.IH) simp_all
qed simp

lemma at_translate: "vms_at X w \<Longrightarrow> vms_at X (snd (translate_message V c config msg w))"
  unfolding translate_message_def
  by (intro bindE_world [of "vms_at X"] at_fetch_part at_fetch_volumes at_fetch_disk) simp_all

lemma at_forwards: "vms_at X w \<Longrightarrow> vms_at X (add_forwards C pfs w)"
  unfolding add_forwards_def
proof (induction pfs arbitrary: w)
  case (Cons pf pfs)
  have "vms_at X (ignore (cl_add_port_forward C pf w))"
    using Cons.prems add_port_forward [of w pf] by (cases "cl_add_port_forward C pf w") (auto simp: vms_at_def ignore_def)
  with Cons.IH show ?case by simp
qed simp

text \<open>Starting adds at most the VM of the message, and does add it when no error is reported.\<close>

lemma start_vm_effect:
  assumes "vms_at X w" "start_vm C V app h w = (r, w')"
    and "\<And>m. hm_get (app_messages app) h = Some m \<Longrightarrow> em_item_hash m = h"
  shows "vms_at (if r = None then insert h X else X) w'"
proof (cases "hm_get (app_messages app) h")
  case None
  with assms show ?thesis by (auto simp: start_vm_def)
next
  case (Some msg)
  let ?t = "translate_message V (app_volume_cache app) (app_adapter_config app) msg w"
  have 1: "vms_at X (snd ?t)" by (rule at_translate) (rule assms(1))
  show ?thesis
  proof (cases "fst ?t")
    case (Inl e)
    with assms(2) Some 1 show ?thesis by (cases ?t) (auto simp: start_vm_def)
  next
    case (Inr req)
    then have t: "?t = (Ok req, snd ?t)" by (metis prod.collapse)
    have id: "rq_vm_id req = h"
      using translate_message_Ok [OF t] assms(3) [OF Some] by (simp add: build_request_def)
    obtain r2 w2 where c: "cl_create_vm C req (snd ?t) = (r2, w2)" by fastforce
    have "vms_at (if is_ok r2 then insert h X else X) w2" using create_vm [OF _ c] 1 id by (simp add: vms_at_def)
    then show ?thesis
      using assms(2) Some Inr c at_forwards by (cases ?t; cases r2) (auto simp: start_vm_def)
  qed
qed

lemma start_vms_effect:
  assumes "vms_at X w" "start_vms C V app hs w = (es, w')"
    and "\<And>h m. hm_get (app_messages app) h = Some m \<Longrightarrow> em_item_hash m = h"
  shows "\<exists>Y. vms_at Y w' \<and> X \<subseteq> Y \<and> Y \<subseteq> X \<union> set hs \<and> (es = [] \<longrightarrow> Y = X \<union> set hs)"
  using assms(1,2)
proof (induction hs arbitrary: X w es w')
  case (Cons h hs)
  obtain r w1 where s: "start_vm C V app h w = (r, w1)" by fastforce
  obtain es' w2 where ss: "start_vms C V app hs w1 = (es', w2)" by fastforce
  have 1: "vms_at (if r = None then insert h X else X) w1" using start_vm_effect [OF Cons.prems(1) s assms(3)] by simp
  from Cons.IH [OF 1 ss] Cons.prems(2) s ss show ?case
    by (fastforce split: option.splits if_splits)
qed auto

lemma stop_vms_effect:
  assumes "vms_at X w" "stop_vms C ids w = (es, w')"
  shows "\<exists>Y. vms_at Y w' \<and> X - set ids \<subseteq> Y \<and> Y \<subseteq> X \<and> (es = [] \<longrightarrow> Y = X - set ids)"
  using assms
proof (induction ids arbitrary: X w es w')
  case (Cons v ids)
  obtain r w1 where d: "cl_delete_vm C v w = (r, w1)" by fastforce
  obtain es' w2 where ss: "stop_vms C ids w1 = (es', w2)" by fastforce
  have 1: "vms_at (if is_ok r then X - {v} else X) w1" using delete_vm [OF _ d] Cons.prems(1) by (simp add: vms_at_def)
  from Cons.IH [OF 1 ss] Cons.prems(2) d ss show ?case
    by (cases r) (fastforce split: if_splits)+
qed auto

text \<open>
  The whole of an allocation: VMs that run and stay allocated are kept, nothing appears that
  is not allocated, and when no error is reported the node has exactly the allocated VMs.
\<close>

lemma apply_allocation_effect:
  assumes "vms_at X w" "apply_allocation C V app a w = (reply, w')"
    and "\<And>h m. hm_get (app_messages app) h = Some m \<Longrightarrow> em_item_hash m = h"
  shows "\<exists>Y. vms_at Y w' \<and> X \<inter> {h. allocation_contains a h} \<subseteq> Y \<and> Y \<subseteq> X \<union> {h. allocation_contains a h} \<and>
    ((\<exists>i j k. reply = AllocOk i j k) \<longrightarrow> Y = {h. allocation_contains a h})"
proof -
  obtain r w1 where l: "cl_list_vms C w = (r, w1)" by fastforce
  have 1: "vms_at X w1" using list_vms [OF _ l] assms(1) by (simp add: vms_at_def)
  show ?thesis
  proof (cases r)
    case (Inl e)
    with assms(2) l have "reply = NodeUnreachable e" "w' = w1" by (auto simp: apply_allocation_def)
    with 1 show ?thesis by (intro exI [of _ X]) auto
  next
    case (Inr infos)
    let ?acts = "reconcile a (remdups (map vm_msg_id infos))"
    have X: "set (remdups (map vm_msg_id infos)) = X" using list_vms [OF _ l] assms(1) Inr by (simp add: vms_at_def)
    obtain es1 w2 where s1: "stop_vms C (to_stop ?acts) w1 = (es1, w2)" by fastforce
    obtain es2 w3 where s2: "start_vms C V app (to_start ?acts) w2 = (es2, w3)" by fastforce
    have r: "reply = alloc_reply_of ?acts (es1 @ es2)" "w' = w3"
      using assms(2) l Inr s1 s2 by (auto simp: apply_allocation_def Let_def)
    obtain Y1 where Y1: "vms_at Y1 w2" "X - set (to_stop ?acts) \<subseteq> Y1" "Y1 \<subseteq> X" "es1 = [] \<longrightarrow> Y1 = X - set (to_stop ?acts)"
      using stop_vms_effect [OF 1 s1] by blast
    obtain Y2 where Y2: "vms_at Y2 w3" "Y1 \<subseteq> Y2" "Y2 \<subseteq> Y1 \<union> set (to_start ?acts)"
        "es2 = [] \<longrightarrow> Y2 = Y1 \<union> set (to_start ?acts)"
      using start_vms_effect [OF Y1(1) s2 assms(3)] by blast
    have "Y2 = {h. allocation_contains a h}" if "es1 = []" "es2 = []"
      using Y1(4) Y2(4) that unfolding reconcile_sets X by auto
    moreover have "es1 = [] \<and> es2 = []" if "reply = AllocOk i j k" for i j k
      using that r(1) by (auto simp: alloc_reply_of_def split: if_splits)
    moreover have "X \<inter> {h. allocation_contains a h} \<subseteq> Y2" "Y2 \<subseteq> X \<union> {h. allocation_contains a h}"
      using Y1 Y2 unfolding reconcile_sets X by auto
    ultimately show ?thesis using Y2(1) r(2) by (intro exI [of _ Y2]) auto
  qed
qed

end


section \<open>The agent on a compute node\<close>

text \<open>
  The client connected to the model of the service: a call is the service's handler on the
  manager of the node and the shared file system. Downloads happen beside the node.
\<close>

definition node_state :: "(mgr \<times> 'y) world \<Rightarrow> 'y mstate" where
  "node_state w = (fst (w_ext w), \<lparr>w_fs = w_fs w, w_ext = snd (w_ext w)\<rparr>)"

definition agent_world :: "'y mstate \<Rightarrow> (mgr \<times> 'y) world" where
  "agent_world st = \<lparr>w_fs = w_fs (snd st), w_ext = (fst st, w_ext (snd st))\<rparr>"

definition at_node :: "('y mstate \<Rightarrow> 'r \<times> 'y mstate) \<Rightarrow> (mgr \<times> 'y) world \<Rightarrow> 'r \<times> (mgr \<times> 'y) world" where
  "at_node f w = (case f (node_state w) of (r, st) \<Rightarrow> (r, agent_world st))"

definition grpc_client :: "'y mgr_env \<Rightarrow> (status \<Rightarrow> string) \<Rightarrow> (status, mgr \<times> 'y) compute_client" where
  "grpc_client E show_status =
     \<lparr>cl_list_vms = at_node (\<lambda>st. (Ok (grpc_list_vms E st), st)),
      cl_create_vm = (\<lambda>req. at_node (grpc_create_vm E req)),
      cl_delete_vm = (\<lambda>v. at_node (grpc_delete_vm E v)),
      cl_add_port_forward = (\<lambda>pf. at_node (grpc_add_port_forward E pf)),
      cl_health = at_node (\<lambda>st. (Ok (), st)),
      cl_show_error = show_status\<rparr>"

definition beside_node :: "'y volume_env \<Rightarrow> (mgr \<times> 'y) volume_env" where
  "beside_node V =
     \<lparr>v_io = v_io V,
      v_http_get = (\<lambda>url x. case v_http_get V url (snd x) of (r, y) \<Rightarrow> (r, (fst x, y))),
      v_sha256 = v_sha256 V, v_hex = v_hex V\<rparr>"

definition node_vms :: "mgr \<times> 'y \<Rightarrow> string set" where
  "node_vms x = set (hm_keys (m_vms (fst x)))"

lemma node_vms_get: "v \<in> node_vms x \<longleftrightarrow> hm_get (m_vms (fst x)) v \<noteq> None"
  unfolding node_vms_def by (rule hm_keys_get)

lemma node_vms_set: "node_vms x = {v. hm_get (m_vms (fst x)) v \<noteq> None}"
  by (auto simp: node_vms_get)

lemma agent_world_ext [simp]: "fst (w_ext (agent_world st)) = fst st"
  by (simp add: agent_world_def)

lemma node_state_fst [simp]: "fst (node_state w) = fst (w_ext w)"
  by (simp add: node_state_def)

lemma at_node_result: "at_node f w = (r, w') \<longleftrightarrow> (\<exists>st. f (node_state w) = (r, st) \<and> w' = agent_world st)"
  by (auto simp: at_node_def split: prod.splits)

text \<open>The handlers of the service, on the table of VMs.\<close>

lemma listed_vms:
  assumes "mgr_inv L (fst st)"
  shows "set (map vm_msg_id (grpc_list_vms E st)) = {v. hm_get (m_vms (fst st)) v \<noteq> None}"
proof -
  have "set (map vm_msg_id (grpc_list_vms E st)) = (\<lambda>h. cfg_vm_id (vh_config h)) ` set (hm_values (m_vms (fst st)))"
    by (auto simp: grpc_list_vms_def list_vms_def vm_info_to_proto_def vm_info_from_handle_def)
  moreover have "hm_wf (m_vms (fst st))" "\<And>v h. hm_get (m_vms (fst st)) v = Some h \<Longrightarrow> cfg_vm_id (vh_config h) = v"
    using assms by (auto simp: mgr_inv_def handle_ok_def)
  ultimately show ?thesis by (force simp: hm_values_get)
qed

lemma grpc_create_effect:
  assumes "mgr_inv (e_lib E) (fst st)" "grpc_create_vm E req st = (r, st')"
  shows "mgr_inv (e_lib E) (fst st') \<and>
    (hm_get (m_vms (fst st')) v \<noteq> None \<longleftrightarrow> is_ok r \<and> v = rq_vm_id req \<or> hm_get (m_vms (fst st)) v \<noteq> None)"
proof (cases "translate_create (e_text E) (e_lib E) (w_fs (snd st)) req")
  case (Inl e)
  with assms show ?thesis by (auto simp: grpc_create_vm_def)
next
  case (Inr c)
  obtain config ipv6 hint where c: "c = (config, ipv6, hint)" by (cases c)
  obtain r0 st0 where cr: "create_vm E config ipv6 hint st = (r0, st0)" by (cases "create_vm E config ipv6 hint st")
  have r: "st' = st0" "is_ok r \<longleftrightarrow> is_ok r0"
    using assms(2) Inr c cr by (cases r0; auto simp: grpc_create_vm_def)+
  have "cfg_vm_id config = rq_vm_id req" using translate_create_parts(4) Inr c by blast
  with create_vm_result [where E = E and config = config and req = ipv6 and hint = hint and st = st] cr r create_vm_inv [OF assms(1), where config = config and req = ipv6 and hint = hint]
  show ?thesis by (cases r0) auto
qed

lemma grpc_delete_effect:
  assumes "mgr_inv (e_lib E) (fst st)" "grpc_delete_vm E v st = (r, st')"
  shows "mgr_inv (e_lib E) (fst st') \<and>
    (hm_get (m_vms (fst st')) u \<noteq> None \<longleftrightarrow> hm_get (m_vms (fst st)) u \<noteq> None \<and> \<not> (is_ok r \<and> u = v))"
proof -
  have inv: "mgr_inv (e_lib E) (fst st')"
    using delete_vm_inv [OF assms(1), of E v] assms(2) by (auto simp: grpc_delete_vm_def split: prod.splits)
  show ?thesis
  proof (cases "hm_get (m_vms (fst st)) v")
    case None
    then have "r = Err (StatusNotFound (VmNotFound v))" "st' = st"
      using assms(2) by (auto simp: grpc_delete_vm_def delete_vm_def)
    with inv show ?thesis by simp
  next
    case (Some h)
    obtain m4 st0 where d: "delete_vm E v st = (Ok (), st0)"
        "frames (e_lib E) ((fst st)\<lparr>m_vms := hm_remove v (m_vms (fst st)),
          m_port_forwards := snd (remove_all_for_vm (m_port_forwards (fst st)) v)\<rparr>) m4"
        "fst st0 = m4\<lparr>m_used_ip_offsets := m_used_ip_offsets m4 - {ip_offset (m_gateway_ip m4) (vh_ip h)}\<rparr>"
      by (rule delete_vm_result [OF Some])
    then have "r = Ok ()" "st' = st0" using assms(2) by (auto simp: grpc_delete_vm_def)
    with inv framesD [OF d(2)] d(3) show ?thesis by auto
  qed
qed

lemma grpc_forward_effect:
  assumes "mgr_inv L (fst st)" "grpc_add_port_forward E pf st = (r, st')"
  shows "mgr_inv L (fst st') \<and> m_vms (fst st') = m_vms (fst st)"
proof (cases "parse_protocol (pm_protocol pf)")
  case (Inl e)
  with assms show ?thesis by (simp add: grpc_add_port_forward_def)
next
  case (Inr proto)
  let ?a = "add_port_forward E (pm_vm_id pf) (ucast (pm_host_port pf)) (ucast (pm_vm_port pf)) proto st"
  have st': "st' = snd ?a" using assms(2) Inr by (auto simp: grpc_add_port_forward_def split: prod.splits)
  have "m_vms (fst (snd ?a)) = m_vms (fst st)"
    by (cases rule: add_port_forward_cases [of E "pm_vm_id pf" "ucast (pm_host_port pf)" "ucast (pm_vm_port pf)" proto st])
       auto
  with st' add_port_forward_inv [OF assms(1)] show ?thesis by simp
qed

interpretation node: compute_service "grpc_client E show_status" "beside_node V" node_vms "\<lambda>x. mgr_inv (e_lib E) (fst x)"
  for E :: "'y mgr_env" and show_status V
proof
  fix w w' :: "(mgr \<times> 'y) world" and r
  assume "mgr_inv (e_lib E) (fst (w_ext w))" "cl_list_vms (grpc_client E show_status) w = (r, w')"
  then have "r = Ok (grpc_list_vms E (node_state w))" "w' = agent_world (node_state w)"
      "mgr_inv (e_lib E) (fst (node_state w))"
    by (auto simp: grpc_client_def at_node_result)
  then show "mgr_inv (e_lib E) (fst (w_ext w')) \<and> node_vms (w_ext w') = node_vms (w_ext w) \<and>
      (\<forall>vs. r = Ok vs \<longrightarrow> set (map vm_msg_id vs) = node_vms (w_ext w))"
    using listed_vms [of "e_lib E" "node_state w" E] by (simp add: node_vms_set del: set_map)
next
  fix w w' :: "(mgr \<times> 'y) world" and req c
  assume "mgr_inv (e_lib E) (fst (w_ext w))" "cl_create_vm (grpc_client E show_status) req w = (c, w')"
  then obtain st where st: "grpc_create_vm E req (node_state w) = (c, st)" "w' = agent_world st"
    "mgr_inv (e_lib E) (fst (node_state w))"
    by (auto simp: grpc_client_def at_node_result)
  show "mgr_inv (e_lib E) (fst (w_ext w')) \<and>
      node_vms (w_ext w') = (if is_ok c then insert (rq_vm_id req) (node_vms (w_ext w)) else node_vms (w_ext w))"
    using grpc_create_effect [OF st(3,1)] st(2) by (auto simp: node_vms_get set_eq_iff)
next
  fix w w' :: "(mgr \<times> 'y) world" and v d
  assume "mgr_inv (e_lib E) (fst (w_ext w))" "cl_delete_vm (grpc_client E show_status) v w = (d, w')"
  then obtain st where st: "grpc_delete_vm E v (node_state w) = (d, st)" "w' = agent_world st"
    "mgr_inv (e_lib E) (fst (node_state w))"
    by (auto simp: grpc_client_def at_node_result)
  show "mgr_inv (e_lib E) (fst (w_ext w')) \<and>
      node_vms (w_ext w') = (if is_ok d then node_vms (w_ext w) - {v} else node_vms (w_ext w))"
    using grpc_delete_effect [OF st(3,1)] st(2) by (auto simp: node_vms_get set_eq_iff)
next
  fix w w' :: "(mgr \<times> 'y) world" and pf f
  assume "mgr_inv (e_lib E) (fst (w_ext w))" "cl_add_port_forward (grpc_client E show_status) pf w = (f, w')"
  then obtain st where st: "grpc_add_port_forward E pf (node_state w) = (f, st)" "w' = agent_world st"
    "mgr_inv (e_lib E) (fst (node_state w))"
    by (auto simp: grpc_client_def at_node_result)
  show "mgr_inv (e_lib E) (fst (w_ext w')) \<and> node_vms (w_ext w') = node_vms (w_ext w)"
    using grpc_forward_effect [OF st(3,1)] st(2) by (simp add: node_vms_def)
next
  fix x x' :: "mgr \<times> 'y" and url q
  assume "mgr_inv (e_lib E) (fst x)" "v_http_get (beside_node V) url x = (q, x')"
  then show "mgr_inv (e_lib E) (fst x') \<and> node_vms x' = node_vms x"
    by (auto simp: beside_node_def node_vms_def split: prod.splits)
qed


section \<open>Registered messages and counts\<close>

definition messages_keyed :: "'h app_state \<Rightarrow> bool" where
  "messages_keyed app \<longleftrightarrow> (\<forall>h m. hm_get (app_messages app) h = Some m \<longrightarrow> em_item_hash m = h)"

interpretation registration: request_system "\<lambda>app msg. handle_message msg app" messages_keyed
  by unfold_locales (auto simp: messages_keyed_def handle_message_def split: if_splits)

definition registered :: "executable_message list \<Rightarrow> 'h app_state \<Rightarrow> 'h app_state" where
  "registered msgs app = foldl (\<lambda>app msg. handle_message msg app) app msgs"

lemma registered_keyed: "app_messages app = hm_empty \<Longrightarrow> messages_keyed (registered msgs app)"
  unfolding registered_def by (rule registration.run_inv) (simp add: messages_keyed_def)

lemma stop_errors:
  "stop_vms C ids w = (es, w') \<Longrightarrow> length es \<le> length ids \<and> list_all (\<lambda>e. starts_with e ''stop '') es"
  by (induction ids arbitrary: w es w') (fastforce simp: starts_with_def split: prod.splits sum.splits)+

lemma start_vm_error:
  "start_vm C V app h w = (Some e, w') \<Longrightarrow> starts_with e ''start '' \<or> starts_with e ''translate ''"
  by (auto simp: start_vm_def starts_with_def split: option.splits prod.splits sum.splits)

lemma start_errors:
  "start_vms C V app hs w = (es, w') \<Longrightarrow>
     length es \<le> length hs \<and> list_all (\<lambda>e. starts_with e ''start '' \<or> starts_with e ''translate '') es"
proof (induction hs arbitrary: w es w')
  case (Cons h hs)
  obtain r w1 where s: "start_vm C V app h w = (r, w1)" by (cases "start_vm C V app h w")
  obtain es' w2 where ss: "start_vms C V app hs w1 = (es', w2)" by (cases "start_vms C V app hs w1")
  have "es = (case r of None \<Rightarrow> es' | Some e \<Rightarrow> e # es')" using Cons.prems s ss by simp
  with Cons.IH [OF ss] s show ?case by (cases r) (auto dest: start_vm_error)
qed simp

lemma prefix_classes:
  "starts_with e ''stop '' \<Longrightarrow> starts_with e ''stop'' \<and> \<not> starts_with e ''start'' \<and> \<not> starts_with e ''translate''"
  "starts_with e ''start '' \<Longrightarrow> starts_with e ''start'' \<and> \<not> starts_with e ''stop'' \<and> \<not> starts_with e ''translate''"
  "starts_with e ''translate '' \<Longrightarrow> starts_with e ''translate'' \<and> \<not> starts_with e ''stop'' \<and> \<not> starts_with e ''start''"
  by (auto simp: starts_with_iff)

lemma count_stop:
  "list_all (\<lambda>e. starts_with e ''stop '') es \<Longrightarrow>
     count_prefix ''stop'' es = length es \<and> count_prefix ''start'' es = 0 \<and> count_prefix ''translate'' es = 0"
  by (induction es) (auto simp: count_prefix_def dest: prefix_classes)

lemma count_start:
  "list_all (\<lambda>e. starts_with e ''start '' \<or> starts_with e ''translate '') es \<Longrightarrow>
     count_prefix ''stop'' es = 0 \<and> count_prefix ''start'' es + count_prefix ''translate'' es = length es"
  by (induction es) (auto simp: count_prefix_def dest: prefix_classes)

lemma count_prefix_append [simp]: "count_prefix p (xs @ ys) = count_prefix p xs + count_prefix p ys"
  by (simp add: count_prefix_def)

section \<open>Properties\<close>

text \<open>
  C32: an allocation that is answered with success makes the VMs of the compute node exactly the
  allocated ones, whatever ran before; with any other answer, VMs that run and are allocated
  are kept, nothing that is neither running nor allocated appears, and the invariant of the node
  holds. This is the handler of the agent composed with the service and the manager of the node.
\<close>

theorem allocation_converges:
  assumes "mgr_inv (e_lib E) (fst (w_ext w))" "app_messages app = hm_empty"
    and "handle_allocation L (grpc_client E show_status) (beside_node V) (registered msgs app) signature body w = (reply, w')"
    and "Option.bind (al_parse_json L body) allocation_from_json = Some a"
  shows "mgr_inv (e_lib E) (fst (w_ext w')) \<and>
    node_vms (w_ext w) \<inter> {h. allocation_contains a h} \<subseteq> node_vms (w_ext w') \<and>
    node_vms (w_ext w') \<subseteq> node_vms (w_ext w) \<union> {h. allocation_contains a h} \<and>
    ((\<exists>i j k. reply = AllocOk i j k) \<longrightarrow> node_vms (w_ext w') = {h. allocation_contains a h})"
proof (cases "authorized L (registered msgs app) signature body")
  case False
  with assms show ?thesis by (auto simp: handle_allocation_def)
next
  case True
  have at: "node.vms_at E (node_vms (w_ext w)) w" using assms(1) by (simp add: node.vms_at_def)
  have ap: "apply_allocation (grpc_client E show_status) (beside_node V) (registered msgs app) a w = (reply, w')"
    using assms(3,4) True by (simp add: handle_allocation_def)
  have keyed: "em_item_hash m = h" if "hm_get (app_messages (registered msgs app)) h = Some m" for h m
    using registered_keyed [OF assms(2), of msgs] that by (simp add: messages_keyed_def)
  from node.apply_allocation_effect [OF at ap keyed] show ?thesis
    by (auto simp: node.vms_at_def)
qed

text \<open>
  The counts of a partial answer: no subtraction underflows; the stopped VMs are counted
  exactly, but every VM whose message could not be translated is counted as started.
\<close>

theorem allocation_counts:
  assumes "stop_vms C (to_stop actions) w = (es1, w1)" "start_vms C V app (to_start actions) w1 = (es2, w2)"
    and "alloc_reply_of actions (es1 @ es2) = MultiStatus started stopped kept errors"
  shows "length es1 \<le> length (to_stop actions) \<and> length es2 \<le> length (to_start actions) \<and>
    stopped = length (to_stop actions) - length es1 \<and>
    started = (length (to_start actions) - length es2) + count_prefix ''translate'' errors"
proof -
  have "errors = es1 @ es2" "started = length (to_start actions) - count_prefix ''start'' (es1 @ es2)"
    "stopped = length (to_stop actions) - count_prefix ''stop'' (es1 @ es2)"
    using assms(3) by (auto simp: alloc_reply_of_def split: if_splits)
  with stop_errors [OF assms(1)] start_errors [OF assms(2)] count_stop [of es1] count_start [of es2]
  show ?thesis by auto
qed

text \<open>
  C33: with a token configured, the allocation handler does something else than refusing, or
  changes anything, only for a body whose HMAC under the token is the signature sent with it.
\<close>

theorem allocation_authenticated:
  assumes "app_allocation_token_hash app = Some token" "\<And>k m. al_hmac L k m \<noteq> []" "hex_decode (al_hex L) [] = Some []"
    and "handle_allocation L C V app signature body w = (reply, w')" "reply \<noteq> Unauthorized \<or> w' \<noteq> w"
  shows "\<exists>s. signature = Some s \<and> hex_decode (al_hex L) s = Some (al_hmac L token body)"
proof -
  have "authorized L app signature body" using assms(4,5) by (auto simp: handle_allocation_def split: if_splits)
  then have v: "hex_decode (al_hex L) (unwrap_or signature []) = Some (al_hmac L token body)"
    using assms(1) by (auto simp: authorized_def verify_allocation_signature_def split: option.splits)
  show ?thesis
  proof (cases signature)
    case None
    then have "hex_decode (al_hex L) [] = Some (al_hmac L token body)" using v by simp
    with assms(2) [of token body] assms(3) show ?thesis by simp
  qed (use v in simp)
qed


text \<open>A node with two VMs, and an allocation of one of them.\<close>

definition demo_app :: "bytes option \<Rightarrow> unit app_state" where
  "demo_app token = \<lparr>app_volume_cache = demo_cache, app_adapter_config = demo_adapter, app_messages = hm_empty,
     app_allocation_token_hash = token, app_node_hash = None\<rparr>"

definition demo_lib :: agent_lib where
  "demo_lib = \<lparr>al_parse_json = (\<lambda>_. Some (JObj [(''instances'', JArr [JStr ''a''])])),
     al_hmac = (\<lambda>k m. k @ m @ [1]), al_hex = demo_hex\<rparr>"

definition offline_volumes :: "(json list) volume_env" where
  "offline_volumes = \<lparr>v_io = calm_io, v_http_get = (\<lambda>url x. (Err ''offline'', x)), v_sha256 = id, v_hex = demo_hex\<rparr>"

definition demo_node :: "(mgr \<times> json list) world" where
  "demo_node = agent_world (demo_after [CreateVm (demo_config ''a'' NoTee) None None, CreateVm (demo_config ''b'' NoTee) None None])"

abbreviation demo_allocation :: "status alloc_reply \<times> (mgr \<times> json list) world" where
  "demo_allocation \<equiv> handle_allocation demo_lib (grpc_client demo_env (\<lambda>_. [])) (beside_node offline_volumes)
     (registered [demo_message ''a''] (demo_app None)) None [] demo_node"

theorem allocation_converges_witness:
  "fst demo_allocation = AllocOk 0 1 1 \<and> node_vms (w_ext (snd demo_allocation)) = {''a''}"
proof -
  let ?a = "\<lparr>al_persistent_vms = [], al_instances = [''a'']\<rparr>"
  have r: "fst demo_allocation = AllocOk 0 1 1" by code_simp
  have d: "demo_allocation = (AllocOk 0 1 1, snd demo_allocation)" using r by (simp only: prod_eq_iff fst_conv snd_conv)
  have inv: "mgr_inv (e_lib demo_env) (fst (w_ext demo_node))" by (simp only: demo_node_def agent_world_ext demo_inv)
  have m: "app_messages (demo_app None) = hm_empty" by (simp add: demo_app_def)
  have a: "Option.bind (al_parse_json demo_lib []) allocation_from_json = Some ?a" by code_simp
  from allocation_converges [OF inv m d a] have "node_vms (w_ext (snd demo_allocation)) = {h. allocation_contains ?a h}"
    by blast
  with r show ?thesis by (simp only: allocation_contains_def) auto
qed

theorem allocation_authenticated_witness:
  "fst (handle_allocation demo_lib (grpc_client demo_env (\<lambda>_. [])) (beside_node offline_volumes)
     (demo_app (Some [7])) (Some ''070201'') [2] demo_node) = AllocOk 0 1 1 \<and>
   hex_decode demo_hex ''070201'' = Some [7, 2, 1]"
proof -
  let ?h = "handle_allocation demo_lib (grpc_client demo_env (\<lambda>_. [])) (beside_node offline_volumes)
     (demo_app (Some [7])) (Some ''070201'') [2] demo_node"
  have r: "fst ?h = AllocOk 0 1 1" by code_simp
  have 1: "app_allocation_token_hash (demo_app (Some [7])) = Some [7]" by (simp add: demo_app_def)
  have 2: "al_hmac demo_lib k m \<noteq> []" for k m by (simp add: demo_lib_def)
  have 3: "hex_decode (al_hex demo_lib) [] = Some []" by (simp add: demo_lib_def demo_hex_def)
  have 4: "fst ?h \<noteq> Unauthorized \<or> snd ?h \<noteq> demo_node" using r by simp
  have "?h = (fst ?h, snd ?h)" by simp
  from allocation_authenticated [OF 1 2 3 this 4] have "hex_decode demo_hex ''070201'' = Some [7, 2, 1]"
    by (simp add: demo_lib_def)
  with r show ?thesis by simp
qed

text \<open>A node that refuses the second of two VMs and cannot download the volumes of the first.\<close>

definition demo_refusing :: "(string, nat) compute_client" where
  "demo_refusing = \<lparr>cl_list_vms = (\<lambda>w. (Ok [], w)), cl_create_vm = (\<lambda>_ w. (Err ''full'', w)), cl_delete_vm = (\<lambda>_ w. (Ok (), w)),
     cl_add_port_forward = (\<lambda>pf w. (Ok pf, w)), cl_health = (\<lambda>w. (Ok (), w)), cl_show_error = (\<lambda>e. e)\<rparr>"

theorem allocation_counts_witness:
  "let V = demo_volumes\<lparr>v_http_get := (\<lambda>url n. (Err ''offline'', n))\<rparr>; app = registered [demo_message ''a''] (demo_app None);
       acts = \<lparr>to_start = [''a'', ''b''], to_stop = [], unchanged = []\<rparr>;
       r = start_vms demo_refusing V app (to_start acts) demo_client_world
   in (alloc_reply_of acts (fst r) :: string alloc_reply) = MultiStatus 1 0 0 [''translate a: downloading rootfs'', ''start b: message not found''] \<and>
      1 = (length (to_start acts) - length (fst r)) + count_prefix ''translate'' (fst r)"
proof -
  let ?V = "demo_volumes\<lparr>v_http_get := (\<lambda>url n. (Err ''offline'', n))\<rparr>"
  let ?app = "registered [demo_message ''a''] (demo_app None)"
  let ?acts = "\<lparr>to_start = [''a'', ''b''], to_stop = [], unchanged = []\<rparr>"
  let ?r = "start_vms demo_refusing ?V ?app (to_start ?acts) demo_client_world"
  have e: "(alloc_reply_of ?acts (fst ?r) :: string alloc_reply) =
      MultiStatus 1 0 0 [''translate a: downloading rootfs'', ''start b: message not found'']" by code_simp
  have f: "fst ?r = [''translate a: downloading rootfs'', ''start b: message not found'']" by code_simp
  have 1: "stop_vms demo_refusing (to_stop ?acts) demo_client_world = ([], demo_client_world)" by simp
  have 2: "?r = (fst ?r, snd ?r)" by simp
  from allocation_counts [OF 1 2, of 1 0 0] e f have
    "1 = (length (to_start ?acts) - length (fst ?r)) + count_prefix ''translate'' (fst ?r)" by simp
  with e show ?thesis unfolding Let_def by simp
qed

text \<open>
  The file with the identifier of the process is removed on a regular end only: when the start
  fails after it was written, it stays.
\<close>

lemma failed_start_leaves_pid:
  assumes "reliable_io (ae_io A)" "connect (ra_compute_socket args) (w_ext w) = (Err e, x)"
  shows "\<exists>w'. cmd_run A L connect url_ok serve args w = (Err (ConnectFailed e), w') \<and>
    read_pid (ae_io A) (ra_state_dir args) (w_fs w') = Some (ae_pid A)"
proof -
  let ?p = "write_pid_file (ae_io A) (ae_pid A) (ra_state_dir args) w"
  have "fst ?p = Ok ()"
    using assms(1) by (simp add: write_pid_file_def write_state_file_def on_fs_def fs_exec_def reliable_write reliable_io_def)
  then obtain w1 where p: "?p = (Ok (), w1)" by (cases ?p) auto
  have "w_ext w1 = w_ext w" using write_state_file_Ok [OF p [unfolded write_pid_file_def]] by simp
  with p assms(2) pid_round_trip [OF assms(1) p] show ?thesis
    by (simp add: cmd_run_def Let_def on_ext_def)
qed

end
