(* ===== verification/Snp_Verify.thy ===== *)
theory Snp_Verify
  imports Certs
begin

text \<open>
  Verification of SEV-SNP attestation reports
  (\<^verbatim>\<open>crates/aleph-tee/src/sev_snp/verify.rs\<close>): the privilege level, the AMD certificate chain
  and the signature over the report. The certificate library is the record \<open>openssl\<close>; the
  theorems say which of its checks a successful verification has made, on which bytes.
\<close>

datatype chain_error =
    BadCertificate string
  | NoCommonName
  | CommonNameNotUtf8
  | WrongCommonName string
  | NoOrganization
  | OrganizationNotUtf8
  | WrongOrganization string
  | NameEncoding
  | NotSelfIssued
  | NoPublicKey string
  | VerifyCallFailed string
  | BadSignature string

datatype signature_error =
    ReportTooShort nat
  | BadBigNum
  | BadEcdsa
  | DigestFailed
  | BadVcek
  | NoVcekKey
  | NotEcKey
  | EcdsaCallFailed
  | InvalidSignature

datatype verify_error =
    UnparsableSnpReport tee_error
  | VcekFetchFailed fetch_error
  | CaFetchFailed fetch_error
  | UnprivilegedVmpl u32
  | ChainFailed chain_error
  | SignatureFailed signature_error

section \<open>The certificate chain\<close>

definition amd_ark_cn_prefix :: string where
  "amd_ark_cn_prefix = ''ARK-''"

definition amd_org_name :: string where
  "amd_org_name = ''Advanced Micro Devices''"

text \<open>\<^verbatim>\<open>entries_by_nid(..).next()\<close> and \<^verbatim>\<open>as_utf8\<close>.\<close>

definition first_entry :: "string option list \<Rightarrow> chain_error \<Rightarrow> chain_error \<Rightarrow> (chain_error, string) result" where
  "first_entry es missing not_utf8 =
     (case es of [] \<Rightarrow> Err missing | None # _ \<Rightarrow> Err not_utf8 | Some s # _ \<Rightarrow> Ok s)"

definition verify_ark_identity :: "('c, 'k, 'e, 'n, 's) openssl \<Rightarrow> 'c \<Rightarrow> (chain_error, unit) result" where
  "verify_ark_identity S ark =
     and_then (first_entry (x509_common_names S ark) NoCommonName CommonNameNotUtf8) (\<lambda>cn_str.
     if \<not> starts_with cn_str amd_ark_cn_prefix then Err (WrongCommonName cn_str)
     else and_then (first_entry (x509_organizations S ark) NoOrganization OrganizationNotUtf8) (\<lambda>org_str.
     if org_str \<noteq> amd_org_name then Err (WrongOrganization org_str)
     else and_then (ok_or (x509_subject_der S ark) NameEncoding) (\<lambda>subject_der.
     and_then (ok_or (x509_issuer_der S ark) NameEncoding) (\<lambda>issuer_der.
     if subject_der \<noteq> issuer_der then Err NotSelfIssued else Ok ()))))"

text \<open>One signature check of the chain: the call may fail, and it may say no.\<close>

definition check_signed :: "('c, 'k, 'e, 'n, 's) openssl \<Rightarrow> string \<Rightarrow> 'c \<Rightarrow> 'k \<Rightarrow> (chain_error, unit) result" where
  "check_signed S what cert key =
     and_then (ok_or (x509_verify S cert key) (VerifyCallFailed what)) (\<lambda>good.
       if \<not> good then Err (BadSignature what) else Ok ())"

definition verify_cert_chain :: "('c, 'k, 'e, 'n, 's) openssl \<Rightarrow> cert_chain \<Rightarrow> (chain_error, unit) result" where
  "verify_cert_chain S chain =
     and_then (ok_or (x509_from_der S (ark_der chain)) (BadCertificate ''ARK'')) (\<lambda>ark.
     and_then (ok_or (x509_from_der S (ask_der chain)) (BadCertificate ''ASK'')) (\<lambda>ask.
     and_then (ok_or (x509_from_der S (vcek_der chain)) (BadCertificate ''VCEK'')) (\<lambda>vcek.
     and_then (verify_ark_identity S ark) (\<lambda>_.
     and_then (ok_or (x509_public_key S ark) (NoPublicKey ''ARK'')) (\<lambda>ark_pubkey.
     and_then (check_signed S ''ARK'' ark ark_pubkey) (\<lambda>_.
     and_then (check_signed S ''ASK'' ask ark_pubkey) (\<lambda>_.
     and_then (ok_or (x509_public_key S ask) (NoPublicKey ''ASK'')) (\<lambda>ask_pubkey.
     check_signed S ''VCEK'' vcek ask_pubkey))))))))"

section \<open>The report signature\<close>

definition signed_report_size :: nat where
  "signed_report_size = 0x2A0"

definition strip_leading_zeros :: "bytes \<Rightarrow> bytes" where
  "strip_leading_zeros bs =
     (if list_ex (\<lambda>b. b \<noteq> 0) bs then dropWhile (\<lambda>b. b = 0) bs else drop (length bs - 1) bs)"

definition verify_report_signature ::
  "('c, 'k, 'e, 'n, 's) openssl \<Rightarrow> bytes \<Rightarrow> bytes \<Rightarrow> (signature_error, unit) result" where
  "verify_report_signature S report_raw vcek =
     (if length report_raw < signed_report_size + 144 then Err (ReportTooShort (length report_raw))
      else
        let signed_data = take signed_report_size report_raw;
            r_bytes_le = take 72 (drop signed_report_size report_raw);
            s_bytes_le = take 72 (drop (signed_report_size + 72) report_raw);
            r_trimmed = strip_leading_zeros (rev r_bytes_le);
            s_trimmed = strip_leading_zeros (rev s_bytes_le)
        in and_then (ok_or (bn_from_slice S r_trimmed) BadBigNum) (\<lambda>r_bn.
           and_then (ok_or (bn_from_slice S s_trimmed) BadBigNum) (\<lambda>s_bn.
           and_then (ok_or (ecdsa_from_components S r_bn s_bn) BadEcdsa) (\<lambda>ecdsa_sig.
           and_then (ok_or (hash_sha384 S signed_data) DigestFailed) (\<lambda>digest.
           and_then (ok_or (x509_from_der S vcek) BadVcek) (\<lambda>vcek_cert.
           and_then (ok_or (x509_public_key S vcek_cert) NoVcekKey) (\<lambda>vcek_pkey.
           and_then (ok_or (pkey_ec_key S vcek_pkey) NotEcKey) (\<lambda>ec_key.
           and_then (ok_or (ecdsa_verify S ecdsa_sig digest ec_key) EcdsaCallFailed) (\<lambda>good.
           if \<not> good then Err InvalidSignature else Ok ())))))))))"

section \<open>Verifying a report\<close>

definition tcb_of_report :: "sev_report \<Rightarrow> tcb_params" where
  "tcb_of_report parsed =
     \<lparr>bl_spl = tcb_bootloader (sr_reported_tcb parsed), tee_spl = tcb_tee (sr_reported_tcb parsed),
      snp_spl = tcb_snp (sr_reported_tcb parsed), ucode_spl = tcb_microcode (sr_reported_tcb parsed)\<rparr>"

definition verified_result :: "string \<Rightarrow> sev_report \<Rightarrow> verification_result" where
  "verified_result product parsed =
     (let tcb = tcb_of_report parsed
      in \<lparr>vr_valid = True, vr_tee_type = SevSnp,
          vr_summary = ''SEV-SNP report verified successfully (product: '' @ product @ '')'',
          vr_measurement = extract_measurement parsed,
          vr_details = JObj [(''product'', JStr product), (''guest_svn'', JInt (uint (sr_guest_svn parsed))),
            (''vmpl'', JInt (uint (sr_vmpl parsed))), (''verified'', JBool True),
            (''tcb'', JObj [(''bootloader'', JInt (uint (bl_spl tcb))), (''tee'', JInt (uint (tee_spl tcb))),
              (''snp'', JInt (uint (snp_spl tcb))), (''microcode'', JInt (uint (ucode_spl tcb)))])]\<rparr>)"

definition verify_sev_snp_report ::
  "'x kds_env \<Rightarrow> hex_lib \<Rightarrow> sev_lib \<Rightarrow> ('c, 'k, 'e, 'n, 's) openssl \<Rightarrow> attestation_report \<Rightarrow> string \<Rightarrow> 'x world \<Rightarrow>
   (verify_error, verification_result) result \<times> 'x world" where
  "verify_sev_snp_report K X V S report product w =
     (let raw = ar_data report in
      bindE (map_err UnparsableSnpReport (parse_sev_snp_report V raw), w) (\<lambda>parsed w.
      bindE (apfst (map_err VcekFetchFailed) (fetch_vcek K X product (sr_chip_id parsed) (tcb_of_report parsed) w)) (\<lambda>vcek w.
      bindE (apfst (map_err CaFetchFailed) (fetch_ca_chain K S product w)) (\<lambda>(ask, ark) w.
      let chain = \<lparr>vcek_der = vcek, ask_der = ask, ark_der = ark\<rparr> in
      if sr_vmpl parsed > 1 then (Err (UnprivilegedVmpl (sr_vmpl parsed)), w)
      else bindE (map_err ChainFailed (verify_cert_chain S chain), w) (\<lambda>_ w.
           bindE (map_err SignatureFailed (verify_report_signature S raw (vcek_der chain)), w) (\<lambda>_ w.
           (Ok (verified_result product parsed), w)))))))"

section \<open>What the checks establish\<close>

text \<open>A certificate chain in which each certificate is signed by the key of the next.\<close>

definition amd_chain :: "('c, 'k, 'e, 'n, 's) openssl \<Rightarrow> cert_chain \<Rightarrow> bool" where
  "amd_chain S chain \<longleftrightarrow>
     (\<exists>ark ask vcek ark_key ask_key cn cns orgs name.
        x509_from_der S (ark_der chain) = Some ark \<and> x509_from_der S (ask_der chain) = Some ask \<and>
        x509_from_der S (vcek_der chain) = Some vcek \<and>
        x509_common_names S ark = Some (''ARK-'' @ cn) # cns \<and>
        x509_organizations S ark = Some ''Advanced Micro Devices'' # orgs \<and>
        x509_subject_der S ark = Some name \<and> x509_issuer_der S ark = Some name \<and>
        x509_public_key S ark = Some ark_key \<and> x509_public_key S ask = Some ask_key \<and>
        x509_verify S ark ark_key = Some True \<and> x509_verify S ask ark_key = Some True \<and>
        x509_verify S vcek ask_key = Some True)"

text \<open>
  The number a signature component denotes: the report stores it in little-endian order.
\<close>

fun le_value :: "bytes \<Rightarrow> nat" where
  "le_value [] = 0"
| "le_value (b # bs) = unat b + 256 * le_value bs"

definition be_value :: "bytes \<Rightarrow> nat" where
  "be_value bs = le_value (rev bs)"

text \<open>The ECDSA check over the signed part of a report with the key of a certificate.\<close>

definition signed_by :: "('c, 'k, 'e, 'n, 's) openssl \<Rightarrow> bytes \<Rightarrow> bytes \<Rightarrow> bool" where
  "signed_by S raw vcek \<longleftrightarrow>
     (\<exists>cert key ec r s sig digest.
        x509_from_der S vcek = Some cert \<and> x509_public_key S cert = Some key \<and> pkey_ec_key S key = Some ec \<and>
        bn_from_slice S (strip_leading_zeros (rev (take 72 (drop 0x2A0 raw)))) = Some r \<and>
        bn_from_slice S (strip_leading_zeros (rev (take 72 (drop 0x2E8 raw)))) = Some s \<and>
        ecdsa_from_components S r s = Some sig \<and> hash_sha384 S (take 0x2A0 raw) = Some digest \<and>
        ecdsa_verify S sig digest ec = Some True)"

section \<open>Properties\<close>

lemma first_entry_Ok [simp]: "first_entry es a b = Ok s \<longleftrightarrow> (\<exists>rest. es = Some s # rest)"
  by (auto simp: first_entry_def split: list.splits option.splits)

lemma check_signed_Ok [simp]: "check_signed S what cert key = Ok () \<longleftrightarrow> x509_verify S cert key = Some True"
  by (auto simp: check_signed_def and_then_Ok)

lemma verify_ark_identity_Ok:
  "verify_ark_identity S ark = Ok () \<longleftrightarrow>
     (\<exists>cn cns orgs name. x509_common_names S ark = Some (amd_ark_cn_prefix @ cn) # cns \<and>
        x509_organizations S ark = Some amd_org_name # orgs \<and>
        x509_subject_der S ark = Some name \<and> x509_issuer_der S ark = Some name)"
  by (auto simp: verify_ark_identity_def and_then_Ok starts_with_iff)

lemma verify_cert_chain_Ok: "verify_cert_chain S chain = Ok () \<longleftrightarrow> amd_chain S chain"
  by (auto simp: verify_cert_chain_def amd_chain_def and_then_Ok verify_ark_identity_Ok amd_ark_cn_prefix_def amd_org_name_def)

lemma verify_report_signature_Ok:
  "verify_report_signature S raw vcek = Ok () \<longleftrightarrow> 0x330 \<le> length raw \<and> signed_by S raw vcek"
  by (auto simp: verify_report_signature_def signed_by_def signed_report_size_def and_then_Ok Let_def)

lemma parse_sev_snp_report_Ok: "parse_sev_snp_report V raw = Ok p \<longleftrightarrow> length raw = 1184 \<and> sev_from_bytes V raw = Some p"
  by (auto simp: parse_sev_snp_report_def report_size_def)

lemma apfst_Ok [simp]: "apfst (map_err f) r = (Ok a, w) \<longleftrightarrow> r = (Ok a, w)"
  by (cases r) auto

lemma verify_sev_snp_report_Ok:
  "verify_sev_snp_report K X V S report product w = (Ok v, w') \<longleftrightarrow>
   (\<exists>parsed vcek ask ark w1.
      length (ar_data report) = 1184 \<and> sev_from_bytes V (ar_data report) = Some parsed \<and>
      fetch_vcek K X product (sr_chip_id parsed) (tcb_of_report parsed) w = (Ok vcek, w1) \<and>
      fetch_ca_chain K S product w1 = (Ok (ask, ark), w') \<and>
      sr_vmpl parsed \<le> 1 \<and> amd_chain S \<lparr>vcek_der = vcek, ask_der = ask, ark_der = ark\<rparr> \<and>
      signed_by S (ar_data report) vcek \<and> v = verified_result product parsed)"
  by (auto simp: verify_sev_snp_report_def Let_def bindE_Ok parse_sev_snp_report_Ok verify_cert_chain_Ok
      verify_report_signature_Ok not_less)

lemma le_value_append: "le_value (xs @ ys) = le_value xs + 256 ^ length xs * le_value ys"
  by (induction xs) (simp_all add: algebra_simps)

lemma be_value_Cons: "be_value (b # bs) = 256 ^ length bs * unat b + be_value bs"
  by (simp add: be_value_def le_value_append)

lemma be_value_strip: "be_value (dropWhile (\<lambda>b. b = 0) bs) = be_value bs"
  by (induction bs) (simp_all add: be_value_Cons)

lemma be_value_zeros: "\<not> list_ex (\<lambda>b. b \<noteq> 0) bs \<Longrightarrow> be_value bs = 0"
proof (induction bs)
  case Nil
  then show ?case by (simp add: be_value_def)
next
  case (Cons b bs)
  then show ?case by (simp add: be_value_Cons)
qed

lemma last_byte: "bs \<noteq> [] \<Longrightarrow> drop (length bs - 1) bs = [last bs]"
  by (cases bs rule: rev_cases) auto

text \<open>
  Stripping the leading zeros of a signature component gives the shortest big-endian
  form of the same number: the value is kept, a byte is left, and the first byte is zero only
  when it is the only one.
\<close>

lemma strip_canonical:
  assumes "bs \<noteq> []"
  shows "be_value (strip_leading_zeros bs) = be_value bs \<and> strip_leading_zeros bs \<noteq> [] \<and>
    (hd (strip_leading_zeros bs) = 0 \<longrightarrow> strip_leading_zeros bs = [0])"
proof (cases "list_ex (\<lambda>b. b \<noteq> 0) bs")
  case True
  then have "dropWhile (\<lambda>b. b = 0) bs \<noteq> []" by (auto simp: list_ex_iff)
  then show ?thesis
    using True hd_dropWhile [of "\<lambda>b. b = 0" bs] by (simp add: strip_leading_zeros_def be_value_strip)
next
  case False
  then have "last bs = 0" using assms by (auto simp: list_ex_iff)
  with last_byte [OF assms] have "strip_leading_zeros bs = [0]"
    using False by (simp add: strip_leading_zeros_def)
  with be_value_zeros [OF False] show ?thesis by (simp add: be_value_def)
qed

theorem strip_leading_zeros_canonical:
  assumes "bs \<noteq> []"
  shows "be_value (strip_leading_zeros bs) = be_value bs \<and> strip_leading_zeros bs \<noteq> [] \<and>
    (hd (strip_leading_zeros bs) = 0 \<longrightarrow> strip_leading_zeros bs = [0])"
  using assms by (rule strip_canonical)

theorem strip_leading_zeros_canonical_witness:
  "be_value (strip_leading_zeros [0, 0, 1, 2]) = 258 \<and> strip_leading_zeros [0, 0, 0] = [0]"
  using strip_leading_zeros_canonical [of "[0, 0, 1, 2]"] strip_leading_zeros_canonical [of "[0, 0, 0]"]
  by (simp add: strip_leading_zeros_def be_value_def)

text \<open>
  Where a certificate comes from: a file of the cache, or an answer of the key distribution
  service to a request for the URL.
\<close>

definition obtained_from :: "'x kds_env \<Rightarrow> string \<Rightarrow> path option \<Rightarrow> 'x world \<Rightarrow> bytes \<Rightarrow> bool" where
  "obtained_from K url cached w b \<longleftrightarrow>
     (\<exists>p. cached = Some p \<and> read_cached (k_io K) p (w_fs w) = Some b) \<or>
     (\<exists>resp x'. k_http_get K url (w_ext w) = (Ok resp, x') \<and> http_status resp \<in> {200..<300} \<and> http_body resp = Ok b)"

lemma fetch_vcek_obtained:
  assumes "fetch_vcek K X product chip tcb w = (Ok vcek, w')"
  shows "obtained_from K (vcek_url product (hex_encode X chip) tcb)
    (map_option (\<lambda>d. vcek_cache_path d product (hex_encode X chip) tcb) (cache_dir K)) w vcek"
proof (cases "Option.bind (map_option (\<lambda>d. vcek_cache_path d product (hex_encode X chip) tcb) (cache_dir K))
    (\<lambda>p. read_cached (k_io K) p (w_fs w))")
  case (Some b)
  with assms have "b = vcek" by (simp add: fetch_vcek_def Let_def)
  with Some show ?thesis by (auto simp: obtained_from_def bind_eq_Some_conv)
next
  case None
  with assms obtain w1 where "kds_get K (vcek_url product (hex_encode X chip) tcb) w = (Ok vcek, w1)"
    by (auto simp: fetch_vcek_def Let_def bindE_Ok)
  then show ?thesis
    by (auto simp: kds_get_def bindE_Ok on_ext_def is_success_def obtained_from_def split: prod.splits if_splits)
qed

text \<open>A big-number library whose numbers are those of the big-endian bytes they are made from.\<close>

definition bn_law :: "('c, 'k, 'e, 'n, 's) openssl \<Rightarrow> ('n \<Rightarrow> nat) \<Rightarrow> bool" where
  "bn_law S val \<longleftrightarrow> (\<forall>bs n. bn_from_slice S bs = Some n \<longrightarrow> val n = be_value bs)"

lemma be_value_component:
  assumes "length raw = 1184" "off + 72 \<le> 1184"
  shows "be_value (strip_leading_zeros (rev (take 72 (drop off raw)))) = le_value (take 72 (drop off raw))"
proof -
  let ?c = "take 72 (drop off raw)"
  have "rev ?c \<noteq> []" using assms by auto
  then have "be_value (strip_leading_zeros (rev ?c)) = be_value (rev ?c)" using strip_canonical by blast
  then show ?thesis by (simp add: be_value_def [of "rev ?c"])
qed

text \<open>
  C21: what a successful verification shows. The report has the size of a SEV-SNP report, and
  the sev crate reads privilege level 0 or 1 from it. The VCEK is what the AMD service answers
  for the chip and the four security versions in the report, or a file cached under that name.
  It chains up to a self-signed certificate that names itself an AMD root, and its key
  verifies, over the first 672 bytes of the raw report, the signature made of the two numbers
  that the 72-byte little-endian fields at 672 and 744 denote. The caller gets a valid result
  with the measurement of the report.
\<close>

theorem verify_sev_snp_report_sound:
  assumes "verify_sev_snp_report K X V S report product w = (Ok v, w')" "bn_law S val"
  shows "\<exists>parsed vcek ask ark cert key ec r s sig digest.
    length (ar_data report) = 1184 \<and> sev_from_bytes V (ar_data report) = Some parsed \<and> sr_vmpl parsed \<in> {0, 1} \<and>
    obtained_from K (''https://kdsintf.amd.com/vcek/v1/'' @ product @ ''/'' @ hex_encode X (sr_chip_id parsed) @
        ''?blSPL='' @ show_word (tcb_bootloader (sr_reported_tcb parsed)) @
        ''&teeSPL='' @ show_word (tcb_tee (sr_reported_tcb parsed)) @
        ''&snpSPL='' @ show_word (tcb_snp (sr_reported_tcb parsed)) @
        ''&ucodeSPL='' @ show_word (tcb_microcode (sr_reported_tcb parsed)))
      (map_option (\<lambda>d. vcek_cache_path d product (hex_encode X (sr_chip_id parsed))
        \<lparr>bl_spl = tcb_bootloader (sr_reported_tcb parsed), tee_spl = tcb_tee (sr_reported_tcb parsed),
         snp_spl = tcb_snp (sr_reported_tcb parsed), ucode_spl = tcb_microcode (sr_reported_tcb parsed)\<rparr>) (cache_dir K)) w vcek \<and>
    amd_chain S \<lparr>vcek_der = vcek, ask_der = ask, ark_der = ark\<rparr> \<and>
    x509_from_der S vcek = Some cert \<and> x509_public_key S cert = Some key \<and> pkey_ec_key S key = Some ec \<and>
    val r = le_value (take 72 (drop 672 (ar_data report))) \<and> val s = le_value (take 72 (drop 744 (ar_data report))) \<and>
    ecdsa_from_components S r s = Some sig \<and> hash_sha384 S (take 672 (ar_data report)) = Some digest \<and>
    ecdsa_verify S sig digest ec = Some True \<and>
    vr_valid v \<and> vr_measurement v = sr_measurement parsed"
proof -
  obtain parsed vcek ask ark w1 where p: "length (ar_data report) = 1184" "sev_from_bytes V (ar_data report) = Some parsed"
      "fetch_vcek K X product (sr_chip_id parsed) (tcb_of_report parsed) w = (Ok vcek, w1)" "sr_vmpl parsed \<le> 1"
      "amd_chain S \<lparr>vcek_der = vcek, ask_der = ask, ark_der = ark\<rparr>" "signed_by S (ar_data report) vcek"
      "v = verified_result product parsed"
    using assms(1) unfolding verify_sev_snp_report_Ok by blast
  have "sr_vmpl parsed \<in> {0, 1}" using p(4) by (auto simp: word_le_nat_alt word_unat_eq_iff le_Suc_eq)
  moreover have "vr_valid v" "vr_measurement v = sr_measurement parsed"
    by (simp_all add: p(7) verified_result_def extract_measurement_def Let_def)
  moreover obtain cert key ec r s sig digest where
      "x509_from_der S vcek = Some cert" "x509_public_key S cert = Some key" "pkey_ec_key S key = Some ec"
      "bn_from_slice S (strip_leading_zeros (rev (take 72 (drop 672 (ar_data report))))) = Some r"
      "bn_from_slice S (strip_leading_zeros (rev (take 72 (drop 744 (ar_data report))))) = Some s"
      "ecdsa_from_components S r s = Some sig" "hash_sha384 S (take 672 (ar_data report)) = Some digest"
      "ecdsa_verify S sig digest ec = Some True"
    using p(6) unfolding signed_by_def by (auto simp: numeral_eq_iff)
  moreover from this assms(2) have "val r = le_value (take 72 (drop 672 (ar_data report)))"
      "val s = le_value (take 72 (drop 744 (ar_data report)))"
    by (simp_all add: bn_law_def be_value_component [OF p(1)])
  moreover note fetch_vcek_obtained [OF p(3), unfolded vcek_url_def kds_base_url_def tcb_of_report_def tcb_params.simps]
  ultimately show ?thesis
    using p(1,2,5)
    by (intro exI [of _ parsed] exI [of _ vcek] exI [of _ ask] exI [of _ ark] exI [of _ cert] exI [of _ key] exI [of _ ec]
        exI [of _ r] exI [of _ s] exI [of _ sig] exI [of _ digest]) (simp add: tcb_of_report_def)
qed

text \<open>
  A certificate library that accepts every certificate and every signature, or every certificate
  and no signature of a report, a sev crate that reads the measurement from fixed bytes, and a key
  distribution service that answers without a cache.
\<close>

definition demo_ssl :: "bool \<Rightarrow> (bytes, bytes, bytes, bytes, bytes) openssl" where
  "demo_ssl good = \<lparr>x509_from_der = Some, x509_to_der = Some, stack_from_pem = (\<lambda>_. None), x509_public_key = Some,
     x509_verify = (\<lambda>_ _. Some True), x509_common_names = (\<lambda>_. [Some ''ARK-Genoa'']),
     x509_organizations = (\<lambda>_. [Some ''Advanced Micro Devices'']), x509_subject_der = (\<lambda>_. Some []),
     x509_issuer_der = (\<lambda>_. Some []), hash_sha384 = Some, bn_from_slice = Some,
     ecdsa_from_components = (\<lambda>r s. Some (r @ s)), pkey_ec_key = Some, ecdsa_verify = (\<lambda>_ _ _. Some good)\<rparr>"

definition plain_sev :: sev_lib where
  "plain_sev = \<lparr>sev_from_bytes = (\<lambda>raw. Some \<lparr>sr_guest_svn = 0, sr_vmpl = 1, sr_report_data = take 64 raw,
       sr_measurement = take 48 (drop 64 raw), sr_chip_id = [1, 2],
       sr_reported_tcb = \<lparr>tcb_bootloader = 3, tcb_tee = 0, tcb_snp = 10, tcb_microcode = 169\<rparr>\<rparr>),
     firmware_open = Ok (), firmware_get_report = (\<lambda>rd. Ok (rd @ replicate 1120 0))\<rparr>"

definition log_kds :: "'x kds_env" where
  "log_kds = \<lparr>k_io = \<lparr>step_fault = (\<lambda>_ _. None), read_fault = (\<lambda>_ _. None), dir_fault = (\<lambda>_ _. None)\<rparr>,
     k_xdg_cache_home = None, k_home = None,
     k_http_get = (\<lambda>url x. (Ok \<lparr>http_status = 200, http_body = Ok [0x30, 0, 0x30, 0]\<rparr>, x))\<rparr>"

lemma log_kds_fetch:
  "fetch_vcek log_kds X product chip tcb w = (Ok [0x30, 0, 0x30, 0], w)"
  "fetch_ca_chain log_kds S product w = (Ok ([0x30, 0], [0x30, 0]), w)"
  by (simp_all add: fetch_vcek_def fetch_ca_chain_def log_kds_def cache_dir_def kds_get_def on_ext_def is_success_def
      read_cached_chain_def ca_cache_paths_def bytes_of_string_def split_der_certs_def der_object_length_def and_then_def)

lemma demo_chain: "amd_chain (demo_ssl good) chain"
  by (simp add: amd_chain_def demo_ssl_def)

lemma demo_signed: "signed_by (demo_ssl True) raw vcek"
  by (simp add: signed_by_def demo_ssl_def)

definition sample_report :: attestation_report where
  "sample_report = \<lparr>ar_tee_type = SevSnp, ar_data = replicate 1184 9, ar_report_data = replicate 64 9, ar_measurement = replicate 48 9\<rparr>"

theorem verify_sev_snp_report_sound_witness:
  "\<exists>v vcek. verify_sev_snp_report log_kds demo_hex plain_sev (demo_ssl True) sample_report ''Genoa'' demo_client_world =
       (Ok v, demo_client_world) \<and>
     obtained_from log_kds ''https://kdsintf.amd.com/vcek/v1/Genoa/0102?blSPL=3&teeSPL=0&snpSPL=10&ucodeSPL=169''
       None demo_client_world vcek \<and> vr_valid v \<and> vr_measurement v = replicate 48 9"
proof -
  let ?p = "the (sev_from_bytes plain_sev (ar_data sample_report))"
  let ?v = "verified_result ''Genoa'' ?p"
  have ok: "verify_sev_snp_report log_kds demo_hex plain_sev (demo_ssl True) sample_report ''Genoa'' demo_client_world =
      (Ok ?v, demo_client_world)"
    unfolding verify_sev_snp_report_Ok
    by (intro exI [of _ ?p] exI [of _ "[0x30, 0, 0x30, 0]"] exI [of _ "[0x30, 0]"] exI [of _ demo_client_world])
       (simp add: log_kds_fetch demo_chain demo_signed sample_report_def plain_sev_def)
  have law: "bn_law (demo_ssl True) be_value" by (simp add: bn_law_def demo_ssl_def)
  have url: "hex_encode demo_hex [1, 2] = ''0102''" "show_nat 3 = ''3''" "show_nat 0 = ''0''"
      "show_nat 10 = ''10''" "show_nat 169 = ''169''" "cache_dir log_kds = None"
    by code_simp+
  from verify_sev_snp_report_sound [OF ok law]
  have "(\<exists>vcek. obtained_from log_kds ''https://kdsintf.amd.com/vcek/v1/Genoa/0102?blSPL=3&teeSPL=0&snpSPL=10&ucodeSPL=169''
       None demo_client_world vcek) \<and> vr_valid ?v \<and> vr_measurement ?v = replicate 48 9"
    by (auto simp: plain_sev_def sample_report_def url)
  with ok show ?thesis by blast
qed

text \<open>
  C22: the identity check on the root does not protect the cache. Whoever can write the three
  cached files puts a chain there that he made himself, whose root carries AMD's names, and
  signs a report of his choice with its leaf key; verification then declares the report valid,
  with the measurement he chose, and sends no request to AMD.
\<close>

theorem poisoned_cache_accepted:
  assumes "reliable_io (k_io K)" "cache_dir K = Some d" "dir = path_join d product"
    and "sev_from_bytes V (ar_data report) = Some parsed" "length (ar_data report) = 1184" "sr_vmpl parsed \<le> 1"
    and "amd_chain S mine" "signed_by S (ar_data report) (vcek_der mine)"
    and "vcek_der mine \<noteq> []" "ask_der mine \<noteq> []" "ark_der mine \<noteq> []"
    and "fs_content (w_fs w) (vcek_cache_path d product (hex_encode X (sr_chip_id parsed)) (tcb_of_report parsed)) =
      Some (string_of_bytes (vcek_der mine))"
    and "fs_content (w_fs w) (path_join dir ''ask.der'') = Some (string_of_bytes (ask_der mine))"
    and "fs_content (w_fs w) (path_join dir ''ark.der'') = Some (string_of_bytes (ark_der mine))"
  shows "\<exists>v. verify_sev_snp_report K X V S report product w = (Ok v, w) \<and> vr_valid v \<and> vr_measurement v = sr_measurement parsed"
proof -
  have cached: "read_cached (k_io K) p (w_fs w) = Some b" if "fs_content (w_fs w) p = Some (string_of_bytes b)" "b \<noteq> []" for p b
    using that assms(1) by (simp add: read_cached_def fs_read_def reliable_read and_then_def ok_or_def)
  have "fetch_vcek K X product (sr_chip_id parsed) (tcb_of_report parsed) w = (Ok (vcek_der mine), w)"
    using assms(2) cached [OF assms(12) assms(9)] by (simp add: fetch_vcek_def Let_def)
  moreover have "fetch_ca_chain K S product w = (Ok (ask_der mine, ark_der mine), w)"
    using assms(2,3) cached [OF assms(13) assms(10)] cached [OF assms(14) assms(11)]
    by (simp add: fetch_ca_chain_def read_cached_chain_def ca_cache_paths_def Let_def)
  moreover have "mine = \<lparr>vcek_der = vcek_der mine, ask_der = ask_der mine, ark_der = ark_der mine\<rparr>" by simp
  ultimately have "verify_sev_snp_report K X V S report product w = (Ok (verified_result product parsed), w)"
    using assms(4-8) unfolding verify_sev_snp_report_Ok by metis
  then show ?thesis by (simp add: verified_result_def extract_measurement_def Let_def)
qed

definition poisoned_world :: "nat world" where
  "poisoned_world = demo_client_world\<lparr>w_fs :=
     fs_put ''/root/.cache/aleph-tee/kds/Genoa/vcek_0102_3_0_10_169.der'' (string_of_bytes [3])
     (fs_put ''/root/.cache/aleph-tee/kds/Genoa/ask.der'' (string_of_bytes [2])
     (fs_put ''/root/.cache/aleph-tee/kds/Genoa/ark.der'' (string_of_bytes [1]) (w_fs demo_client_world)))\<rparr>"

theorem poisoned_cache_accepted_witness:
  "\<exists>v. verify_sev_snp_report demo_kds demo_hex plain_sev (demo_ssl True) sample_report ''Genoa'' poisoned_world = (Ok v, poisoned_world) \<and>
     vr_valid v \<and> vr_measurement v = replicate 48 9"
proof -
  let ?p = "the (sev_from_bytes plain_sev (ar_data sample_report))"
  have d: "cache_dir demo_kds = Some ''/root/.cache/aleph-tee/kds''" by code_simp
  have p: "sev_from_bytes plain_sev (ar_data sample_report) = Some ?p" by (simp add: plain_sev_def)
  have t: "sr_chip_id ?p = [1, 2]" "tcb_of_report ?p = demo_tcb" "sr_measurement ?p = replicate 48 9" "sr_vmpl ?p \<le> 1"
    by (simp_all add: plain_sev_def sample_report_def tcb_of_report_def demo_tcb_def)
  have "fs_content (w_fs poisoned_world) (vcek_cache_path ''/root/.cache/aleph-tee/kds'' ''Genoa''
       (hex_encode demo_hex (sr_chip_id ?p)) (tcb_of_report ?p)) = Some (string_of_bytes [3])"
      "fs_content (w_fs poisoned_world) (path_join (path_join ''/root/.cache/aleph-tee/kds'' ''Genoa'') ''ask.der'') = Some (string_of_bytes [2])"
      "fs_content (w_fs poisoned_world) (path_join (path_join ''/root/.cache/aleph-tee/kds'' ''Genoa'') ''ark.der'') = Some (string_of_bytes [1])"
    unfolding t by code_simp+
  with poisoned_cache_accepted [OF demo_kds_reliable d refl p, where product = "''Genoa''" and S = "demo_ssl True" and
      mine = "\<lparr>vcek_der = [3], ask_der = [2], ark_der = [1]\<rparr>" and w = poisoned_world and X = demo_hex] t
  show ?thesis by (simp add: demo_chain demo_signed sample_report_def)
qed

end
