(* ===== verification/Attested_Tls.thy ===== *)
theory Attested_Tls
  imports Tee Filesystem
begin

text \<open>
  Attested TLS on the side of the VM: the attestation extension of
  \<^verbatim>\<open>crates/aleph-tee/src/x509.rs\<close>, and \<^verbatim>\<open>attestation.rs\<close>, \<^verbatim>\<open>tls.rs\<close> and \<^verbatim>\<open>proxy.rs\<close> of
  \<^verbatim>\<open>crates/aleph-attest-agent/src\<close>. The report is bound to the TLS key by its report data, the
  SHA-384 digest of the public key, and travels in a certificate extension. JSON text, DER,
  certificate parsing and certificate generation are library functions.
\<close>

section \<open>Parameters\<close>

record parsed_cert =
  pc_extensions :: "(bytes \<times> bytes) list"
  pc_public_key :: bytes

record x509_lib =
  json_to_vec :: "json \<Rightarrow> bytes option"
  json_from_slice :: "bytes \<Rightarrow> json option"
  octet_string_new :: "bytes \<Rightarrow> bytes option"
  octet_string_to_der :: "bytes \<Rightarrow> bytes option"
  octet_string_from_der :: "bytes \<Rightarrow> bytes option"
  oid_from :: "u64 list \<Rightarrow> bytes option"
  parse_certificate :: "bytes \<Rightarrow> parsed_cert option"

record 'k rcgen =
  generate_key :: "'k option"
  public_key_raw :: "'k \<Rightarrow> bytes"
  serialize_der :: "'k \<Rightarrow> bytes"
  params_ok :: "string list \<Rightarrow> bool"
  self_signed :: "'k \<Rightarrow> string list \<Rightarrow> (u64 list \<times> bytes) list \<Rightarrow> bytes option"

datatype x509_error =
    ReportToJson
  | OctetStringNew
  | OctetStringToDer
  | BadOctetString
  | BadReportJson
  | BadX509
  | BadOid

section \<open>The attestation extension\<close>

definition attestation_oid :: "u64 list" where
  "attestation_oid = [1, 3, 6, 1, 4, 1, 60000, 1, 1]"

definition encode_attestation_extension ::
  "x509_lib \<Rightarrow> hex_lib \<Rightarrow> attestation_report \<Rightarrow> (x509_error, bytes) result" where
  "encode_attestation_extension C X report =
     and_then (ok_or (json_to_vec C (report_to_json X report)) ReportToJson) (\<lambda>json_bytes.
     and_then (ok_or (octet_string_new C json_bytes) OctetStringNew) (\<lambda>octet_string.
     ok_or (octet_string_to_der C octet_string) OctetStringToDer))"

definition decode_attestation_extension ::
  "x509_lib \<Rightarrow> hex_lib \<Rightarrow> bytes \<Rightarrow> (x509_error, attestation_report) result" where
  "decode_attestation_extension C X der_bytes =
     and_then (ok_or (octet_string_from_der C der_bytes) BadOctetString) (\<lambda>json_bytes.
     ok_or (Option.bind (json_from_slice C json_bytes) (report_from_json X)) BadReportJson)"

definition extract_attestation_from_cert ::
  "x509_lib \<Rightarrow> hex_lib \<Rightarrow> bytes \<Rightarrow> (x509_error, attestation_report option) result" where
  "extract_attestation_from_cert C X cert_der =
     and_then (ok_or (parse_certificate C cert_der) BadX509) (\<lambda>cert.
     and_then (ok_or (oid_from C attestation_oid) BadOid) (\<lambda>target_oid.
     case List.find (\<lambda>ext. fst ext = target_oid) (pc_extensions cert) of
       None \<Rightarrow> Ok None
     | Some ext \<Rightarrow> and_then (decode_attestation_extension C X (snd ext)) (\<lambda>report. Ok (Some report))))"

section \<open>Bound reports\<close>

text \<open>A byte string copied to the front of \<^verbatim>\<open>[0u8; 64]\<close>.\<close>

definition pad64 :: "bytes \<Rightarrow> bytes" where
  "pad64 bs = bs @ replicate (64 - length bs) 0"

definition key_report_data :: "(bytes \<Rightarrow> bytes) \<Rightarrow> bytes \<Rightarrow> bytes" where
  "key_report_data sha384 public_key_bytes = pad64 (sha384 public_key_bytes)"

definition get_key_bound_report ::
  "(bytes \<Rightarrow> bytes) \<Rightarrow> sev_lib \<Rightarrow> tee_impl \<Rightarrow> bytes \<Rightarrow> (tee_error, attestation_report) result" where
  "get_key_bound_report sha384 V B public_key_bytes =
     impl_get_report V B (key_report_data sha384 public_key_bytes)"

definition nonce_report_data :: "(bytes \<Rightarrow> bytes) \<Rightarrow> bytes \<Rightarrow> bytes" where
  "nonce_report_data sha384 nonce = (if length nonce > 64 then pad64 (sha384 nonce) else pad64 nonce)"

definition get_nonce_bound_report ::
  "(bytes \<Rightarrow> bytes) \<Rightarrow> sev_lib \<Rightarrow> tee_impl \<Rightarrow> bytes \<Rightarrow> (tee_error, attestation_report) result" where
  "get_nonce_bound_report sha384 V B nonce = impl_get_report V B (nonce_report_data sha384 nonce)"

section \<open>The TLS identity\<close>

record attested_tls_identity =
  id_cert_der :: bytes
  id_key_der :: bytes
  id_report :: attestation_report

datatype identity_error =
    KeyGeneration
  | BoundReport tee_error
  | ExtensionEncoding x509_error
  | CertParams
  | SelfSigning

definition generate_attested_tls_identity ::
  "x509_lib \<Rightarrow> hex_lib \<Rightarrow> (bytes \<Rightarrow> bytes) \<Rightarrow> sev_lib \<Rightarrow> 'k rcgen \<Rightarrow> tee_impl \<Rightarrow>
   (identity_error, attested_tls_identity) result" where
  "generate_attested_tls_identity C X sha384 V R B =
     and_then (ok_or (generate_key R) KeyGeneration) (\<lambda>key_pair.
     and_then (map_err BoundReport (get_key_bound_report sha384 V B (public_key_raw R key_pair))) (\<lambda>report.
     and_then (map_err ExtensionEncoding (encode_attestation_extension C X report)) (\<lambda>extension_value.
     if \<not> params_ok R [''localhost''] then Err CertParams
     else and_then (ok_or (self_signed R key_pair [''localhost''] [(attestation_oid, extension_value)]) SelfSigning) (\<lambda>cert_der.
       Ok \<lparr>id_cert_der = cert_der, id_key_der = serialize_der R key_pair, id_report = report\<rparr>))))"

section \<open>The endpoint and the proxy\<close>

datatype endpoint_reply =
    ReportReply attestation_report
  | InvalidNonce
  | AttestationFailed tee_error

definition attestation_endpoint ::
  "hex_lib \<Rightarrow> (bytes \<Rightarrow> bytes) \<Rightarrow> sev_lib \<Rightarrow> tee_impl \<Rightarrow> string \<Rightarrow> endpoint_reply" where
  "attestation_endpoint X sha384 V B query_nonce =
     (case hex_decode X query_nonce of
        None \<Rightarrow> InvalidNonce
      | Some nonce \<Rightarrow>
          (case get_nonce_bound_report sha384 V B nonce of
             Inr report \<Rightarrow> ReportReply report
           | Inl e \<Rightarrow> AttestationFailed e))"

text \<open>
  The reverse proxy. A header value that is no text is \<open>None\<close> and is skipped. Adding a header
  to the upstream request appends it; \<^verbatim>\<open>insert_header\<close> of the response builder replaces an
  earlier header of the same name, so the response keeps its headers as a map.
\<close>

record http_request =
  hr_method :: string
  hr_path :: string
  hr_query :: "string option"
  hr_headers :: "(string \<times> string option) list"
  hr_body :: bytes

record upstream_request =
  ur_method :: string
  ur_url :: string
  ur_headers :: "(string \<times> string) list"
  ur_body :: bytes

record upstream_response =
  us_status :: u16
  us_headers :: "(string \<times> string option) list"
  us_body :: "(string, bytes) result"

datatype proxy_reply =
    Proxied u16 "(string, string) hmap" bytes
  | UnreadableUpstream
  | UnreachableUpstream string

record 'x proxy_lib =
  method_from_bytes :: "string \<Rightarrow> string option"
  status_from_u16 :: "u16 \<Rightarrow> u16 option"
  send_upstream :: "upstream_request \<Rightarrow> 'x \<Rightarrow> (string, upstream_response) result \<times> 'x"

definition text_headers :: "(string \<times> string option) list \<Rightarrow> (string \<times> string) list" where
  "text_headers hs = List.map_filter (\<lambda>(n, v). map_option (Pair n) v) hs"

definition upstream_request_of :: "'x proxy_lib \<Rightarrow> string \<Rightarrow> http_request \<Rightarrow> upstream_request" where
  "upstream_request_of Q upstream req =
     \<lparr>ur_method = unwrap_or (method_from_bytes Q (hr_method req)) ''GET'',
      ur_url = upstream @ hr_path req @ (case hr_query req of Some qs \<Rightarrow> ''?'' @ qs | None \<Rightarrow> []),
      ur_headers = text_headers (filter (\<lambda>h. fst h \<noteq> ''host'') (hr_headers req)),
      ur_body = hr_body req\<rparr>"

definition proxy_handler :: "'x proxy_lib \<Rightarrow> string \<Rightarrow> http_request \<Rightarrow> 'x \<Rightarrow> proxy_reply \<times> 'x" where
  "proxy_handler Q upstream req x =
     (case send_upstream Q (upstream_request_of Q upstream req) x of
        (Inl e, x') \<Rightarrow> (UnreachableUpstream e, x')
      | (Inr resp, x') \<Rightarrow>
          (let status = unwrap_or (status_from_u16 Q (us_status resp)) 502;
               headers = foldl (\<lambda>m (n, v). hm_insert n v m) hm_empty (text_headers (us_headers resp))
           in (case us_body resp of
                 Inr body \<Rightarrow> Proxied status headers body
               | Inl _ \<Rightarrow> UnreadableUpstream, x')))"

section \<open>What the libraries promise\<close>

definition x509_lib_ok :: "x509_lib \<Rightarrow> hex_lib \<Rightarrow> bool" where
  "x509_lib_ok C X \<longleftrightarrow> hex_ok X \<and>
     (\<forall>r j. json_to_vec C (report_to_json X r) = Some j \<longrightarrow> json_from_slice C j = Some (report_to_json X r)) \<and>
     (\<forall>b s d. octet_string_new C b = Some s \<longrightarrow> octet_string_to_der C s = Some d \<longrightarrow> octet_string_from_der C d = Some b)"

text \<open>
  A generated certificate carries the key it was signed with and, under its identifier, each
  extension it was asked for.
\<close>

definition rcgen_ok :: "x509_lib \<Rightarrow> 'k rcgen \<Rightarrow> bool" where
  "rcgen_ok C R \<longleftrightarrow>
     (\<forall>k sans arcs v der. self_signed R k sans [(arcs, v)] = Some der \<longrightarrow>
        (\<exists>p target. parse_certificate C der = Some p \<and> pc_public_key p = public_key_raw R k \<and>
           oid_from C arcs = Some target \<and> List.find (\<lambda>e. fst e = target) (pc_extensions p) = Some (target, v)))"

text \<open>The firmware puts the 64 bytes of report data it is given into the report.\<close>

definition firmware_binds :: "sev_lib \<Rightarrow> bool" where
  "firmware_binds V \<longleftrightarrow>
     (\<forall>rd raw p. length rd = 64 \<longrightarrow> firmware_get_report V rd = Ok raw \<longrightarrow> sev_from_bytes V raw = Some p \<longrightarrow> sr_report_data p = rd)"

section \<open>Properties\<close>

lemma length_pad64: "length bs \<le> 64 \<Longrightarrow> length (pad64 bs) = 64"
  by (simp add: pad64_def)

lemma take_pad64 [simp]: "take (length bs) (pad64 bs) = bs"
  by (simp add: pad64_def)

lemma extension_round_trip:
  assumes "x509_lib_ok C X" "encode_attestation_extension C X r = Ok e" "length (ar_report_data r) = 64"
  shows "decode_attestation_extension C X e = Ok r"
proof -
  obtain j s where j: "json_to_vec C (report_to_json X r) = Some j" "octet_string_new C j = Some s"
      "octet_string_to_der C s = Some e"
    using assms(2) by (auto simp: encode_attestation_extension_def and_then_Ok)
  with assms(1) have "octet_string_from_der C e = Some j" "json_from_slice C j = Some (report_to_json X r)" "hex_ok X"
    by (auto simp: x509_lib_ok_def)
  with assms(3) show ?thesis
    by (simp add: decode_attestation_extension_def report_from_json_def report_to_json_def hex_serialize_def
        hex_deserialize_def hex_array_deserialize_def hex_ok_def)
qed

lemma impl_get_report_binds:
  assumes "firmware_binds V" "impl_get_report V B rd = Ok r" "length rd = 64"
  shows "ar_report_data r = rd"
proof (cases B)
  case (SevSnpImpl b)
  with assms(2) obtain raw p where "firmware_get_report V rd = Ok raw" "sev_from_bytes V raw = Some p"
      "ar_report_data r = sr_report_data p"
    by (auto simp: sev_get_report_def sev_parse_report_def parse_sev_snp_report_def and_then_Ok
        extract_report_data_def split: if_splits)
  with assms(1,3) show ?thesis by (simp add: firmware_binds_def)
next
  case NoTeeImpl
  with assms(2) show ?thesis by (simp add: none_get_report_def)
qed

text \<open>What a client can recover from an identity's certificate.\<close>

lemma identity_in_cert:
  assumes "x509_lib_ok C X" "rcgen_ok C R" "firmware_binds V" "\<And>b. length (sha384 b) = 48"
    and "generate_attested_tls_identity C X sha384 V R B = Ok i"
  shows "\<exists>p. parse_certificate C (id_cert_der i) = Some p \<and>
    extract_attestation_from_cert C X (id_cert_der i) = Ok (Some (id_report i)) \<and>
    ar_report_data (id_report i) = key_report_data sha384 (pc_public_key p)"
proof -
  obtain k e where k: "get_key_bound_report sha384 V B (public_key_raw R k) = Ok (id_report i)"
      "encode_attestation_extension C X (id_report i) = Ok e"
      "self_signed R k [''localhost''] [(attestation_oid, e)] = Some (id_cert_der i)"
    using assms(5) by (auto simp: generate_attested_tls_identity_def and_then_Ok split: if_splits)
  have rd: "ar_report_data (id_report i) = key_report_data sha384 (public_key_raw R k)"
    using k(1) assms(4)
    by (intro impl_get_report_binds [OF assms(3)]) (simp_all add: get_key_bound_report_def key_report_data_def length_pad64)
  then have "decode_attestation_extension C X e = Ok (id_report i)"
    using assms(4) by (intro extension_round_trip [OF assms(1) k(2)]) (simp add: key_report_data_def length_pad64)
  with assms(2) k(3) rd show ?thesis
    unfolding rcgen_ok_def by (fastforce simp: extract_attestation_from_cert_def)
qed

text \<open>
  The identity of the agent binds its report to its key: when the firmware honours the
  report data it is given, the certificate it serves yields the very report it obtained, and
  the report data are the SHA-384 digest of the certificate's own public key, zero-padded to
  64 bytes.
\<close>

theorem identity_binds_key:
  assumes "x509_lib_ok C X" "rcgen_ok C R" "firmware_binds V" "\<And>b. length (sha384 b) = 48"
    and "generate_attested_tls_identity C X sha384 V R B = Ok i"
  shows "\<exists>p. parse_certificate C (id_cert_der i) = Some p \<and>
    extract_attestation_from_cert C X (id_cert_der i) = Ok (Some (id_report i)) \<and>
    take 48 (ar_report_data (id_report i)) = sha384 (pc_public_key p) \<and>
    drop 48 (ar_report_data (id_report i)) = replicate 16 0"
  using identity_in_cert [OF assms] assms(4) by (fastforce simp: key_report_data_def pad64_def)

text \<open>
  The attestation endpoint answers a nonce with a report that carries it: up to 64 bytes
  literally, zero-padded, and a longer one by its digest. A nonce of 32 bytes is therefore the
  first half of the report data, which is what the client compares.
\<close>

theorem endpoint_carries_nonce:
  assumes "firmware_binds V" "\<And>b. length (sha384 b) = 48" "hex_decode X q = Some nonce"
    and "attestation_endpoint X sha384 V B q = ReportReply r"
  shows "length (ar_report_data r) = 64 \<and>
    (if length nonce \<le> 64 then take (length nonce) (ar_report_data r) = nonce \<and>
        set (drop (length nonce) (ar_report_data r)) \<subseteq> {0}
     else take 48 (ar_report_data r) = sha384 nonce)"
proof -
  have "get_nonce_bound_report sha384 V B nonce = Ok r"
    using assms(3,4) by (auto simp: attestation_endpoint_def split: sum.splits)
  then have "ar_report_data r = nonce_report_data sha384 nonce"
    using assms(2) unfolding get_nonce_bound_report_def
    by (intro impl_get_report_binds [OF assms(1)]) (simp_all add: nonce_report_data_def length_pad64)
  then show ?thesis
    using assms(2) by (auto simp: nonce_report_data_def pad64_def)
qed

lemma upstream_headers_exact:
  "(n, v) \<in> set (ur_headers (upstream_request_of Q up req)) \<longleftrightarrow> (n, Some v) \<in> set (hr_headers req) \<and> n \<noteq> ''host''"
  by (force simp: upstream_request_of_def text_headers_def in_map_filter)

text \<open>
  The proxy passes on every textual header but \<^verbatim>\<open>Host\<close>, and only those; of several response
  headers of one name, such as \<^verbatim>\<open>Set-Cookie\<close>, only the last reaches the client.
\<close>

theorem proxy_headers:
  assumes "proxy_handler Q up req x = (Proxied st hs body, x')"
  shows "(\<forall>n v. (n, v) \<in> set (ur_headers (upstream_request_of Q up req)) \<longleftrightarrow>
        (n, Some v) \<in> set (hr_headers req) \<and> n \<noteq> ''host'') \<and>
    (\<exists>resp. send_upstream Q (upstream_request_of Q up req) x = (Ok resp, x') \<and> us_body resp = Ok body \<and>
       (\<forall>n. hm_get hs n = map_of (rev (text_headers (us_headers resp))) n))"
proof -
  have fold: "hm_get (foldl (\<lambda>m (n, v). hm_insert n v m) m xs) n =
      (case map_of (rev xs) n of None \<Rightarrow> hm_get m n | Some v \<Rightarrow> Some v)" for m xs n
    by (induction xs rule: rev_induct) auto
  show ?thesis
    using assms
    by (auto simp: proxy_handler_def Let_def fold upstream_headers_exact split: prod.splits sum.splits option.splits)
qed

section \<open>Witnesses\<close>

text \<open>
  An instance of the libraries: the JSON text of a report as serde prints it, an octet string
  in place of its encoding, a certificate that lists a key and one extension, and a firmware
  that puts the report data at the start of the report.
\<close>

fun member_text :: "string \<times> json \<Rightarrow> string" where
  "member_text (k, JStr v) = CHR 0x22 # k @ CHR 0x22 # CHR '':'' # CHR 0x22 # v @ [CHR 0x22]"
| "member_text (k, j) = []"

fun object_text :: "json \<Rightarrow> string" where
  "object_text (JObj ms) = ''{'' @ join_with '','' (map member_text ms) @ ''}''"
| "object_text j = []"

fun quoted_pairs :: "string list \<Rightarrow> (string \<times> json) list" where
  "quoted_pairs (a # k # b # v # rest) = (k, JStr v) # quoted_pairs rest"
| "quoted_pairs _ = []"

definition demo_x509 :: x509_lib where
  "demo_x509 = \<lparr>json_to_vec = (\<lambda>j. Some (bytes_of_string (object_text j))),
     json_from_slice = (\<lambda>b. Some (JObj (quoted_pairs (split_on CHR 0x22 (string_of_bytes b))))),
     octet_string_new = Some, octet_string_to_der = Some, octet_string_from_der = Some,
     oid_from = (\<lambda>arcs. Some (map ucast arcs)),
     parse_certificate = (\<lambda>b. case b of [] \<Rightarrow> None
       | n # r \<Rightarrow> Some \<lparr>pc_extensions = [(map ucast attestation_oid, drop (unat n) r)], pc_public_key = take (unat n) r\<rparr>)\<rparr>"

definition demo_rcgen :: "bytes rcgen" where
  "demo_rcgen = \<lparr>generate_key = Some [7, 8], public_key_raw = take 4, serialize_der = id, params_ok = (\<lambda>_. True),
     self_signed = (\<lambda>k sans exts. case exts of
         [(arcs, v)] \<Rightarrow> if arcs = attestation_oid then Some (of_nat (length (take 4 k)) # take 4 k @ v) else None
       | _ \<Rightarrow> None)\<rparr>"

definition demo_sev :: sev_lib where
  "demo_sev = \<lparr>sev_from_bytes = (\<lambda>raw. Some \<lparr>sr_guest_svn = 0, sr_vmpl = 0, sr_report_data = take 64 raw,
       sr_measurement = take 48 (drop 64 raw), sr_chip_id = [],
       sr_reported_tcb = \<lparr>tcb_bootloader = 0, tcb_tee = 0, tcb_snp = 0, tcb_microcode = 0\<rparr>\<rparr>),
     firmware_open = Ok (), firmware_get_report = (\<lambda>rd. Ok (rd @ replicate 1120 0))\<rparr>"

definition demo_sha :: "bytes \<Rightarrow> bytes" where
  "demo_sha b = take 48 (b @ replicate 48 0)"

lemma demo_sha_length: "length (demo_sha b) = 48"
  by (simp add: demo_sha_def)

lemma hex_no_quote: "CHR 0x22 \<notin> set (hex_encode demo_hex b)"
  using demo_hex_chars [of "CHR 0x22" b] by (auto simp: is_ascii_digit_def is_ascii_lowercase_def)

lemma demo_x509_ok: "x509_lib_ok demo_x509 demo_hex"
proof -
  have "CHR 0x22 \<notin> set (tee_type_name t)" for t by (cases t) auto
  then have "split_on CHR 0x22 (object_text (report_to_json demo_hex r)) =
      [''{'', ''tee_type'', '':'', tee_type_name (ar_tee_type r), '','', ''data'', '':'', hex_encode demo_hex (ar_data r),
       '','', ''report_data'', '':'', hex_encode demo_hex (ar_report_data r),
       '','', ''measurement'', '':'', hex_encode demo_hex (ar_measurement r), ''}'']" for r
    by (simp add: report_to_json_def hex_serialize_def split_on_append_sep hex_no_quote)
  then show ?thesis
    by (simp add: x509_lib_ok_def demo_hex_ok demo_x509_def report_to_json_def hex_serialize_def)
qed

lemma demo_rcgen_ok: "rcgen_ok demo_x509 demo_rcgen"
proof -
  have "unat (of_nat (length (take 4 k)) :: u8) = length (take 4 k)" for k :: bytes
    by (simp add: unat_of_nat min_def)
  moreover have "take (min (length k) 4) k = take 4 k" for k :: bytes
    by (simp add: min_def)
  ultimately show ?thesis
    unfolding rcgen_ok_def by (auto simp: demo_x509_def demo_rcgen_def split: if_splits)
qed

lemma demo_sev_binds: "firmware_binds demo_sev"
  by (simp add: firmware_binds_def demo_sev_def)

definition demo_identity :: attested_tls_identity where
  "demo_identity = projr (generate_attested_tls_identity demo_x509 demo_hex demo_sha demo_sev demo_rcgen
     (SevSnpImpl (sev_snp_backend_new ''Genoa'')))"

lemma demo_identity:
  "generate_attested_tls_identity demo_x509 demo_hex demo_sha demo_sev demo_rcgen
     (SevSnpImpl (sev_snp_backend_new ''Genoa'')) = Ok demo_identity"
  by (simp add: demo_identity_def generate_attested_tls_identity_def demo_rcgen_def get_key_bound_report_def
      sev_get_report_def demo_sev_def sev_parse_report_def parse_sev_snp_report_def key_report_data_def length_pad64
      demo_sha_length report_size_def encode_attestation_extension_def demo_x509_def)

theorem identity_binds_key_witness:
  "\<exists>p. parse_certificate demo_x509 (id_cert_der demo_identity) = Some p \<and>
    extract_attestation_from_cert demo_x509 demo_hex (id_cert_der demo_identity) = Ok (Some (id_report demo_identity)) \<and>
    take 48 (ar_report_data (id_report demo_identity)) = demo_sha (pc_public_key p) \<and>
    drop 48 (ar_report_data (id_report demo_identity)) = replicate 16 0"
  by (rule identity_binds_key [OF demo_x509_ok demo_rcgen_ok demo_sev_binds demo_sha_length demo_identity])

theorem endpoint_carries_nonce_witness:
  "case attestation_endpoint demo_hex demo_sha demo_sev (SevSnpImpl (sev_snp_backend_new ''Genoa'')) ''0a0b'' of
     ReportReply r \<Rightarrow> take 2 (ar_report_data r) = [10, 11] | _ \<Rightarrow> False"
proof -
  let ?B = "SevSnpImpl (sev_snp_backend_new ''Genoa'')"
  have n: "hex_decode demo_hex ''0a0b'' = Some [10, 11]"
    by (simp add: demo_hex_def hex_val_def is_ascii_digit_def)
  then obtain r where r: "attestation_endpoint demo_hex demo_sha demo_sev ?B ''0a0b'' = ReportReply r"
    by (simp add: attestation_endpoint_def get_nonce_bound_report_def sev_get_report_def demo_sev_def
        sev_parse_report_def parse_sev_snp_report_def nonce_report_data_def length_pad64 report_size_def)
  from endpoint_carries_nonce [OF demo_sev_binds demo_sha_length n r] r show ?thesis
    by (simp add: numeral_2_eq_2)
qed

theorem proxy_headers_witness:
  "let Q = \<lparr>method_from_bytes = Some, status_from_u16 = Some,
        send_upstream = (\<lambda>r x. (Ok \<lparr>us_status = 200, us_headers = [(''set-cookie'', Some ''a''), (''set-cookie'', Some ''b'')],
          us_body = Ok []\<rparr>, x))\<rparr>;
      req = \<lparr>hr_method = ''GET'', hr_path = ''/'', hr_query = None, hr_headers = [(''host'', Some ''h'')], hr_body = []\<rparr>
   in case proxy_handler Q ''http://127.0.0.1:8080'' req () of
        (Proxied st hs body, x') \<Rightarrow> hm_get hs ''set-cookie'' = Some ''b'' \<and> ur_headers (upstream_request_of Q ''u'' req) = []
      | _ \<Rightarrow> False"
proof -
  let ?Q = "\<lparr>method_from_bytes = Some, status_from_u16 = Some,
        send_upstream = (\<lambda>r x. (Ok \<lparr>us_status = 200, us_headers = [(''set-cookie'', Some ''a''), (''set-cookie'', Some ''b'')],
          us_body = Ok []\<rparr>, x))\<rparr> :: unit proxy_lib"
  let ?req = "\<lparr>hr_method = ''GET'', hr_path = ''/'', hr_query = None, hr_headers = [(''host'', Some ''h'')], hr_body = []\<rparr>"
  obtain hs where hs: "proxy_handler ?Q ''http://127.0.0.1:8080'' ?req () = (Proxied 200 hs [], ())"
    by (simp add: proxy_handler_def)
  from proxy_headers [OF hs] hs show ?thesis
    by (simp add: text_headers_def map_filter_simps upstream_request_of_def List.map_filter_def)
qed

end
