(* ===== verification/Attest_Client.thy ===== *)
theory Attest_Client
  imports Snp_Verify Attested_Tls
begin

text \<open>
  The attestation client (\<^verbatim>\<open>crates/aleph-attest-cli/src\<close>): the certificate verifier it plugs
  into the TLS handshake (\<^verbatim>\<open>verify.rs\<close>), the three attested exchanges (\<^verbatim>\<open>client.rs\<close>) and the
  argument parsers (\<^verbatim>\<open>main.rs\<close>). A connection is what the TLS library documents: over TLS the
  server presents a certificate, the verifier decides, the server proves possession of the
  certificate's key, and only then is the request sent; over plain HTTP there is no
  certificate and the verifier is not asked. The client keeps the default redirect policy of
  its HTTP library, so a request may be carried on to other servers, up to ten times.
\<close>

section \<open>The certificate verifier\<close>

record snp_cert_verifier =
  sv_extracted_report :: "attestation_report option"
  sv_expected_measurement :: "bytes option"

datatype tls_error =
    ExtractFailed x509_error
  | NoAttestationExtension
  | KeyBindingParse
  | KeyBindingMismatch bytes bytes
  | MeasurementMismatch bytes bytes

definition verifier_new :: "bytes option \<Rightarrow> snp_cert_verifier" where
  "verifier_new expected = \<lparr>sv_extracted_report = None, sv_expected_measurement = expected\<rparr>"

definition check_server_cert ::
  "x509_lib \<Rightarrow> hex_lib \<Rightarrow> (bytes \<Rightarrow> bytes) \<Rightarrow> bytes option \<Rightarrow> bytes \<Rightarrow> (tls_error, attestation_report) result" where
  "check_server_cert C X sha384 expected end_entity =
     and_then (map_err ExtractFailed (extract_attestation_from_cert C X end_entity)) (\<lambda>found.
     and_then (ok_or found NoAttestationExtension) (\<lambda>report.
     and_then (ok_or (parse_certificate C end_entity) KeyBindingParse) (\<lambda>cert.
     let expected_report_data = pad64 (sha384 (pc_public_key cert)) in
     if ar_report_data report \<noteq> expected_report_data
     then Err (KeyBindingMismatch expected_report_data (ar_report_data report))
     else case expected of
            Some m \<Rightarrow> if ar_measurement report \<noteq> m then Err (MeasurementMismatch m (ar_measurement report)) else Ok report
          | None \<Rightarrow> Ok report)))"

definition verify_server_cert ::
  "x509_lib \<Rightarrow> hex_lib \<Rightarrow> (bytes \<Rightarrow> bytes) \<Rightarrow> bytes \<Rightarrow> snp_cert_verifier \<Rightarrow> (tls_error, unit) result \<times> snp_cert_verifier" where
  "verify_server_cert C X sha384 end_entity v =
     (case check_server_cert C X sha384 (sv_expected_measurement v) end_entity of
        Inl e \<Rightarrow> (Err e, v)
      | Inr report \<Rightarrow> (Ok (), v\<lparr>sv_extracted_report := Some report\<rparr>))"

section \<open>Connections\<close>

record client_request =
  cq_method :: string
  cq_url :: string
  cq_json :: "json option"

record client_response =
  cr_status :: u16
  cr_text :: "(string, string) result"

record ('x, 'c, 'k, 'e, 'n, 's) attest_env =
  a_kds :: "'x kds_env"
  a_hex :: hex_lib
  a_sev :: sev_lib
  a_ssl :: "('c, 'k, 'e, 'n, 's) openssl"
  a_x509 :: x509_lib
  a_sha384 :: "bytes \<Rightarrow> bytes"
  a_nonce :: "'x \<Rightarrow> bytes"
  a_url_ok :: "string \<Rightarrow> bool"
  a_url_join :: "string \<Rightarrow> string \<Rightarrow> string option"
  a_client_ok :: bool
  a_connect :: "string \<Rightarrow> 'x \<Rightarrow> (string, bytes option) result \<times> 'x"
  a_key_proof :: "bytes \<Rightarrow> 'x \<Rightarrow> bool"
  a_send :: "client_request \<Rightarrow> 'x \<Rightarrow> (string, client_response) result \<times> 'x"
  a_redirect :: "client_request \<Rightarrow> client_response \<Rightarrow> (string, client_request) result option"

datatype client_error =
    ClientBuild
  | ConnectFailed string
  | HandshakeFailed tls_error
  | KeyProofFailed
  | RequestFailed string
  | RedirectFailed string
  | TooManyRedirects
  | BodyUnreadable string
  | NoReportExtracted
  | ReportVerification verify_error
  | BadBaseUrl
  | BadJoinedUrl
  | BadReportBody
  | NonceMismatch
  | InvalidReport string
  | InjectedAlready
  | InjectFailed u16 string
  | BadInjectResponse

text \<open>
  One hop of a request. \<open>a_connect\<close> answers with the certificate of a new TLS handshake, or with
  none when there is no new handshake, over plain HTTP or on a connection that is still open.
\<close>

definition exchange ::
  "('x, 'c, 'k, 'e, 'n, 's) attest_env \<Rightarrow> client_request \<Rightarrow> snp_cert_verifier \<Rightarrow> 'x world \<Rightarrow>
   (client_error, client_response) result \<times> snp_cert_verifier \<times> 'x world" where
  "exchange A q v w =
     (case on_ext ConnectFailed (a_connect A (cq_url q)) w of
        (Inl e, w1) \<Rightarrow> (Err e, v, w1)
      | (Inr None, w1) \<Rightarrow> (case on_ext RequestFailed (a_send A q) w1 of (r, w2) \<Rightarrow> (r, v, w2))
      | (Inr (Some cert), w1) \<Rightarrow>
          (case verify_server_cert (a_x509 A) (a_hex A) (a_sha384 A) cert v of
             (Inl e, v1) \<Rightarrow> (Err (HandshakeFailed e), v1, w1)
           | (Inr _, v1) \<Rightarrow>
               if \<not> a_key_proof A cert (w_ext w1) then (Err KeyProofFailed, v1, w1)
               else (case on_ext RequestFailed (a_send A q) w1 of (r, w2) \<Rightarrow> (r, v1, w2))))"

text \<open>
  The request that a reply redirects to: only the five redirection statuses are looked at; the
  library reads the location from the reply, keeps method and body for 307 and 308, and may
  refuse. The default policy follows ten redirections and fails at the next one. All hops are
  made by one client, and so with one verifier.
\<close>

definition next_request ::
  "('x, 'c, 'k, 'e, 'n, 's) attest_env \<Rightarrow> client_request \<Rightarrow> client_response \<Rightarrow> (string, client_request) result option" where
  "next_request A q resp = (if cr_status resp \<in> {301, 302, 303, 307, 308} then a_redirect A q resp else None)"

fun follow ::
  "('x, 'c, 'k, 'e, 'n, 's) attest_env \<Rightarrow> nat \<Rightarrow> client_request \<Rightarrow> snp_cert_verifier \<Rightarrow> 'x world \<Rightarrow>
   (client_error, client_response) result \<times> snp_cert_verifier \<times> 'x world" where
  "follow A n q v w =
     (case exchange A q v w of
        (Inl e, v1, w1) \<Rightarrow> (Err e, v1, w1)
      | (Inr resp, v1, w1) \<Rightarrow>
          (case next_request A q resp of
             None \<Rightarrow> (Ok resp, v1, w1)
           | Some (Inl e) \<Rightarrow> (Err (RedirectFailed e), v1, w1)
           | Some (Inr q1) \<Rightarrow> (case n of 0 \<Rightarrow> (Err TooManyRedirects, v1, w1) | Suc m \<Rightarrow> follow A m q1 v1 w1)))"

declare follow.simps [simp del]

definition attested_send ::
  "('x, 'c, 'k, 'e, 'n, 's) attest_env \<Rightarrow> client_request \<Rightarrow> snp_cert_verifier \<Rightarrow> 'x world \<Rightarrow>
   (client_error, client_response) result \<times> snp_cert_verifier \<times> 'x world" where
  "attested_send A q v w = follow A 10 q v w"

definition verify_report_in ::
  "('x, 'c, 'k, 'e, 'n, 's) attest_env \<Rightarrow> attestation_report \<Rightarrow> string \<Rightarrow> 'x world \<Rightarrow>
   (client_error, verification_result) result \<times> 'x world" where
  "verify_report_in A report product w =
     apfst (map_err ReportVerification)
       (verify_sev_snp_report (a_kds A) (a_hex A) (a_sev A) (a_ssl A) report product w)"

section \<open>The exchanges\<close>

record attested_response =
  at_valid :: bool
  at_summary :: string
  at_measurement :: bytes
  at_status :: u16
  at_body :: string

definition attested_request ::
  "('x, 'c, 'k, 'e, 'n, 's) attest_env \<Rightarrow> string \<Rightarrow> string \<Rightarrow> bytes option \<Rightarrow> 'x world \<Rightarrow>
   (client_error, attested_response) result \<times> 'x world" where
  "attested_request A url product expected w =
     (if \<not> a_client_ok A then (Err ClientBuild, w)
      else case attested_send A \<lparr>cq_method = ''GET'', cq_url = url, cq_json = None\<rparr> (verifier_new expected) w of
        (Inl e, v, w1) \<Rightarrow> (Err e, w1)
      | (Inr response, v, w1) \<Rightarrow>
          bindE (map_err BodyUnreadable (cr_text response), w1) (\<lambda>body w.
          bindE (ok_or (sv_extracted_report v) NoReportExtracted, w) (\<lambda>report w.
          bindE (verify_report_in A report product w) (\<lambda>result w.
          (Ok \<lparr>at_valid = vr_valid result, at_summary = vr_summary result, at_measurement = vr_measurement result,
               at_status = cr_status response, at_body = body\<rparr>, w)))))"

definition fresh_attestation ::
  "('x, 'c, 'k, 'e, 'n, 's) attest_env \<Rightarrow> string \<Rightarrow> string \<Rightarrow> bytes option \<Rightarrow> 'x world \<Rightarrow>
   (client_error, attestation_report) result \<times> 'x world" where
  "fresh_attestation A base_url product expected w =
     (let nonce = a_nonce A (w_ext w); nonce_hex = hex_encode (a_hex A) nonce in
      if \<not> a_url_ok A base_url then (Err BadBaseUrl, w)
      else bindE (ok_or (a_url_join A base_url (''.well-known/attestation?nonce='' @ nonce_hex)) BadJoinedUrl, w) (\<lambda>url w.
      if \<not> a_client_ok A then (Err ClientBuild, w)
      else case attested_send A \<lparr>cq_method = ''GET'', cq_url = url, cq_json = None\<rparr> (verifier_new expected) w of
        (Inl e, v, w1) \<Rightarrow> (Err e, w1)
      | (Inr response, v, w1) \<Rightarrow>
          bindE (map_err BodyUnreadable (cr_text response), w1) (\<lambda>body w.
          bindE (ok_or (Option.bind (json_from_slice (a_x509 A) (bytes_of_string body)) (report_from_json (a_hex A))) BadReportBody, w) (\<lambda>report w.
          if take 32 (ar_report_data report) \<noteq> nonce then (Err NonceMismatch, w)
          else bindE (verify_report_in A report product w) (\<lambda>result w.
            if \<not> vr_valid result then (Err (InvalidReport (vr_summary result)), w) else (Ok report, w))))))"

definition secrets_map :: "(string \<times> string) list \<Rightarrow> (string, string) hmap" where
  "secrets_map secrets = foldl (\<lambda>m (k, v). hm_insert k v m) hm_empty secrets"

definition inject_request :: "string \<Rightarrow> (string \<times> string) list \<Rightarrow> client_request" where
  "inject_request url secrets =
     \<lparr>cq_method = ''POST'', cq_url = url, cq_json = Some (JObj (map (\<lambda>(k, s). (k, JStr s)) (secrets_map secrets)))\<rparr>"

definition parse_inject_response :: "x509_lib \<Rightarrow> string \<Rightarrow> string list option" where
  "parse_inject_response C body =
     Option.bind (json_from_slice C (bytes_of_string body)) (\<lambda>j.
     Option.bind (jget_array j ''injected'') (\<lambda>xs.
       if list_all (\<lambda>x. as_str x \<noteq> None) xs then Some (map (\<lambda>x. the (as_str x)) xs) else None))"

definition inject_secret ::
  "('x, 'c, 'k, 'e, 'n, 's) attest_env \<Rightarrow> string \<Rightarrow> string \<Rightarrow> bytes option \<Rightarrow> (string \<times> string) list \<Rightarrow> 'x world \<Rightarrow>
   (client_error, string list) result \<times> 'x world" where
  "inject_secret A base_url product expected secrets w =
     (if \<not> a_url_ok A base_url then (Err BadBaseUrl, w)
      else bindE (ok_or (a_url_join A base_url ''confidential/inject-secret'') BadJoinedUrl, w) (\<lambda>url w.
      if \<not> a_client_ok A then (Err ClientBuild, w)
      else case attested_send A (inject_request url secrets) (verifier_new expected) w of
        (Inl e, v, w1) \<Rightarrow> (Err e, w1)
      | (Inr response, v, w1) \<Rightarrow>
          bindE (ok_or (sv_extracted_report v) NoReportExtracted, w1) (\<lambda>report w.
          bindE (verify_report_in A report product w) (\<lambda>result w.
          if \<not> vr_valid result then (Err (InvalidReport (vr_summary result)), w)
          else if cr_status response = 409 then (Err InjectedAlready, w)
          else if cr_status response \<noteq> 200
          then (Err (InjectFailed (cr_status response) (case cr_text response of Inr t \<Rightarrow> t | Inl _ \<Rightarrow> [])), w)
          else (case cr_text response of
                  Inl _ \<Rightarrow> (Err BadInjectResponse, w)
                | Inr t \<Rightarrow> (ok_or (parse_inject_response (a_x509 A) t) BadInjectResponse, w))))))"

section \<open>Arguments\<close>

definition parse_expected_measurement :: "hex_lib \<Rightarrow> string option \<Rightarrow> bytes option option" where
  "parse_expected_measurement X arg =
     (case arg of None \<Rightarrow> Some None | Some s \<Rightarrow> map_option Some (hex_decode X s))"

definition parse_key_value :: "string \<Rightarrow> (string \<times> string) option" where
  "parse_key_value s = split_once CHR ''='' s"

section \<open>What an accepted exchange shows\<close>

lemma check_server_cert_Ok:
  "check_server_cert C X sha384 expected cert = Ok r \<longleftrightarrow>
     extract_attestation_from_cert C X cert = Ok (Some r) \<and>
     (\<exists>p. parse_certificate C cert = Some p \<and> ar_report_data r = key_report_data sha384 (pc_public_key p)) \<and>
     (\<forall>m. expected = Some m \<longrightarrow> ar_measurement r = m)"
  by (cases expected) (auto simp: check_server_cert_def key_report_data_def and_then_Ok Let_def split: if_splits)

text \<open>A handshake the client completed: certificate, report found in it, world after connecting.\<close>

definition handshake ::
  "('x, 'c, 'k, 'e, 'n, 's) attest_env \<Rightarrow> string \<Rightarrow> bytes option \<Rightarrow> 'x world \<Rightarrow> bytes \<Rightarrow> attestation_report \<Rightarrow> 'x world \<Rightarrow> bool" where
  "handshake A url expected w cert r w1 \<longleftrightarrow>
     on_ext ConnectFailed (a_connect A url) w = (Ok (Some cert), w1) \<and>
     check_server_cert (a_x509 A) (a_hex A) (a_sha384 A) expected cert = Ok r \<and> a_key_proof A cert (w_ext w1)"

lemma exchange_handshake:
  assumes "handshake A (cq_url q) (sv_expected_measurement v) w cert r w1" "on_ext RequestFailed (a_send A q) w1 = (Ok resp, w2)"
  shows "exchange A q v w = (Ok resp, v\<lparr>sv_extracted_report := Some r\<rparr>, w2)"
  using assms by (simp add: exchange_def handshake_def verify_server_cert_def)

lemma exchange_plain:
  assumes "on_ext ConnectFailed (a_connect A (cq_url q)) w = (Ok None, w1)" "on_ext RequestFailed (a_send A q) w1 = (Ok resp, w2)"
  shows "exchange A q v w = (Ok resp, v, w2)"
  using assms by (simp add: exchange_def)

lemma attested_send_last:
  assumes "exchange A q v w = (Ok resp, v', w')" "next_request A q resp = None"
  shows "attested_send A q v w = (Ok resp, v', w')"
  using assms by (simp add: attested_send_def follow.simps)

lemma attested_send_handshake:
  assumes "handshake A (cq_url q) expected w cert r w1" "on_ext RequestFailed (a_send A q) w1 = (Ok resp, w2)"
    and "next_request A q resp = None"
  shows "attested_send A q (verifier_new expected) w =
    (Ok resp, \<lparr>sv_extracted_report = Some r, sv_expected_measurement = expected\<rparr>, w2)"
  using attested_send_last [OF exchange_handshake assms(3), of "verifier_new expected"] assms(1,2)
  by (simp add: verifier_new_def)

lemma exchange_Ok:
  assumes "exchange A q v w = (Ok resp, v', w')"
  shows "(\<exists>cert r w1. handshake A (cq_url q) (sv_expected_measurement v) w cert r w1 \<and> v' = v\<lparr>sv_extracted_report := Some r\<rparr>) \<or>
    (\<exists>w1. on_ext ConnectFailed (a_connect A (cq_url q)) w = (Ok None, w1) \<and> v' = v)"
proof -
  obtain c w1 where c: "on_ext ConnectFailed (a_connect A (cq_url q)) w = (c, w1)" by fastforce
  show ?thesis
    using assms c
    by (cases c) (auto simp: exchange_def handshake_def verify_server_cert_def split: option.splits sum.splits if_splits prod.splits)
qed

text \<open>The hops of a request: the redirections that were followed, with verifier and world.\<close>

inductive redirected ::
  "('x, 'c, 'k, 'e, 'n, 's) attest_env \<Rightarrow> client_request \<Rightarrow> snp_cert_verifier \<Rightarrow> 'x world \<Rightarrow>
   client_request \<Rightarrow> snp_cert_verifier \<Rightarrow> 'x world \<Rightarrow> bool" for A where
  FirstHop: "redirected A q v w q v w"
| NextHop: "exchange A q v w = (Ok resp, v1, w1) \<Longrightarrow> next_request A q resp = Some (Ok q1) \<Longrightarrow>
    redirected A q1 v1 w1 q' v' w' \<Longrightarrow> redirected A q v w q' v' w'"

lemma follow_last_hop:
  assumes "follow A n q v w = (Ok resp, v', w')"
  shows "\<exists>qz vz wz. redirected A q v w qz vz wz \<and> exchange A qz vz wz = (Ok resp, v', w')"
  using assms
proof (induction n arbitrary: q v w)
  case 0
  then show ?case
    by (subst (asm) follow.simps) (auto split: prod.splits sum.splits option.splits intro: FirstHop)
next
  case (Suc n)
  from Suc.prems consider "exchange A q v w = (Ok resp, v', w')"
    | r v1 w1 q1 where "exchange A q v w = (Ok r, v1, w1)" "next_request A q r = Some (Ok q1)" "follow A n q1 v1 w1 = (Ok resp, v', w')"
    by (subst (asm) follow.simps) (auto split: prod.splits sum.splits option.splits)
  then show ?case
  proof cases
    case 1
    then show ?thesis using FirstHop by blast
  next
    case 2
    with Suc.IH [OF 2(3)] show ?thesis using NextHop by blast
  qed
qed

text \<open>The report kept after some hops is that of the last handshake among them.\<close>

lemma redirected_report:
  assumes "redirected A q v w q' v' w'"
  shows "sv_expected_measurement v' = sv_expected_measurement v \<and>
    (sv_extracted_report v' = sv_extracted_report v \<or>
     (\<exists>qa va wa cert r wb. redirected A q v w qa va wa \<and> handshake A (cq_url qa) (sv_expected_measurement v) wa cert r wb \<and>
        sv_extracted_report v' = Some r))"
  using assms
proof induction
  case (NextHop q v w resp v1 w1 q1 q' v' w')
  have step: "redirected A q1 v1 w1 qa va wa \<Longrightarrow> redirected A q v w qa va wa" for qa va wa
    using NextHop.hyps(1,2) by (rule redirected.NextHop)
  from exchange_Ok [OF NextHop.hyps(1)] show ?case
  proof (elim disjE exE conjE)
    fix cert r wb assume "handshake A (cq_url q) (sv_expected_measurement v) w cert r wb" "v1 = v\<lparr>sv_extracted_report := Some r\<rparr>"
    with NextHop.IH step redirected.FirstHop [of A q v w] show ?thesis by fastforce
  next
    fix wb assume "v1 = v"
    with NextHop.IH step show ?thesis by blast
  qed
qed simp

lemma verify_report_in_Ok:
  "verify_report_in A r product w = (Ok v, w') \<longleftrightarrow>
     verify_sev_snp_report (a_kds A) (a_hex A) (a_sev A) (a_ssl A) r product w = (Ok v, w')"
  by (simp add: verify_report_in_def)

lemma verified_report:
  assumes "verify_sev_snp_report K X V S r product w = (Ok v, w')"
  shows "\<exists>parsed vcek ask ark. sev_from_bytes V (ar_data r) = Some parsed \<and> sr_vmpl parsed \<le> 1 \<and>
    amd_chain S \<lparr>vcek_der = vcek, ask_der = ask, ark_der = ark\<rparr> \<and> signed_by S (ar_data r) vcek \<and>
    vr_valid v \<and> vr_measurement v = sr_measurement parsed"
proof -
  have "vr_valid (verified_result product p) \<and> vr_measurement (verified_result product p) = sr_measurement p" for p
    by (simp add: verified_result_def extract_measurement_def Let_def)
  with assms show ?thesis unfolding verify_sev_snp_report_Ok by blast
qed

section \<open>Properties\<close>

text \<open>
  C23: an attested request that succeeds has seen an attested server. On one of the connections
  that the request and its redirections opened, a TLS server proved possession of a key, with a
  certificate that carries a report whose report data name that very key and whose measurement
  field is the expected one, if one was given; the raw report in it is signed by a VCEK
  that chains up to a root naming itself AMD's, from a privilege level of at most 1, and the measurement
  handed to the caller is the one in the signed bytes. The status and body are those of the
  last hop: it is either the attested connection itself, or one without a handshake.
\<close>

theorem attested_request_sound:
  assumes "attested_request A url product expected w = (Ok resp, w')"
  shows "\<exists>qa va wa cert wb r p parsed vcek ask ark qz vz wz response vy wy.
    redirected A \<lparr>cq_method = ''GET'', cq_url = url, cq_json = None\<rparr> (verifier_new expected) w qa va wa \<and>
    on_ext ConnectFailed (a_connect A (cq_url qa)) wa = (Ok (Some cert), wb) \<and>
    a_key_proof A cert (w_ext wb) \<and> extract_attestation_from_cert (a_x509 A) (a_hex A) cert = Ok (Some r) \<and>
    parse_certificate (a_x509 A) cert = Some p \<and>
    ar_report_data r = key_report_data (a_sha384 A) (pc_public_key p) \<and>
    (\<forall>m. expected = Some m \<longrightarrow> ar_measurement r = m) \<and>
    sev_from_bytes (a_sev A) (ar_data r) = Some parsed \<and> sr_vmpl parsed \<le> 1 \<and>
    amd_chain (a_ssl A) \<lparr>vcek_der = vcek, ask_der = ask, ark_der = ark\<rparr> \<and> signed_by (a_ssl A) (ar_data r) vcek \<and>
    at_valid resp \<and> at_measurement resp = sr_measurement parsed \<and>
    redirected A \<lparr>cq_method = ''GET'', cq_url = url, cq_json = None\<rparr> (verifier_new expected) w qz vz wz \<and>
    exchange A qz vz wz = (Ok response, vy, wy) \<and> at_status resp = cr_status response \<and> cr_text response = Ok (at_body resp) \<and>
    ((qz, vz, wz) = (qa, va, wa) \<or> (\<exists>w2. on_ext ConnectFailed (a_connect A (cq_url qz)) wz = (Ok None, w2)))"
proof -
  let ?q = "\<lparr>cq_method = ''GET'', cq_url = url, cq_json = None\<rparr>" and ?v = "verifier_new expected"
  obtain response v w1 where s: "attested_send A ?q ?v w = (Ok response, v, w1)"
    using assms by (auto simp: attested_request_def split: if_splits prod.splits sum.splits)
  with assms obtain r result where r: "sv_extracted_report v = Some r"
      "verify_report_in A r product w1 = (Ok result, w')" "at_valid resp = vr_valid result"
      "at_measurement resp = vr_measurement result" "at_status resp = cr_status response" "cr_text response = Ok (at_body resp)"
    by (auto simp: attested_request_def bindE_Ok split: if_splits)
  obtain qz vz wz where z: "redirected A ?q ?v w qz vz wz" "exchange A qz vz wz = (Ok response, v, w1)"
    using follow_last_hop [OF s [unfolded attested_send_def]] by blast
  have new: "sv_expected_measurement ?v = expected" "sv_extracted_report ?v = None" by (simp_all add: verifier_new_def)
  note hops = redirected_report [OF z(1), unfolded new]
  obtain qa va wa cert wb where a: "redirected A ?q ?v w qa va wa" "handshake A (cq_url qa) expected wa cert r wb"
      "(qz, vz, wz) = (qa, va, wa) \<or> (\<exists>w2. on_ext ConnectFailed (a_connect A (cq_url qz)) wz = (Ok None, w2))"
    using exchange_Ok [OF z(2)] hops r(1) z(1) by auto
  then have h: "on_ext ConnectFailed (a_connect A (cq_url qa)) wa = (Ok (Some cert), wb)" "a_key_proof A cert (w_ext wb)"
      "check_server_cert (a_x509 A) (a_hex A) (a_sha384 A) expected cert = Ok r"
    by (simp_all add: handshake_def)
  obtain p where p: "extract_attestation_from_cert (a_x509 A) (a_hex A) cert = Ok (Some r)"
      "parse_certificate (a_x509 A) cert = Some p" "ar_report_data r = key_report_data (a_sha384 A) (pc_public_key p)"
      "\<forall>m. expected = Some m \<longrightarrow> ar_measurement r = m"
    using h(3) by (auto simp: check_server_cert_Ok)
  obtain parsed vcek ask ark where "sev_from_bytes (a_sev A) (ar_data r) = Some parsed" "sr_vmpl parsed \<le> 1"
      "amd_chain (a_ssl A) \<lparr>vcek_der = vcek, ask_der = ask, ark_der = ark\<rparr>" "signed_by (a_ssl A) (ar_data r) vcek"
      "at_valid resp" "at_measurement resp = sr_measurement parsed"
    using verified_report [OF r(2) [unfolded verify_report_in_Ok]] r(3,4) by auto
  with a(1,3) h(1,2) p r(5,6) z show ?thesis by blast
qed

text \<open>
  The two sides fit: the client's verifier accepts the certificate of every identity the
  agent generates and keeps the agent's report, provided no other measurement is expected.
\<close>

theorem agent_identity_accepted:
  assumes "x509_lib_ok C X" "rcgen_ok C R" "firmware_binds V" "\<And>b. length (sha384 b) = 48"
    and "generate_attested_tls_identity C X sha384 V R B = Ok i"
    and "sv_expected_measurement v \<in> {None, Some (ar_measurement (id_report i))}"
  shows "verify_server_cert C X sha384 (id_cert_der i) v = (Ok (), v\<lparr>sv_extracted_report := Some (id_report i)\<rparr>)"
proof -
  have "check_server_cert C X sha384 (sv_expected_measurement v) (id_cert_der i) = Ok (id_report i)"
    using identity_in_cert [OF assms(1-5)] assms(6) by (auto simp: check_server_cert_Ok)
  then show ?thesis by (simp add: verify_server_cert_def)
qed

theorem agent_identity_accepted_witness:
  "verify_server_cert demo_x509 demo_hex demo_sha (id_cert_der demo_identity) (verifier_new None) =
     (Ok (), (verifier_new None)\<lparr>sv_extracted_report := Some (id_report demo_identity)\<rparr>)"
  by (rule agent_identity_accepted [OF demo_x509_ok demo_rcgen_ok demo_sev_binds demo_sha_length demo_identity])
     (simp add: verifier_new_def)

lemma verify_reads_data: "ar_data r = ar_data r' \<Longrightarrow> verify_report_in A r product w = verify_report_in A r' product w"
  by (simp add: verify_report_in_def verify_sev_snp_report_def)

text \<open>
  C27: the fields the client compares are not authenticated. Whoever has one genuine signed
  report, of any machine, measurement and key, can put its raw bytes into a report that names
  his own key and the expected measurement; the client then accepts the connection and
  declares the attestation valid, although the signed bytes name neither.
\<close>

theorem report_fields_unauthenticated:
  assumes genuine: "verify_report_in A g product w2 = (Ok v, w')"
    and forged: "extract_attestation_from_cert (a_x509 A) (a_hex A) cert =
      Ok (Some (g\<lparr>ar_report_data := key_report_data (a_sha384 A) (pc_public_key p), ar_measurement := m\<rparr>))"
    and cert: "parse_certificate (a_x509 A) cert = Some p" "a_client_ok A" "a_key_proof A cert (w_ext w1)"
    and conn: "on_ext ConnectFailed (a_connect A url) w = (Ok (Some cert), w1)"
    and reply: "on_ext RequestFailed (a_send A \<lparr>cq_method = ''GET'', cq_url = url, cq_json = None\<rparr>) w1 = (Ok resp, w2)"
      "cr_text resp = Ok body" "next_request A \<lparr>cq_method = ''GET'', cq_url = url, cq_json = None\<rparr> resp = None"
  shows "\<exists>r. attested_request A url product (Some m) w = (Ok r, w') \<and> at_valid r \<and> at_measurement r = vr_measurement v"
proof -
  let ?f = "g\<lparr>ar_report_data := key_report_data (a_sha384 A) (pc_public_key p), ar_measurement := m\<rparr>"
  have "handshake A url (Some m) w cert ?f w1"
    using forged cert conn by (simp add: handshake_def check_server_cert_Ok)
  then have "attested_send A \<lparr>cq_method = ''GET'', cq_url = url, cq_json = None\<rparr> (verifier_new (Some m)) w =
      (Ok resp, \<lparr>sv_extracted_report = Some ?f, sv_expected_measurement = Some m\<rparr>, w2)"
    using reply(1,3) by (intro attested_send_handshake) simp_all
  moreover have "verify_report_in A ?f product w2 = (Ok v, w')"
    using genuine verify_reads_data [of ?f g A product w2] by simp
  moreover have "vr_valid v" using verified_report [OF genuine [unfolded verify_report_in_Ok]] by blast
  ultimately show ?thesis using cert(2) reply(2) by (simp add: attested_request_def)
qed

text \<open>
  C28: secrets are sent before the report is verified: once the handshake check on the report
  fields passed, the secrets are posted, and only then is the AMD chain checked. If it fails,
  the command reports an error, but the server has the secrets. Over plain HTTP they are
  posted with no check at all.
\<close>

theorem secrets_sent_before_verification:
  assumes "a_url_ok A base" "a_url_join A base ''confidential/inject-secret'' = Some url" "a_client_ok A"
    and "on_ext RequestFailed (a_send A (inject_request url secrets)) w1 = (Ok resp, w2)"
    and "next_request A (inject_request url secrets) resp = None"
  shows "(handshake A url expected w cert r w1 \<and> verify_report_in A r product w2 = (Err e, w3) \<longrightarrow>
       inject_secret A base product expected secrets w = (Err e, w3)) \<and>
    (on_ext ConnectFailed (a_connect A url) w = (Ok None, w1) \<longrightarrow>
       inject_secret A base product expected secrets w = (Err NoReportExtracted, w2))"
proof (intro conjI impI)
  assume h: "handshake A url expected w cert r w1 \<and> verify_report_in A r product w2 = (Err e, w3)"
  then have "attested_send A (inject_request url secrets) (verifier_new expected) w =
      (Ok resp, \<lparr>sv_extracted_report = Some r, sv_expected_measurement = expected\<rparr>, w2)"
    using assms(4,5) by (intro attested_send_handshake [of _ _ _ _ cert]) (simp_all add: inject_request_def)
  with h assms show "inject_secret A base product expected secrets w = (Err e, w3)"
    by (simp add: inject_secret_def)
next
  assume "on_ext ConnectFailed (a_connect A url) w = (Ok None, w1)"
  then have "attested_send A (inject_request url secrets) (verifier_new expected) w = (Ok resp, verifier_new expected, w2)"
    using assms(4,5) by (intro attested_send_last exchange_plain) (simp_all add: inject_request_def)
  with assms show "inject_secret A base product expected secrets w = (Err NoReportExtracted, w2)"
    by (simp add: inject_secret_def verifier_new_def)
qed

lemma attested_send_redirected:
  assumes "exchange A q v w = (Ok resp, v1, w1)" "next_request A q resp = Some (Ok q1)"
    and "exchange A q1 v1 w1 = (Ok resp1, v2, w2)" "next_request A q1 resp1 = None"
  shows "attested_send A q v w = (Ok resp1, v2, w2)"
proof -
  have "follow A 10 q v w = follow A 9 q1 v1 w1" using assms(1,2) by (subst follow.simps) simp
  also have "\<dots> = (Ok resp1, v2, w2)" using assms(3,4) by (subst follow.simps) simp
  finally show ?thesis by (simp add: attested_send_def)
qed

abbreviation get_request :: "string \<Rightarrow> client_request" where
  "get_request url \<equiv> \<lparr>cq_method = ''GET'', cq_url = url, cq_json = None\<rparr>"

text \<open>A server that redirects a request, and one that answers it.\<close>

definition moved_to ::
  "('x, 'c, 'k, 'e, 'n, 's) attest_env \<Rightarrow> client_request \<Rightarrow> 'x world \<Rightarrow> client_request \<Rightarrow> 'x world \<Rightarrow> bool" where
  "moved_to A q w q' w' \<longleftrightarrow>
     (\<exists>resp. on_ext RequestFailed (a_send A q) w = (Ok resp, w') \<and> next_request A q resp = Some (Ok q'))"

definition answered ::
  "('x, 'c, 'k, 'e, 'n, 's) attest_env \<Rightarrow> client_request \<Rightarrow> 'x world \<Rightarrow> client_response \<Rightarrow> 'x world \<Rightarrow> bool" where
  "answered A q w resp w' \<longleftrightarrow> on_ext RequestFailed (a_send A q) w = (Ok resp, w') \<and> next_request A q resp = None"

lemma redirected_to_plain:
  assumes "handshake A (cq_url q) expected w cert r w1" "moved_to A q w1 q' w2"
    and "on_ext ConnectFailed (a_connect A (cq_url q')) w2 = (Ok None, w3)" "answered A q' w3 resp w4"
  shows "attested_send A q (verifier_new expected) w =
    (Ok resp, \<lparr>sv_extracted_report = Some r, sv_expected_measurement = expected\<rparr>, w4)"
proof -
  let ?v = "\<lparr>sv_extracted_report = Some r, sv_expected_measurement = expected\<rparr>"
  obtain moved where m: "on_ext RequestFailed (a_send A q) w1 = (Ok moved, w2)" "next_request A q moved = Some (Ok q')"
    using assms(2) by (auto simp: moved_to_def)
  have e: "on_ext RequestFailed (a_send A q') w3 = (Ok resp, w4)" "next_request A q' resp = None"
    using assms(4) by (simp_all only: answered_def)
  have "exchange A q (verifier_new expected) w = (Ok moved, ?v, w2)"
    using exchange_handshake [of A q "verifier_new expected"] assms(1) m(1) by (simp add: verifier_new_def)
  from attested_send_redirected [OF this m(2) exchange_plain [OF assms(3) e(1)] e(2)] show ?thesis .
qed

text \<open>
  C29: an attested first hop stands for what later hops do. When an attested server
  redirects, the client follows to a plain HTTP server with no check: the body it hands out
  comes from there, yet the attestation is reported valid with the measurement of the first
  server. Secrets that are redirected with their body are posted there as well, and the command
  succeeds on the answer.
\<close>

theorem redirect_escapes_attestation:
  assumes "a_client_ok A" "handshake A url expected w cert r w1"
    and "on_ext ConnectFailed (a_connect A elsewhere) w2 = (Ok None, w3)"
    and "cr_text resp = Ok body" "verify_report_in A r product w4 = (Ok v, w5)"
  shows "(moved_to A (get_request url) w1 (get_request elsewhere) w2 \<and> answered A (get_request elsewhere) w3 resp w4 \<longrightarrow>
      (\<exists>a. attested_request A url product expected w = (Ok a, w5) \<and>
        at_valid a \<and> at_measurement a = vr_measurement v \<and> at_status a = cr_status resp \<and> at_body a = body)) \<and>
    (moved_to A (inject_request url secrets) w1 (inject_request elsewhere secrets) w2 \<and>
      answered A (inject_request elsewhere secrets) w3 resp w4 \<and> cr_status resp = 200 \<and>
      parse_inject_response (a_x509 A) body = Some keys \<and>
      a_url_ok A base \<and> a_url_join A base ''confidential/inject-secret'' = Some url \<longrightarrow>
      inject_secret A base product expected secrets w = (Ok keys, w5))"
proof -
  have "vr_valid v" using verified_report [OF assms(5) [unfolded verify_report_in_Ok]] by blast
  moreover have "attested_send A q (verifier_new expected) w =
      (Ok resp, \<lparr>sv_extracted_report = Some r, sv_expected_measurement = expected\<rparr>, w4)"
    if "moved_to A q w1 q' w2 \<and> answered A q' w3 resp w4" "cq_url q = url" "cq_url q' = elsewhere" for q q'
    using that assms(2,3) by (intro redirected_to_plain) auto
  ultimately show ?thesis
    using assms(1,4,5) by (auto simp: attested_request_def inject_secret_def inject_request_def)
qed

section \<open>Witnesses\<close>

text \<open>
  A client whose key distribution service answers without a cache, whose signature library
  says what \<open>good\<close> says, and whose server presents a given certificate and keeps the requests.
\<close>

definition demo_attest ::
  "bool \<Rightarrow> bytes \<Rightarrow> (client_request list, bytes, bytes, bytes, bytes, bytes) attest_env" where
  "demo_attest good cert = \<lparr>a_kds = log_kds, a_hex = demo_hex, a_sev = demo_sev, a_ssl = demo_ssl good, a_x509 = demo_x509,
     a_sha384 = demo_sha, a_nonce = (\<lambda>_. replicate 32 5), a_url_ok = (\<lambda>_. True), a_url_join = (\<lambda>b p. Some (b @ p)),
     a_client_ok = True, a_connect = (\<lambda>url x. (Ok (Some cert), x)), a_key_proof = (\<lambda>_ _. True),
     a_send = (\<lambda>q x. (Ok \<lparr>cr_status = 200, cr_text = Ok ''hello''\<rparr>, q # x)), a_redirect = (\<lambda>q r. None)\<rparr>"

definition log_world :: "client_request list world" where
  "log_world = \<lparr>w_fs = \<lparr>fs_files = hm_empty, fs_dirs = [], fs_clock = 0\<rparr>, w_ext = []\<rparr>"

lemma demo_verify:
  assumes "length (ar_data r) = 1184"
  shows "verify_report_in (demo_attest good cert) r product w =
    (if good then Ok (verified_result product (the (sev_from_bytes demo_sev (ar_data r))))
     else Err (ReportVerification (SignatureFailed InvalidSignature)), w)"
  using assms demo_chain [of good]
  by (simp add: verify_report_in_def verify_sev_snp_report_def demo_attest_def parse_sev_snp_report_def report_size_def
      demo_sev_def log_kds_fetch verify_cert_chain_Ok [THEN iffD2] verify_report_signature_def signed_report_size_def
      demo_ssl_def Let_def)

lemma demo_attest_simps [simp]:
  "a_x509 (demo_attest good cert) = demo_x509" "a_hex (demo_attest good cert) = demo_hex"
  "a_sha384 (demo_attest good cert) = demo_sha" "a_client_ok (demo_attest good cert)"
  "a_key_proof (demo_attest good cert) c x" "a_url_ok (demo_attest good cert) u"
  "a_url_join (demo_attest good cert) b p = Some (b @ p)"
  "on_ext ConnectFailed (a_connect (demo_attest good cert) u) w = (Ok (Some cert), w)"
  "on_ext RequestFailed (a_send (demo_attest good cert) q) w =
     (Ok \<lparr>cr_status = 200, cr_text = Ok ''hello''\<rparr>, w\<lparr>w_ext := q # w_ext w\<rparr>)"
  "next_request (demo_attest good cert) q r = None"
  by (simp_all add: demo_attest_def on_ext_def next_request_def)

text \<open>The certificate of a server that holds a genuine report of another machine and its own key.\<close>

definition stolen_report :: attestation_report where
  "stolen_report = \<lparr>ar_tee_type = SevSnp, ar_data = replicate 1184 9, ar_report_data = replicate 64 9, ar_measurement = replicate 48 9\<rparr>"

definition forged_report :: attestation_report where
  "forged_report = stolen_report\<lparr>ar_report_data := key_report_data demo_sha [1, 2], ar_measurement := [7]\<rparr>"

definition forged_cert :: bytes where
  "forged_cert = 2 # 1 # 2 # projr (encode_attestation_extension demo_x509 demo_hex forged_report)"

lemma forged_cert:
  "parse_certificate demo_x509 forged_cert =
     Some \<lparr>pc_extensions = [(map ucast attestation_oid, projr (encode_attestation_extension demo_x509 demo_hex forged_report))],
           pc_public_key = [1, 2]\<rparr>"
  "extract_attestation_from_cert demo_x509 demo_hex forged_cert = Ok (Some forged_report)"
proof -
  let ?e = "projr (encode_attestation_extension demo_x509 demo_hex forged_report)"
  have "parse_certificate demo_x509 (2 # 1 # 2 # e) =
     Some \<lparr>pc_extensions = [(map ucast attestation_oid, e)], pc_public_key = [1, 2]\<rparr>" for e
    by (simp add: demo_x509_def)
  then show p: "parse_certificate demo_x509 forged_cert =
     Some \<lparr>pc_extensions = [(map ucast attestation_oid, ?e)], pc_public_key = [1, 2]\<rparr>"
    unfolding forged_cert_def .
  have "encode_attestation_extension demo_x509 demo_hex forged_report = Ok ?e"
    by (simp add: encode_attestation_extension_def demo_x509_def)
  then have "decode_attestation_extension demo_x509 demo_hex ?e = Ok forged_report"
    by (rule extension_round_trip [OF demo_x509_ok])
       (simp add: forged_report_def key_report_data_def length_pad64 demo_sha_length)
  moreover have "oid_from demo_x509 attestation_oid = Some (map ucast attestation_oid)" by (simp add: demo_x509_def)
  ultimately show "extract_attestation_from_cert demo_x509 demo_hex forged_cert = Ok (Some forged_report)"
    by (simp add: extract_attestation_from_cert_def p)
qed

lemma forged_genuine:
  "verify_report_in (demo_attest True forged_cert) stolen_report ''Genoa'' w =
     (Ok (verified_result ''Genoa'' (the (sev_from_bytes demo_sev (ar_data stolen_report)))), w)"
  by (subst demo_verify) (simp_all add: stolen_report_def)

theorem report_fields_unauthenticated_witness:
  "case attested_request (demo_attest True forged_cert) ''https://vm'' ''Genoa'' (Some [7]) log_world of
     (Inr r, w) \<Rightarrow> at_valid r \<and> at_measurement r = replicate 48 9 | _ \<Rightarrow> False"
proof -
  let ?q = "\<lparr>cq_method = ''GET'', cq_url = ''https://vm'', cq_json = None\<rparr>"
  have m: "vr_measurement (verified_result ''Genoa'' (the (sev_from_bytes demo_sev (ar_data stolen_report)))) = replicate 48 9"
    by (simp add: verified_result_def extract_measurement_def demo_sev_def stolen_report_def Let_def)
  have "\<exists>r. attested_request (demo_attest True forged_cert) ''https://vm'' ''Genoa'' (Some [7]) log_world =
      (Ok r, log_world\<lparr>w_ext := ?q # w_ext log_world\<rparr>) \<and> at_valid r \<and> at_measurement r = replicate 48 9"
    unfolding m [symmetric]
    by (rule report_fields_unauthenticated [OF forged_genuine, where
          p = "\<lparr>pc_extensions = [(map ucast attestation_oid, projr (encode_attestation_extension demo_x509 demo_hex forged_report))],
            pc_public_key = [1, 2]\<rparr>" and cert = forged_cert and resp = "\<lparr>cr_status = 200, cr_text = Ok ''hello''\<rparr>"])
       (simp_all add: forged_cert, simp add: forged_report_def)
  then show ?thesis by auto
qed

lemma forged_handshake: "handshake (demo_attest good forged_cert) url (Some [7]) w forged_cert forged_report w"
  by (simp add: handshake_def check_server_cert_Ok forged_cert) (simp add: forged_report_def)

theorem secrets_sent_before_verification_witness:
  "let r = inject_secret (demo_attest False forged_cert) ''https://vm/'' ''Genoa'' (Some [7]) [(''luks'', ''key'')] log_world
   in fst r = Err (ReportVerification (SignatureFailed InvalidSignature)) \<and>
      map cq_json (w_ext (snd r)) = [Some (JObj [(''luks'', JStr ''key'')])]"
proof -
  let ?url = "''https://vm/confidential/inject-secret''" and ?A = "demo_attest False forged_cert"
  let ?w2 = "log_world\<lparr>w_ext := inject_request ?url [(''luks'', ''key'')] # w_ext log_world\<rparr>"
  have "verify_report_in ?A forged_report ''Genoa'' ?w2 = (Err (ReportVerification (SignatureFailed InvalidSignature)), ?w2)"
    by (subst demo_verify) (simp_all add: forged_report_def stolen_report_def)
  then have "inject_secret ?A ''https://vm/'' ''Genoa'' (Some [7]) [(''luks'', ''key'')] log_world =
      (Err (ReportVerification (SignatureFailed InvalidSignature)), ?w2)"
    using secrets_sent_before_verification [of ?A "''https://vm/''" ?url "[(''luks'', ''key'')]" log_world
        "\<lparr>cr_status = 200, cr_text = Ok ''hello''\<rparr>" ?w2 "Some [7]" log_world forged_cert forged_report "''Genoa''"]
      forged_handshake by simp
  then show ?thesis by (simp add: Let_def log_world_def inject_request_def secrets_map_def hm_insert_def hm_remove_def)
qed

theorem attested_request_sound_witness:
  "\<exists>r. fst (attested_request (demo_attest True forged_cert) ''https://vm'' ''Genoa'' None log_world) = Ok r \<and> at_valid r"
proof -
  let ?A = "demo_attest True forged_cert"
  let ?q = "\<lparr>cq_method = ''GET'', cq_url = ''https://vm'', cq_json = None\<rparr>"
  have h: "handshake ?A (cq_url ?q) None log_world forged_cert forged_report log_world"
    by (simp add: handshake_def check_server_cert_Ok forged_cert) (simp add: forged_report_def)
  have "attested_send ?A ?q (verifier_new None) log_world =
      (Ok \<lparr>cr_status = 200, cr_text = Ok ''hello''\<rparr>, \<lparr>sv_extracted_report = Some forged_report, sv_expected_measurement = None\<rparr>,
       log_world\<lparr>w_ext := ?q # w_ext log_world\<rparr>)"
    by (rule attested_send_handshake [OF h]) simp_all
  moreover have "verify_report_in ?A forged_report ''Genoa'' w =
      (Ok (verified_result ''Genoa'' (the (sev_from_bytes demo_sev (ar_data forged_report)))), w)" for w
    by (subst demo_verify) (simp_all add: forged_report_def stolen_report_def)
  ultimately obtain r w' where r: "attested_request ?A ''https://vm'' ''Genoa'' None log_world = (Ok r, w')"
    by (simp add: attested_request_def)
  from attested_request_sound [OF r] r show ?thesis by auto
qed

text \<open>An attested server that redirects every request, with its body, to a plain HTTP server.\<close>

definition moving_attest :: "bytes \<Rightarrow> (client_request list, bytes, bytes, bytes, bytes, bytes) attest_env" where
  "moving_attest cert = (demo_attest True cert)\<lparr>
     a_connect := (\<lambda>url x. (Ok (if starts_with url ''https:'' then Some cert else None), x)),
     a_send := (\<lambda>q x. (Ok (if starts_with (cq_url q) ''https:'' then \<lparr>cr_status = 307, cr_text = Ok []\<rparr>
       else \<lparr>cr_status = 200, cr_text = Ok ''from elsewhere''\<rparr>), q # x)),
     a_redirect := (\<lambda>q r. Some (Ok (q\<lparr>cq_url := ''http://other''\<rparr>)))\<rparr>"

theorem redirect_escapes_attestation_witness:
  "case attested_request (moving_attest forged_cert) ''https://vm'' ''Genoa'' (Some [7]) log_world of
     (Inr a, w) \<Rightarrow> at_valid a \<and> at_body a = ''from elsewhere'' | _ \<Rightarrow> False"
proof -
  let ?A = "moving_attest forged_cert" and ?q = "get_request ''https://vm''" and ?q' = "get_request ''http://other''"
  let ?w2 = "log_world\<lparr>w_ext := [?q]\<rparr>" and ?w4 = "log_world\<lparr>w_ext := [?q', ?q]\<rparr>"
  have same: "verify_report_in ?A = verify_report_in (demo_attest True forged_cert)" "a_x509 ?A = demo_x509" "a_hex ?A = demo_hex"
      "a_sha384 ?A = demo_sha" "a_client_ok ?A"
    by (simp_all add: moving_attest_def verify_report_in_def fun_eq_iff)
  have h: "handshake ?A ''https://vm'' (Some [7]) log_world forged_cert forged_report log_world"
    by (simp add: handshake_def check_server_cert_Ok same forged_cert)
       (simp add: forged_report_def moving_attest_def on_ext_def starts_with_def log_world_def)
  have c: "on_ext ConnectFailed (a_connect ?A ''http://other'') ?w2 = (Ok None, ?w2)"
    by (simp add: moving_attest_def on_ext_def starts_with_def)
  have v: "verify_report_in ?A forged_report ''Genoa'' ?w4 =
      (Ok (verified_result ''Genoa'' (the (sev_from_bytes demo_sev (ar_data forged_report)))), ?w4)"
    unfolding same by (subst demo_verify) (simp_all add: forged_report_def stolen_report_def)
  have "moved_to ?A ?q log_world ?q' ?w2" "answered ?A ?q' ?w2 \<lparr>cr_status = 200, cr_text = Ok ''from elsewhere''\<rparr> ?w4"
    by (simp_all add: moved_to_def answered_def next_request_def moving_attest_def on_ext_def starts_with_def log_world_def)
  with redirect_escapes_attestation [OF same(5) h c, of "\<lparr>cr_status = 200, cr_text = Ok ''from elsewhere''\<rparr>", OF _ v]
  show ?thesis by fastforce
qed

end
