(* ===== verification/Secrets.thy ===== *)
theory Secrets
  imports Filesystem
begin

text \<open>
  Secret injection into a confidential VM (\<^verbatim>\<open>crates/aleph-attest-agent/src/secrets.rs\<close>): a
  one-shot endpoint that writes each secret to a file of its own. The injection lock holds
  whether secrets were injected; the lock can be poisoned by a panic elsewhere, which the
  handler reports. The secrets of a request are a map in its iteration order.
\<close>

section \<open>The handler\<close>

definition secrets_dir :: path where
  "secrets_dir = ''/tmp/secrets''"

definition max_secrets :: nat where
  "max_secrets = 16"

definition max_key_len :: nat where
  "max_key_len = 64"

definition max_value_size :: nat where
  "max_value_size = 64 * 1024"

datatype inject_reply =
    InternalLockError
  | AlreadyInjected
  | NoSecrets
  | TooManySecrets nat
  | BadKeyLength nat
  | InvalidKey string
  | ValueTooLarge string nat
  | SecretsDirFailed
  | SecretWriteFailed string
  | Injected "string list"

record inject_state =
  is_poisoned :: bool
  is_injected :: bool
  is_fs :: filesystem

definition key_char :: "char \<Rightarrow> bool" where
  "key_char c = (is_ascii_alphanumeric c \<or> c = CHR ''_'' \<or> c = CHR ''-'')"

fun validate_secrets :: "(string \<times> string) list \<Rightarrow> inject_reply option" where
  "validate_secrets [] = None"
| "validate_secrets ((key, value) # rest) =
     (if key = [] \<or> length key > max_key_len then Some (BadKeyLength (length key))
      else if \<not> list_all key_char key then Some (InvalidKey key)
      else if length value > max_value_size then Some (ValueTooLarge key (length value))
      else validate_secrets rest)"

fun write_secrets ::
  "io_env \<Rightarrow> (string \<times> string) list \<Rightarrow> string list \<Rightarrow> filesystem \<Rightarrow> inject_reply \<times> filesystem" where
  "write_secrets I [] injected fs = (Injected injected, fs)"
| "write_secrets I ((key, value) # rest) injected fs =
     (case run_steps I [Create (path_join secrets_dir key), WriteAll (path_join secrets_dir key) value] fs of
        (Inl e, fs') \<Rightarrow> (SecretWriteFailed key, fs')
      | (Inr _, fs') \<Rightarrow> write_secrets I rest (injected @ [key]) fs')"

definition inject_secret_handler ::
  "io_env \<Rightarrow> (string, string) hmap \<Rightarrow> inject_state \<Rightarrow> inject_reply \<times> inject_state" where
  "inject_secret_handler I secrets s =
     (if is_poisoned s then (InternalLockError, s)
      else if is_injected s then (AlreadyInjected, s)
      else if secrets = [] then (NoSecrets, s)
      else if length secrets > max_secrets then (TooManySecrets (length secrets), s)
      else case validate_secrets secrets of
        Some reply \<Rightarrow> (reply, s)
      | None \<Rightarrow>
          (case fs_exec I (Mkdir secrets_dir) (is_fs s) of
             (Inl e, fs1) \<Rightarrow> (SecretsDirFailed, s\<lparr>is_fs := fs1\<rparr>)
           | (Inr _, fs1) \<Rightarrow>
               (case write_secrets I secrets [] fs1 of
                  (reply, fs2) \<Rightarrow> (reply, s\<lparr>is_injected := True, is_fs := fs2\<rparr>))))"

text \<open>A sequence of requests, with the replies.\<close>

fun serve_injections ::
  "io_env \<Rightarrow> (string, string) hmap list \<Rightarrow> inject_state \<Rightarrow> inject_reply list \<times> inject_state" where
  "serve_injections I [] s = ([], s)"
| "serve_injections I (q # qs) s =
     (case inject_secret_handler I q s of (r, s1) \<Rightarrow>
        (case serve_injections I qs s1 of (rs, s2) \<Rightarrow> (r # rs, s2)))"

section \<open>Validation\<close>

definition good_secret :: "string \<times> string \<Rightarrow> bool" where
  "good_secret kv \<longleftrightarrow> fst kv \<noteq> [] \<and> length (fst kv) \<le> 64 \<and> list_all key_char (fst kv) \<and> length (snd kv) \<le> 65536"

lemma validate_secrets_None: "validate_secrets kvs = None \<longleftrightarrow> (\<forall>kv \<in> set kvs. good_secret kv)"
  by (induction kvs rule: validate_secrets.induct)
     (auto simp: good_secret_def max_key_len_def max_value_size_def)

lemma validate_secrets_not_Injected: "validate_secrets kvs \<noteq> Some (Injected ks)"
  by (induction kvs rule: validate_secrets.induct) auto

lemma key_char_no_separator: "list_all key_char k \<Longrightarrow> CHR ''/'' \<notin> set k \<and> CHR ''.'' \<notin> set k"
  by (auto simp: list_all_iff key_char_def is_ascii_alphanumeric_def is_ascii_digit_def is_ascii_lowercase_def
      is_ascii_uppercase_def)

lemma secret_path: "good_secret (k, v) \<Longrightarrow> path_join secrets_dir k = ''/tmp/secrets/'' @ k"
  using key_char_no_separator [of k]
  by (cases k) (auto simp: good_secret_def path_join_def starts_with_def secrets_dir_def)

section \<open>Writing\<close>

lemma write_one_Ok:
  "run_steps I [Create p, WriteAll p v] fs = (Ok u, fs') \<Longrightarrow> fs_content fs' q = (if q = p then Some v else fs_content fs q)"
  using fs_write_Ok [of I p v fs fs' q] by (simp add: fs_write_def)

text \<open>The files a request may touch, and what it leaves in them when it is served.\<close>

lemma write_secrets_frame:
  "\<forall>kv \<in> set kvs. q \<noteq> path_join secrets_dir (fst kv) \<Longrightarrow>
   fs_content (snd (write_secrets I kvs acc fs)) q = fs_content fs q"
proof (induction I kvs acc fs rule: write_secrets.induct)
  case (2 I key v rest acc fs)
  let ?r = "run_steps I [Create (path_join secrets_dir key), WriteAll (path_join secrets_dir key) v] fs"
  have frame: "fs_content (snd ?r) q = fs_content fs q"
    by (rule run_steps_frame) (use "2.prems" in auto)
  obtain r fs1 where r: "?r = (r, fs1)" by (cases ?r)
  show ?case
  proof (cases r)
    case (Inl e)
    with r frame show ?thesis by (simp del: run_steps.simps)
  next
    case (Inr u)
    have "fs_content (snd (write_secrets I rest (acc @ [key]) fs1)) q = fs_content fs1 q"
      using "2.prems" by (intro "2.IH" [OF r [symmetric] Inr]) simp
    with frame show ?thesis by (simp only: write_secrets.simps r Inr prod.case sum.case snd_conv)
  qed
qed simp

lemma write_secrets_reply: "(\<exists>k. fst (write_secrets I kvs acc fs) = SecretWriteFailed k) \<or> (\<exists>ks. fst (write_secrets I kvs acc fs) = Injected ks)"
  by (induction I kvs acc fs rule: write_secrets.induct) (auto simp del: run_steps.simps split: prod.splits sum.splits)

lemma write_secrets_Injected:
  "write_secrets I kvs acc fs = (Injected ks, fs') \<Longrightarrow> distinct (map fst kvs) \<Longrightarrow>
   \<forall>kv \<in> set kvs. good_secret kv \<Longrightarrow>
   ks = acc @ map fst kvs \<and> (\<forall>(k, v) \<in> set kvs. fs_content fs' (''/tmp/secrets/'' @ k) = Some v)"
proof (induction I kvs acc fs rule: write_secrets.induct)
  case (2 I key v rest acc fs)
  let ?p = "path_join secrets_dir key"
  obtain fs1 where fs1: "run_steps I [Create ?p, WriteAll ?p v] fs = (Ok (), fs1)"
      "write_secrets I rest (acc @ [key]) fs1 = (Injected ks, fs')"
    using "2.prems"(1) by (auto simp del: run_steps.simps split: prod.splits sum.splits)
  have p: "?p = ''/tmp/secrets/'' @ key" using "2.prems"(3) secret_path [of key v] by auto
  have "?p \<noteq> path_join secrets_dir (fst kv)" if kv: "kv \<in> set rest" for kv
  proof -
    have "good_secret (fst kv, snd kv)" using "2.prems"(3) kv by simp
    then have "path_join secrets_dir (fst kv) = ''/tmp/secrets/'' @ fst kv" by (rule secret_path)
    moreover have "fst kv \<noteq> key" using "2.prems"(2) kv by auto
    ultimately show ?thesis using p by simp
  qed
  then have "fs_content fs' ?p = fs_content fs1 ?p"
    using write_secrets_frame [of rest ?p I "acc @ [key]" fs1] fs1(2) by simp
  moreover have "fs_content fs1 ?p = Some v" using write_one_Ok [OF fs1(1), of ?p] by simp
  moreover have "ks = (acc @ [key]) @ map fst rest \<and> (\<forall>(k, v) \<in> set rest. fs_content fs' (''/tmp/secrets/'' @ k) = Some v)"
    using "2.IH" [OF fs1(1) [symmetric] refl fs1(2)] "2.prems" by simp
  ultimately show ?case using p by auto
qed simp

section \<open>The endpoint over time\<close>

text \<open>Once injected, nothing a request does changes the state.\<close>

interpretation injections: request_system
  "\<lambda>s q. snd (inject_secret_handler I q s)" "\<lambda>s. is_injected s \<and> is_poisoned s = p \<and> is_fs s = fs" for I p fs
  by unfold_locales (auto simp: inject_secret_handler_def)

lemma serve_Cons [simp]:
  "serve_injections I (q # qs) s =
     (fst (inject_secret_handler I q s) # fst (serve_injections I qs (snd (inject_secret_handler I q s))),
      snd (serve_injections I qs (snd (inject_secret_handler I q s))))"
  by (simp split: prod.splits)

declare serve_injections.simps(2) [simp del]

lemma serve_state: "snd (serve_injections I qs s) = foldl (\<lambda>s q. snd (inject_secret_handler I q s)) s qs"
  by (induction qs arbitrary: s) simp_all

lemma serve_append:
  "serve_injections I (as @ bs) s =
     (fst (serve_injections I as s) @ fst (serve_injections I bs (snd (serve_injections I as s))),
      snd (serve_injections I bs (snd (serve_injections I as s))))"
  by (induction as arbitrary: s) simp_all

lemma serve_length [simp]: "length (fst (serve_injections I qs s)) = length qs"
  by (induction qs arbitrary: s) simp_all

lemma serve_injected:
  "is_injected s \<Longrightarrow> \<not> is_poisoned s \<Longrightarrow> r \<in> set (fst (serve_injections I qs s)) \<Longrightarrow> r = AlreadyInjected"
  by (induction qs arbitrary: s) (auto simp: inject_secret_handler_def)

lemma handler_Injected:
  assumes "inject_secret_handler I q s = (Injected ks, s')" "hm_wf q"
  shows "ks = map fst q \<and> is_injected s' \<and> \<not> is_poisoned s' \<and> \<not> is_injected s \<and> q \<noteq> [] \<and> length q \<le> 16 \<and>
    (\<forall>kv \<in> set q. good_secret kv) \<and> (\<forall>(k, v) \<in> set q. fs_content (is_fs s') (''/tmp/secrets/'' @ k) = Some v)"
proof -
  obtain fs1 fs2 where w: "write_secrets I q [] fs1 = (Injected ks, fs2)" "validate_secrets q = None"
      "s' = s\<lparr>is_injected := True, is_fs := fs2\<rparr>" "\<not> is_poisoned s" "\<not> is_injected s" "q \<noteq> []" "length q \<le> 16"
    using assms(1) validate_secrets_not_Injected
    by (auto simp: inject_secret_handler_def max_secrets_def not_less split: if_splits option.splits prod.splits sum.splits)
  have good: "\<forall>kv \<in> set q. good_secret kv" using w(2) by (simp add: validate_secrets_None)
  have "distinct (map fst q)" using assms(2) by (simp add: hm_wf_def)
  from write_secrets_Injected [OF w(1) this good] w good show ?thesis by simp
qed

lemma handler_injects: "inject_secret_handler I q s = (Injected ks, s') \<Longrightarrow> is_injected s'"
  using validate_secrets_not_Injected
  by (auto simp: inject_secret_handler_def split: if_splits option.splits prod.splits sum.splits)

lemma serve_keeps_injected: "is_injected s \<Longrightarrow> is_injected (snd (serve_injections I qs s))"
  using injections.run_inv [of s "is_poisoned s" "is_fs s" I qs] by (simp add: serve_state)

lemma serve_Injected: "Injected ks \<in> set (fst (serve_injections I qs s)) \<Longrightarrow> is_injected (snd (serve_injections I qs s))"
proof (induction qs arbitrary: s)
  case (Cons q qs)
  obtain r s1 where r: "inject_secret_handler I q s = (r, s1)" by fastforce
  show ?case
  proof (cases "r = Injected ks")
    case True
    then have "is_injected s1" using handler_injects r by blast
    with r show ?thesis using serve_keeps_injected [of s1 I qs] by simp
  next
    case False
    with Cons r show ?thesis by auto
  qed
qed simp

section \<open>Properties\<close>

text \<open>
  C30: secrets are injected at most once. When a request is answered with success, every
  secret of it is in its file with its value, no request before it had succeeded, every
  request after it is refused, and the files are still as the successful request left them.
\<close>

theorem secrets_one_shot:
  assumes "serve_injections I (qs1 @ q # qs2) s = (rs1 @ Injected ks # rs2, s')" "length rs1 = length qs1" "hm_wf q"
  shows "ks = map fst q \<and> (\<forall>r \<in> set rs2. r = AlreadyInjected) \<and> (\<forall>ks'. Injected ks' \<notin> set rs1) \<and>
    (\<forall>(k, v) \<in> set q. fs_content (is_fs s') (''/tmp/secrets/'' @ k) = Some v)"
proof -
  let ?s1 = "snd (serve_injections I qs1 s)"
  obtain r s2 where r: "inject_secret_handler I q ?s1 = (r, s2)" by fastforce
  have split: "rs1 = fst (serve_injections I qs1 s)" "Injected ks # rs2 = r # fst (serve_injections I qs2 s2)"
      "s' = snd (serve_injections I qs2 s2)"
    using assms(1,2) r by (auto simp: serve_append)
  then have q: "inject_secret_handler I q ?s1 = (Injected ks, s2)" using r by simp
  note served = handler_Injected [OF q assms(3)]
  have "is_fs s' = is_fs s2"
    using injections.run_inv [of s2 "is_poisoned s2" "is_fs s2" I qs2] served split(3) by (simp add: serve_state)
  moreover have "\<forall>r \<in> set rs2. r = AlreadyInjected" using serve_injected served split(2) by auto
  moreover have "Injected ks' \<notin> set rs1" for ks'
    using serve_Injected [of ks' I qs1 s] served split(1) by auto
  ultimately show ?thesis using served by simp
qed

definition demo_inject :: inject_state where
  "demo_inject = \<lparr>is_poisoned = False, is_injected = False, is_fs = \<lparr>fs_files = hm_empty, fs_dirs = [], fs_clock = 0\<rparr>\<rparr>"

theorem secrets_one_shot_witness:
  "fst (serve_injections calm_io [[], [(''luks'', ''k1'')], [(''luks'', ''k2'')]] demo_inject) =
     [NoSecrets, Injected [''luks''], AlreadyInjected] \<and>
   fs_content (is_fs (snd (serve_injections calm_io [[], [(''luks'', ''k1'')], [(''luks'', ''k2'')]] demo_inject)))
     ''/tmp/secrets/luks'' = Some ''k1''"
proof -
  let ?r = "serve_injections calm_io ([[]] @ [(''luks'', ''k1'')] # [[(''luks'', ''k2'')]]) demo_inject"
  have f: "fst ?r = [NoSecrets] @ Injected [''luks''] # [AlreadyInjected]"
    by (simp add: inject_secret_handler_def demo_inject_def calm_io_def fs_exec_def max_secrets_def max_key_len_def
        max_value_size_def key_char_def is_ascii_alphanumeric_def is_ascii_lowercase_def)
  then have "?r = ([NoSecrets] @ Injected [''luks''] # [AlreadyInjected], snd ?r)" by (metis prod.collapse)
  from secrets_one_shot [OF this] f show ?thesis by (simp add: hm_wf_def)
qed

text \<open>
  C31: a request writes only into the secrets directory, only under names of letters,
  digits, underscores and hyphens that it brought itself; and a request that is refused
  (already injected, empty, too many, a bad name or an oversized value) changes nothing, not
  even for the secrets that were in order.
\<close>

theorem secret_injection_confined:
  assumes "inject_secret_handler I q s = (r, s')"
  shows "(\<forall>p. fs_content (is_fs s') p \<noteq> fs_content (is_fs s) p \<longrightarrow>
        (\<exists>k v. (k, v) \<in> set q \<and> good_secret (k, v) \<and> p = ''/tmp/secrets/'' @ k \<and> CHR ''/'' \<notin> set k)) \<and>
    (s' = s \<or> r = SecretsDirFailed \<or> (\<exists>k. r = SecretWriteFailed k) \<or> (\<exists>ks. r = Injected ks))"
proof -
  let ?mk = "fs_exec I (Mkdir secrets_dir) (is_fs s)"
  consider "s' = s" | "r = SecretsDirFailed" "is_fs s' = snd ?mk"
    | "validate_secrets q = None" "(r, is_fs s') = write_secrets I q [] (snd ?mk)"
    using assms by (cases ?mk) (auto simp: inject_secret_handler_def split: if_splits option.splits prod.splits sum.splits)
  then show ?thesis
  proof cases
    case 3
    have "\<exists>k v. (k, v) \<in> set q \<and> good_secret (k, v) \<and> p = ''/tmp/secrets/'' @ k \<and> CHR ''/'' \<notin> set k"
      if "fs_content (is_fs s') p \<noteq> fs_content (is_fs s) p" for p
    proof -
      have "fs_content (is_fs s') p \<noteq> fs_content (snd ?mk) p"
        using that fs_exec_frame [of p "Mkdir secrets_dir" I "is_fs s"] by simp
      then obtain k v where k: "(k, v) \<in> set q" "p = path_join secrets_dir k"
        using write_secrets_frame [of q p I "[]" "snd ?mk"] 3(2) by (metis fst_conv old.prod.exhaust snd_conv)
      then have "good_secret (k, v)" using 3(1) by (auto simp: validate_secrets_None)
      with k show ?thesis using secret_path key_char_no_separator by (auto simp: good_secret_def)
    qed
    moreover have "(\<exists>k. r = SecretWriteFailed k) \<or> (\<exists>ks. r = Injected ks)"
      using write_secrets_reply [of I q "[]" "snd ?mk"] 3(2) by (metis fst_conv)
    ultimately show ?thesis by blast
  qed (use fs_exec_frame [of _ "Mkdir secrets_dir" I "is_fs s"] in auto)
qed

lemma demo_bad_request:
  "inject_secret_handler calm_io [(''good'', ''v''), (''../up'', ''w'')] demo_inject = (InvalidKey ''../up'', demo_inject)"
  by (simp add: inject_secret_handler_def demo_inject_def max_secrets_def max_key_len_def
      max_value_size_def key_char_def is_ascii_alphanumeric_def is_ascii_lowercase_def is_ascii_digit_def is_ascii_uppercase_def)

theorem secret_injection_confined_witness:
  "fs_content (is_fs (snd (inject_secret_handler calm_io [(''good'', ''v''), (''../up'', ''w'')] demo_inject))) ''/tmp/up'' = None"
  using secret_injection_confined [OF demo_bad_request] demo_bad_request
  by (auto simp: demo_inject_def fs_content_def)

lemma write_secrets_reliable: "reliable_io I \<Longrightarrow> fst (write_secrets I kvs acc fs) = Injected (acc @ map fst kvs)"
proof (induction kvs arbitrary: acc fs)
  case (Cons kv kvs)
  then show ?case by (cases kv) (simp add: reliable_io_def fs_exec_def bindE_def)
qed simp

text \<open>
  A proper first request is served: when the file operations succeed and nothing was
  injected yet, one to sixteen secrets with names of 1 to 64 letters, digits, underscores or
  hyphens and values of at most 64 KiB are all injected.
\<close>

theorem proper_injection_succeeds:
  assumes "reliable_io I" "\<not> is_poisoned s" "\<not> is_injected s"
    and "q \<noteq> []" "length q \<le> 16" "\<forall>kv \<in> set q. good_secret kv"
  shows "fst (inject_secret_handler I q s) = Injected (map fst q)"
proof -
  have "validate_secrets q = None" using assms(6) by (simp add: validate_secrets_None)
  moreover have "fst (fs_exec I (Mkdir secrets_dir) (is_fs s)) = Ok ()"
    using assms(1) by (simp add: reliable_io_def fs_exec_def)
  moreover obtain mk fs1 where "fs_exec I (Mkdir secrets_dir) (is_fs s) = (mk, fs1)" by fastforce
  ultimately show ?thesis
    using assms write_secrets_reliable [OF assms(1), of q "[]" fs1]
    by (simp add: inject_secret_handler_def max_secrets_def case_prod_beta)
qed

theorem proper_injection_succeeds_witness:
  "fst (inject_secret_handler calm_io [(''luks_key'', ''secret''), (''token'', '''')] demo_inject) = Injected [''luks_key'', ''token'']"
  using proper_injection_succeeds [OF calm_io_reliable, of demo_inject "[(''luks_key'', ''secret''), (''token'', '''')]"]
  by (simp add: demo_inject_def good_secret_def key_char_def is_ascii_alphanumeric_def is_ascii_lowercase_def)

end
