(* ===== verification/Vm_Record.thy ===== *)
theory Vm_Record
  imports Persistence Serde
begin

text \<open>
  The JSON form of a persisted VM: the derived serialisation of \<^verbatim>\<open>PersistedVm\<close>
  (\<^verbatim>\<open>crates/aleph-compute-node/src/persistence.rs\<close>), of \<^verbatim>\<open>VmConfig\<close> and its parts
  (\<^verbatim>\<open>crates/aleph-tee/src/types.rs\<close>) and of \<^verbatim>\<open>PortForward\<close> (\<^verbatim>\<open>crates/aleph-network/src/types.rs\<close>).
  Addresses are written as text; the text of an IPv6 network is ipnet's and JSON text is
  serde_json's, both arguments with named laws.
\<close>

section \<open>Addresses\<close>

text \<open>
  \<^verbatim>\<open>Ipv4Addr::from_str\<close>: four decimal numbers of at most three digits, none with a leading zero.
\<close>

definition parse_octet :: "string \<Rightarrow> u8 option" where
  "parse_octet s =
     (if s \<noteq> [] \<and> length s \<le> 3 \<and> list_all is_ascii_digit s \<and> (hd s = CHR ''0'' \<longrightarrow> length s = 1)
      then map_option of_nat (parse_uint 256 s) else None)"

definition parse_ipv4 :: "string \<Rightarrow> ipv4 option" where
  "parse_ipv4 s =
     (case map parse_octet (split_on CHR ''.'' s) of
        [Some a, Some b, Some c, Some d] \<Rightarrow> Some (a, b, c, d)
      | _ \<Rightarrow> None)"

definition ipv4_to_json :: "ipv4 \<Rightarrow> json" where
  "ipv4_to_json ip = JStr (show_ipv4 ip)"

definition ipv4_from_json :: "json \<Rightarrow> ipv4 option" where
  "ipv4_from_json j = Option.bind (as_str j) parse_ipv4"

record net_text =
  net_show :: "ipv6net \<Rightarrow> string"
  net_parse :: "string \<Rightarrow> ipv6net option"

definition net_text_ok :: "net_text \<Rightarrow> bool" where
  "net_text_ok X \<longleftrightarrow> (\<forall>n. net_parse X (net_show X n) = Some n)"

definition net_from_json :: "net_text \<Rightarrow> json \<Rightarrow> ipv6net option" where
  "net_from_json X j = Option.bind (as_str j) (net_parse X)"

section \<open>The configuration\<close>

definition default_raw :: string where "default_raw = ''raw''"

definition tee_type_from_json :: "json \<Rightarrow> tee_type option" where
  "tee_type_from_json =
     enum_json [(''sev-snp'', SevSnp), (''tdx'', Tdx), (''nvidia-cc'', NvidiaCc), (''none'', NoTee)]"

fun hugepage_size_name :: "huge_page_size \<Rightarrow> string" where
  "hugepage_size_name Size2M = ''2m''"
| "hugepage_size_name Size1G = ''1g''"

definition hugepage_size_from_json :: "json \<Rightarrow> huge_page_size option" where
  "hugepage_size_from_json = enum_json [(''2m'', Size2M), (''1g'', Size1G)]"

definition protocol_from_json :: "json \<Rightarrow> protocol option" where
  "protocol_from_json = enum_json [(''tcp'', Tcp), (''udp'', Udp)]"

definition disk_to_json :: "disk_config \<Rightarrow> json" where
  "disk_to_json d =
     JObj [(''path'', JStr (disk_path d)), (''readonly'', JBool (disk_readonly d)), (''format'', JStr (disk_format d))]"

definition disk_from_json :: "json \<Rightarrow> disk_config option" where
  "disk_from_json j =
     Option.bind (struct_fields [''path'', ''readonly'', ''format''] j) (\<lambda>f.
     Option.bind (req_field as_str f ''path'') (\<lambda>path.
     Option.bind (def_field as_bool True f ''readonly'') (\<lambda>readonly.
     Option.bind (def_field as_str default_raw f ''format'') (\<lambda>format.
       Some \<lparr>disk_path = path, disk_readonly = readonly, disk_format = format\<rparr>))))"

definition tee_config_to_json :: "tee_config \<Rightarrow> json" where
  "tee_config_to_json t =
     JObj [(''backend'', JStr (tee_type_name (tee_backend_type t))), (''policy'', enc_opt JStr (tee_policy t))]"

definition tee_config_from_json :: "json \<Rightarrow> tee_config option" where
  "tee_config_from_json j =
     Option.bind (struct_fields [''backend'', ''policy''] j) (\<lambda>f.
     Option.bind (req_field tee_type_from_json f ''backend'') (\<lambda>backend.
     Option.bind (opt_field as_str f ''policy'') (\<lambda>policy.
       Some \<lparr>tee_backend_type = backend, tee_policy = policy\<rparr>)))"

definition config_to_json :: "vm_config \<Rightarrow> json" where
  "config_to_json c =
     JObj [(''vm_id'', JStr (cfg_vm_id c)), (''kernel'', enc_opt JStr (cfg_kernel c)),
           (''initrd'', enc_opt JStr (cfg_initrd c)), (''disks'', enc_vec disk_to_json (cfg_disks c)),
           (''vcpus'', enc_word (cfg_vcpus c)), (''memory_mb'', enc_word (cfg_memory_mb c)),
           (''tee'', tee_config_to_json (cfg_tee c)), (''encrypted'', JBool (cfg_encrypted c)),
           (''numa_node'', enc_opt enc_word (cfg_numa_node c)),
           (''hugepage_size'', enc_opt (\<lambda>h. JStr (hugepage_size_name h)) (cfg_hugepage_size c))]"

definition config_from_json :: "json \<Rightarrow> vm_config option" where
  "config_from_json j =
     Option.bind (struct_fields [''vm_id'', ''kernel'', ''initrd'', ''disks'', ''vcpus'', ''memory_mb'', ''tee'',
         ''encrypted'', ''numa_node'', ''hugepage_size''] j) (\<lambda>f.
     Option.bind (req_field as_str f ''vm_id'') (\<lambda>vm_id.
     Option.bind (opt_field as_str f ''kernel'') (\<lambda>vm_kernel.
     Option.bind (opt_field as_str f ''initrd'') (\<lambda>initrd.
     Option.bind (def_field (vec_json disk_from_json) [] f ''disks'') (\<lambda>disks.
     Option.bind (req_field u32_json f ''vcpus'') (\<lambda>vcpus.
     Option.bind (req_field u32_json f ''memory_mb'') (\<lambda>memory_mb.
     Option.bind (req_field tee_config_from_json f ''tee'') (\<lambda>tee.
     Option.bind (def_field as_bool False f ''encrypted'') (\<lambda>encrypted.
     Option.bind (opt_field u32_json f ''numa_node'') (\<lambda>numa_node.
     Option.bind (opt_field hugepage_size_from_json f ''hugepage_size'') (\<lambda>hugepage_size.
       Some \<lparr>cfg_vm_id = vm_id, cfg_kernel = vm_kernel, cfg_initrd = initrd, cfg_disks = disks, cfg_vcpus = vcpus,
             cfg_memory_mb = memory_mb, cfg_tee = tee, cfg_encrypted = encrypted, cfg_numa_node = numa_node,
             cfg_hugepage_size = hugepage_size\<rparr>)))))))))))"

section \<open>The record\<close>

definition forward_to_json :: "port_forward \<Rightarrow> json" where
  "forward_to_json f =
     JObj [(''vm_id'', JStr (pf_vm_id f)), (''host_port'', enc_word (pf_host_port f)),
           (''vm_port'', enc_word (pf_vm_port f)), (''protocol'', JStr (protocol_to_string (pf_protocol f)))]"

definition forward_from_json :: "json \<Rightarrow> port_forward option" where
  "forward_from_json j =
     Option.bind (struct_fields [''vm_id'', ''host_port'', ''vm_port'', ''protocol''] j) (\<lambda>f.
     Option.bind (req_field as_str f ''vm_id'') (\<lambda>vm_id.
     Option.bind (req_field u16_json f ''host_port'') (\<lambda>host_port.
     Option.bind (req_field u16_json f ''vm_port'') (\<lambda>vm_port.
     Option.bind (req_field protocol_from_json f ''protocol'') (\<lambda>protocol.
       Some \<lparr>pf_vm_id = vm_id, pf_host_port = host_port, pf_vm_port = vm_port, pf_protocol = protocol\<rparr>)))))"

definition persisted_to_json :: "net_text \<Rightarrow> persisted_vm \<Rightarrow> json" where
  "persisted_to_json X p =
     JObj [(''config'', config_to_json (pv_config p)), (''ip'', ipv4_to_json (pv_ip p)),
           (''ipv6'', enc_opt (\<lambda>n. JStr (net_show X n)) (pv_ipv6 p)), (''tap_name'', JStr (pv_tap_name p)),
           (''mac_addr'', JStr (pv_mac_addr p)),
           (''port_forwards'', enc_vec forward_to_json (pv_port_forwards p)),
           (''created_at_epoch'', enc_word (pv_created_at_epoch p)),
           (''numa_node'', enc_opt enc_word (pv_numa_node p))]"

definition persisted_from_json :: "net_text \<Rightarrow> json \<Rightarrow> persisted_vm option" where
  "persisted_from_json X j =
     Option.bind (struct_fields [''config'', ''ip'', ''ipv6'', ''tap_name'', ''mac_addr'', ''port_forwards'',
         ''created_at_epoch'', ''numa_node''] j) (\<lambda>f.
     Option.bind (req_field config_from_json f ''config'') (\<lambda>config.
     Option.bind (req_field ipv4_from_json f ''ip'') (\<lambda>ip.
     Option.bind (opt_field (net_from_json X) f ''ipv6'') (\<lambda>ipv6.
     Option.bind (req_field as_str f ''tap_name'') (\<lambda>tap_name.
     Option.bind (req_field as_str f ''mac_addr'') (\<lambda>mac_addr.
     Option.bind (req_field (vec_json forward_from_json) f ''port_forwards'') (\<lambda>port_forwards.
     Option.bind (req_field u64_json f ''created_at_epoch'') (\<lambda>epoch.
     Option.bind (opt_field u32_json f ''numa_node'') (\<lambda>numa_node.
       Some \<lparr>pv_config = config, pv_ip = ip, pv_ipv6 = ipv6, pv_tap_name = tap_name, pv_mac_addr = mac_addr,
             pv_port_forwards = port_forwards, pv_created_at_epoch = epoch, pv_numa_node = numa_node\<rparr>)))))))))"

text \<open>
  JSON text, and the codec of the state files. The text of a value is asked to parse back for
  values without floating-point numbers whose objects name each member once.
\<close>

fun plain_json :: "json \<Rightarrow> bool" where
  "plain_json (JFloat _) = False"
| "plain_json (JArr js) = (\<forall>j \<in> set js. plain_json j)"
| "plain_json (JObj ms) = (distinct (map fst ms) \<and> (\<forall>m \<in> set ms. plain_json (snd m)))"
| "plain_json _ = True"

record json_text =
  jt_print :: "json \<Rightarrow> string"
  jt_parse :: "string \<Rightarrow> json option"

definition json_text_ok :: "json_text \<Rightarrow> bool" where
  "json_text_ok T \<longleftrightarrow> (\<forall>j. plain_json j \<longrightarrow> jt_parse T (jt_print T j) = Some j)"

definition record_codec :: "json_text \<Rightarrow> net_text \<Rightarrow> vm_codec" where
  "record_codec T X =
     \<lparr>vm_print = (\<lambda>p. Ok (jt_print T (persisted_to_json X p))),
      vm_parse = (\<lambda>s. Option.bind (jt_parse T s) (persisted_from_json X))\<rparr>"

section \<open>Round trips of the parts\<close>

lemma hd_show_nat_pos: "0 < n \<Longrightarrow> hd (show_nat n) \<noteq> CHR ''0''"
proof (induction n rule: show_nat.induct)
  case (1 n)
  show ?case
  proof (cases "n < 10")
    case True
    then have "code (digit_char n) \<noteq> code CHR ''0''" using "1.prems" by simp
    then have "digit_char n \<noteq> CHR ''0''" by metis
    then show ?thesis using True by (simp add: show_nat.simps [of n])
  next
    case False
    with 1 show ?thesis by (simp add: show_nat.simps [of n] hd_append)
  qed
qed

lemma length_show_octet: "n < 256 \<Longrightarrow> length (show_nat n) \<le> 3"
proof -
  assume "n < 256"
  then have "n div 10 div 10 < 10" by simp
  then show ?thesis
    by (simp add: show_nat.simps [of n] show_nat.simps [of "n div 10"] show_nat.simps [of "n div 10 div 10"])
qed

lemma parse_octet_show: "parse_octet (show_word (b :: u8)) = Some b"
proof -
  have "list_all is_ascii_digit (show_nat (unat b))" using show_nat_digits by (simp add: list_all_iff)
  moreover have "length (show_nat (unat b)) = 1" if "hd (show_nat (unat b)) = CHR ''0''"
    using that hd_show_nat_pos [of "unat b"] by (cases "unat b = 0") (simp_all add: show_nat.simps [of 0])
  ultimately show ?thesis
    using length_show_octet [of "unat b"] parse_uint_show_nat [of "unat b" 256] unat_u8_less [of b]
    by (simp add: parse_octet_def)
qed

lemma parse_show_ipv4: "parse_ipv4 (show_ipv4 ip) = Some ip"
proof -
  obtain a b c d where ip: "ip = (a, b, c, d)" by (cases ip)
  have "CHR ''.'' \<notin> set (show_word (w :: u8))" for w
    using show_nat_digits [of "CHR ''.''" "unat w"] by (auto simp: is_ascii_digit_def)
  then have "split_on CHR ''.'' (join_with [CHR ''.''] [show_word a, show_word b, show_word c, show_word d]) =
      [show_word a, show_word b, show_word c, show_word d]"
    by (intro split_on_join_with) auto
  then show ?thesis by (simp add: ip parse_ipv4_def show_ipv4_def parse_octet_show)
qed

interpretation disk_codec: json_codec disk_to_json disk_from_json "\<lambda>_. True"
  by unfold_locales (simp_all add: disk_from_json_def disk_to_json_def struct_fields_obj member_simps)

lemma tee_type_round [simp]: "tee_type_from_json (JStr (tee_type_name t)) = Some t"
  by (cases t) (simp_all add: tee_type_from_json_def enum_json_def)

interpretation tee_config_codec: json_codec tee_config_to_json tee_config_from_json "\<lambda>_. True"
  by unfold_locales
     (simp_all add: tee_config_from_json_def tee_config_to_json_def struct_fields_obj member_simps str_codec.opt_round)

interpretation hugepage_codec: json_codec "\<lambda>h. JStr (hugepage_size_name h)" hugepage_size_from_json "\<lambda>_. True"
proof
  show "hugepage_size_from_json (JStr (hugepage_size_name h)) = Some h" for h
    by (cases h) (simp_all add: hugepage_size_from_json_def enum_json_def)
qed simp

interpretation u32_codec: json_codec enc_word u32_json "\<lambda>_. True"
  by unfold_locales (simp_all add: enc_word_def [where ?'w = 32] u32_round [unfolded enc_word_def])

interpretation config_codec: json_codec config_to_json config_from_json "\<lambda>_. True"
  by unfold_locales
     (simp_all add: config_from_json_def config_to_json_def struct_fields_obj member_simps str_codec.opt_round
        disk_codec.vec_round tee_config_codec.dec_enc u32_codec.opt_round hugepage_codec.opt_round)

interpretation forward_codec: json_codec forward_to_json forward_from_json "\<lambda>_. True"
proof
  have "protocol_from_json (JStr (protocol_to_string p)) = Some p" for p
    by (cases p) (simp_all add: protocol_from_json_def enum_json_def)
  then show "forward_from_json (forward_to_json f) = Some f" for f
    by (simp add: forward_from_json_def forward_to_json_def struct_fields_obj member_simps)
qed (simp add: forward_to_json_def)

lemma net_opt_round:
  assumes "net_text_ok X"
  shows "opt_json (net_from_json X) (enc_opt (\<lambda>n. JStr (net_show X n)) x) = Some x"
  using assms by (cases x) (simp_all add: opt_json_def enc_opt_def net_from_json_def net_text_ok_def)

lemma persisted_round:
  assumes "net_text_ok X"
  shows "persisted_from_json X (persisted_to_json X p) = Some p"
  using net_opt_round [OF assms, of "pv_ipv6 p"]
  by (simp add: persisted_from_json_def persisted_to_json_def struct_fields_obj member_simps config_codec.dec_enc
      ipv4_from_json_def ipv4_to_json_def parse_show_ipv4 forward_codec.vec_round u32_codec.opt_round)

lemma plain_opt: "(\<And>a. plain_json (e a)) \<Longrightarrow> plain_json (enc_opt e x)"
  by (cases x) (simp_all add: enc_opt_def)

lemma persisted_plain: "plain_json (persisted_to_json X p)"
  by (auto simp: persisted_to_json_def config_to_json_def disk_to_json_def tee_config_to_json_def forward_to_json_def
      ipv4_to_json_def enc_vec_def enc_word_def intro!: plain_opt)

text \<open>With these laws every record is written, and read back as it was.\<close>

lemma record_codec_total:
  assumes "json_text_ok T" "net_text_ok X"
  shows "\<exists>s. vm_print (record_codec T X) p = Ok s \<and> vm_parse (record_codec T X) s = Some p"
  using assms persisted_plain [of X p] persisted_round [OF assms(2), of p]
  by (simp add: record_codec_def json_text_ok_def)

section \<open>A concrete text form\<close>

text \<open>
  Values written with the length of every string and sequence before it, and ended numbers;
  reading follows the same structure. The fuel of the reader bounds the depth of the value.
\<close>

definition sized :: "nat \<Rightarrow> string \<Rightarrow> string" where
  "sized n s = show_nat n @ CHR '':'' # s"

fun text_of :: "json \<Rightarrow> string" where
  "text_of JNull = ''n''"
| "text_of (JBool b) = (if b then ''t'' else ''f'')"
| "text_of (JInt i) = (if 0 \<le> i then ''+'' else ''-'') @ sized (nat \<bar>i\<bar>) []"
| "text_of (JFloat s) = CHR ''d'' # sized (length s) s"
| "text_of (JStr s) = CHR ''s'' # sized (length s) s"
| "text_of (JArr js) = CHR ''a'' # sized (length js) (concat (map text_of js))"
| "text_of (JObj ms) = CHR ''o'' # sized (length ms) (concat (map (\<lambda>m. sized (length (fst m)) (fst m) @ text_of (snd m)) ms))"

definition read_size :: "string \<Rightarrow> (nat \<times> string) option" where
  "read_size s = Option.bind (split_once CHR '':'' s) (\<lambda>(a, r). map_option (\<lambda>n. (n, r)) (parse_digits 0 a))"

definition read_str :: "string \<Rightarrow> (string \<times> string) option" where
  "read_str s = map_option (\<lambda>(n, r). (take n r, drop n r)) (read_size s)"

fun read_many :: "(string \<Rightarrow> ('a \<times> string) option) \<Rightarrow> nat \<Rightarrow> string \<Rightarrow> ('a list \<times> string) option" where
  "read_many f 0 s = Some ([], s)"
| "read_many f (Suc n) s =
     Option.bind (f s) (\<lambda>(x, r). map_option (\<lambda>(xs, r'). (x # xs, r')) (read_many f n r))"

fun read_json :: "nat \<Rightarrow> string \<Rightarrow> (json \<times> string) option" where
  "read_json 0 s = None"
| "read_json (Suc d) [] = None"
| "read_json (Suc d) (c # s) =
     (if c = CHR ''n'' then Some (JNull, s)
      else if c = CHR ''t'' then Some (JBool True, s)
      else if c = CHR ''f'' then Some (JBool False, s)
      else if c = CHR ''+'' then map_option (\<lambda>(n, r). (JInt (int n), r)) (read_size s)
      else if c = CHR ''-'' then map_option (\<lambda>(n, r). (JInt (- int n), r)) (read_size s)
      else if c = CHR ''d'' then map_option (\<lambda>(t, r). (JFloat t, r)) (read_str s)
      else if c = CHR ''s'' then map_option (\<lambda>(t, r). (JStr t, r)) (read_str s)
      else if c = CHR ''a'' then
        Option.bind (read_size s) (\<lambda>(n, r). map_option (\<lambda>(js, r'). (JArr js, r')) (read_many (read_json d) n r))
      else if c = CHR ''o'' then
        Option.bind (read_size s) (\<lambda>(n, r). map_option (\<lambda>(ms, r'). (JObj ms, r'))
          (read_many (\<lambda>t. Option.bind (read_str t) (\<lambda>(k, u). map_option (\<lambda>(v, u'). ((k, v), u')) (read_json d u))) n r))
      else None)"

definition sized_text :: json_text where
  "sized_text = \<lparr>jt_print = text_of, jt_parse = (\<lambda>s. map_option fst (read_json (length s) s))\<rparr>"

lemma read_size_sized: "read_size (sized n s @ r) = Some (n, s @ r)"
proof -
  have "CHR '':'' \<notin> set (show_nat n)"
    using show_nat_digits [of "CHR '':''" n] by (auto simp: is_ascii_digit_def)
  then show ?thesis
    using split_once_append [of "CHR '':''" "show_nat n" "s @ r"]
    by (simp add: read_size_def sized_def parse_digits_show_nat)
qed

lemma read_str_sized: "read_str (sized (length s) s @ r) = Some (s, r)"
  using read_size_sized [of "length s" s r] by (simp add: read_str_def)

lemma read_many_concat:
  "(\<And>x r. x \<in> set xs \<Longrightarrow> f (g x @ r) = Some (x, r)) \<Longrightarrow> read_many f (length xs) (concat (map g xs) @ r) = Some (xs, r)"
  by (induction xs) simp_all

lemma read_json_text: "length (text_of j) \<le> d \<Longrightarrow> read_json d (text_of j @ r) = Some (j, r)"
proof (induction j arbitrary: d r)
  case (JArr js)
  then obtain d' where d: "d = Suc d'" by (cases d) auto
  have "length (text_of x) \<le> d'" if "x \<in> set js" for x
    using JArr.prems member_le_sum_list [of "length (text_of x)" "map (length \<circ> text_of) js"] that
    by (auto simp: d sized_def length_concat comp_def)
  then have "read_many (read_json d') (length js) (concat (map text_of js) @ r) = Some (js, r)"
    using JArr.IH by (intro read_many_concat) auto
  then show ?case using read_size_sized [of "length js" "concat (map text_of js)" r] by (simp add: d)
next
  case (JObj ms)
  then obtain d' where d: "d = Suc d'" by (cases d) auto
  let ?g = "\<lambda>m. sized (length (fst m)) (fst m) @ text_of (snd m)"
  let ?f = "\<lambda>t. Option.bind (read_str t) (\<lambda>(k, u). map_option (\<lambda>(v, u'). ((k, v), u')) (read_json d' u))"
  have len: "length (text_of (snd m)) \<le> d'" if "m \<in> set ms" for m
    using JObj.prems member_le_sum_list [of "length (?g m)" "map (length \<circ> ?g) ms"] that
    by (auto simp: d sized_def length_concat comp_def)
  have "?f (?g m @ r') = Some (m, r')" if m: "m \<in> set ms" for m r'
  proof -
    obtain k v where kv: "m = (k, v)" by (cases m)
    have "read_json d' (text_of v @ r') = Some (v, r')"
      using JObj.IH [OF m, of v d' r'] len [OF m] by (simp add: kv)
    then show ?thesis using read_str_sized [of k "text_of v @ r'"] by (simp add: kv)
  qed
  then have "read_many ?f (length ms) (concat (map ?g ms) @ r) = Some (ms, r)" by (rule read_many_concat)
  then show ?case using read_size_sized [of "length ms" "concat (map ?g ms)" r] by (simp add: d)
next
  case (JInt i)
  then obtain d' where d: "d = Suc d'" by (cases d) (auto split: if_splits)
  then show ?case
    using read_size_sized [of "nat i" "[]" r] read_size_sized [of "nat (- i)" "[]" r] by (simp add: abs_if)
next
  case (JStr s)
  then obtain d' where d: "d = Suc d'" by (cases d) auto
  then show ?case using read_str_sized [of s r] by simp
next
  case (JFloat s)
  then obtain d' where d: "d = Suc d'" by (cases d) auto
  then show ?case using read_str_sized [of s r] by simp
next
  case (JBool b)
  then obtain d' where d: "d = Suc d'" by (cases d) (auto split: if_splits)
  then show ?case by simp
next
  case JNull
  then obtain d' where d: "d = Suc d'" by (cases d) auto
  then show ?case by simp
qed

lemma sized_text_ok: "json_text_ok sized_text"
  using read_json_text [of j "length (text_of j)" "[]" for j] by (simp add: json_text_ok_def sized_text_def)

definition decimal_nets :: net_text where
  "decimal_nets = \<lparr>net_show = (\<lambda>n. show_word (addr n) @ CHR ''/'' # show_word (prefix_len n)),
     net_parse = (\<lambda>s. Option.bind (split_once CHR ''/'' s) (\<lambda>(a, l).
       Option.bind (parse_digits 0 a) (\<lambda>x. map_option (\<lambda>y. \<lparr>addr = of_nat x, prefix_len = of_nat y\<rparr>) (parse_digits 0 l))))\<rparr>"

lemma decimal_nets_ok: "net_text_ok decimal_nets"
proof -
  have "CHR ''/'' \<notin> set (show_nat n)" for n
    using show_nat_digits [of "CHR ''/''" n] by (auto simp: is_ascii_digit_def)
  then show ?thesis
    by (simp add: net_text_ok_def decimal_nets_def split_once_append parse_digits_show_nat)
qed

section \<open>Properties\<close>

text \<open>
  The state file of a VM, read back, is the VM: with texts of JSON values and of IPv6
  networks that parse back, every record can be written, and what is written is read as the
  record it was, the configuration with its defaulted and optional members, the addresses and the
  forwards included.
\<close>

theorem persisted_json_round_trip:
  assumes "json_text_ok T" "net_text_ok X"
  shows "\<exists>s. vm_print (record_codec T X) p = Ok s \<and> vm_parse (record_codec T X) s = Some p"
  using assms by (rule record_codec_total)

theorem persisted_json_round_trip_witness:
  "\<exists>s. vm_print (record_codec sized_text decimal_nets) demo_vm = Ok s \<and>
     vm_parse (record_codec sized_text decimal_nets) s = Some demo_vm"
  by (rule persisted_json_round_trip [OF sized_text_ok decimal_nets_ok])

end
