(* ===== verification/Attest_Agent.thy ===== *)
theory Attest_Agent
  imports Attest_Client Secrets Vm_Record
begin

text \<open>
  The attestation agent as a process (\<^verbatim>\<open>crates/aleph-attest-agent/src/main.rs\<close>): its command line,
  the start-up from the TLS identity to the server configuration (\<^verbatim>\<open>build_rustls_config\<close> of
  \<^verbatim>\<open>tls.rs\<close>), and the routing of requests to the attestation endpoint, to secret injection and
  to the proxy; then the agent with the attestation client at the other end of the connection.
  The TLS and web libraries are parameters: what rustls accepts, how the web library decodes the
  path it routes on, how it reads a query string, a JSON body and a raw body, up to the sizes it
  is configured for, and how a URL is taken apart.
\<close>

section \<open>Start-up\<close>

record agent_cli =
  ac_port :: u16
  ac_upstream :: string
  ac_amd_product :: string

definition agent_cli_defaults :: agent_cli where
  "agent_cli_defaults = \<lparr>ac_port = 8443, ac_upstream = ''http://127.0.0.1:8080'', ac_amd_product = ''Genoa''\<rparr>"

record server_config =
  sc_cert_chain :: "bytes list"
  sc_private_key :: bytes

record rustls_lib =
  safe_protocol_versions :: bool
  single_cert_ok :: "bytes list \<Rightarrow> bytes \<Rightarrow> bool"

datatype config_error = ProtocolVersions | SingleCert

definition build_rustls_config :: "rustls_lib \<Rightarrow> attested_tls_identity \<Rightarrow> (config_error, server_config) result" where
  "build_rustls_config L identity =
     (let cert_chain = [id_cert_der identity]; private_key = id_key_der identity in
      if \<not> safe_protocol_versions L then Err ProtocolVersions
      else if \<not> single_cert_ok L cert_chain private_key then Err SingleCert
      else Ok \<lparr>sc_cert_chain = cert_chain, sc_private_key = private_key\<rparr>)"

text \<open>The libraries of the agent, and the agent once it serves: its upstream application is part of the state.\<close>

record ('u, 'k) agent_env =
  g_x509 :: x509_lib
  g_hex :: hex_lib
  g_sha384 :: "bytes \<Rightarrow> bytes"
  g_sev :: sev_lib
  g_rcgen :: "'k rcgen"
  g_rustls :: rustls_lib
  g_bind :: "string \<Rightarrow> (string, unit) result"
  g_path :: "string \<Rightarrow> string"
  g_query :: "string option \<Rightarrow> string option"
  g_json :: "http_request \<Rightarrow> (u16, (string, string) hmap) result"
  g_bytes :: "http_request \<Rightarrow> (u16, bytes) result"
  g_proxy :: "'u proxy_lib"
  g_io :: io_env

record 'u agent =
  ag_config :: server_config
  ag_backend :: tee_impl
  ag_upstream :: string
  ag_inject :: inject_state
  ag_app :: 'u

datatype agent_error =
    IdentityFailed identity_error
  | ConfigFailed config_error
  | BindFailed string

definition agent_start ::
  "('u, 'k) agent_env \<Rightarrow> agent_cli \<Rightarrow> inject_state \<Rightarrow> 'u \<Rightarrow> (agent_error, 'u agent) result" where
  "agent_start G cli inject app =
     (let backend = SevSnpImpl (sev_snp_backend_new (ac_amd_product cli)) in
      and_then (map_err IdentityFailed
        (generate_attested_tls_identity (g_x509 G) (g_hex G) (g_sha384 G) (g_sev G) (g_rcgen G) backend)) (\<lambda>identity.
      and_then (map_err ConfigFailed (build_rustls_config (g_rustls G) identity)) (\<lambda>rustls_config.
      and_then (map_err BindFailed (g_bind G (''0.0.0.0:'' @ show_word (ac_port cli)))) (\<lambda>_.
        Ok \<lparr>ag_config = rustls_config, ag_backend = backend, ag_upstream = ac_upstream cli, ag_inject = inject,
            ag_app = app\<rparr>))))"

section \<open>Routing\<close>

datatype agent_reply =
    EndpointReply endpoint_reply
  | BadQuery
  | InjectionReply inject_reply
  | BadJson u16
  | BadBody u16
  | ProxyReply proxy_reply

text \<open>
  The method of a route is a guard of its path: a request for the path by another method goes
  on to the default service, the proxy. Routes are matched with the decoded path. A handler runs
  only when the library has read its arguments: no limit is configured, so that a JSON body is
  refused beyond 2 MiB and the body of a proxied request beyond 256 KiB, with a status of the
  library. The proxy sends the path as it came.
\<close>

definition agent_handle :: "('u, 'k) agent_env \<Rightarrow> http_request \<Rightarrow> 'u agent \<Rightarrow> agent_reply \<times> 'u agent" where
  "agent_handle G req a =
     (if g_path G (hr_path req) = ''/.well-known/attestation'' \<and> hr_method req = ''GET'' then
        (case g_query G (hr_query req) of
           None \<Rightarrow> (BadQuery, a)
         | Some nonce \<Rightarrow>
             (EndpointReply (attestation_endpoint (g_hex G) (g_sha384 G) (g_sev G) (ag_backend a) nonce), a))
      else if g_path G (hr_path req) = ''/confidential/inject-secret'' \<and> hr_method req = ''POST'' then
        (case g_json G req of
           Inl status \<Rightarrow> (BadJson status, a)
         | Inr secrets \<Rightarrow>
             (case inject_secret_handler (g_io G) secrets (ag_inject a) of
                (r, s') \<Rightarrow> (InjectionReply r, a\<lparr>ag_inject := s'\<rparr>)))
      else
        (case g_bytes G req of
           Inl status \<Rightarrow> (BadBody status, a)
         | Inr body \<Rightarrow>
             (case proxy_handler (g_proxy G) (ag_upstream a) (req\<lparr>hr_body := body\<rparr>) (ag_app a) of
                (r, x') \<Rightarrow> (ProxyReply r, a\<lparr>ag_app := x'\<rparr>))))"

fun agent_serve :: "('u, 'k) agent_env \<Rightarrow> http_request list \<Rightarrow> 'u agent \<Rightarrow> agent_reply list \<times> 'u agent" where
  "agent_serve G [] a = ([], a)"
| "agent_serve G (q # qs) a =
     (case agent_handle G q a of (r, a1) \<Rightarrow> (case agent_serve G qs a1 of (rs, a2) \<Rightarrow> (r # rs, a2)))"

text \<open>The status and the JSON of a reply, less what a library's own error adds to the message.\<close>

definition error_json :: "string \<Rightarrow> json" where
  "error_json msg = JObj [(''error'', JStr msg)]"

fun inject_reply_web :: "inject_reply \<Rightarrow> u16 \<times> json" where
  "inject_reply_web InternalLockError = (500, error_json ''internal lock error'')"
| "inject_reply_web AlreadyInjected = (409, error_json ''secrets already injected'')"
| "inject_reply_web NoSecrets = (400, error_json ''no secrets provided'')"
| "inject_reply_web (TooManySecrets n) =
     (400, error_json (''too many secrets: max '' @ show_nat max_secrets @ '', got '' @ show_nat n))"
| "inject_reply_web (BadKeyLength n) =
     (400, error_json (''secret key length must be 1-'' @ show_nat max_key_len @ '', got '' @ show_nat n))"
| "inject_reply_web (InvalidKey k) =
     (400, error_json (''invalid secret key: must be alphanumeric/underscore/hyphen, got: '' @ k))"
| "inject_reply_web (ValueTooLarge k n) =
     (400, error_json (''secret value too large for key '' @ [CHR 0x27] @ k @ [CHR 0x27] @ '': max '' @
        show_nat max_value_size @ '' bytes, got '' @ show_nat n))"
| "inject_reply_web SecretsDirFailed = (500, error_json ''failed to create secrets directory'')"
| "inject_reply_web (SecretWriteFailed k) = (500, error_json (''failed to write secret: '' @ k))"
| "inject_reply_web (Injected ks) = (200, JObj [(''injected'', JArr (map JStr ks))])"

fun endpoint_reply_web :: "hex_lib \<Rightarrow> endpoint_reply \<Rightarrow> u16 \<times> json" where
  "endpoint_reply_web X (ReportReply r) = (200, report_to_json X r)"
| "endpoint_reply_web X InvalidNonce = (400, error_json ''invalid hex nonce'')"
| "endpoint_reply_web X (AttestationFailed e) = (500, error_json ''attestation failed'')"

definition json_response :: "x509_lib \<Rightarrow> u16 \<times> json \<Rightarrow> u16 \<times> bytes" where
  "json_response C r = (case json_to_vec C (snd r) of Some b \<Rightarrow> (fst r, b) | None \<Rightarrow> (500, []))"

fun agent_response :: "('u, 'k) agent_env \<Rightarrow> agent_reply \<Rightarrow> u16 \<times> bytes" where
  "agent_response G (EndpointReply r) = json_response (g_x509 G) (endpoint_reply_web (g_hex G) r)"
| "agent_response G BadQuery = (400, [])"
| "agent_response G (InjectionReply r) = json_response (g_x509 G) (inject_reply_web r)"
| "agent_response G (BadJson status) = (status, [])"
| "agent_response G (BadBody status) = (status, [])"
| "agent_response G (ProxyReply (Proxied st hs body)) = (st, body)"
| "agent_response G (ProxyReply UnreadableUpstream) =
     json_response (g_x509 G) (502, error_json ''failed to read upstream response'')"
| "agent_response G (ProxyReply (UnreachableUpstream e)) =
     json_response (g_x509 G) (502, error_json (''upstream unreachable: '' @ e))"

section \<open>The agent over time\<close>

text \<open>The injections and the proxied requests among the requests of a connection.\<close>

definition injection_of :: "('u, 'k) agent_env \<Rightarrow> http_request \<Rightarrow> (string, string) hmap option" where
  "injection_of G req =
     (if (hr_method req, g_path G (hr_path req)) = (''POST'', ''/confidential/inject-secret'')
      then (case g_json G req of Inr m \<Rightarrow> Some m | Inl _ \<Rightarrow> None) else None)"

definition forwarded :: "('u, 'k) agent_env \<Rightarrow> http_request \<Rightarrow> http_request option" where
  "forwarded G req =
     (if (hr_method req, g_path G (hr_path req)) \<in>
         {(''GET'', ''/.well-known/attestation''), (''POST'', ''/confidential/inject-secret'')} then None
      else (case g_bytes G req of Inr body \<Rightarrow> Some (req\<lparr>hr_body := body\<rparr>) | Inl _ \<Rightarrow> None))"

fun injection_replies :: "agent_reply list \<Rightarrow> inject_reply list" where
  "injection_replies [] = []"
| "injection_replies (InjectionReply r # rs) = r # injection_replies rs"
| "injection_replies (_ # rs) = injection_replies rs"

definition proxy_run :: "'u proxy_lib \<Rightarrow> string \<Rightarrow> http_request list \<Rightarrow> 'u \<Rightarrow> 'u" where
  "proxy_run Q up qs x = foldl (\<lambda>x q. snd (proxy_handler Q up q x)) x qs"

lemma agent_serve_Cons [simp]:
  "agent_serve G (q # qs) a =
     (fst (agent_handle G q a) # fst (agent_serve G qs (snd (agent_handle G q a))),
      snd (agent_serve G qs (snd (agent_handle G q a))))"
  by (simp split: prod.splits)

declare agent_serve.simps(2) [simp del]

lemma agent_handle_fixed:
  "ag_config (snd (agent_handle G q a)) = ag_config a" "ag_backend (snd (agent_handle G q a)) = ag_backend a"
  "ag_upstream (snd (agent_handle G q a)) = ag_upstream a"
  by (simp_all add: agent_handle_def split: option.splits prod.splits sum.splits)

lemma agent_serve_fixed:
  "ag_config (snd (agent_serve G qs a)) = ag_config a \<and> ag_backend (snd (agent_serve G qs a)) = ag_backend a \<and>
   ag_upstream (snd (agent_serve G qs a)) = ag_upstream a"
  by (induction qs arbitrary: a) (simp_all add: agent_handle_fixed)

lemma agent_handle_inject:
  "ag_inject (snd (agent_handle G q a)) =
     (case injection_of G q of None \<Rightarrow> ag_inject a | Some m \<Rightarrow> snd (inject_secret_handler (g_io G) m (ag_inject a)))"
  "injection_replies (fst (agent_handle G q a) # rs) =
     (case injection_of G q of None \<Rightarrow> injection_replies rs
      | Some m \<Rightarrow> fst (inject_secret_handler (g_io G) m (ag_inject a)) # injection_replies rs)"
  by (auto simp: agent_handle_def injection_of_def split: option.splits prod.splits sum.splits)

lemma agent_handle_app:
  "ag_app (snd (agent_handle G q a)) =
     (case forwarded G q of None \<Rightarrow> ag_app a | Some q' \<Rightarrow> snd (proxy_handler (g_proxy G) (ag_upstream a) q' (ag_app a)))"
  by (auto simp: agent_handle_def forwarded_def split: option.splits prod.splits sum.splits)

text \<open>
  C26: the agent keeps its parts apart. Over any sequence of requests, the secrets see exactly
  the POST requests whose decoded path is the injection endpoint and whose body the library reads
  as a JSON object, in order, as the handler alone would; the upstream application sees exactly
  the requests for none of the two endpoints whose body the library reads, with that body and
  otherwise as they came, and so nothing of a request beyond the size limit; the certificate, the
  backend and the upstream address never change.
\<close>

theorem agent_separates:
  "let (rs, a') = agent_serve G qs a;
       injections = List.map_filter (injection_of G) qs
   in length rs = length qs \<and>
      serve_injections (g_io G) injections (ag_inject a) = (injection_replies rs, ag_inject a') \<and>
      ag_app a' = proxy_run (g_proxy G) (ag_upstream a) (List.map_filter (forwarded G) qs) (ag_app a) \<and>
      ag_config a' = ag_config a \<and> ag_backend a' = ag_backend a \<and> ag_upstream a' = ag_upstream a"
proof -
  have "length (fst (agent_serve G qs a)) = length qs \<and>
     serve_injections (g_io G) (List.map_filter (injection_of G) qs) (ag_inject a) =
       (injection_replies (fst (agent_serve G qs a)), ag_inject (snd (agent_serve G qs a))) \<and>
     ag_app (snd (agent_serve G qs a)) = proxy_run (g_proxy G) (ag_upstream a) (List.map_filter (forwarded G) qs) (ag_app a)"
  proof (induction qs arbitrary: a)
    case (Cons q qs)
    show ?case
      using Cons.IH [of "snd (agent_handle G q a)"] agent_handle_inject [of G q a]
      by (cases "injection_of G q"; cases "forwarded G q")
        (simp_all add: List.map_filter_def proxy_run_def agent_handle_app agent_handle_fixed)
  qed (simp add: List.map_filter_def proxy_run_def)
  with agent_serve_fixed [of G qs a] show ?thesis by (simp add: case_prod_beta)
qed

section \<open>The client at the other end\<close>

text \<open>
  The request the agent receives for a request of the client: \<open>U\<close> takes a URL apart into path
  and query, and the JSON body is the text of its value, with its content type. The connection is to the agent in the
  state of the world: it presents its certificate, proves possession of its key and answers.
\<close>

definition received :: "x509_lib \<Rightarrow> (string \<Rightarrow> string \<times> string option) \<Rightarrow> client_request \<Rightarrow> http_request" where
  "received C U q =
     \<lparr>hr_method = cq_method q, hr_path = fst (U (cq_url q)), hr_query = snd (U (cq_url q)),
      hr_headers = (case cq_json q of None \<Rightarrow> [] | Some _ \<Rightarrow> [(''content-type'', Some ''application/json'')]),
      hr_body = (case cq_json q of None \<Rightarrow> [] | Some j \<Rightarrow> unwrap_or (json_to_vec C j) [])\<rparr>"

definition connected ::
  "('u, 'k) agent_env \<Rightarrow> (string \<Rightarrow> string \<times> string option) \<Rightarrow> ('u agent, 'c, 'ky, 'e, 'n, 's) attest_env \<Rightarrow>
   ('u agent, 'c, 'ky, 'e, 'n, 's) attest_env" where
  "connected G U A = A\<lparr>
     a_connect := (\<lambda>url a. (Ok (Some (hd (sc_cert_chain (ag_config a)))), a)),
     a_key_proof := (\<lambda>cert a. cert = hd (sc_cert_chain (ag_config a))),
     a_send := (\<lambda>q a. case agent_handle G (received (g_x509 G) U q) a of
       (r, a') \<Rightarrow> (Ok \<lparr>cr_status = fst (agent_response G r), cr_text = Ok (string_of_bytes (snd (agent_response G r)))\<rparr>, a'))\<rparr>"

text \<open>
  What the libraries promise: both sides use the same ones; JSON text is read back as the
  value it was written from; a reference below the origin of the server becomes the path and
  the query of the request; a path without escapes is routed as it is; the extractors read
  what the client wrote, the object as a hash map in an order of its own and only up to 2 MiB of
  text, and refuse with an error status.
\<close>

definition json_lib_ok :: "x509_lib \<Rightarrow> bool" where
  "json_lib_ok C \<longleftrightarrow> (\<forall>j. plain_json j \<longrightarrow> (\<exists>b. json_to_vec C j = Some b \<and> json_from_slice C b = Some j))"

definition origin_url ::
  "('x, 'c, 'ky, 'e, 'n, 's) attest_env \<Rightarrow> (string \<Rightarrow> string \<times> string option) \<Rightarrow> string \<Rightarrow> bool" where
  "origin_url A U base \<longleftrightarrow> a_url_ok A base \<and>
     (\<exists>u. a_url_join A base ''confidential/inject-secret'' = Some u \<and> U u = (''/confidential/inject-secret'', None)) \<and>
     (\<forall>n. \<exists>u. a_url_join A base (''.well-known/attestation?nonce='' @ hex_encode (a_hex A) n) = Some u \<and>
        U u = (''/.well-known/attestation'', Some (''nonce='' @ hex_encode (a_hex A) n)))"

definition extractors_ok :: "('u, 'k) agent_env \<Rightarrow> bool" where
  "extractors_ok G \<longleftrightarrow>
     (\<forall>p. CHR ''%'' \<notin> set p \<longrightarrow> g_path G p = p) \<and>
     (\<forall>n. g_query G (Some (''nonce='' @ hex_encode (g_hex G) n)) = Some (hex_encode (g_hex G) n)) \<and>
     (\<forall>req status. g_json G req = Err status \<longrightarrow> 400 \<le> status) \<and>
     (\<forall>req ms b. hr_headers req = [(''content-type'', Some ''application/json'')] \<longrightarrow> hr_body req = b \<longrightarrow> distinct (map fst ms) \<longrightarrow>
        json_to_vec (g_x509 G) (JObj (map (\<lambda>(k, s). (k, JStr s)) ms)) = Some b \<longrightarrow> length b \<le> 2097152 \<longrightarrow>
        (\<exists>ms'. g_json G req = Ok ms' \<and> hm_wf ms' \<and> set ms' = set ms))"

text \<open>The size of the text of the secrets, as the client sends it.\<close>

definition secrets_size :: "x509_lib \<Rightarrow> (string \<times> string) list \<Rightarrow> nat" where
  "secrets_size C secrets =
     length (unwrap_or (json_to_vec C (JObj (map (\<lambda>(k, s). (k, JStr s)) (secrets_map secrets)))) [])"

definition same_libs :: "('u, 'k) agent_env \<Rightarrow> ('x, 'c, 'ky, 'e, 'n, 's) attest_env \<Rightarrow> bool" where
  "same_libs G A \<longleftrightarrow> a_x509 A = g_x509 G \<and> a_hex A = g_hex G \<and> a_sha384 A = g_sha384 G \<and> a_client_ok A \<and>
     x509_lib_ok (g_x509 G) (g_hex G) \<and> json_lib_ok (g_x509 G) \<and> rcgen_ok (g_x509 G) (g_rcgen G) \<and>
     firmware_binds (g_sev G) \<and> (\<forall>b. length (g_sha384 G b) = 48) \<and> extractors_ok G"

text \<open>A report that AMD's certificates vouch for, the certificate service being there.\<close>

definition vouched ::
  "('x, 'c, 'ky, 'e, 'n, 's) attest_env \<Rightarrow> string \<Rightarrow> attestation_report \<Rightarrow> bool" where
  "vouched A product r \<longleftrightarrow> (\<forall>w. \<exists>v w'. verify_report_in A r product w = (Ok v, w') \<and> vr_valid v \<and> w_ext w' = w_ext w)"

lemma connected_simps [simp]:
  "a_x509 (connected G U A) = a_x509 A" "a_hex (connected G U A) = a_hex A" "a_sha384 (connected G U A) = a_sha384 A"
  "a_nonce (connected G U A) = a_nonce A" "a_url_ok (connected G U A) = a_url_ok A"
  "a_url_join (connected G U A) = a_url_join A" "a_client_ok (connected G U A) = a_client_ok A"
  "verify_report_in (connected G U A) = verify_report_in A"
  by (simp_all add: connected_def verify_report_in_def fun_eq_iff)

text \<open>The identity an agent was started with is the one it presents ever after.\<close>

lemma agent_start_identity:
  assumes "agent_start G cli inject app = Ok a0"
  obtains i where "generate_attested_tls_identity (g_x509 G) (g_hex G) (g_sha384 G) (g_sev G) (g_rcgen G) (ag_backend a0) = Ok i"
    "sc_cert_chain (ag_config a0) = [id_cert_der i]" "ag_inject a0 = inject"
    "ag_backend a0 = SevSnpImpl (sev_snp_backend_new (ac_amd_product cli))"
  using assms
  by (auto simp: agent_start_def Let_def and_then_Ok build_rustls_config_def split: if_splits)

definition agent_report :: "('u, 'k) agent_env \<Rightarrow> 'u agent \<Rightarrow> attestation_report" where
  "agent_report G a =
     id_report (projr (generate_attested_tls_identity (g_x509 G) (g_hex G) (g_sha384 G) (g_sev G) (g_rcgen G) (ag_backend a)))"

lemma agent_handshake:
  assumes "same_libs G A" "agent_start G cli inject app = Ok a0" "w_ext w = snd (agent_serve G qs a0)"
    and "expected \<in> {None, Some (ar_measurement (agent_report G a0))}"
  shows "handshake (connected G U A) url expected w (hd (sc_cert_chain (ag_config a0))) (agent_report G a0) w"
proof -
  obtain i where i: "generate_attested_tls_identity (g_x509 G) (g_hex G) (g_sha384 G) (g_sev G) (g_rcgen G) (ag_backend a0) = Ok i"
      "sc_cert_chain (ag_config a0) = [id_cert_der i]"
    by (rule agent_start_identity [OF assms(2)])
  then have r: "agent_report G a0 = id_report i" by (simp add: agent_report_def)
  have c: "ag_config (w_ext w) = ag_config a0" using agent_serve_fixed [of G qs a0] assms(3) by simp
  have L: "x509_lib_ok (g_x509 G) (g_hex G)" "rcgen_ok (g_x509 G) (g_rcgen G)" "firmware_binds (g_sev G)"
      "\<And>b. length (g_sha384 G b) = 48" "a_x509 A = g_x509 G" "a_hex A = g_hex G" "a_sha384 A = g_sha384 G"
    using assms(1) by (auto simp: same_libs_def)
  have "check_server_cert (a_x509 A) (a_hex A) (a_sha384 A) expected (id_cert_der i) = Ok (id_report i)"
    using identity_in_cert [OF L(1-4) i(1)] assms(4) r by (auto simp: check_server_cert_Ok L)
  then show ?thesis
    using i(2) c by (simp add: handshake_def r connected_def on_ext_def)
qed

lemma connected_send:
  "on_ext RequestFailed (a_send (connected G U A) q) w =
     (case agent_handle G (received (g_x509 G) U q) (w_ext w) of
        (r, a') \<Rightarrow> (Ok \<lparr>cr_status = fst (agent_response G r), cr_text = Ok (string_of_bytes (snd (agent_response G r)))\<rparr>,
                   w\<lparr>w_ext := a'\<rparr>))"
  by (simp add: connected_def on_ext_def split: prod.splits)

lemma plain_report: "plain_json (report_to_json X r)"
  by (simp add: report_to_json_def hex_serialize_def)

text \<open>
  C24: a client that asks a running agent for a fresh attestation gets the report the agent's
  firmware makes for its nonce, whatever other requests the agent has served before: the
  certificate passes the handshake, the nonce is routed to the endpoint, comes back in the
  report data, and the report is accepted, provided AMD's certificates vouch for it and no
  other measurement is expected. Asking changes nothing in the agent.
\<close>

theorem fresh_attestation_of_agent:
  assumes "same_libs G A" "origin_url A U base" "agent_start G cli inject app = Ok a0"
    and "w_ext w = snd (agent_serve G qs a0)" "expected \<in> {None, Some (ar_measurement (agent_report G a0))}"
    and "length (a_nonce A (w_ext w)) = 32"
    and "get_nonce_bound_report (g_sha384 G) (g_sev G) (ag_backend a0) (a_nonce A (w_ext w)) = Ok r" "vouched A product r"
  shows "\<exists>w'. fresh_attestation (connected G U A) base product expected w = (Ok r, w') \<and>
    ar_report_data r = pad64 (a_nonce A (w_ext w)) \<and> w_ext w' = w_ext w"
proof -
  let ?n = "a_nonce A (w_ext w)"
  have L: "x509_lib_ok (g_x509 G) (g_hex G)" "json_lib_ok (g_x509 G)" "firmware_binds (g_sev G)" "extractors_ok G"
      "a_x509 A = g_x509 G" "a_hex A = g_hex G" "a_client_ok A"
    using assms(1) by (auto simp: same_libs_def)
  have hex: "hex_ok (g_hex G)" using L(1) by (simp add: x509_lib_ok_def)
  have rd: "ar_report_data r = pad64 ?n"
    using impl_get_report_binds [OF L(3) assms(7) [unfolded get_nonce_bound_report_def]] assms(6)
    by (simp add: nonce_report_data_def length_pad64)
  obtain u where u: "a_url_join A base (''.well-known/attestation?nonce='' @ hex_encode (g_hex G) ?n) = Some u"
      "U u = (''/.well-known/attestation'', Some (''nonce='' @ hex_encode (g_hex G) ?n))" "a_url_ok A base"
    using assms(2) L(6) by (auto simp: origin_url_def)
  let ?q = "\<lparr>cq_method = ''GET'', cq_url = u, cq_json = None\<rparr>"
  obtain b where b: "json_to_vec (g_x509 G) (report_to_json (g_hex G) r) = Some b"
      "json_from_slice (g_x509 G) b = Some (report_to_json (g_hex G) r)"
    using L(2) plain_report unfolding json_lib_ok_def by blast
  have "ag_backend (w_ext w) = ag_backend a0" using agent_serve_fixed [of G qs a0] assms(4) by simp
  then have h: "agent_handle G (received (g_x509 G) U ?q) (w_ext w) = (EndpointReply (ReportReply r), w_ext w)"
    using u(2) L(4) hex assms(7)
    by (simp add: agent_handle_def received_def extractors_ok_def attestation_endpoint_def hex_ok_def)
  have s: "on_ext RequestFailed (a_send (connected G U A) ?q) w = (Ok \<lparr>cr_status = 200, cr_text = Ok (string_of_bytes b)\<rparr>, w)"
    using b(1) by (simp add: connected_send h json_response_def)
  have a: "attested_send (connected G U A) ?q (verifier_new expected) w =
      (Ok \<lparr>cr_status = 200, cr_text = Ok (string_of_bytes b)\<rparr>,
       \<lparr>sv_extracted_report = Some (agent_report G a0), sv_expected_measurement = expected\<rparr>, w)"
    by (rule attested_send_handshake [OF agent_handshake [OF assms(1,3-5)] s]) (simp add: next_request_def)
  obtain v w' where v: "verify_report_in A r product w = (Ok v, w')" "vr_valid v" "w_ext w' = w_ext w"
    using assms(8) unfolding vouched_def by blast
  have "report_from_json (g_hex G) (report_to_json (g_hex G) r) = Some r"
    using hex rd assms(6)
    by (simp add: report_from_json_def report_to_json_def hex_serialize_def hex_deserialize_def
        hex_array_deserialize_def hex_ok_def length_pad64)
  moreover have "take 32 (pad64 ?n) = ?n" using take_pad64 [of ?n] assms(6) by simp
  ultimately show ?thesis using u a b v rd L by (simp add: fresh_attestation_def Let_def)
qed

lemma agent_serve_snoc: "snd (agent_serve G (qs @ [q]) a) = snd (agent_handle G q (snd (agent_serve G qs a)))"
  by (induction qs arbitrary: a) simp_all

lemma secrets_map_wf: "hm_wf (secrets_map secrets)"
  unfolding secrets_map_def by (induction secrets rule: rev_induct) (auto split: prod.splits)

lemma secrets_map_get: "hm_get (secrets_map secrets) k = map_of (rev secrets) k"
  unfolding secrets_map_def by (induction secrets rule: rev_induct) auto

lemma secrets_map_keys: "fst ` set (secrets_map secrets) = fst ` set secrets"
proof -
  have "fst ` set (secrets_map secrets) = dom (hm_get (secrets_map secrets))"
    by (force simp: dom_def hm_get_set [OF secrets_map_wf, symmetric])
  also have "\<dots> = dom (map_of (rev secrets))" by (simp add: secrets_map_get [abs_def])
  finally show ?thesis by (simp add: dom_map_of_conv_image_fst)
qed

text \<open>One exchange with the injection endpoint, whatever it answers.\<close>

lemma inject_reply_status: "fst (json_response C (inject_reply_web r)) \<in> {200, 400, 409, 500}"
  by (cases r) (auto simp: json_response_def split: option.splits)

lemma json_error_status: "extractors_ok G \<Longrightarrow> g_json G req = Err status \<Longrightarrow> 400 \<le> status"
  unfolding extractors_ok_def by blast

lemma injection_exchange:
  assumes "same_libs G A" "origin_url A U base" "agent_start G cli inject app = Ok a0"
    and "w_ext w = snd (agent_serve G qs a0)" "expected \<in> {None, Some (ar_measurement (agent_report G a0))}"
  obtains u q rep a1 where "a_url_ok A base" "a_url_join A base ''confidential/inject-secret'' = Some u"
    "q = received (g_x509 G) U (inject_request u secrets)" "agent_handle G q (w_ext w) = (rep, a1)"
    "hr_method q = ''POST''" "g_path G (hr_path q) = ''/confidential/inject-secret''"
    "attested_send (connected G U A) (inject_request u secrets) (verifier_new expected) w =
      (Ok \<lparr>cr_status = fst (agent_response G rep), cr_text = Ok (string_of_bytes (snd (agent_response G rep)))\<rparr>,
       \<lparr>sv_extracted_report = Some (agent_report G a0), sv_expected_measurement = expected\<rparr>, w\<lparr>w_ext := a1\<rparr>)"
    "a1 = snd (agent_serve G (qs @ [q]) a0)"
proof -
  obtain u where u: "a_url_join A base ''confidential/inject-secret'' = Some u" "U u = (''/confidential/inject-secret'', None)"
      "a_url_ok A base"
    using assms(2) by (auto simp: origin_url_def)
  define q where "q = received (g_x509 G) U (inject_request u secrets)"
  obtain rep a1 where h: "agent_handle G q (w_ext w) = (rep, a1)" by (rule prod.exhaust)
  have X: "extractors_ok G" using assms(1) by (simp add: same_libs_def)
  have p: "hr_method q = ''POST''" "hr_path q = ''/confidential/inject-secret''"
    by (simp_all add: q_def received_def inject_request_def u(2))
  moreover have "CHR ''%'' \<notin> set (''/confidential/inject-secret'')" by simp
  ultimately have route: "g_path G (hr_path q) = ''/confidential/inject-secret''" using X by (simp add: extractors_ok_def)
  consider r where "rep = InjectionReply r" | status where "rep = BadJson status" "g_json G q = Err status"
    using h route p(1) by (auto simp: agent_handle_def split: sum.splits prod.splits)
  then have "fst (agent_response G rep) \<notin> {301, 302, 303, 307, 308}"
  proof cases
    case (1 r)
    then show ?thesis using inject_reply_status [of "g_x509 G" r] by auto
  next
    case 2
    with json_error_status [OF X 2(2)] show ?thesis by auto
  qed
  then have "next_request (connected G U A) (inject_request u secrets)
      \<lparr>cr_status = fst (agent_response G rep), cr_text = Ok (string_of_bytes (snd (agent_response G rep)))\<rparr> = None"
    by (simp add: next_request_def)
  moreover have "on_ext RequestFailed (a_send (connected G U A) (inject_request u secrets)) w =
      (Ok \<lparr>cr_status = fst (agent_response G rep), cr_text = Ok (string_of_bytes (snd (agent_response G rep)))\<rparr>, w\<lparr>w_ext := a1\<rparr>)"
    by (simp add: connected_send q_def [symmetric] h)
  ultimately have s: "attested_send (connected G U A) (inject_request u secrets) (verifier_new expected) w =
      (Ok \<lparr>cr_status = fst (agent_response G rep), cr_text = Ok (string_of_bytes (snd (agent_response G rep)))\<rparr>,
       \<lparr>sv_extracted_report = Some (agent_report G a0), sv_expected_measurement = expected\<rparr>, w\<lparr>w_ext := a1\<rparr>)"
    by (intro attested_send_handshake [OF agent_handshake [OF assms(1,3-5)]])
  show ?thesis
    using h assms(4) by (intro that [OF u(3,1) q_def h p(1) route s]) (simp add: agent_serve_snoc)
qed

text \<open>The injection endpoint reads secrets whose text is within the limit.\<close>

lemma secrets_read:
  assumes "extractors_ok G" "json_lib_ok (g_x509 G)" "secrets_size (g_x509 G) secrets \<le> 2097152"
  obtains ms where "g_json G (received (g_x509 G) U (inject_request u secrets)) = Ok ms" "hm_wf ms"
    "set ms = set (secrets_map secrets)"
proof -
  let ?m = "secrets_map secrets" and ?q = "received (g_x509 G) U (inject_request u secrets)"
  have d: "distinct (map fst ?m)" using secrets_map_wf [of secrets] by (simp add: hm_wf_def)
  then have "plain_json (JObj (map (\<lambda>(k, s). (k, JStr s)) ?m))" by (simp add: split_beta comp_def)
  then obtain b where b: "json_to_vec (g_x509 G) (JObj (map (\<lambda>(k, s). (k, JStr s)) ?m)) = Some b"
    using assms(2) unfolding json_lib_ok_def by blast
  have "length b \<le> 2097152" using assms(3) b by (simp add: secrets_size_def)
  moreover have "hr_headers ?q = [(''content-type'', Some ''application/json'')]" "hr_body ?q = b"
    using b by (simp_all add: received_def inject_request_def)
  ultimately show ?thesis using assms(1) d b that unfolding extractors_ok_def by blast
qed

lemma injected_refuses:
  assumes "same_libs G A" "origin_url A U base" "agent_start G cli inject app = Ok a0"
    and "w_ext w = snd (agent_serve G qs a0)" "expected \<in> {None, Some (ar_measurement (agent_report G a0))}"
    and "vouched A product (agent_report G a0)" "\<not> is_poisoned (ag_inject (w_ext w))" "is_injected (ag_inject (w_ext w))"
  shows "\<exists>e w'. inject_secret (connected G U A) base product expected secrets w = (Err e, w') \<and>
    ag_inject (w_ext w') = ag_inject (w_ext w) \<and> (secrets_size (g_x509 G) secrets \<le> 2097152 \<longrightarrow> e = InjectedAlready)"
proof -
  obtain u q rep a1 where x: "a_url_ok A base" "a_url_join A base ''confidential/inject-secret'' = Some u"
    "q = received (g_x509 G) U (inject_request u secrets)" "agent_handle G q (w_ext w) = (rep, a1)"
    "hr_method q = ''POST''" "g_path G (hr_path q) = ''/confidential/inject-secret''"
    "attested_send (connected G U A) (inject_request u secrets) (verifier_new expected) w =
      (Ok \<lparr>cr_status = fst (agent_response G rep), cr_text = Ok (string_of_bytes (snd (agent_response G rep)))\<rparr>,
       \<lparr>sv_extracted_report = Some (agent_report G a0), sv_expected_measurement = expected\<rparr>, w\<lparr>w_ext := a1\<rparr>)"
    by (rule injection_exchange [OF assms(1-5), of secrets])
  have C: "json_lib_ok (g_x509 G)" "a_client_ok A" "extractors_ok G" using assms(1) by (auto simp: same_libs_def)
  have refused: "inject_secret_handler (g_io G) ms (ag_inject (w_ext w)) = (AlreadyInjected, ag_inject (w_ext w))" for ms
    using assms(7,8) by (simp add: inject_secret_handler_def)
  obtain v w' where v: "verify_report_in A (agent_report G a0) product (w\<lparr>w_ext := a1\<rparr>) = (Ok v, w')" "vr_valid v" "w_ext w' = a1"
    using assms(6) unfolding vouched_def by fastforce
  have "plain_json (error_json ''secrets already injected'')" by (simp add: error_json_def)
  then obtain b where b: "json_to_vec (g_x509 G) (error_json ''secrets already injected'') = Some b"
    using C(1) unfolding json_lib_ok_def by blast
  show ?thesis
  proof (cases "g_json G q")
    case (Inl status)
    then have "rep = BadJson status" "a1 = w_ext w" using x(4-6) by (auto simp: agent_handle_def)
    moreover have "status \<noteq> 200" using json_error_status [OF C(3) Inl] by auto
    moreover have "\<not> secrets_size (g_x509 G) secrets \<le> 2097152"
      using secrets_read [OF C(3,1), of secrets U u] Inl x(3) by fastforce
    ultimately show ?thesis using x(1,2,7) C(2) v by (auto simp: inject_secret_def)
  next
    case (Inr ms)
    then have "rep = InjectionReply AlreadyInjected" "a1 = w_ext w" using x(4-6) refused by (auto simp: agent_handle_def)
    then show ?thesis using x(1,2,7) C(2) v b by (simp add: inject_secret_def json_response_def)
  qed
qed

text \<open>
  C25: secrets that a client injects into a running agent arrive: with one to sixteen proper
  secrets whose JSON text has at most 2 MiB, none injected yet and file operations that succeed,
  the command reports exactly their names, and every secret is in its file with its value. From
  then on every injection fails, with whatever secrets, as one already made unless the text is
  too long to be read, and changes nothing.
\<close>

theorem secrets_reach_agent:
  assumes "same_libs G A" "origin_url A U base" "agent_start G cli inject app = Ok a0"
    and "w_ext w = snd (agent_serve G qs a0)" "expected \<in> {None, Some (ar_measurement (agent_report G a0))}"
    and "vouched A product (agent_report G a0)" "reliable_io (g_io G)"
    and "\<not> is_poisoned (ag_inject (w_ext w))" "\<not> is_injected (ag_inject (w_ext w))"
    and "secrets \<noteq> []" "length (secrets_map secrets) \<le> 16" "\<forall>kv \<in> set (secrets_map secrets). good_secret kv"
    and "secrets_size (g_x509 G) secrets \<le> 2097152"
  shows "\<exists>keys w'. inject_secret (connected G U A) base product expected secrets w = (Ok keys, w') \<and>
    distinct keys \<and> set keys = fst ` set secrets \<and>
    (\<forall>k v. map_of (rev secrets) k = Some v \<longrightarrow>
       fs_content (is_fs (ag_inject (w_ext w'))) (''/tmp/secrets/'' @ k) = Some v) \<and>
    (\<forall>others. \<exists>e w''. inject_secret (connected G U A) base product expected others w' = (Err e, w'') \<and>
       ag_inject (w_ext w'') = ag_inject (w_ext w') \<and> (secrets_size (g_x509 G) others \<le> 2097152 \<longrightarrow> e = InjectedAlready))"
proof -
  obtain u q rep a1 where x: "a_url_ok A base" "a_url_join A base ''confidential/inject-secret'' = Some u"
    "q = received (g_x509 G) U (inject_request u secrets)" "agent_handle G q (w_ext w) = (rep, a1)"
    "hr_method q = ''POST''" "g_path G (hr_path q) = ''/confidential/inject-secret''"
    "attested_send (connected G U A) (inject_request u secrets) (verifier_new expected) w =
      (Ok \<lparr>cr_status = fst (agent_response G rep), cr_text = Ok (string_of_bytes (snd (agent_response G rep)))\<rparr>,
       \<lparr>sv_extracted_report = Some (agent_report G a0), sv_expected_measurement = expected\<rparr>, w\<lparr>w_ext := a1\<rparr>)"
    "a1 = snd (agent_serve G (qs @ [q]) a0)"
    by (rule injection_exchange [OF assms(1-5), of secrets])
  have C: "json_lib_ok (g_x509 G)" "a_x509 A = g_x509 G" "a_client_ok A" "extractors_ok G"
    using assms(1) by (auto simp: same_libs_def)
  obtain ms where ms: "g_json G q = Ok ms" "hm_wf ms" "set ms = set (secrets_map secrets)"
    unfolding x(3) by (rule secrets_read [OF C(4,1) assms(13)])
  have len: "length ms = length (secrets_map secrets)"
    using ms(2,3) secrets_map_wf [of secrets] by (metis distinct_card distinct_map hm_wf_def)
  have "secrets_map secrets \<noteq> []" using secrets_map_keys [of secrets] assms(10) by auto
  then have "ms \<noteq> []" using ms(3) by auto
  moreover obtain r s' where r: "inject_secret_handler (g_io G) ms (ag_inject (w_ext w)) = (r, s')" by (rule prod.exhaust)
  ultimately have "r = Injected (map fst ms)"
    using proper_injection_succeeds [OF assms(7-9), of ms] assms(11,12) ms(3) len by simp
  note served = handler_Injected [OF r [unfolded this] ms(2)]
  have h: "rep = InjectionReply (Injected (map fst ms))" "a1 = (w_ext w)\<lparr>ag_inject := s'\<rparr>"
    using x(4-6) ms(1) r \<open>r = _\<close> by (auto simp: agent_handle_def)
  have "plain_json (JObj [(''injected'', JArr (map JStr (map fst ms)))])" by simp
  then obtain b where b: "json_to_vec (g_x509 G) (JObj [(''injected'', JArr (map JStr (map fst ms)))]) = Some b"
      "json_from_slice (g_x509 G) b = Some (JObj [(''injected'', JArr (map JStr (map fst ms)))])"
    using C(1) unfolding json_lib_ok_def by blast
  obtain v w' where v: "verify_report_in A (agent_report G a0) product (w\<lparr>w_ext := a1\<rparr>) = (Ok v, w')" "vr_valid v" "w_ext w' = a1"
    using assms(6) unfolding vouched_def by fastforce
  have reply: "agent_response G rep = (200, b)" using b(1) by (simp add: h(1) json_response_def)
  have keys: "parse_inject_response (g_x509 G) (string_of_bytes b) = Some (map fst ms)"
    using b(2) by (simp add: parse_inject_response_def jget_array_def list_all_iff comp_def)
  have "inject_secret (connected G U A) base product expected secrets w = (Ok (map fst ms), w')"
    using x(1,2,7) C v keys by (simp add: inject_secret_def reply del: agent_response.simps)
  moreover have "distinct (map fst ms)" "set (map fst ms) = fst ` set secrets"
    using ms(2,3) secrets_map_keys [of secrets] by (simp_all add: hm_wf_def)
  moreover have "fs_content (is_fs (ag_inject (w_ext w'))) (''/tmp/secrets/'' @ k) = Some val"
    if "map_of (rev secrets) k = Some val" for k val
    using that served v(3) h(2) ms(3) hm_get_set [OF secrets_map_wf, of k val secrets] by (auto simp: secrets_map_get)
  moreover have "\<exists>e w''. inject_secret (connected G U A) base product expected others w' = (Err e, w'') \<and>
       ag_inject (w_ext w'') = ag_inject (w_ext w') \<and> (secrets_size (g_x509 G) others \<le> 2097152 \<longrightarrow> e = InjectedAlready)" for others
  proof (rule injected_refuses [OF assms(1-3) _ assms(5,6)])
    show "w_ext w' = snd (agent_serve G (qs @ [q]) a0)" using v(3) x(8) by simp
    show "\<not> is_poisoned (ag_inject (w_ext w'))" "is_injected (ag_inject (w_ext w'))"
      using served v(3) h(2) by simp_all
  qed
  ultimately show ?thesis by blast
qed

section \<open>A client and an agent\<close>

text \<open>
  An instance of the libraries for both sides, with the text form of \<^verbatim>\<open>Vm_Record\<close> for JSON, and an
  application that answers every request alike.
\<close>

definition full_x509 :: x509_lib where
  "full_x509 = demo_x509\<lparr>json_to_vec := (\<lambda>j. Some (bytes_of_string (jt_print sized_text j))),
     json_from_slice := (\<lambda>b. jt_parse sized_text (string_of_bytes b))\<rparr>"

definition demo_app :: "unit proxy_lib" where
  "demo_app = \<lparr>method_from_bytes = Some, status_from_u16 = Some,
     send_upstream = (\<lambda>r x. (Ok \<lparr>us_status = 200, us_headers = [], us_body = Ok []\<rparr>, x))\<rparr>"

definition demo_agent_env :: "(unit, bytes) agent_env" where
  "demo_agent_env = \<lparr>g_x509 = full_x509, g_hex = demo_hex, g_sha384 = demo_sha, g_sev = demo_sev, g_rcgen = demo_rcgen,
     g_rustls = \<lparr>safe_protocol_versions = True, single_cert_ok = (\<lambda>_ _. True)\<rparr>, g_bind = (\<lambda>_. Ok ()),
     g_path = id, g_query = (\<lambda>q. Option.bind q (\<lambda>s. strip_prefix s ''nonce='')),
     g_json = (\<lambda>req. if length (hr_body req) > 2097152 then Err 413
       else ok_or (Option.bind (json_from_slice full_x509 (hr_body req)) string_map_json) 400),
     g_bytes = (\<lambda>req. if length (hr_body req) > 262144 then Err 413 else Ok (hr_body req)),
     g_proxy = demo_app, g_io = calm_io\<rparr>"

definition demo_split :: "string \<Rightarrow> string \<times> string option" where
  "demo_split url = (case split_once CHR ''?'' (drop 10 url) of None \<Rightarrow> (drop 10 url, None) | Some (p, q) \<Rightarrow> (p, Some q))"

definition demo_client :: "(unit agent, bytes, bytes, bytes, bytes, bytes) attest_env" where
  "demo_client = \<lparr>a_kds = log_kds, a_hex = demo_hex, a_sev = demo_sev, a_ssl = demo_ssl True, a_x509 = full_x509,
     a_sha384 = demo_sha, a_nonce = (\<lambda>_. replicate 32 5), a_url_ok = (\<lambda>_. True), a_url_join = (\<lambda>b p. Some (b @ p)),
     a_client_ok = True, a_connect = (\<lambda>url x. (Err ''no server'', x)), a_key_proof = (\<lambda>_ _. False),
     a_send = (\<lambda>q x. (Err ''no server'', x)), a_redirect = (\<lambda>q r. None)\<rparr>"

definition demo_agent :: "unit agent" where
  "demo_agent = projr (agent_start demo_agent_env agent_cli_defaults demo_inject ())"

lemma full_json_ok: "json_lib_ok full_x509"
  using sized_text_ok by (simp add: json_lib_ok_def json_text_ok_def full_x509_def)

lemma full_json_read: "json_to_vec full_x509 j = Some b \<Longrightarrow> plain_json j \<Longrightarrow> json_from_slice full_x509 b = Some j"
  using full_json_ok by (auto simp: json_lib_ok_def)

lemma full_x509_ok: "x509_lib_ok full_x509 demo_hex"
  unfolding x509_lib_ok_def
proof (intro conjI allI impI)
  show "octet_string_from_der full_x509 d = Some b"
    if "octet_string_new full_x509 b = Some s" "octet_string_to_der full_x509 s = Some d" for b s d
    using that by (simp add: full_x509_def demo_x509_def)
qed (use full_json_read plain_report demo_hex_ok in blast)+

lemma secrets_json_read:
  "distinct (map fst ms) \<Longrightarrow> string_map_json (JObj (map (\<lambda>(k, s). (k, JStr s)) ms)) = Some ms"
  using string_map_round [of ms] by (simp only: string_map_to_json_def hm_wf_def)

lemma demo_extractors: "extractors_ok demo_agent_env"
  unfolding extractors_ok_def
proof (intro conjI allI impI)
  show "g_query demo_agent_env (Some (''nonce='' @ hex_encode (g_hex demo_agent_env) n)) = Some (hex_encode (g_hex demo_agent_env) n)" for n
    using strip_prefix_append [of "''nonce=''"] by (simp add: demo_agent_env_def)
  show "g_path demo_agent_env p = p" for p by (simp add: demo_agent_env_def)
  show "400 \<le> status" if "g_json demo_agent_env req = Err status" for req status
    using that by (auto simp: demo_agent_env_def ok_or_def split: if_splits option.splits)
  fix req :: http_request and ms :: "(string \<times> string) list" and b
  assume d: "distinct (map fst ms)" and l: "hr_body req = b" "length b \<le> 2097152"
    and "json_to_vec (g_x509 demo_agent_env) (JObj (map (\<lambda>(k, s). (k, JStr s)) ms)) = Some b"
  moreover have "plain_json (JObj (map (\<lambda>(k, s). (k, JStr s)) ms))" using d by (simp add: split_beta comp_def)
  ultimately have "json_from_slice full_x509 b = Some (JObj (map (\<lambda>(k, s). (k, JStr s)) ms))"
    by (intro full_json_read) (simp_all add: demo_agent_env_def)
  then have "g_json demo_agent_env req = Ok ms"
    using secrets_json_read [OF d] l by (simp add: demo_agent_env_def ok_or_def del: string_map_json.simps)
  with d show "\<exists>ms'. g_json demo_agent_env req = Ok ms' \<and> hm_wf ms' \<and> set ms' = set ms" by (simp add: hm_wf_def)
qed

lemma demo_same_libs: "same_libs demo_agent_env demo_client"
  using full_x509_ok full_json_ok demo_rcgen_ok demo_sev_binds demo_sha_length demo_extractors
  by (simp add: same_libs_def rcgen_ok_def) (simp add: demo_agent_env_def demo_client_def full_x509_def)

lemma demo_origin: "origin_url demo_client demo_split ''https://vm/''"
  using split_once_append [of "CHR ''?''" "''/.well-known/attestation''"]
  by (simp add: origin_url_def demo_client_def demo_split_def)

lemma demo_started: "agent_start demo_agent_env agent_cli_defaults demo_inject () = Ok demo_agent"
  by (simp add: demo_agent_def agent_start_def generate_attested_tls_identity_def demo_rcgen_def get_key_bound_report_def
      sev_get_report_def demo_sev_def sev_parse_report_def parse_sev_snp_report_def key_report_data_def length_pad64
      demo_sha_length report_size_def encode_attestation_extension_def demo_x509_def demo_agent_env_def full_x509_def
      build_rustls_config_def Let_def)

lemma demo_vouched:
  assumes "length (ar_data r) = 1184"
  shows "vouched demo_client product r"
proof -
  have "verify_report_in demo_client r product w =
      (Ok (verified_result product (the (sev_from_bytes demo_sev (ar_data r)))), w)" for w
    using assms demo_chain [of True]
    by (simp add: verify_report_in_def verify_sev_snp_report_def demo_client_def parse_sev_snp_report_def report_size_def
        demo_sev_def log_kds_fetch verify_cert_chain_Ok [THEN iffD2] verify_report_signature_def signed_report_size_def
        demo_ssl_def Let_def)
  then show ?thesis by (simp add: vouched_def verified_result_def Let_def)
qed

definition demo_agent_world :: "unit agent world" where
  "demo_agent_world = \<lparr>w_fs = \<lparr>fs_files = hm_empty, fs_dirs = [], fs_clock = 0\<rparr>, w_ext = demo_agent\<rparr>"

lemma demo_agent_backend: "ag_backend demo_agent = SevSnpImpl (sev_snp_backend_new ''Genoa'')"
  by (rule agent_start_identity [OF demo_started]) (simp add: agent_cli_defaults_def)

theorem fresh_attestation_of_agent_witness:
  "\<exists>r w'. fresh_attestation (connected demo_agent_env demo_split demo_client) ''https://vm/'' ''Genoa'' None demo_agent_world =
     (Ok r, w') \<and> ar_report_data r = replicate 32 5 @ replicate 32 0"
proof -
  have f: "w_ext demo_agent_world = snd (agent_serve demo_agent_env [] demo_agent)" by (simp add: demo_agent_world_def)
  have n: "a_nonce demo_client x = replicate 32 5" for x by (simp add: demo_client_def)
  obtain r where r: "get_nonce_bound_report (g_sha384 demo_agent_env) (g_sev demo_agent_env) (ag_backend demo_agent)
      (a_nonce demo_client (w_ext demo_agent_world)) = Ok r" "length (ar_data r) = 1184"
    by (simp add: demo_agent_backend n get_nonce_bound_report_def sev_get_report_def demo_agent_env_def demo_sev_def
        sev_parse_report_def parse_sev_snp_report_def nonce_report_data_def length_pad64 report_size_def)
  from fresh_attestation_of_agent [OF demo_same_libs demo_origin demo_started f _ _ r(1) demo_vouched [OF r(2)], of None "''Genoa''"]
  show ?thesis by (auto simp: n pad64_def)
qed

theorem secrets_reach_agent_witness:
  "\<exists>keys w'. inject_secret (connected demo_agent_env demo_split demo_client) ''https://vm/'' ''Genoa'' None
       [(''luks'', ''old''), (''luks'', ''key'')] demo_agent_world = (Ok keys, w') \<and> set keys = {''luks''} \<and>
     fs_content (is_fs (ag_inject (w_ext w'))) ''/tmp/secrets/luks'' = Some ''key''"
proof -
  let ?secrets = "[(''luks'', ''old''), (''luks'', ''key'')]"
  have f: "w_ext demo_agent_world = snd (agent_serve demo_agent_env [] demo_agent)" by (simp add: demo_agent_world_def)
  have i: "ag_inject (w_ext demo_agent_world) = demo_inject"
    by (rule agent_start_identity [OF demo_started]) (simp add: demo_agent_world_def)
  have "length (ar_data (agent_report demo_agent_env demo_agent)) = 1184"
    by (simp add: agent_report_def demo_agent_backend generate_attested_tls_identity_def demo_rcgen_def get_key_bound_report_def
      sev_get_report_def demo_sev_def sev_parse_report_def parse_sev_snp_report_def key_report_data_def length_pad64
      demo_sha_length report_size_def encode_attestation_extension_def demo_x509_def demo_agent_env_def full_x509_def)
  note v = demo_vouched [OF this]
  have io: "reliable_io (g_io demo_agent_env)" by (simp add: demo_agent_env_def)
  have m: "secrets_map ?secrets = [(''luks'', ''key'')]" by code_simp
  have p: "\<not> is_poisoned (ag_inject (w_ext demo_agent_world))" "\<not> is_injected (ag_inject (w_ext demo_agent_world))"
    unfolding i by (simp_all add: demo_inject_def)
  have g: "length (secrets_map ?secrets) \<le> 16" "\<forall>kv \<in> set (secrets_map ?secrets). good_secret kv"
    unfolding m by (simp_all add: good_secret_def key_char_def is_ascii_alphanumeric_def is_ascii_lowercase_def)
  have "show_nat (Suc 0) = ''1''" "show_nat (Suc (Suc (Suc 0))) = ''3''" "show_nat (Suc (Suc (Suc (Suc 0)))) = ''4''" by code_simp+
  then have z: "secrets_size (g_x509 demo_agent_env) ?secrets \<le> 2097152"
    unfolding secrets_size_def m
    by (simp add: demo_agent_env_def full_x509_def sized_text_def bytes_of_string_def sized_def)
  obtain keys w' where r: "inject_secret (connected demo_agent_env demo_split demo_client) ''https://vm/'' ''Genoa'' None
       ?secrets demo_agent_world = (Ok keys, w')" "set keys = fst ` set ?secrets"
      "\<forall>k v. map_of (rev ?secrets) k = Some v \<longrightarrow> fs_content (is_fs (ag_inject (w_ext w'))) (''/tmp/secrets/'' @ k) = Some v"
    using secrets_reach_agent [OF demo_same_libs demo_origin demo_started f _ v io p _ g z, of None] by blast
  moreover have "fs_content (is_fs (ag_inject (w_ext w'))) (''/tmp/secrets/'' @ ''luks'') = Some ''key''"
    by (rule r(3) [rule_format]) simp
  ultimately show ?thesis by (intro exI [of _ keys] exI [of _ w']) simp
qed

end
