(* ===== verification/Attest_Cli.thy ===== *)
theory Attest_Cli
  imports Attest_Agent
begin

text \<open>
  The command line of the attestation client (\<^verbatim>\<open>crates/aleph-attest-cli/src/main.rs\<close>): its three
  commands, what each checks before anything is sent, the exchange of \<^verbatim>\<open>Attest_Client\<close> it makes
  and the lines it prints.
\<close>

section \<open>Commands\<close>

record common_args =
  cm_url :: string
  cm_amd_product :: string
  cm_expected_measurement :: "string option"

datatype attest_command =
    AttestCmd common_args
  | FreshAttestCmd common_args
  | InjectSecretCmd common_args "(string \<times> string) list"

datatype attest_cli_error =
    BadMeasurement
  | SecretRequired
  | ExchangeFailed client_error

text \<open>The values of \<^verbatim>\<open>--secret\<close>, each read by \<^verbatim>\<open>parse_key_value\<close> when the command line is parsed.\<close>

definition parse_secret_args :: "string list \<Rightarrow> (string \<times> string) list option" where
  "parse_secret_args ss = those (map parse_key_value ss)"

definition show_bool :: "bool \<Rightarrow> string" where
  "show_bool b = (if b then ''true'' else ''false'')"

definition attest_lines :: "hex_lib \<Rightarrow> attested_response \<Rightarrow> string list" where
  "attest_lines X r =
     [''Attestation valid: '' @ show_bool (at_valid r), ''Summary:           '' @ at_summary r,
      ''Measurement:       '' @ hex_encode X (at_measurement r), ''HTTP status:       '' @ show_word (at_status r),
      ''Response body:'', at_body r]"

definition fresh_lines :: "hex_lib \<Rightarrow> attestation_report \<Rightarrow> string list" where
  "fresh_lines X r =
     [''Fresh attestation verified successfully!'', ''  TEE type:     '' @ tee_type_debug (ar_tee_type r),
      ''  Measurement:  '' @ hex_encode X (ar_measurement r), ''  Report data:  '' @ hex_encode X (ar_report_data r)]"

definition inject_lines :: "string list \<Rightarrow> string list" where
  "inject_lines keys = ''Secrets injected successfully!'' # map (\<lambda>k. ''  - '' @ k) keys"

text \<open>The lines printed, the result and the world after a command.\<close>

fun attest_main ::
  "('x, 'c, 'k, 'e, 'n, 's) attest_env \<Rightarrow> attest_command \<Rightarrow> 'x world \<Rightarrow>
   string list \<times> (attest_cli_error, unit) result \<times> 'x world" where
  "attest_main A (AttestCmd args) w =
     (case parse_expected_measurement (a_hex A) (cm_expected_measurement args) of
        None \<Rightarrow> ([], Err BadMeasurement, w)
      | Some expected \<Rightarrow>
          (let first = ''Making attested request to '' @ cm_url args @ ''...'' in
           case attested_request A (cm_url args) (cm_amd_product args) expected w of
             (Inl e, w') \<Rightarrow> ([first], Err (ExchangeFailed e), w')
           | (Inr response, w') \<Rightarrow> (first # attest_lines (a_hex A) response, Ok (), w')))"
| "attest_main A (FreshAttestCmd args) w =
     (case parse_expected_measurement (a_hex A) (cm_expected_measurement args) of
        None \<Rightarrow> ([], Err BadMeasurement, w)
      | Some expected \<Rightarrow>
          (let first = ''Requesting fresh attestation from '' @ cm_url args @ ''...'' in
           case fresh_attestation A (cm_url args) (cm_amd_product args) expected w of
             (Inl e, w') \<Rightarrow> ([first], Err (ExchangeFailed e), w')
           | (Inr report, w') \<Rightarrow> (first # fresh_lines (a_hex A) report, Ok (), w')))"
| "attest_main A (InjectSecretCmd args secrets) w =
     (case parse_expected_measurement (a_hex A) (cm_expected_measurement args) of
        None \<Rightarrow> ([], Err BadMeasurement, w)
      | Some expected \<Rightarrow>
          if secrets = [] then ([], Err SecretRequired, w)
          else
            (let first = ''Injecting '' @ show_nat (length secrets) @ '' secret(s) into '' @ cm_url args @ ''...'' in
             case inject_secret A (cm_url args) (cm_amd_product args) expected secrets w of
               (Inl e, w') \<Rightarrow> ([first], Err (ExchangeFailed e), w')
             | (Inr keys, w') \<Rightarrow> (first # inject_lines keys, Ok (), w')))"

section \<open>What the commands report\<close>

fun command_args :: "attest_command \<Rightarrow> common_args" where
  "command_args (AttestCmd a) = a"
| "command_args (FreshAttestCmd a) = a"
| "command_args (InjectSecretCmd a ss) = a"

lemma attested_request_valid:
  assumes "attested_request A url product expected w = (Ok resp, w')"
  shows "at_valid resp"
proof -
  obtain r w1 v w2 where "verify_report_in A r product w1 = (Ok v, w2)" "at_valid resp = vr_valid v"
    using assms by (auto simp: attested_request_def bindE_Ok split: if_splits prod.splits sum.splits)
  with verified_report show ?thesis unfolding verify_report_in_Ok by blast
qed

text \<open>
  A malformed measurement stops every command before anything is sent or printed, and so
  does a call for injection without a secret. When \<^verbatim>\<open>attest\<close> succeeds it prints that the attestation
  is valid: the verdict it prints is never another one, an invalid report being an error.
\<close>

theorem attest_main_guards:
  "(parse_expected_measurement (a_hex A) (cm_expected_measurement (command_args c)) = None \<longrightarrow>
      attest_main A c w = ([], Err BadMeasurement, w)) \<and>
   (parse_expected_measurement (a_hex A) (cm_expected_measurement args) \<noteq> None \<longrightarrow>
      attest_main A (InjectSecretCmd args []) w = ([], Err SecretRequired, w)) \<and>
   (\<forall>lines w'. attest_main A (AttestCmd args) w = (lines, Ok (), w') \<longrightarrow> lines ! 1 = ''Attestation valid: true'')"
proof (intro conjI allI impI)
  show "attest_main A c w = ([], Err BadMeasurement, w)"
    if "parse_expected_measurement (a_hex A) (cm_expected_measurement (command_args c)) = None"
    using that by (cases c) simp_all
  show "attest_main A (InjectSecretCmd args []) w = ([], Err SecretRequired, w)"
    if "parse_expected_measurement (a_hex A) (cm_expected_measurement args) \<noteq> None"
    using that by auto
  fix lines w'
  assume "attest_main A (AttestCmd args) w = (lines, Ok (), w')"
  then obtain expected resp where "attested_request A (cm_url args) (cm_amd_product args) expected w = (Ok resp, w')"
      "lines ! 1 = ''Attestation valid: '' @ show_bool (at_valid resp)"
    by (auto simp: Let_def attest_lines_def split: option.splits prod.splits sum.splits)
  with attested_request_valid show "lines ! 1 = ''Attestation valid: true''" by (fastforce simp: show_bool_def)
qed

theorem attest_main_guards_witness:
  "attest_main (demo_attest True forged_cert) (InjectSecretCmd \<lparr>cm_url = ''u'', cm_amd_product = ''Genoa'',
     cm_expected_measurement = None\<rparr> []) log_world = ([], Err SecretRequired, log_world)"
  using attest_main_guards [where A = "demo_attest True forged_cert" and w = log_world and
      args = "\<lparr>cm_url = ''u'', cm_amd_product = ''Genoa'', cm_expected_measurement = None\<rparr>"]
  by (simp add: parse_expected_measurement_def)

lemma parse_secret_args_pairs:
  "list_all (\<lambda>kv. CHR ''='' \<notin> set (fst kv)) kvs \<Longrightarrow> parse_secret_args (map (\<lambda>(k, v). k @ CHR ''='' # v) kvs) = Some kvs"
  by (induction kvs) (auto simp: parse_secret_args_def parse_key_value_def split_once_append)

end
