(* ===== verification/Restart.thy ===== *)
theory Restart
  imports Grpc_Service Vm_Record
begin

text \<open>
  The compute node over its restarts. The VMs outlive the process that manages them: the
  manager of \<^verbatim>\<open>crates/aleph-compute-node/src/vm/manager.rs\<close> writes a record of every VM with
  \<^verbatim>\<open>persistence.rs\<close> and a new process rebuilds its table from them. This theory has the
  relation between the table and the state directory, that every request keeps it, and that
  recovery restores the table from it.

  The laws it relies on are named: \<open>durable\<close> (file operations succeed, a record can be printed
  and parses back) and \<open>programs_spare\<close> (\<^verbatim>\<open>ip\<close>, \<^verbatim>\<open>systemctl\<close>, \<^verbatim>\<open>systemd-run\<close> and \<^verbatim>\<open>veritysetup\<close> do
  not write \<^verbatim>\<open>.json\<close> files).
\<close>

section \<open>File names\<close>

lemma file_name_join_any: "clean_name n \<Longrightarrow> file_name (path_join d n) = n"
proof -
  assume n: "clean_name n"
  then have "CHR ''/'' \<notin> set n" "\<not> starts_with n ''/''" by (auto simp: clean_name_def starts_with_iff)
  moreover have "after_last CHR ''/'' n = n"
  proof -
    have "takeWhile (\<lambda>x. x \<noteq> CHR ''/'') (rev n) = rev n" using n by (auto simp: clean_name_def takeWhile_eq_all_conv)
    then show ?thesis by (simp only: after_last_def rev_rev_ident)
  qed
  moreover have "d \<noteq> [] \<Longrightarrow> last d = CHR ''/'' \<Longrightarrow> after_last CHR ''/'' (d @ n) = n"
    using n after_last_append [of "CHR ''/''" n "butlast d"] append_butlast_last_id [of d]
    by (metis append.assoc append_Cons append_Nil clean_name_def)
  ultimately show ?thesis
    by (cases "d = []") (auto simp: file_name_def path_join_def after_last_append)
qed

lemma file_name_append: "CHR ''/'' \<notin> set t \<Longrightarrow> file_name (p @ t) = file_name p @ t"
proof -
  assume "CHR ''/'' \<notin> set t"
  then have "takeWhile (\<lambda>x. x \<noteq> CHR ''/'') (rev t @ rev p) = rev t @ takeWhile (\<lambda>x. x \<noteq> CHR ''/'') (rev p)"
    by (intro takeWhile_append2) auto
  then show ?thesis by (simp add: file_name_def after_last_def)
qed

lemma extension_appended:
  assumes "CHR ''.'' \<notin> set t" "CHR ''/'' \<notin> set t" "t \<noteq> ''json''"
  shows "path_extension (p @ CHR ''.'' # t) \<noteq> Some ''json''"
  using assms file_name_append [of "CHR ''.'' # t" p]
  by (simp add: path_extension_def before_last_append after_last_append)

definition plain_id :: "string \<Rightarrow> bool" where
  "plain_id v \<longleftrightarrow> clean_name v \<and> CHR ''.'' \<notin> set v"

lemma validated_plain: "validate_vm_id v = Ok () \<Longrightarrow> plain_id v"
  using vm_id_char_excludes
  by (auto simp: validate_vm_id_Ok plain_id_def clean_name_def list_all_iff)

lemma extension_plain: "plain_id v \<Longrightarrow> path_extension (path_join d v) = None"
  using before_last_None [of "CHR ''.''" v] by (simp add: plain_id_def path_extension_def file_name_join_any)

lemma extension_v6:
  assumes "plain_id v"
  shows "path_extension (path_join d (v @ ''.v6'')) = Some ''v6''"
proof -
  have "clean_name (v @ ''.v6'')" using assms by (auto simp: plain_id_def clean_name_def)
  then show ?thesis
    using assms before_last_append [of "CHR ''.''" "''v6''" v] after_last_append [of "CHR ''.''" "''v6''" v]
    by (simp add: path_extension_def file_name_join_any plain_id_def clean_name_def)
qed

lemma extension_ndppd: "path_extension ''/etc/ndppd.conf'' \<noteq> Some ''json''"
  by code_simp

section \<open>Operations that leave the records alone\<close>

definition spares :: "filesystem \<Rightarrow> filesystem \<Rightarrow> bool" where
  "spares fs fs' \<longleftrightarrow>
     (\<forall>q. path_extension q = Some ''json'' \<longrightarrow> fs_content fs' q = fs_content fs q) \<and>
     set (fs_dirs fs) \<subseteq> set (fs_dirs fs') \<and> (hm_wf (fs_files fs) \<longrightarrow> hm_wf (fs_files fs'))"

definition programs_spare :: "'x host \<Rightarrow> bool" where
  "programs_spare H \<longleftrightarrow> (\<forall>prog args w. spares (w_fs w) (w_fs (snd (h_run H prog args w))))"

lemma spares_refl [simp]: "spares fs fs"
  by (simp add: spares_def)

lemma spares_trans: "spares a b \<Longrightarrow> spares b c \<Longrightarrow> spares a c"
  by (auto simp: spares_def)

lemma fs_exec_dirs: "set (fs_dirs fs) \<subseteq> set (fs_dirs (snd (fs_exec I st fs)))"
  by (cases st) (auto simp: fs_exec_def fs_fail_def split: option.splits prod.splits)

lemma fs_exec_wf: "hm_wf (fs_files fs) \<Longrightarrow> hm_wf (fs_files (snd (fs_exec I st fs)))"
  by (cases st) (auto simp: fs_exec_def fs_fail_def fs_put_def fs_append_def split: option.splits prod.splits)

lemma spares_exec:
  "\<forall>q \<in> step_targets st. path_extension q \<noteq> Some ''json'' \<Longrightarrow> spares fs (snd (fs_exec I st fs))"
  unfolding spares_def using fs_exec_frame fs_exec_dirs fs_exec_wf by blast

lemma spares_run_steps:
  "\<forall>st \<in> set sts. \<forall>q \<in> step_targets st. path_extension q \<noteq> Some ''json'' \<Longrightarrow> spares fs (snd (run_steps I sts fs))"
proof (induction sts arbitrary: fs)
  case (Cons st sts)
  then have "spares fs (snd (fs_exec I st fs))" by (simp add: spares_exec)
  with Cons show ?case
    by (cases "fs_exec I st fs"; cases "fst (fs_exec I st fs)") (auto intro: spares_trans)
qed simp

text \<open>
  The rules are in the form of the case splits of the model: from a step's equation, that what
  was spared before it is spared after it.
\<close>

named_theorems spares_intros

lemma on_ext_spares [spares_intros]: "on_ext c f w = (r, w') \<Longrightarrow> spares a (w_fs w) \<Longrightarrow> spares a (w_fs w')"
  using on_ext_fs [of c f w] by simp

lemma on_ext_ignore [simp]: "w_fs (ignore (on_ext c f w)) = w_fs w"
  by (simp add: ignore_def)

lemma run_spares [spares_intros]:
  "h_run H prog args w = (r, w') \<Longrightarrow> programs_spare H \<Longrightarrow> spares a (w_fs w) \<Longrightarrow> spares a (w_fs w')"
  using spares_trans [of a "w_fs w"] unfolding programs_spare_def by (metis snd_conv)

lemma fs_op_spares:
  "on_fs c (run_steps I sts) w = (r, w') \<Longrightarrow>
   \<forall>st \<in> set sts. \<forall>q \<in> step_targets st. path_extension q \<noteq> Some ''json'' \<Longrightarrow>
   spares a (w_fs w) \<Longrightarrow> spares a (w_fs w')"
  using spares_trans [OF _ spares_run_steps, of a "w_fs w" sts I]
  by (cases "run_steps I sts (w_fs w)") (auto simp: on_fs_def)

lemma fs_write_spares:
  "on_fs c (fs_write I p s) w = (r, w') \<Longrightarrow> path_extension p \<noteq> Some ''json'' \<Longrightarrow>
   spares a (w_fs w) \<Longrightarrow> spares a (w_fs w')"
  unfolding fs_write_def by (erule fs_op_spares) auto

lemma remove_file_spares:
  assumes "path_extension p \<noteq> Some ''json''" "spares a (w_fs w)"
  shows "spares a (w_fs (ignore (on_fs c (remove_file I p) w)))"
proof -
  have "spares (w_fs w) (snd (remove_file I p (w_fs w)))"
    unfolding remove_file_def using assms(1) by (intro spares_exec) simp
  then show ?thesis
    using spares_trans [OF assms(2)] by (cases "remove_file I p (w_fs w)") (simp add: on_fs_def ignore_def)
qed

lemma run_ip_spares [spares_intros]:
  "run_ip H args w = (r, w') \<Longrightarrow> programs_spare H \<Longrightarrow> spares a (w_fs w) \<Longrightarrow> spares a (w_fs w')"
  by (auto simp: run_ip_def split: prod.splits sum.splits if_splits intro: spares_intros)

lemma run_ip_ignored [spares_intros]:
  "programs_spare H \<Longrightarrow> spares a (w_fs w) \<Longrightarrow> spares a (w_fs (ignore (run_ip H args w)))"
  unfolding ignore_def by (cases "run_ip H args w") (auto intro: spares_intros)

lemma dhcp_spares [spares_intros]:
  "write_dhcp_reservation H d v mac ip w = (r, w') \<Longrightarrow> plain_id v \<Longrightarrow> spares a (w_fs w) \<Longrightarrow> spares a (w_fs w')"
  "write_dhcpv6_reservation H X d v mac ip6 w = (r, w') \<Longrightarrow> plain_id v \<Longrightarrow> spares a (w_fs w) \<Longrightarrow> spares a (w_fs w')"
  "plain_id v \<Longrightarrow> spares a (w_fs w) \<Longrightarrow> spares a (w_fs (remove_dhcp_reservation H d v w))"
  "plain_id v \<Longrightarrow> spares a (w_fs w) \<Longrightarrow> spares a (w_fs (remove_dhcpv6_reservation H d v w))"
  using extension_plain [of v d] extension_v6 [of v d]
  by (auto simp: write_dhcp_reservation_def write_dhcpv6_reservation_def remove_dhcp_reservation_def
      remove_dhcpv6_reservation_def Let_def intro: fs_write_spares remove_file_spares)

lemma ndp_spares [spares_intros]:
  "programs_spare H \<Longrightarrow> spares a (w_fs w) \<Longrightarrow> spares a (w_fs (ndp_update_config H X n w))"
  using extension_ndppd
  by (auto simp: ndp_update_config_def split: prod.splits sum.splits dest: fs_write_spares)
     (metis fs_write_spares prod.collapse run_spares)

lemma ndp_range_spares [spares_intros]:
  "ndp_add_range H X n tap rng w = (n', w') \<Longrightarrow> programs_spare H \<Longrightarrow> spares a (w_fs w) \<Longrightarrow> spares a (w_fs w')"
  "ndp_delete_range H X n tap w = (n', w') \<Longrightarrow> programs_spare H \<Longrightarrow> spares a (w_fs w) \<Longrightarrow> spares a (w_fs w')"
  by (auto simp: ndp_add_range_def ndp_delete_range_def Let_def intro: spares_intros)

lemma tap_spares [spares_intros]:
  "create_tap H tap br w = (r, w') \<Longrightarrow> programs_spare H \<Longrightarrow> spares a (w_fs w) \<Longrightarrow> spares a (w_fs w')"
  "add_ipv6_to_tap H X tap ip6 w = (r, w') \<Longrightarrow> programs_spare H \<Longrightarrow> spares a (w_fs w) \<Longrightarrow> spares a (w_fs w')"
  "programs_spare H \<Longrightarrow> spares a (w_fs w) \<Longrightarrow> spares a (w_fs (ignore (delete_tap H tap w)))"
  by (auto 6 8 simp: create_tap_def add_ipv6_to_tap_def delete_tap_def bindE_def split: prod.splits sum.splits
      intro: spares_intros)

lemma verity_spares [spares_intros]:
  assumes "ensure_verity H p w = (r, w')" "programs_spare H" "spares a (w_fs w)"
  shows "spares a (w_fs w')"
proof -
  have "path_extension (p @ ''.roothash'') \<noteq> Some ''json''" using extension_appended [of "''roothash''" p] by simp
  then show ?thesis
    using assms
    by (auto 6 8 simp: ensure_verity_def compute_verity_def Let_def bindE_def split: prod.splits sum.splits if_splits
        intro: spares_intros fs_write_spares)
qed

lemma spawn_spares [spares_intros]:
  assumes "qemu_spawn H args paths v dirs cpus sev w = (r, w')" "programs_spare H" "spares a (w_fs w)"
  shows "spares a (w_fs w')"
proof -
  have m: "spares a (w_fs w1)" if "on_fs c (run_steps I [Mkdir d, SetMode d m]) w0 = (q, w1)" "spares a (w_fs w0)"
    for c I d m w0 q w1 using fs_op_spares [OF that(1) _ that(2)] by simp
  have u: "spares a (w_fs w1)" if "start_vm_unit H v args d dirs cpus sev w0 = (q, w1)" "spares a (w_fs w0)" for d w0 q w1
    using that assms(2)
    by (auto 6 8 simp: start_vm_unit_def Let_def split: list.splits prod.splits sum.splits if_splits intro: spares_intros)
  have f: "spares a (w_fs (reset_failed_unit H v w0))" if "spares a (w_fs w0)" for w0
    using that assms(2) unfolding reset_failed_unit_def by (metis prod.collapse run_spares)
  show ?thesis
    using assms(1,3)
    by (auto 6 8 simp: qemu_spawn_def bindE_def split: option.splits prod.splits sum.splits intro: m u f)
qed

lemma unit_spares [spares_intros]:
  "qemu_reconnect H paths v w = (p, w') \<Longrightarrow> programs_spare H \<Longrightarrow> spares a (w_fs w) \<Longrightarrow> spares a (w_fs w')"
  "programs_spare H \<Longrightarrow> spares a (w_fs w) \<Longrightarrow> spares a (w_fs (ignore (qemu_stop H proc w)))"
  by (auto 6 8 simp: qemu_reconnect_def is_unit_active_def qemu_stop_def stop_vm_unit_def ignore_def
      split: prod.splits sum.splits intro: spares_intros)

section \<open>The phases of a request\<close>

text \<open>The fixed part of the assumptions: the host's programs, and the name of the VM.\<close>

lemma cleanup_spares [spares_intros]:
  "plain_id v \<Longrightarrow> spares a (w_fs (snd st)) \<Longrightarrow> spares a (w_fs (snd (cleanup_reservations E v b st)))"
  by (auto 6 8 simp: cleanup_reservations_def Let_def split: option.splits intro: spares_intros)

lemma write_reservations_spares:
  "plain_id v \<Longrightarrow> spares a (w_fs (snd st)) \<Longrightarrow> spares a (w_fs (snd (snd (write_reservations E v mac ip ip6 st))))"
  by (auto 6 8 simp: write_reservations_def split: option.splits prod.splits sum.splits intro: spares_intros)

lemma setup_tap_spares:
  "programs_spare (e_host E) \<Longrightarrow> plain_id v \<Longrightarrow> spares a (w_fs (snd st)) \<Longrightarrow>
   spares a (w_fs (snd (snd (setup_tap E v tap ip6 st))))"
  by (auto simp: setup_tap_def split: option.splits prod.splits sum.splits intro!: cleanup_spares tap_spares(3) intro: spares_intros)
     (blast intro: tap_spares)

lemma setup_chains_spares:
  "programs_spare (e_host E) \<Longrightarrow> plain_id v \<Longrightarrow> spares a (w_fs (snd st)) \<Longrightarrow>
   spares a (w_fs (snd (snd (setup_chains E v tap ip6 st))))"
  by (auto simp: setup_chains_def split: option.splits prod.splits sum.splits intro!: cleanup_spares tap_spares(3) intro: spares_intros)

lemma prepare_boot_spares:
  "programs_spare (e_host E) \<Longrightarrow> spares a (w_fs (snd st)) \<Longrightarrow> spares a (w_fs (snd (snd (prepare_boot E config st))))"
  by (auto simp: prepare_boot_def verity_boot_def Let_def split: list.splits prod.splits sum.splits if_splits
      intro: spares_intros)

lemma place_vm_world: "snd (snd (place_vm config hint st)) = snd st"
  by (auto simp: place_vm_def Let_def split: prod.splits sum.splits)

lemma rollback_spares:
  "programs_spare (e_host E) \<Longrightarrow> plain_id v \<Longrightarrow> spares a (w_fs (snd st)) \<Longrightarrow>
   spares a (w_fs (snd (spawn_rollback E config v tap ip6 p st)))"
  by (auto simp: spawn_rollback_def Let_def split: option.splits prod.splits intro!: cleanup_spares tap_spares(3) intro: spares_intros)
     (blast intro: ndp_range_spares)

lemma launch_spares:
  "programs_spare (e_host E) \<Longrightarrow> plain_id v \<Longrightarrow> spares a (w_fs (snd st)) \<Longrightarrow>
   spares a (w_fs (snd (snd (launch_vm E config v tap mac ip6 b cmd p st))))"
  by (auto simp: launch_vm_def Let_def split: prod.splits sum.splits intro!: rollback_spares intro: spares_intros)

section \<open>The table and the state directory\<close>

text \<open>The record of a VM, up to the order of its forwards.\<close>

definition recorded :: "mgr \<Rightarrow> string \<Rightarrow> vm_handle \<Rightarrow> persisted_vm \<Rightarrow> bool" where
  "recorded m v h p \<longleftrightarrow> pv_config p = vh_config h \<and> pv_ip p = vh_ip h \<and> pv_ipv6 p = vh_ipv6 h \<and>
     pv_tap_name p = vh_tap_name h \<and> pv_created_at_epoch p = vh_created_at_epoch h \<and>
     pv_numa_node p = vh_numa_node h \<and> set (pv_port_forwards p) = set (list_for_vm (m_port_forwards m) v)"

text \<open>
  Every VM of the table has its record on disk, and the state directory holds no other record.
\<close>

definition mirrored :: "'x mgr_env \<Rightarrow> 'x mstate \<Rightarrow> bool" where
  "mirrored E st \<longleftrightarrow> (let d = m_state_dir (fst st); fs = w_fs (snd st) in
     hm_wf (fs_files fs) \<and>
     (\<forall>v h. hm_get (m_vms (fst st)) v = Some h \<longrightarrow> plain_id v \<and> d \<in> set (fs_dirs fs) \<and>
        (\<exists>s p. fs_content fs (state_path d v) = Some s \<and> vm_parse (e_codec E) s = Some p \<and> recorded (fst st) v h p)) \<and>
     (\<forall>q. path_parent q = Some d \<longrightarrow> path_extension q = Some ''json'' \<longrightarrow> fs_content fs q \<noteq> None \<longrightarrow>
        (\<exists>v. q = state_path d v \<and> hm_contains_key (m_vms (fst st)) v)))"

lemma mirrored_same_fs: "w_fs w' = w_fs w \<Longrightarrow> mirrored E (m, w') = mirrored E (m, w)"
  by (simp add: mirrored_def)

definition durable :: "'x mgr_env \<Rightarrow> bool" where
  "durable E \<longleftrightarrow> reliable_io (h_io (e_host E)) \<and> (\<forall>fs p. dir_fault (h_io (e_host E)) fs p = None) \<and>
     (\<forall>p. \<exists>s. vm_print (e_codec E) p = Ok s \<and> vm_parse (e_codec E) s = Some p)"

lemma state_path_json: "clean_dir d \<Longrightarrow> plain_id v \<Longrightarrow> path_extension (state_path d v) = Some ''json''"
  by (simp add: extension_json plain_id_def)

lemma state_path_parent: "clean_dir d \<Longrightarrow> plain_id v \<Longrightarrow> path_parent (state_path d v) = Some d"
  by (auto simp: state_path_def plain_id_def clean_name_def intro!: parent_join)

lemma state_path_inj: "clean_dir d \<Longrightarrow> plain_id v \<Longrightarrow> plain_id u \<Longrightarrow> state_path d v = state_path d u \<longleftrightarrow> v = u"
  by (auto simp: state_path_def plain_id_def clean_join clean_name_def)

text \<open>The invariant holds again after anything that spares the records and keeps the table.\<close>

lemma mirrored_spares:
  assumes "mirrored E (m, w)" "spares (w_fs w) (w_fs w')" "m_vms m' = m_vms m" "m_state_dir m' = m_state_dir m"
    and "\<And>v. hm_contains_key (m_vms m) v \<Longrightarrow> set (list_for_vm (m_port_forwards m') v) = set (list_for_vm (m_port_forwards m) v)"
    and "clean_dir (m_state_dir m)"
  shows "mirrored E (m', w')"
  using assms unfolding mirrored_def recorded_def spares_def Let_def fst_conv snd_conv
  by (auto simp: state_path_json hm_contains_key_def)

text \<open>With durable storage a save succeeds and replaces exactly the record of the VM.\<close>

lemma save_state_effect:
  assumes "durable E" "clean_dir d" "plain_id v"
  obtains s where "vm_parse (e_codec E) s = Some p"
    "fs_content (w_fs (save_state E d v p w)) (state_path d v) = Some s"
    "\<And>q. path_extension q = Some ''json'' \<Longrightarrow> q \<noteq> state_path d v \<Longrightarrow>
       fs_content (w_fs (save_state E d v p w)) q = fs_content (w_fs w) q"
    "d \<in> set (fs_dirs (w_fs (save_state E d v p w)))"
    "set (fs_dirs (w_fs w)) \<subseteq> set (fs_dirs (w_fs (save_state E d v p w)))"
    "hm_wf (fs_files (w_fs w)) \<Longrightarrow> hm_wf (fs_files (w_fs (save_state E d v p w)))"
proof -
  let ?I = "h_io (e_host E)" and ?K = "e_codec E"
  obtain s where s: "vm_print ?K p = Ok s" "vm_parse ?K s = Some p" using assms(1) unfolding durable_def by blast
  have ok: "step_fault ?I fs st = None" for fs st using assms(1) by (simp add: durable_def reliable_io_def)
  define fs1 where "fs1 = snd (fs_exec ?I (Mkdir d) (w_fs w))"
  have 1: "run_steps ?I [Mkdir d] (w_fs w) = (Ok (), fs1)" "fs_content fs1 q = fs_content (w_fs w) q"
      "d \<in> set (fs_dirs fs1)" "set (fs_dirs (w_fs w)) \<subseteq> set (fs_dirs fs1)" "fs_files fs1 = fs_files (w_fs w)" for q
    by (auto simp: fs1_def fs_exec_def ok fs_content_def)
  obtain fs2 where 2: "run_steps ?I (save_steps d v s) fs1 = (Ok (), fs2)"
    by (simp add: save_steps_def Let_def fs_exec_def ok fs_put_def fs_append_def fs_content_def split: option.splits)
  have fs: "w_fs (save_state E d v p w) = fs2" using 1(1) 2 s(1) by (simp add: save_state_def save_vm_def)
  note c = save_steps_Ok [OF 2]
  have tmp: "path_extension (tmp_path d v) = Some ''tmp''" using assms(2,3) by (simp add: extension_json plain_id_def)
  have "hm_wf (fs_files fs) \<Longrightarrow> hm_wf (fs_files (snd (run_steps ?I sts fs)))" for sts fs
  proof (induction sts arbitrary: fs)
    case (Cons st sts)
    then show ?case using fs_exec_wf [of fs ?I st] by (cases "fs_exec ?I st fs"; cases "fst (fs_exec ?I st fs)") auto
  qed simp
  from this [of fs1 "save_steps d v s"] 2 1(5) have "hm_wf (fs_files (w_fs w)) \<Longrightarrow> hm_wf (fs_files fs2)" by simp
  with that [of s] s(2) c 1 tmp show ?thesis unfolding fs by fastforce
qed

section \<open>Requests\<close>

text \<open>
  A creation leaves the records alone until it has succeeded; then it saves the record of the
  VM it has entered into the table.
\<close>

definition create_effect :: "'x mgr_env \<Rightarrow> vm_config \<Rightarrow> 'x mstate \<Rightarrow> (mgr_error, vm_info) result \<times> 'x mstate \<Rightarrow> bool" where
  "create_effect E config st res \<longleftrightarrow>
     (case res of
        (Inl e, st') \<Rightarrow> spares (w_fs (snd st)) (w_fs (snd st'))
      | (Inr info, st') \<Rightarrow> (\<exists>w1 h p. spares (w_fs (snd st)) (w_fs w1) \<and>
           hm_get (m_vms (fst st')) (cfg_vm_id config) = Some h \<and>
           snd st' = save_state E (m_state_dir (fst st')) (cfg_vm_id config) p w1 \<and>
           recorded ((fst st')\<lparr>m_port_forwards := pf_new\<rparr>) (cfg_vm_id config) h p))"

lemma register_effect:
  assumes "spares (w_fs (snd st0)) (w_fs (snd st))"
  shows "create_effect E config st0
    (case register_vm E config' (cfg_vm_id config) tap mac ip ip6 pl process st of (info, st') \<Rightarrow> (Ok info, st'))"
proof -
  let ?p = "\<lparr>pv_config = config', pv_ip = ip, pv_ipv6 = ip6, pv_tap_name = tap, pv_mac_addr = mac, pv_port_forwards = [],
     pv_created_at_epoch = h_now (e_host E) (snd st), pv_numa_node = Some (placed_node pl)\<rparr>"
  show ?thesis
    using assms
    by (auto simp: create_effect_def register_vm_def Let_def recorded_def list_for_vm_def pf_new_def hm_values_def
        intro!: exI [of _ "snd st"] exI [of _ ?p])
qed

text \<open>A phase that spares the records, and whose errors end the creation.\<close>

lemma create_effect_bind:
  assumes "spares (w_fs (snd st0)) (w_fs (snd (snd r)))"
    and "\<And>a s. spares (w_fs (snd st0)) (w_fs (snd s)) \<Longrightarrow> create_effect E config st0 (k a s)"
  shows "create_effect E config st0 (bindE r k)"
  using assms by (cases r; cases "fst r") (auto simp: bindE_def create_effect_def)

lemma on_mgr_world [simp]: "snd (snd (on_mgr f st)) = snd st"
  by (cases "f (fst st)") (simp add: on_mgr_def)

lemma boot_vm_effect:
  assumes "programs_spare (e_host E)" "plain_id (cfg_vm_id config)" "spares (w_fs (snd st0)) (w_fs (snd st))"
  shows "create_effect E config st0 (boot_vm E config hint mac ip ip6 st)"
  unfolding boot_vm_def Let_def
  apply (rule create_effect_bind)
  subgoal using assms(3) by simp
  apply (rule create_effect_bind)
  subgoal using assms(1) by (simp add: prepare_boot_spares)
  apply (simp only: split_paired_all prod.case)
  apply (rule create_effect_bind)
  subgoal by (simp add: place_vm_world)
  apply (simp only: split_paired_all prod.case)
  apply (rule create_effect_bind)
  subgoal using assms(1,2) by (simp add: launch_spares)
  subgoal by (rule register_effect)
  done

lemma create_vm_effect:
  assumes "programs_spare (e_host E)" "plain_id (cfg_vm_id config)"
  shows "create_effect E config st (create_vm E config req hint st)"
proof (cases "hm_contains_key (m_vms (fst st)) (cfg_vm_id config)")
  case False
  show ?thesis
    unfolding create_vm_def Let_def
    apply (simp only: False if_False)
    apply (rule create_effect_bind)
    subgoal by simp
    apply (rule create_effect_bind)
    subgoal by simp
    apply (rule create_effect_bind)
    subgoal using assms(2) by (simp add: write_reservations_spares)
    apply (rule create_effect_bind)
    subgoal using assms by (simp add: setup_tap_spares)
    apply (rule create_effect_bind)
    subgoal using assms by (simp add: setup_chains_spares)
    subgoal using assms by (rule boot_vm_effect)
    done
qed (simp add: create_vm_def create_effect_def)

text \<open>Saving the record of one VM, with the rest of the table as it was.\<close>

lemma mirrored_save:
  assumes "mirrored E (m, w)" "durable E" "clean_dir (m_state_dir m)" "plain_id v" "spares (w_fs w) (w_fs w1)"
    and "m_state_dir m' = m_state_dir m" "hm_get (m_vms m') v = Some h" "recorded m' v h p"
    and rest: "\<And>u. u \<noteq> v \<Longrightarrow> hm_get (m_vms m') u = hm_get (m_vms m) u"
      "\<And>u. u \<noteq> v \<Longrightarrow> set (list_for_vm (m_port_forwards m') u) = set (list_for_vm (m_port_forwards m) u)"
  shows "mirrored E (m', save_state E (m_state_dir m) v p w1)"
proof -
  let ?d = "m_state_dir m"
  obtain s where s: "vm_parse (e_codec E) s = Some p"
      "fs_content (w_fs (save_state E ?d v p w1)) (state_path ?d v) = Some s"
      "\<And>q. path_extension q = Some ''json'' \<Longrightarrow> q \<noteq> state_path ?d v \<Longrightarrow>
         fs_content (w_fs (save_state E ?d v p w1)) q = fs_content (w_fs w1) q"
      "?d \<in> set (fs_dirs (w_fs (save_state E ?d v p w1)))"
      "hm_wf (fs_files (w_fs w1)) \<Longrightarrow> hm_wf (fs_files (w_fs (save_state E ?d v p w1)))"
    by (rule save_state_effect [OF assms(2-4), of p w1]) blast
  note old = assms(1) [unfolded mirrored_def Let_def fst_conv snd_conv]
  have keep: "fs_content (w_fs (save_state E ?d v p w1)) q = fs_content (w_fs w) q"
    if "path_extension q = Some ''json''" "q \<noteq> state_path ?d v" for q
    using that s(3) assms(5) by (simp add: spares_def)
  have 1: "hm_wf (fs_files (w_fs (save_state E ?d v p w1)))" using old s(5) assms(5) by (simp add: spares_def)
  have 2: "plain_id u \<and> ?d \<in> set (fs_dirs (w_fs (save_state E ?d v p w1))) \<and>
      (\<exists>s p'. fs_content (w_fs (save_state E ?d v p w1)) (state_path ?d u) = Some s \<and>
         vm_parse (e_codec E) s = Some p' \<and> recorded m' u k p')" if "hm_get (m_vms m') u = Some k" for u k
  proof (cases "u = v")
    case True
    with that assms(4,7,8) s show ?thesis by auto
  next
    case False
    with that rest(1) have k: "hm_get (m_vms m) u = Some k" by simp
    then obtain t p' where t: "plain_id u" "fs_content (w_fs w) (state_path ?d u) = Some t"
        "vm_parse (e_codec E) t = Some p'" "recorded m u k p'" using old by blast
    have "fs_content (w_fs (save_state E ?d v p w1)) (state_path ?d u) = Some t"
      using keep [of "state_path ?d u"] t False assms(3,4) by (simp add: state_path_json state_path_inj)
    moreover have "recorded m' u k p'" using t(4) rest(2) [OF False] by (simp add: recorded_def)
    ultimately show ?thesis using t s(4) by blast
  qed
  have 3: "\<exists>u. q = state_path ?d u \<and> hm_contains_key (m_vms m') u"
    if q: "path_parent q = Some ?d" "path_extension q = Some ''json''"
      "fs_content (w_fs (save_state E ?d v p w1)) q \<noteq> None" for q
  proof (cases "q = state_path ?d v")
    case True
    with assms(7) show ?thesis by (auto simp: hm_contains_key_def)
  next
    case False
    with q keep old obtain u where "q = state_path ?d u" "hm_contains_key (m_vms m) u" by metis
    then show ?thesis using False rest(1) [of u] by (metis hm_contains_key_def)
  qed
  from 1 2 3 show ?thesis unfolding mirrored_def Let_def fst_conv snd_conv assms(6) by blast
qed

lemma forwards_of_vm:
  "pf_inv pf \<Longrightarrow> set (list_for_vm pf v) = {f. pf_vm_id f = v \<and> pf_lookup pf (pf_host_port f) (pf_protocol f) = Some f}"
  by (auto simp: list_for_vm_lookup)

lemma list_for_vm_new [simp]: "list_for_vm pf_new v = []"
  by (simp add: list_for_vm_def pf_new_def hm_values_def)

lemma no_forwards_unknown: "mgr_inv L m \<Longrightarrow> \<not> hm_contains_key (m_vms m) v \<Longrightarrow> set (list_for_vm (m_port_forwards m) v) = {}"
  using forwards_of_vm [of "m_port_forwards m" v] by (auto simp: mgr_inv_def)

lemma create_vm_mirrored:
  assumes "mirrored E st" "mgr_inv (e_lib E) (fst st)" "durable E" "programs_spare (e_host E)"
    and "clean_dir (m_state_dir (fst st))" "plain_id (cfg_vm_id config)"
  shows "mirrored E (snd (create_vm E config req hint st)) \<and>
    m_state_dir (fst (snd (create_vm E config req hint st))) = m_state_dir (fst st)"
proof (cases "hm_contains_key (m_vms (fst st)) (cfg_vm_id config) \<or> free_offset (m_used_ip_offsets (fst st)) = None")
  case True
  then have "snd (create_vm E config req hint st) = st"
    by (auto simp: create_vm_def Let_def on_mgr_def reserve_offset_def)
  with assms(1) show ?thesis by simp
next
  case False
  then obtain o' where o': "free_offset (m_used_ip_offsets (fst st)) = Some o'"
      "\<not> hm_contains_key (m_vms (fst st)) (cfg_vm_id config)" by auto
  obtain res m' w' where r: "create_vm E config req hint st = (res, m', w')" by (cases "create_vm E config req hint st") auto
  obtain m w where st: "st = (m, w)" by (cases st)
  note out = create_vm_outcome [OF o'(2,1), of E req hint, unfolded r]
  note eff = create_vm_effect [OF assms(4,6), of st req hint, unfolded r]
  show ?thesis
  proof (cases res)
    case (Inl e)
    with out have f: "frames (e_lib E) (reserve o' m) m'" by (simp add: create_outcome_def st)
    have c: "m_vms m' = m_vms m" "m_port_forwards m' = m_port_forwards m" "m_state_dir m' = m_state_dir m"
      using framesD(1,4,5) [OF f] by (simp_all add: reserve_def)
    have "spares (w_fs w) (w_fs w')" using eff Inl by (simp add: create_effect_def st)
    moreover have "mirrored E (m, w)" "clean_dir (m_state_dir m)" using assms(1,5) by (simp_all add: st)
    ultimately have "mirrored E (m', w')" using c by - (rule mirrored_spares [of E m w], simp_all)
    with r c(3) show ?thesis by (simp add: st)
  next
    case (Inr info)
    with out obtain h m1 where m1: "frames (e_lib E) (reserve o' m) m1" "m' = m1\<lparr>m_vms := hm_insert (cfg_vm_id config) h (m_vms m1)\<rparr>"
      by (auto simp: create_outcome_def st)
    from eff Inr obtain w1 k p where w1: "spares (w_fs w) (w_fs w1)" "hm_get (m_vms m') (cfg_vm_id config) = Some k"
        "w' = save_state E (m_state_dir m') (cfg_vm_id config) p w1"
        "recorded (m'\<lparr>m_port_forwards := pf_new\<rparr>) (cfg_vm_id config) k p"
      by (auto simp: create_effect_def st)
    have c: "m_vms m1 = m_vms m" "m_port_forwards m' = m_port_forwards m" "m_state_dir m' = m_state_dir m"
      using framesD [OF m1(1)] by (simp_all add: m1(2) reserve_def)
    have "recorded m' (cfg_vm_id config) k p"
      using w1(4) no_forwards_unknown [OF assms(2) o'(2)] c(2)
      by (simp add: recorded_def st)
    moreover have "mirrored E (m, w)" "clean_dir (m_state_dir m)" using assms(1,5) by (simp_all add: st)
    moreover have "hm_get (m_vms m') u = hm_get (m_vms m) u" if "u \<noteq> cfg_vm_id config" for u
      using that by (simp add: m1(2) c(1))
    ultimately have "mirrored E (m', save_state E (m_state_dir m) (cfg_vm_id config) p w1)"
      using assms(3,6) w1(1,2) c(2,3) by - (rule mirrored_save [of E m w], simp_all)
    then have "mirrored E (m', w')" by (simp add: w1(3) c(3))
    with r c(3) show ?thesis by (simp add: st)
  qed
qed

lemma delete_persisted_effect:
  assumes "durable E" "fs' = snd (delete_persisted (h_io (e_host E)) d v fs)"
  shows "fs_content fs' q = (if q = state_path d v then None else fs_content fs q)"
    "fs_dirs fs' = fs_dirs fs" "hm_wf (fs_files fs) \<Longrightarrow> hm_wf (fs_files fs')"
proof -
  have ok: "step_fault (h_io (e_host E)) fs st = None" for fs st using assms(1) by (simp add: durable_def reliable_io_def)
  show "fs_content fs' q = (if q = state_path d v then None else fs_content fs q)"
    "fs_dirs fs' = fs_dirs fs" "hm_wf (fs_files fs) \<Longrightarrow> hm_wf (fs_files fs')"
    by (auto simp: assms(2) delete_persisted_def remove_file_def fs_exec_def ok fs_content_def split: option.splits)
qed

lemma network_release_spares:
  "programs_spare (e_host E) \<Longrightarrow> plain_id (cfg_vm_id (vh_config h)) \<Longrightarrow> spares a (w_fs (snd st)) \<Longrightarrow>
   spares a (w_fs (snd (release_vm_network E v h st)))"
  by (auto simp: release_vm_network_def Let_def split: option.splits prod.splits intro!: dhcp_spares(3,4) tap_spares(3))
     (metis ndp_range_spares(2))+

lemma forward_rules_fs [simp]: "w_fs (remove_forward_rules E m fs w) = w_fs w"
  unfolding remove_forward_rules_def by (induction fs arbitrary: w) simp_all

text \<open>A deletion spares the records until it removes its own.\<close>

lemma delete_vm_world:
  fixes E :: "'x mgr_env"
  assumes "hm_get (m_vms (fst st)) v = Some h" "programs_spare (e_host E)" "plain_id (cfg_vm_id (vh_config h))"
  obtains w3 :: "'x world" where "spares (w_fs (snd st)) (w_fs w3)"
    "w_fs (snd (snd (delete_vm E v st))) =
       snd (delete_persisted (h_io (e_host E)) (m_state_dir (fst (snd (delete_vm E v st)))) v (w_fs w3))"
proof -
  let ?w1 = "case vh_process h of None \<Rightarrow> snd st | Some p \<Rightarrow> ignore (qemu_stop (e_host E) p (snd st))"
  let ?m2 = "release_numa h ((fst st)\<lparr>m_vms := hm_remove v (m_vms (fst st))\<rparr>)"
  let ?pf = "remove_all_for_vm (m_port_forwards ?m2) v"
  let ?m3 = "?m2\<lparr>m_port_forwards := snd ?pf\<rparr>"
  let ?w2 = "remove_forward_rules E ?m3 (fst ?pf) ?w1"
  have "spares (w_fs (snd st)) (w_fs ?w1)" using assms(2) by (auto split: option.splits intro: unit_spares)
  then have "spares (w_fs (snd st)) (w_fs (snd (release_vm_network E v h (?m3, ?w2))))"
    using network_release_spares [OF assms(2,3), of "w_fs (snd st)" "(?m3, ?w2)"] by simp
  moreover have "w_fs (snd (snd (delete_vm E v st))) = snd (delete_persisted (h_io (e_host E))
      (m_state_dir (fst (snd (delete_vm E v st)))) v (w_fs (snd (release_vm_network E v h (?m3, ?w2)))))"
    by (simp add: delete_vm_def Let_def assms(1) split_beta)
  ultimately show ?thesis by (rule that)
qed

lemma delete_vm_mirrored:
  fixes E :: "'x mgr_env"
  assumes "mirrored E st" "mgr_inv (e_lib E) (fst st)" "durable E" "programs_spare (e_host E)" "clean_dir (m_state_dir (fst st))"
  shows "mirrored E (snd (delete_vm E v st)) \<and> m_state_dir (fst (snd (delete_vm E v st))) = m_state_dir (fst st)"
proof (cases "hm_get (m_vms (fst st)) v")
  case None
  with assms(1) show ?thesis by (simp add: delete_vm_def)
next
  case (Some h)
  let ?d = "m_state_dir (fst st)" and ?fs = "w_fs (snd st)"
  obtain m' w' where r: "snd (delete_vm E v st) = (m', w')" by (cases "snd (delete_vm E v st)")
  obtain m4 st' where f: "delete_vm E v st = (Ok (), st')"
      "frames (e_lib E) ((fst st)\<lparr>m_vms := hm_remove v (m_vms (fst st)),
         m_port_forwards := snd (remove_all_for_vm (m_port_forwards (fst st)) v)\<rparr>) m4"
      "fst st' = m4\<lparr>m_used_ip_offsets := m_used_ip_offsets m4 - {ip_offset (m_gateway_ip m4) (vh_ip h)}\<rparr>"
    by (rule delete_vm_result [OF Some])
  have c: "m_vms m' = hm_remove v (m_vms (fst st))" "m_state_dir m' = ?d"
      "m_port_forwards m' = snd (remove_all_for_vm (m_port_forwards (fst st)) v)"
    using framesD(1,4,5) [OF f(2)] f(1,3) r by simp_all
  have pinv: "pf_inv (m_port_forwards (fst st))" using assms(2) by (simp add: mgr_inv_def)
  note old = assms(1) [unfolded mirrored_def Let_def]
  have id: "cfg_vm_id (vh_config h) = v" "plain_id v" using assms(2) Some old by (auto simp: mgr_inv_def handle_ok_def)
  have pid: "plain_id (cfg_vm_id (vh_config h))" using id by simp
  obtain w3 :: "'x world" where w3: "spares ?fs (w_fs w3)" "w_fs w' = snd (delete_persisted (h_io (e_host E)) ?d v (w_fs w3))"
    by (rule delete_vm_world [OF Some assms(4) pid]) (simp add: r c(2))
  note e = delete_persisted_effect [OF assms(3) w3(2)]
  have keep: "fs_content (w_fs w') q = fs_content ?fs q" if "path_extension q = Some ''json''" "q \<noteq> state_path ?d v" for q
    using that e(1) [of q] w3(1) by (simp add: spares_def)
  have fwd: "set (list_for_vm (m_port_forwards m') u) = set (list_for_vm (m_port_forwards (fst st)) u)" if "u \<noteq> v" for u
    using that pinv remove_all_for_vm_inv [OF pinv, of v]
    by (auto simp: c(3) forwards_of_vm remove_all_for_vm_lookup [OF pinv] split: option.splits if_splits)
  have 1: "hm_wf (fs_files (w_fs w'))" using old e(3) w3(1) by (simp add: spares_def)
  have 2: "plain_id u \<and> ?d \<in> set (fs_dirs (w_fs w')) \<and> (\<exists>s p. fs_content (w_fs w') (state_path ?d u) = Some s \<and>
      vm_parse (e_codec E) s = Some p \<and> recorded m' u k p)" if k: "hm_get (m_vms m') u = Some k" for u k
  proof -
    have uv: "u \<noteq> v" "hm_get (m_vms (fst st)) u = Some k" using k by (auto simp: c(1) split: if_splits)
    then obtain t p where t: "plain_id u" "?d \<in> set (fs_dirs ?fs)" "fs_content ?fs (state_path ?d u) = Some t"
        "vm_parse (e_codec E) t = Some p" "recorded (fst st) u k p" using old by blast
    have "fs_content (w_fs w') (state_path ?d u) = Some t"
      using keep [of "state_path ?d u"] t uv(1) id(2) assms(5) by (simp add: state_path_json state_path_inj)
    moreover have "?d \<in> set (fs_dirs (w_fs w'))" using t(2) e(2) w3(1) by (auto simp: spares_def)
    moreover have "recorded m' u k p" using t(5) fwd [OF uv(1)] by (simp add: recorded_def)
    ultimately show ?thesis using t by blast
  qed
  have 3: "\<exists>u. q = state_path ?d u \<and> hm_contains_key (m_vms m') u"
    if q: "path_parent q = Some ?d" "path_extension q = Some ''json''" "fs_content (w_fs w') q \<noteq> None" for q
  proof -
    have "q \<noteq> state_path ?d v" using q(3) e(1) [of q] by (auto split: if_splits)
    with q keep old obtain u where "q = state_path ?d u" "hm_contains_key (m_vms (fst st)) u" by metis
    with \<open>q \<noteq> state_path ?d v\<close> show ?thesis by (auto simp: c(1) hm_contains_key_def)
  qed
  from 1 2 3 have "mirrored E (m', w')" unfolding mirrored_def Let_def fst_conv snd_conv c(2) by blast
  with r c(2) show ?thesis by simp
qed

section \<open>Port forwards\<close>

lemma add_forward_world:
  assumes "add_port_forward E v hp vp proto st = (r, st')"
  shows "case r of Inl e \<Rightarrow> w_fs (snd st') = w_fs (snd st)
    | Inr f \<Rightarrow> \<exists>w. w_fs w = w_fs (snd st) \<and> st' = update_persisted_port_forwards E v (fst st', w)"
proof (cases r)
  case (Inl e)
  have x: "w_fs w1 = w_fs w" if "on_ext c op w = (q, w1)" for c op w q w1 using on_ext_fs [of c op w] that by simp
  from Inl assms show ?thesis
    by (auto simp: add_port_forward_def Let_def x split: option.splits sum.splits prod.splits)
next
  case (Inr f)
  have x: "w_fs w1 = w_fs w" if "on_ext c op w = (q, w1)" for c op w q w1 using on_ext_fs [of c op w] that by simp
  from Inr assms show ?thesis
    by (auto simp: add_port_forward_def Let_def x split: option.splits sum.splits prod.splits)
       (metis fst_conv update_persisted_mgr x)+
qed

text \<open>Writing the forwards of a VM back into its record.\<close>

lemma update_persisted_mirrored:
  assumes "mirrored E (m, w)" "durable E" "clean_dir (m_state_dir m)" "hm_get (m_vms m) v = Some h" "w_fs w1 = w_fs w"
    and "m' = m\<lparr>m_port_forwards := pf\<rparr>"
    and rest: "\<And>u. u \<noteq> v \<Longrightarrow> set (list_for_vm pf u) = set (list_for_vm (m_port_forwards m) u)"
  shows "mirrored E (update_persisted_port_forwards E v (m', w1))"
proof -
  let ?d = "m_state_dir m"
  obtain s p where s: "plain_id v" "fs_content (w_fs w) (state_path ?d v) = Some s" "vm_parse (e_codec E) s = Some p"
      "recorded m v h p" using assms(1,4) unfolding mirrored_def Let_def fst_conv snd_conv by blast
  let ?p = "p\<lparr>pv_port_forwards := list_for_vm pf v\<rparr>"
  have rd: "read_to_string (h_io (e_host E)) (state_path ?d v) (w_fs w1) = Ok s"
    using assms(2) s(2) by (simp add: durable_def reliable_read assms(5))
  have "update_persisted_port_forwards E v (m', w1) = (m', save_state E ?d v ?p w1)"
    using rd s(3) by (simp add: update_persisted_port_forwards_def Let_def assms(6))
  moreover have "mirrored E (m', save_state E ?d v ?p w1)"
    using assms s by - (rule mirrored_save [of E m w _ w1], simp_all add: recorded_def)
  ultimately show ?thesis by simp
qed

lemma add_forward_mirrored:
  assumes "mirrored E st" "mgr_inv (e_lib E) (fst st)" "durable E" "clean_dir (m_state_dir (fst st))"
  shows "mirrored E (snd (add_port_forward E v hp vp proto st)) \<and>
    m_state_dir (fst (snd (add_port_forward E v hp vp proto st))) = m_state_dir (fst st)"
proof (cases rule: add_port_forward_cases [of E v hp vp proto st])
  case (Err e w)
  then have "w_fs w = w_fs (snd st)" using add_forward_world [of E v hp vp proto st] by auto
  then have "mirrored E (fst st, w)" using assms(1) by (simp add: mirrored_def)
  with Err show ?thesis by simp
next
  case (Ok f w h)
  obtain w0 where w0: "w_fs w0 = w_fs (snd st)" "snd (add_port_forward E v hp vp proto st) =
      update_persisted_port_forwards E v ((fst st)\<lparr>m_port_forwards := pf_add (m_port_forwards (fst st)) f\<rparr>, w0)"
    using add_forward_world [OF Ok(1)] Ok(1) by auto
  have pinv: "pf_inv (m_port_forwards (fst st))" using assms(2) by (simp add: mgr_inv_def)
  have rest: "set (list_for_vm (pf_add (m_port_forwards (fst st)) f) u) = set (list_for_vm (m_port_forwards (fst st)) u)"
    if "u \<noteq> v" for u
    using that Ok(3,5,6) by (auto simp: forwards_of_vm pinv pf_inv_add is_available_lookup split: if_splits)
  have "mirrored E (fst st, snd st)" using assms(1) by simp
  from update_persisted_mirrored [OF this assms(3,4) Ok(2) w0(1) refl rest] show ?thesis
    by (simp add: w0(2))
qed

definition removal_completes :: "'x mgr_env \<Rightarrow> 'x mstate \<Rightarrow> u16 \<Rightarrow> protocol \<Rightarrow> bool" where
  "removal_completes E st hp proto =
     (case fst (remove_port_forward E hp proto st) of Inl (NftForwardFailed e) \<Rightarrow> False | _ \<Rightarrow> True)"

lemma remove_forward_mirrored:
  assumes "mirrored E st" "mgr_inv (e_lib E) (fst st)" "durable E" "clean_dir (m_state_dir (fst st))"
    and "removal_completes E st hp proto"
  shows "mirrored E (snd (remove_port_forward E hp proto st)) \<and>
    m_state_dir (fst (snd (remove_port_forward E hp proto st))) = m_state_dir (fst st)"
proof (cases "pf_lookup (m_port_forwards (fst st)) hp proto")
  case None
  have pinv: "pf_inv (m_port_forwards (fst st))" using assms(2) by (simp add: mgr_inv_def)
  have "set (list_for_vm (snd (pf_remove (m_port_forwards (fst st)) hp proto)) u) =
      set (list_for_vm (m_port_forwards (fst st)) u)" for u
    using None by (auto simp: forwards_of_vm pinv pf_inv_remove split: if_splits)
  then have "mirrored E ((fst st)\<lparr>m_port_forwards := snd (pf_remove (m_port_forwards (fst st)) hp proto)\<rparr>, snd st)"
    using assms(1,4) by - (rule mirrored_spares [of E "fst st" "snd st"], simp_all)
  moreover have "snd (remove_port_forward E hp proto st) =
      ((fst st)\<lparr>m_port_forwards := snd (pf_remove (m_port_forwards (fst st)) hp proto)\<rparr>, snd st)"
    using None fst_pf_remove [of "m_port_forwards (fst st)" hp proto]
    by (cases "pf_remove (m_port_forwards (fst st)) hp proto") (simp add: remove_port_forward_def)
  ultimately show ?thesis by simp
next
  case (Some f)
  define pf where "pf = snd (pf_remove (m_port_forwards (fst st)) hp proto)"
  let ?m1 = "(fst st)\<lparr>m_port_forwards := pf\<rparr>"
  have pinv: "pf_inv (m_port_forwards (fst st))" using assms(2) by (simp add: mgr_inv_def)
  obtain h where h: "hm_get (m_vms (fst st)) (pf_vm_id f) = Some h"
    using assms(2) Some unfolding mgr_inv_def hm_contains_key_def by blast
  have pr: "pf_remove (m_port_forwards (fst st)) hp proto = (Some f, pf)"
    using Some unfolding pf_def by (metis fst_pf_remove prod.collapse)
  obtain w1 where w1: "snd (remove_port_forward E hp proto st) = update_persisted_port_forwards E (pf_vm_id f) (?m1, w1)"
      "w_fs w1 = w_fs (snd st)"
  proof (cases "on_ext id (nft_remove_port_forward (h_nft (e_host E)) (m_nftables (fst st)) hp (pf_vm_port f) proto) (snd st)")
    case (Pair r w)
    have "w_fs w = w_fs (snd st)" using Pair by (metis on_ext_fs snd_conv)
    moreover have "r = Ok ()"
      using assms(5) pr Pair by (cases r) (auto simp: removal_completes_def remove_port_forward_def)
    ultimately show ?thesis using that pr Pair by (simp add: remove_port_forward_def)
  qed
  have rest: "set (list_for_vm pf u) = set (list_for_vm (m_port_forwards (fst st)) u)" if "u \<noteq> pf_vm_id f" for u
    using that Some unfolding pf_def by (auto simp: forwards_of_vm pinv pf_inv_remove split: if_splits)
  have "mirrored E (fst st, snd st)" using assms(1) by simp
  from update_persisted_mirrored [OF this assms(3,4) h w1(2) refl rest] show ?thesis by (simp add: w1(1))
qed

text \<open>The requests the service lets through, whose removals of forwards complete.\<close>

fun admissible :: "'x mgr_env \<Rightarrow> 'x mstate \<Rightarrow> mgr_request \<Rightarrow> bool" where
  "admissible E st (CreateVm config req hint) = (validate_vm_id (cfg_vm_id config) = Ok ())"
| "admissible E st (RemoveForward hp proto) = removal_completes E st hp proto"
| "admissible E st _ = True"

lemma mgr_step_mirrored:
  assumes "mirrored E st" "mgr_inv (e_lib E) (fst st)" "durable E" "programs_spare (e_host E)"
    and "clean_dir (m_state_dir (fst st))" "admissible E st q"
  shows "mirrored E (mgr_step E st q) \<and> m_state_dir (fst (mgr_step E st q)) = m_state_dir (fst st)"
  using assms validated_plain
  by (cases q) (simp_all add: create_vm_mirrored delete_vm_mirrored add_forward_mirrored remove_forward_mirrored)

section \<open>Recovery\<close>

abbreviation pv_id :: "persisted_vm \<Rightarrow> string" where
  "pv_id p \<equiv> cfg_vm_id (pv_config p)"

lemma distinct_map_filter:
  "distinct xs \<Longrightarrow> (\<And>x y. x \<in> set xs \<Longrightarrow> f x = Some y \<Longrightarrow> x = g (k y)) \<Longrightarrow> distinct (map k (List.map_filter f xs))"
proof (induction xs)
  case (Cons x xs)
  show ?case
  proof (cases "f x")
    case (Some y)
    have "k y \<notin> k ` set (List.map_filter f xs)"
    proof
      assume "k y \<in> k ` set (List.map_filter f xs)"
      then obtain z u where "z \<in> set xs" "f z = Some u" "k y = k u" by (auto simp: in_map_filter)
      then have "z = g (k y)" "x = g (k y)" using Cons.prems(2) [of z u] Cons.prems(2) [of x y] Some by simp_all
      with \<open>z \<in> set xs\<close> Cons.prems(1) show False by simp
    qed
    with Cons Some show ?thesis by (simp add: List.map_filter_simps)
  qed (use Cons in \<open>simp add: List.map_filter_simps\<close>)
qed (simp add: List.map_filter_simps)

text \<open>The records loaded from a mirrored directory are those of the table, each once.\<close>

lemma load_mirrored:
  assumes "mirrored E (m, w)" "mgr_inv (e_lib E) m" "durable E" "clean_dir (m_state_dir m)"
  obtains ps where "load_all_vms (h_io (e_host E)) (e_codec E) (m_state_dir m) (w_fs w) = Ok ps"
    "distinct (map pv_id ps)" "\<And>p. p \<in> set ps \<Longrightarrow> \<exists>h. hm_get (m_vms m) (pv_id p) = Some h \<and> recorded m (pv_id p) h p"
    "\<And>v. hm_contains_key (m_vms m) v \<Longrightarrow> v \<in> pv_id ` set ps"
proof -
  let ?d = "m_state_dir m" and ?I = "h_io (e_host E)" and ?K = "e_codec E"
  note mir = assms(1) [unfolded mirrored_def Let_def fst_conv snd_conv]
  have rd: "read_to_string ?I q (w_fs w) = ok_or (fs_content (w_fs w) q) NotFound" for q
    using assms(3) by (simp add: durable_def reliable_read)
  have df: "dir_fault ?I (w_fs w) ?d = None" using assms(3) by (simp add: durable_def)
  have known: "\<exists>v h. q = state_path ?d v \<and> pv_id p = v \<and> hm_get (m_vms m) v = Some h \<and> recorded m v h p"
    if q: "path_parent q = Some ?d" "load_file ?I ?K (w_fs w) q = Some p" for q p
  proof -
    obtain s where s: "path_extension q = Some ''json''" "fs_content (w_fs w) q = Some s" "vm_parse ?K s = Some p"
      using q(2) by (auto simp: load_file_def rd ok_or_def split: if_splits sum.splits option.splits)
    then obtain v h where v: "q = state_path ?d v" "hm_get (m_vms m) v = Some h"
      using mir q(1) unfolding hm_contains_key_def by blast
    with mir s have "recorded m v h p" by fastforce
    moreover from this v(2) assms(2) have "pv_id p = v" by (auto simp: mgr_inv_def handle_ok_def recorded_def)
    ultimately show ?thesis using v by blast
  qed
  have found: "load_file ?I ?K (w_fs w) (state_path ?d v) = Some p \<and> path_parent (state_path ?d v) = Some ?d"
    if "hm_get (m_vms m) v = Some h" "fs_content (w_fs w) (state_path ?d v) = Some s" "vm_parse ?K s = Some p" for v h s p
    using that mir assms(4) state_path_json [of ?d v] state_path_parent [of ?d v] by (auto simp: load_file_def rd)
  show ?thesis
  proof (cases "?d \<in> set (fs_dirs (w_fs w))")
    case False
    then have "load_all_vms ?I ?K ?d (w_fs w) = Ok []" by (simp add: load_all_vms_def read_dir_def df)
    moreover have "\<not> hm_contains_key (m_vms m) v" for v using mir False by (auto simp: hm_contains_key_def)
    ultimately show ?thesis using that [of "[]"] by simp
  next
    case True
    let ?es = "filter (\<lambda>p. path_parent p = Some ?d) (hm_keys (fs_files (w_fs w)))"
    let ?ps = "List.map_filter (load_file ?I ?K (w_fs w)) ?es"
    have "load_all_vms ?I ?K ?d (w_fs w) = Ok ?ps" using True by (simp add: load_all_vms_def read_dir_def df)
    moreover have "distinct (map pv_id ?ps)"
    proof (rule distinct_map_filter [where g = "state_path ?d"])
      show "distinct ?es" using mir by (simp add: hm_wf_def hm_keys_def)
    qed (use known in fastforce)
    moreover have "\<exists>h. hm_get (m_vms m) (pv_id p) = Some h \<and> recorded m (pv_id p) h p" if "p \<in> set ?ps" for p
      using that known by (auto simp: in_map_filter)
    moreover have "v \<in> pv_id ` set ?ps" if c: "hm_contains_key (m_vms m) v" for v
    proof -
      obtain h where h: "hm_get (m_vms m) v = Some h" using c by (auto simp: hm_contains_key_def)
      then obtain s p where s: "fs_content (w_fs w) (state_path ?d v) = Some s" "vm_parse ?K s = Some p" "recorded m v h p"
        using mir by blast
      have "state_path ?d v \<in> set ?es" using found [OF h s(1,2)] s(1) by (auto simp: hm_keys_get fs_content_def)
      then have "p \<in> set ?ps" using found [OF h s(1,2)] by (auto simp: in_map_filter)
      moreover have "pv_id p = v" using h s(3) assms(2) by (auto simp: mgr_inv_def handle_ok_def recorded_def)
      ultimately show ?thesis by blast
    qed
    ultimately show ?thesis by (rule that)
  qed
qed

text \<open>A recovered handle: the VM of the record, running if its unit still is.\<close>

definition revived :: "persisted_vm \<Rightarrow> vm_handle \<Rightarrow> bool" where
  "revived p h \<longleftrightarrow> vh_config h = pv_config p \<and> vh_ip h = pv_ip p \<and> vh_ipv6 h = pv_ipv6 p \<and>
     vh_tap_name h = pv_tap_name p \<and> vh_created_at_epoch h = pv_created_at_epoch p \<and>
     vh_numa_node h = pv_numa_node p \<and> (vh_state h = Running \<longleftrightarrow> vh_process h \<noteq> None)"

lemma recover_phase_frames:
  "frames (e_lib E) m (recover_numa p s m)" "frames (e_lib E) m (recover_ipv6 E p m)"
  "frames (e_lib E) (fst st) (fst (recover_rules E p st))"
proof -
  show "frames (e_lib E) m (recover_numa p s m)"
    using numa_allocate_inv [of "m_numa m"] by (auto simp: recover_numa_def split: vm_state.splits option.splits intro!: frames_numa)
  show "frames (e_lib E) m (recover_ipv6 E p m)"
  proof (cases "m_ipv6_allocator m")
    case (Some a)
    then show ?thesis
      by (cases rule: allocate6_cases [of "e_lib E" a "pv_id p" "pv_ipv6 p"]; cases "pv_ipv6 p")
         (auto simp: recover_ipv6_def frames_def core_def pools_ok_def intro: alloc6_inv_grant)
  qed (auto simp: recover_ipv6_def split: option.splits)
  show "frames (e_lib E) (fst st) (fst (recover_rules E p st))"
    by (auto simp: recover_rules_def Let_def split: option.splits prod.splits)
qed

lemma foldl_on_ext_fs [simp]: "w_fs (foldl (\<lambda>w f. ignore (on_ext c (g f) w)) w fs) = w_fs w"
  by (induction fs arbitrary: w) simp_all

lemma recover_rules_spares:
  "programs_spare (e_host E) \<Longrightarrow> spares a (w_fs (snd st)) \<Longrightarrow> spares a (w_fs (snd (recover_rules E p st)))"
  by (auto simp: recover_rules_def Let_def ndp_add_range_def split: option.splits prod.splits intro!: ndp_spares)

lemma recover_vm_step:
  assumes "recover_vm E (m, w) p = (m', w')" "programs_spare (e_host E)"
  shows "\<exists>h. m_vms m' = hm_insert (pv_id p) h (m_vms m) \<and> revived p h"
    "m_used_ip_offsets m' = insert (ip_offset (m_gateway_ip m) (pv_ip p)) (m_used_ip_offsets m)"
    "m_gateway_ip m' = m_gateway_ip m" "m_state_dir m' = m_state_dir m"
    "m_port_forwards m' = foldl pf_add (m_port_forwards m) (pv_port_forwards p)"
    "pools_ok (e_lib E) m \<Longrightarrow> pools_ok (e_lib E) m'" "spares (w_fs w) (w_fs w')"
proof -
  let ?paths = "paths_for_vm (m_run_dir m) (pv_id p)"
  define process w1 where "process = fst (qemu_reconnect (e_host E) ?paths (pv_id p) w)"
    and "w1 = snd (qemu_reconnect (e_host E) ?paths (pv_id p) w)"
  then have r: "qemu_reconnect (e_host E) ?paths (pv_id p) w = (process, w1)" by simp
  let ?state = "if process \<noteq> None then Running else Stopped"
  let ?m1 = "reserve (ip_offset (m_gateway_ip m) (pv_ip p)) m"
  define m3 where "m3 = recover_ipv6 E p (recover_numa p ?state ?m1)"
  let ?m4 = "m3\<lparr>m_port_forwards := foldl pf_add (m_port_forwards m3) (pv_port_forwards p)\<rparr>"
  define m5 w2 where "m5 = fst (if ?state = Running then recover_rules E p (?m4, w1) else (?m4, w1))"
    and "w2 = snd (if ?state = Running then recover_rules E p (?m4, w1) else (?m4, w1))"
  let ?h = "\<lparr>vh_config = pv_config p, vh_state = ?state, vh_ip = pv_ip p, vh_ipv6 = pv_ipv6 p, vh_process = process,
      vh_tap_name = pv_tap_name p, vh_created_at_epoch = pv_created_at_epoch p, vh_numa_node = pv_numa_node p\<rparr>"
  have "recover_vm E (m, w) p = (m5\<lparr>m_vms := hm_insert (pv_id p) ?h (m_vms m5)\<rparr>, w2)"
    unfolding recover_vm_def Let_def fst_conv snd_conv split_beta process_def w1_def m5_def w2_def m3_def reserve_def
    by (rule refl)
  then have rv: "m' = m5\<lparr>m_vms := hm_insert (pv_id p) ?h (m_vms m5)\<rparr>" "w' = w2" using assms(1) by simp_all
  have f3: "frames (e_lib E) ?m1 m3"
    unfolding m3_def by (rule frames_trans [OF recover_phase_frames(1,2)])
  have f5: "frames (e_lib E) ?m4 m5"
    using recover_phase_frames(3) [of E "(?m4, w1)" p] by (simp add: m5_def)
  have c: "m_vms m5 = m_vms m" "m_used_ip_offsets m5 = insert (ip_offset (m_gateway_ip m) (pv_ip p)) (m_used_ip_offsets m)"
      "m_gateway_ip m5 = m_gateway_ip m" "m_state_dir m5 = m_state_dir m"
      "m_port_forwards m5 = foldl pf_add (m_port_forwards m) (pv_port_forwards p)"
    using framesD(1-5) [OF f3] framesD(1-5) [OF f5] by (simp_all add: reserve_def)
  show "\<exists>h. m_vms m' = hm_insert (pv_id p) h (m_vms m) \<and> revived p h"
    using c(1) by (intro exI [of _ ?h]) (simp add: rv(1) revived_def)
  show "m_used_ip_offsets m' = insert (ip_offset (m_gateway_ip m) (pv_ip p)) (m_used_ip_offsets m)"
    "m_gateway_ip m' = m_gateway_ip m" "m_state_dir m' = m_state_dir m"
    "m_port_forwards m' = foldl pf_add (m_port_forwards m) (pv_port_forwards p)"
    using c by (simp_all add: rv(1))
  show "pools_ok (e_lib E) m \<Longrightarrow> pools_ok (e_lib E) m'"
    using framesD(6) [OF f3] framesD(6) [OF f5] by (simp add: rv(1) reserve_def)
  have "spares (w_fs w) (w_fs w1)" using unit_spares(1) [OF r assms(2), of "w_fs w"] by simp
  then show "spares (w_fs w) (w_fs w')" using assms(2) by (simp add: rv(2) w2_def recover_rules_spares)
qed

lemma recover_all_steps:
  assumes "foldl (recover_vm E) (m, w) ps = (m', w')" "programs_spare (e_host E)" "distinct (map pv_id ps)"
  shows "hm_get (m_vms m') v =
      (if v \<in> pv_id ` set ps then hm_get (m_vms m') v else hm_get (m_vms m) v)" (is ?A)
    and "p \<in> set ps \<Longrightarrow> \<exists>h. hm_get (m_vms m') (pv_id p) = Some h \<and> revived p h"
    and "m_used_ip_offsets m' = m_used_ip_offsets m \<union> (\<lambda>p. ip_offset (m_gateway_ip m) (pv_ip p)) ` set ps"
    and "m_gateway_ip m' = m_gateway_ip m" "m_state_dir m' = m_state_dir m"
    and "m_port_forwards m' = foldl pf_add (m_port_forwards m) (concat (map pv_port_forwards ps))"
    and "pools_ok (e_lib E) m \<Longrightarrow> pools_ok (e_lib E) m'" "spares (w_fs w) (w_fs w')"
    and "hm_wf (m_vms m) \<Longrightarrow> hm_wf (m_vms m')"
proof -
  have "(\<forall>v. v \<notin> pv_id ` set ps \<longrightarrow> hm_get (m_vms m') v = hm_get (m_vms m) v) \<and>
      (\<forall>p \<in> set ps. \<exists>h. hm_get (m_vms m') (pv_id p) = Some h \<and> revived p h) \<and>
      m_used_ip_offsets m' = m_used_ip_offsets m \<union> (\<lambda>p. ip_offset (m_gateway_ip m) (pv_ip p)) ` set ps \<and>
      m_gateway_ip m' = m_gateway_ip m \<and> m_state_dir m' = m_state_dir m \<and>
      m_port_forwards m' = foldl pf_add (m_port_forwards m) (concat (map pv_port_forwards ps)) \<and>
      (pools_ok (e_lib E) m \<longrightarrow> pools_ok (e_lib E) m') \<and> spares (w_fs w) (w_fs w') \<and>
      (hm_wf (m_vms m) \<longrightarrow> hm_wf (m_vms m'))"
    using assms(1,3)
  proof (induction ps arbitrary: m w)
    case (Cons p ps)
    obtain m1 w1 where 1: "recover_vm E (m, w) p = (m1, w1)" by (cases "recover_vm E (m, w) p")
    note s = recover_vm_step [OF 1 assms(2)]
    obtain h where h: "m_vms m1 = hm_insert (pv_id p) h (m_vms m)" "revived p h" using s(1) by blast
    have IH: "foldl (recover_vm E) (m1, w1) ps = (m', w')" "distinct (map pv_id ps)" using Cons.prems 1 by simp_all
    note ih = Cons.IH [OF IH]
    have "pv_id p \<notin> pv_id ` set ps" using Cons.prems(2) by simp
    then have "hm_get (m_vms m') (pv_id p) = Some h" using ih h(1) by simp
    then show ?case using ih s h by (auto intro: spares_trans)
  qed simp
  then show ?A "p \<in> set ps \<Longrightarrow> \<exists>h. hm_get (m_vms m') (pv_id p) = Some h \<and> revived p h"
    "m_used_ip_offsets m' = m_used_ip_offsets m \<union> (\<lambda>p. ip_offset (m_gateway_ip m) (pv_ip p)) ` set ps"
    "m_gateway_ip m' = m_gateway_ip m" "m_state_dir m' = m_state_dir m"
    "m_port_forwards m' = foldl pf_add (m_port_forwards m) (concat (map pv_port_forwards ps))"
    "pools_ok (e_lib E) m \<Longrightarrow> pools_ok (e_lib E) m'" "spares (w_fs w) (w_fs w')"
    "hm_wf (m_vms m) \<Longrightarrow> hm_wf (m_vms m')"
    by simp_all
qed

lemma pf_add_all_lookup:
  "\<forall>f \<in> set fs. t (pf_host_port f) (pf_protocol f) = Some f \<Longrightarrow>
   pf_lookup (foldl pf_add s fs) p proto =
     (if \<exists>f \<in> set fs. pf_host_port f = p \<and> pf_protocol f = proto then t p proto else pf_lookup s p proto)"
  by (induction fs arbitrary: s) auto

lemma pf_add_all_inv: "pf_inv s \<Longrightarrow> pf_inv (foldl pf_add s fs)"
  by (induction fs arbitrary: s) (simp_all add: pf_inv_add)

definition same_vm :: "vm_handle \<Rightarrow> vm_handle \<Rightarrow> bool" where
  "same_vm h h' \<longleftrightarrow> vh_config h' = vh_config h \<and> vh_ip h' = vh_ip h \<and> vh_ipv6 h' = vh_ipv6 h \<and>
     vh_tap_name h' = vh_tap_name h \<and> vh_created_at_epoch h' = vh_created_at_epoch h \<and>
     vh_numa_node h' = vh_numa_node h"

text \<open>
  A new process over a mirrored directory has the table of the old one; with the same gateway
  its invariant holds, and the directory mirrors it.
\<close>

lemma recovery_restores:
  assumes "mirrored E (m, w)" "mgr_inv (e_lib E) m" "durable E" "programs_spare (e_host E)" "clean_dir (m_state_dir m)"
    and new: "m0 = mgr_new rd (m_state_dir m) br (m_gateway_ip m) be dh ei p6 ndp topo"
    and rec: "recover_vms E (m0, w) = (r, (m', w'))"
  shows "r = Ok ()" "\<And>v. rel_option same_vm (hm_get (m_vms m) v) (hm_get (m_vms m') v)"
    "\<And>p proto. pf_lookup (m_port_forwards m') p proto = pf_lookup (m_port_forwards m) p proto"
    "m_state_dir m' = m_state_dir m" "m_gateway_ip m' = m_gateway_ip m"
    "mgr_inv (e_lib E) m'" "mirrored E (m', w')"
proof -
  have n: "m_state_dir m0 = m_state_dir m" "m_gateway_ip m0 = m_gateway_ip m" "m_vms m0 = hm_empty"
      "m_port_forwards m0 = pf_new" "m_used_ip_offsets m0 = {}"
    by (simp_all add: new mgr_new_def Let_def)
  obtain ps where ps: "load_all_vms (h_io (e_host E)) (e_codec E) (m_state_dir m) (w_fs w) = Ok ps"
      "distinct (map pv_id ps)" "\<And>p. p \<in> set ps \<Longrightarrow> \<exists>h. hm_get (m_vms m) (pv_id p) = Some h \<and> recorded m (pv_id p) h p"
      "\<And>v. hm_contains_key (m_vms m) v \<Longrightarrow> v \<in> pv_id ` set ps"
    using load_mirrored [OF assms(1-3,5)] by metis
  have f: "foldl (recover_vm E) (m0, w) ps = (m', w')" "r = Ok ()"
    using rec ps(1) by (simp_all add: recover_vms_def n(1))
  note s = recover_all_steps [OF f(1) assms(4) ps(2)]
  have pinv: "pf_inv (m_port_forwards m)" using assms(2) by (simp add: mgr_inv_def)
  show "r = Ok ()" by fact
  show same: "rel_option same_vm (hm_get (m_vms m) v) (hm_get (m_vms m') v)" for v
  proof (cases "v \<in> pv_id ` set ps")
    case True
    then obtain p where p: "p \<in> set ps" "v = pv_id p" by blast
    with ps(3) s(2) [OF p(1)] show ?thesis by (fastforce simp: recorded_def revived_def same_vm_def)
  next
    case False
    then have "hm_get (m_vms m) v = None" using ps(4) [of v] by (auto simp: hm_contains_key_def)
    moreover have "hm_get (m_vms m') v = None" using s(1) [of v] False by (simp add: n(3))
    ultimately show ?thesis by simp
  qed
  show pf: "pf_lookup (m_port_forwards m') p proto = pf_lookup (m_port_forwards m) p proto" for p proto
  proof -
    let ?fs = "concat (map pv_port_forwards ps)"
    have own: "set (pv_port_forwards q) = set (list_for_vm (m_port_forwards m) (pv_id q))" if "q \<in> set ps" for q
      using ps(3) [OF that] by (auto simp: recorded_def)
    have "\<forall>f \<in> set ?fs. pf_lookup (m_port_forwards m) (pf_host_port f) (pf_protocol f) = Some f"
      using own by (auto simp: forwards_of_vm [OF pinv])
    from pf_add_all_lookup [OF this, of pf_new p proto]
    have l: "pf_lookup (m_port_forwards m') p proto =
        (if \<exists>f \<in> set ?fs. pf_host_port f = p \<and> pf_protocol f = proto then pf_lookup (m_port_forwards m) p proto else None)"
      by (simp only: s(6) n(4) pf_lookup_new)
    have "\<exists>f \<in> set ?fs. pf_host_port f = p \<and> pf_protocol f = proto"
      if "pf_lookup (m_port_forwards m) p proto = Some f" for f
    proof -
      have k: "pf_host_port f = p" "pf_protocol f = proto" using pinv that by (auto simp: pf_inv_iff pf_lookup_def)
      have "hm_contains_key (m_vms m) (pf_vm_id f)" using assms(2) that by (auto simp: mgr_inv_def)
      then obtain q where q: "q \<in> set ps" "pf_vm_id f = pv_id q" using ps(4) by blast
      then have "f \<in> set (pv_port_forwards q)" using own [OF q(1)] that k by (simp add: forwards_of_vm [OF pinv])
      with q k show ?thesis by auto
    qed
    with l show ?thesis by (cases "pf_lookup (m_port_forwards m) p proto") auto
  qed
  show sd: "m_state_dir m' = m_state_dir m" and gw: "m_gateway_ip m' = m_gateway_ip m" using s(4,5) n by simp_all
  have old: "\<exists>h. hm_get (m_vms m) v = Some h \<and> same_vm h h'" if "hm_get (m_vms m') v = Some h'" for v h'
    using same [of v] that by (auto simp: option_rel_Some2)
  have keys: "hm_contains_key (m_vms m') v \<longleftrightarrow> hm_contains_key (m_vms m) v" for v
    using same [of v] by (cases "hm_get (m_vms m) v"; cases "hm_get (m_vms m') v") (auto simp: hm_contains_key_def)
  show inv: "mgr_inv (e_lib E) m'"
  proof -
    have "ip_inv (ip_view m')"
    proof -
      have held: "ip_held (ip_view m) v = Some o'" if "ip_held (ip_view m') v = Some o'" for v o'
        using that old by (fastforce simp: ip_view_def gw same_vm_def)
      have "o' \<in> m_used_ip_offsets m'" if at: "ip_held (ip_view m') v = Some o'" for v o'
      proof -
        obtain h' where h': "hm_get (m_vms m') v = Some h'" "o' = ip_offset (m_gateway_ip m) (vh_ip h')"
          using at by (auto simp: ip_view_def gw)
        then have "v \<in> pv_id ` set ps" using keys ps(4) by (auto simp: hm_contains_key_def)
        then obtain p where p: "p \<in> set ps" "v = pv_id p" by blast
        with s(2) [OF p(1)] h' have "vh_ip h' = pv_ip p" by (auto simp: revived_def)
        with p h'(2) show ?thesis by (simp add: s(3) n(2))
      qed
      moreover have "ip_used (ip_view m') = m_used_ip_offsets m'" by (simp add: ip_view_def)
      moreover have "ip_inv (ip_view m)" using assms(2) by (simp add: mgr_inv_def)
      ultimately show ?thesis using held unfolding ip_inv_def by metis
    qed
    moreover have "handle_ok m' v h'" if "hm_get (m_vms m') v = Some h'" for v h'
      using old [OF that] assms(2) by (auto simp: mgr_inv_def handle_ok_def gw same_vm_def)
    moreover have "pools_ok (e_lib E) m0" using mgr_inv_new by (simp add: new mgr_inv_def)
    ultimately show ?thesis
      using assms(2) s(7,9) keys pf n by (auto simp: mgr_inv_def s(6) pf_add_all_inv)
  qed
  have pinv': "pf_inv (m_port_forwards m')" using inv by (simp add: mgr_inv_def)
  have fwd: "set (list_for_vm (m_port_forwards m') v) = set (list_for_vm (m_port_forwards m) v)" for v
    by (simp add: forwards_of_vm pinv pinv' pf)
  show "mirrored E (m', w')"
  proof -
    note mir = assms(1) [unfolded mirrored_def Let_def fst_conv snd_conv]
    have 1: "hm_wf (fs_files (w_fs w'))" using mir s(8) by (simp add: spares_def)
    have 2: "plain_id v \<and> m_state_dir m \<in> set (fs_dirs (w_fs w')) \<and>
        (\<exists>t p. fs_content (w_fs w') (state_path (m_state_dir m) v) = Some t \<and> vm_parse (e_codec E) t = Some p \<and> recorded m' v h' p)"
      if h': "hm_get (m_vms m') v = Some h'" for v h'
    proof -
      obtain h where h: "hm_get (m_vms m) v = Some h" "same_vm h h'" using old [OF h'] by blast
      then obtain t p where t: "plain_id v" "m_state_dir m \<in> set (fs_dirs (w_fs w))"
          "fs_content (w_fs w) (state_path (m_state_dir m) v) = Some t" "vm_parse (e_codec E) t = Some p" "recorded m v h p"
        using mir by blast
      have "recorded m' v h' p" using t(5) h(2) fwd [of v] by (simp add: recorded_def same_vm_def)
      moreover have "fs_content (w_fs w') (state_path (m_state_dir m) v) = Some t"
        using s(8) t(1,3) assms(5) by (simp add: spares_def state_path_json)
      ultimately show ?thesis using t s(8) by (auto simp: spares_def)
    qed
    have 3: "\<exists>v. q = state_path (m_state_dir m) v \<and> hm_contains_key (m_vms m') v"
      if "path_parent q = Some (m_state_dir m)" "path_extension q = Some ''json''" "fs_content (w_fs w') q \<noteq> None" for q
      using that mir s(8) keys by (simp add: spares_def)
    from 1 2 3 show ?thesis unfolding mirrored_def Let_def fst_conv snd_conv sd by blast
  qed
qed

section \<open>Runs with restarts\<close>

text \<open>
  The states of a node: a fresh manager, then requests, and at any time a new process that
  starts from a fresh manager and recovers from the state directory.
\<close>

inductive node_run :: "'x mgr_env \<Rightarrow> mgr \<Rightarrow> 'x world \<Rightarrow> 'x mstate \<Rightarrow> bool" for E m0 w0 where
  Boot: "node_run E m0 w0 (m0, w0)"
| Serve: "node_run E m0 w0 st \<Longrightarrow> admissible E st q \<Longrightarrow> node_run E m0 w0 (mgr_step E st q)"
| Restart: "node_run E m0 w0 st \<Longrightarrow> recover_vms E (m0, snd st) = (r, st') \<Longrightarrow> node_run E m0 w0 st'"

definition no_records :: "path \<Rightarrow> filesystem \<Rightarrow> bool" where
  "no_records d fs \<longleftrightarrow> hm_wf (fs_files fs) \<and>
     (\<forall>q. path_parent q = Some d \<longrightarrow> path_extension q = Some ''json'' \<longrightarrow> fs_content fs q = None)"

lemma mgr_step_gateway:
  assumes "mgr_inv (e_lib E) (fst st)"
  shows "m_gateway_ip (fst (mgr_step E st q)) = m_gateway_ip (fst st)"
proof (cases q)
  case (CreateVm config req hint)
  show ?thesis
  proof (cases "hm_contains_key (m_vms (fst st)) (cfg_vm_id config) \<or> free_offset (m_used_ip_offsets (fst st)) = None")
    case True
    then show ?thesis by (auto simp: CreateVm create_vm_def Let_def on_mgr_def reserve_offset_def)
  next
    case False
    then obtain o' where o': "free_offset (m_used_ip_offsets (fst st)) = Some o'"
        "\<not> hm_contains_key (m_vms (fst st)) (cfg_vm_id config)" by auto
    obtain res st' where r: "create_vm E config req hint st = (res, st')" by (cases "create_vm E config req hint st")
    from create_vm_outcome [OF o'(2,1), of E req hint] show ?thesis
      by (auto simp: CreateVm r create_outcome_def reserve_def split: sum.splits dest: framesD(3))
  qed
next
  case (DeleteVm v)
  show ?thesis
  proof (cases "hm_get (m_vms (fst st)) v")
    case (Some h)
    obtain m4 st' where d: "delete_vm E v st = (Ok (), st')"
        "frames (e_lib E) ((fst st)\<lparr>m_vms := hm_remove v (m_vms (fst st)),
           m_port_forwards := snd (remove_all_for_vm (m_port_forwards (fst st)) v)\<rparr>) m4"
        "fst st' = m4\<lparr>m_used_ip_offsets := m_used_ip_offsets m4 - {ip_offset (m_gateway_ip m4) (vh_ip h)}\<rparr>"
      by (rule delete_vm_result [OF Some])
    then show ?thesis using framesD(3) [OF d(2)] by (simp add: DeleteVm)
  qed (simp add: DeleteVm delete_vm_def)
next
  case (AddForward v hp vp proto)
  then show ?thesis by (cases rule: add_port_forward_cases [of E v hp vp proto st]) simp_all
qed (simp add: remove_port_forward_mgr)

lemma node_run_inv:
  assumes "node_run E m0 w0 st" "durable E" "programs_spare (e_host E)" "clean_dir sd"
    and new: "m0 = mgr_new rd sd br gw be dh ei p6 ndp topo" and "no_records sd (w_fs w0)"
  shows "mirrored E st \<and> mgr_inv (e_lib E) (fst st) \<and> m_state_dir (fst st) = sd \<and> m_gateway_ip (fst st) = gw"
  using assms(1)
proof (induction rule: node_run.induct)
  case Boot
  have "mgr_inv (e_lib E) m0" unfolding new by (rule mgr_inv_new)
  moreover have "m_vms m0 = hm_empty" "m_state_dir m0 = sd" "m_gateway_ip m0 = gw" by (simp_all add: new mgr_new_def Let_def)
  ultimately show ?case using assms(6) by (simp add: mirrored_def no_records_def)
next
  case (Serve st q)
  then show ?case
    using mgr_step_mirrored [of E st q] mgr_step_inv [of E st q] mgr_step_gateway [of E st q] assms(2-4) by simp
next
  case (Restart st r st')
  obtain m w where st: "st = (m, w)" by (cases st)
  obtain m' w' where st': "st' = (m', w')" by (cases st')
  have 1: "mirrored E (m, w)" "mgr_inv (e_lib E) m" "clean_dir (m_state_dir m)"
      "m0 = mgr_new rd (m_state_dir m) br (m_gateway_ip m) be dh ei p6 ndp topo"
    using Restart.IH assms(4) new by (simp_all add: st)
  have rec: "recover_vms E (m0, w) = (r, m', w')" using Restart.hyps(2) by (simp add: st st')
  from recovery_restores(4-7) [OF 1(1,2) assms(2,3) 1(3,4) rec] Restart.IH show ?case by (simp add: st st')
qed

section \<open>Properties\<close>

text \<open>
  C4: the VMs survive restarts of the node. Whatever requests it has served, through whatever
  number of restarts, a new process that starts over the same state directory recovers exactly
  the VMs of the old one, each with its configuration, addresses, TAP device, NUMA node and start
  time, and exactly its port forwards; the addresses of its VMs are pairwise different and reserved,
  and no pool is over-committed. The requests are those that pass validation and whose removals
  of forwards complete.
\<close>

theorem restart_preserves_vms:
  assumes "durable E" "programs_spare (e_host E)" "clean_dir sd" "no_records sd (w_fs w0)"
    and "m0 = mgr_new rd sd br gw be dh ei p6 ndp topo"
    and "node_run E m0 w0 st" "recover_vms E (m0, snd st) = (r, st')"
  shows "r = Ok () \<and> mgr_inv (e_lib E) (fst st') \<and>
    (\<forall>v. rel_option same_vm (hm_get (m_vms (fst st)) v) (hm_get (m_vms (fst st')) v)) \<and>
    (\<forall>p proto. pf_lookup (m_port_forwards (fst st')) p proto = pf_lookup (m_port_forwards (fst st)) p proto)"
proof -
  obtain m w where st: "st = (m, w)" by (cases st)
  obtain m' w' where st': "st' = (m', w')" by (cases st')
  note inv = node_run_inv [OF assms(6,1,2,3,5,4), unfolded st fst_conv]
  have 1: "mirrored E (m, w)" "mgr_inv (e_lib E) m" "clean_dir (m_state_dir m)"
      "m0 = mgr_new rd (m_state_dir m) br (m_gateway_ip m) be dh ei p6 ndp topo"
    using inv assms(3,5) by simp_all
  have rec: "recover_vms E (m0, w) = (r, m', w')" using assms(7) by (simp add: st st')
  from recovery_restores [OF 1(1,2) assms(1,2) 1(3,4) rec] show ?thesis by (simp add: st st')
qed

definition durable_env :: "(json list) mgr_env" where
  "durable_env = demo_env\<lparr>e_codec := record_codec sized_text decimal_nets\<rparr>"

lemma durable_env_laws: "durable durable_env" "programs_spare (e_host durable_env)"
proof -
  show "durable durable_env"
    using record_codec_total [OF sized_text_ok decimal_nets_ok]
    by (simp add: durable_def durable_env_def demo_env_def demo_host_def quiet_io_def reliable_io_def)
  show "programs_spare (e_host durable_env)"
    by (simp add: programs_spare_def durable_env_def demo_env_def demo_host_def)
qed

theorem restart_preserves_vms_witness:
  "let st = mgr_step durable_env (demo_mgr, demo_world) (CreateVm (demo_config ''a'' NoTee) None None);
       (r, st') = recover_vms durable_env (demo_mgr, snd st)
   in r = Ok () \<and> map_option vh_ip (hm_get (m_vms (fst st')) ''a'') = Some (10, 0, 0, 2)"
proof -
  define st where "st = mgr_step durable_env (demo_mgr, demo_world) (CreateVm (demo_config ''a'' NoTee) None None)"
  obtain r st' where rec: "recover_vms durable_env (demo_mgr, snd st) = (r, st')"
    by (cases "recover_vms durable_env (demo_mgr, snd st)")
  have a: "admissible durable_env (demo_mgr, demo_world) (CreateVm (demo_config ''a'' NoTee) None None)" by code_simp
  have run: "node_run durable_env demo_mgr demo_world st" unfolding st_def by (rule Serve [OF Boot a])
  have e: "no_records ''/s'' (w_fs demo_world)" "clean_dir ''/s''"
    by (simp_all add: no_records_def demo_world_def empty_fs_def fs_content_def clean_dir_def)
  note t = restart_preserves_vms [OF durable_env_laws e(2,1) demo_mgr_def run rec]
  have ip: "map_option vh_ip (hm_get (m_vms (fst st)) ''a'') = Some (10, 0, 0, 2)" unfolding st_def by code_simp
  have "rel_option same_vm (hm_get (m_vms (fst st)) ''a'') (hm_get (m_vms (fst st')) ''a'')" using t by blast
  with ip have "map_option vh_ip (hm_get (m_vms (fst st')) ''a'') = Some (10, 0, 0, 2)"
    by (auto simp: option_rel_Some1 same_vm_def)
  with t rec show ?thesis by (simp add: st_def Let_def)
qed

text \<open>
  C40: a forward whose removal fails in nftables comes back with the next restart: the table of
  the running node no longer has it, so its host port is free to be given to another VM, but its
  record still does, and recovery enters it again.
\<close>

theorem failed_removal_revives_forward:
  assumes "durable E" "programs_spare (e_host E)" "clean_dir sd" "no_records sd (w_fs w0)"
    and "m0 = mgr_new rd sd br gw be dh ei p6 ndp topo" "node_run E m0 w0 st"
    and "pf_lookup (m_port_forwards (fst st)) hp proto = Some f"
    and "remove_port_forward E hp proto st = (Err (NftForwardFailed e), st1)"
    and "recover_vms E (m0, snd st1) = (r, st2)"
  shows "is_available (m_port_forwards (fst st1)) hp proto \<and> pf_lookup (m_port_forwards (fst st2)) hp proto = Some f"
proof -
  obtain m w where st: "st = (m, w)" by (cases st)
  obtain m2 w2 where st2: "st2 = (m2, w2)" by (cases st2)
  note inv = node_run_inv [OF assms(6,1,2,3,5,4), unfolded st fst_conv]
  have fs: "w_fs (snd st1) = w_fs w"
  proof -
    have x: "w_fs w1 = w_fs w'" if "on_ext c op w' = (q, w1)" for c op w' q w1 using on_ext_fs [of c op w'] that by simp
    show ?thesis
      using assms(8) by (auto simp: st remove_port_forward_def Let_def x split: prod.splits option.splits sum.splits)
  qed
  have 1: "mirrored E (m, snd st1)" "mgr_inv (e_lib E) m" "clean_dir (m_state_dir m)"
      "m0 = mgr_new rd (m_state_dir m) br (m_gateway_ip m) be dh ei p6 ndp topo"
    using inv assms(3,5) mirrored_same_fs [OF fs] by simp_all
  have rec: "recover_vms E (m0, snd st1) = (r, m2, w2)" using assms(9) by (simp add: st2)
  have "pf_lookup (m_port_forwards m2) hp proto = Some f"
    using recovery_restores(3) [OF 1(1,2) assms(1,2) 1(3,4) rec] assms(7) by (simp add: st)
  moreover have "fst st1 = m\<lparr>m_port_forwards := snd (pf_remove (m_port_forwards m) hp proto)\<rparr>"
    using remove_port_forward_mgr [of E hp proto st] assms(8) by (simp add: st)
  ultimately show ?thesis by (simp add: st2 is_available_lookup)
qed

text \<open>An nft that lists only small rulesets.\<close>

definition refusing_nft :: "(json list) nft_env" where
  "refusing_nft = mem_nft\<lparr>nft_output := (\<lambda>w f. if length w \<le> 9 then nft_output mem_nft w f else Err ''busy'')\<rparr>"

definition refusing_env :: "(json list) mgr_env" where
  "refusing_env = durable_env\<lparr>e_host := demo_host\<lparr>h_nft := refusing_nft\<rparr>\<rparr>"

lemma refusing_env_laws: "durable refusing_env" "programs_spare (e_host refusing_env)"
  using durable_env_laws
  by (simp_all add: durable_def programs_spare_def refusing_env_def durable_env_def demo_env_def demo_host_def)

definition ready_world :: "(json list) world" where
  "ready_world = demo_world\<lparr>w_ext := demo_base @
     [JObj [(''chain'', JObj [(''family'', JStr ''ip''), (''table'', JStr ''nat''), (''name'', JStr ''aleph-supervisor-prerouting'')])]]\<rparr>"

theorem failed_removal_revives_forward_witness:
  "let st = foldl (mgr_step refusing_env) (demo_mgr, ready_world)
         [CreateVm (demo_config ''a'' NoTee) None None, AddForward ''a'' 81 80 Tcp];
       st1 = snd (remove_port_forward refusing_env 81 Tcp st);
       st2 = snd (recover_vms refusing_env (demo_mgr, snd st1))
   in is_available (m_port_forwards (fst st1)) 81 Tcp \<and>
      pf_lookup (m_port_forwards (fst st2)) 81 Tcp = Some \<lparr>pf_vm_id = ''a'', pf_host_port = 81, pf_vm_port = 80, pf_protocol = Tcp\<rparr>"
proof -
  define sta where "sta = mgr_step refusing_env (demo_mgr, ready_world) (CreateVm (demo_config ''a'' NoTee) None None)"
  define st where "st = mgr_step refusing_env sta (AddForward ''a'' 81 80 Tcp)"
  have a: "admissible refusing_env (demo_mgr, ready_world) (CreateVm (demo_config ''a'' NoTee) None None)"
    by (simp add: demo_config_def validate_vm_id_Ok vm_id_char_def is_ascii_lowercase_def)
  have run: "node_run refusing_env demo_mgr ready_world st"
    unfolding st_def sta_def by (rule Serve [OF Serve [OF Boot a]]) simp
  have e: "no_records ''/s'' (w_fs ready_world)" "clean_dir ''/s''"
    by (simp_all add: no_records_def ready_world_def demo_world_def empty_fs_def fs_content_def clean_dir_def)
  have l: "pf_lookup (m_port_forwards (fst st)) 81 Tcp =
      Some \<lparr>pf_vm_id = ''a'', pf_host_port = 81, pf_vm_port = 80, pf_protocol = Tcp\<rparr>" unfolding st_def sta_def by code_simp
  have "fst (remove_port_forward refusing_env 81 Tcp st) = Err (NftForwardFailed (NftSpawn ''busy''))"
    unfolding st_def sta_def by code_simp
  then have r: "remove_port_forward refusing_env 81 Tcp st =
      (Err (NftForwardFailed (NftSpawn ''busy'')), snd (remove_port_forward refusing_env 81 Tcp st))"
    by (metis prod.collapse)
  obtain q st2 where rec: "recover_vms refusing_env (demo_mgr, snd (snd (remove_port_forward refusing_env 81 Tcp st))) = (q, st2)"
    by (rule prod.exhaust)
  from failed_removal_revives_forward [OF refusing_env_laws e(2,1) demo_mgr_def run l r rec] rec show ?thesis
    by (simp add: st_def sta_def Let_def)
qed

end
