(* ===== verification/Topology.thy ===== *)
theory Topology
  imports Numa Filesystem
begin

text \<open>
  The NUMA topology read from sysfs (\<^verbatim>\<open>NumaTopology::from_sysfs\<close> of
  \<^verbatim>\<open>crates/aleph-compute-node/src/numa.rs\<close>) and the reservation of 2 MiB hugepages
  (\<^verbatim>\<open>crates/aleph-compute-node/src/hugepages.rs\<close>). Sysfs is the kernel's: listing a directory
  and reading and writing a file of it are the fields of \<open>sysfs\<close>, arguments of the operations,
  as what is read back after a write is the kernel's decision. Arithmetic on \<^verbatim>\<open>u32\<close> wraps as
  in a release build.
\<close>

section \<open>Sysfs\<close>

record 'x sysfs =
  sys_list :: "path \<Rightarrow> 'x \<Rightarrow> (io_error, string option list) result"
  sys_read :: "path \<Rightarrow> 'x \<Rightarrow> (io_error, string) result"
  sys_write :: "path \<Rightarrow> string \<Rightarrow> 'x \<Rightarrow> (io_error, unit) result \<times> 'x"

datatype topology_error =
    ReadingBase io_error
  | BadNodeId string
  | ReadingCpulist string io_error
  | BadCpulist cpulist_error
  | Reading2m string io_error
  | Parsing2m string
  | ReadingMeminfo string io_error
  | ParsingMemTotal string meminfo_error

definition node_name_id :: "string \<Rightarrow> u32 option" where
  "node_name_id n = Option.bind (strip_prefix n ''node'') parse_u32"

definition entry_key :: "string \<Rightarrow> u32" where
  "entry_key n = (case node_name_id n of None \<Rightarrow> - 1 | Some i \<Rightarrow> i)"

definition hp_2m_file :: path where
  "hp_2m_file = ''hugepages/hugepages-2048kB/nr_hugepages''"

definition hp_1g_file :: path where
  "hp_1g_file = ''hugepages/hugepages-1048576kB/nr_hugepages''"

text \<open>The loop body: one node directory.\<close>

definition read_node :: "'x sysfs \<Rightarrow> path \<Rightarrow> string \<Rightarrow> 'x \<Rightarrow> (topology_error, numa_node) result" where
  "read_node Y base name x =
     (let node_path = path_join base name in
      and_then (ok_or (node_name_id name) (BadNodeId name)) (\<lambda>i.
      and_then (map_err (ReadingCpulist name) (sys_read Y (path_join node_path ''cpulist'') x)) (\<lambda>cpulist_raw.
      and_then (map_err BadCpulist (parse_cpulist (trim cpulist_raw))) (\<lambda>cpus.
      and_then (map_err (Reading2m name) (sys_read Y (path_join node_path hp_2m_file) x)) (\<lambda>raw_2m.
      and_then (ok_or (parse_u32 (trim raw_2m)) (Parsing2m name)) (\<lambda>total_2m.
      let raw_1g = (case sys_read Y (path_join node_path hp_1g_file) x of Inl _ \<Rightarrow> ''0'' | Inr s \<Rightarrow> s);
          total_1g = (case parse_u32 (trim raw_1g) of None \<Rightarrow> 0 | Some n \<Rightarrow> n) in
      and_then (map_err (ReadingMeminfo name) (sys_read Y (path_join node_path ''meminfo'') x)) (\<lambda>meminfo.
      and_then (map_err (ParsingMemTotal name) (parse_memtotal_kb meminfo)) (\<lambda>kb.
        Ok \<lparr>node_id = i, node_cpus = cpus, total_2m_hugepages = total_2m, total_1g_hugepages = total_1g,
            total_ram_mb = ucast (kb div 1024)\<rparr>))))))))"

fun read_nodes :: "'x sysfs \<Rightarrow> path \<Rightarrow> string list \<Rightarrow> 'x \<Rightarrow> (topology_error, numa_topology) result" where
  "read_nodes Y base [] x = Ok []"
| "read_nodes Y base (name # names) x =
     and_then (read_node Y base name x) (\<lambda>n. and_then (read_nodes Y base names x) (\<lambda>ns. Ok (n # ns)))"

definition node_entries :: "string option list \<Rightarrow> string list" where
  "node_entries names =
     sort_key entry_key (filter (\<lambda>n. starts_with n ''node'') (List.map_filter (\<lambda>n. n) names))"

definition from_sysfs :: "'x sysfs \<Rightarrow> path \<Rightarrow> 'x \<Rightarrow> (topology_error, numa_topology) result" where
  "from_sysfs Y base x =
     and_then (map_err ReadingBase (sys_list Y base x)) (\<lambda>names. read_nodes Y base (node_entries names) x)"

definition detect_topology :: "'x sysfs \<Rightarrow> 'x \<Rightarrow> (topology_error, numa_topology) result" where
  "detect_topology Y x = from_sysfs Y ''/sys/devices/system/node'' x"

section \<open>Hugepages\<close>

definition compute_2m_budget :: "u32 \<Rightarrow> u32 \<Rightarrow> u32 \<Rightarrow> u32 \<Rightarrow> u32" where
  "compute_2m_budget node_ram_mb existing_1g_pages headroom_mb per_node_cap_mb =
     (let node_cap = min per_node_cap_mb (saturating_sub node_ram_mb headroom_mb);
          reserved_1g_mb = existing_1g_pages * 1024;
          budget_mb = saturating_sub node_cap reserved_1g_mb
      in budget_mb div 2)"

datatype hugepage_error =
    WritingCount path io_error
  | ReadingCount path io_error
  | ParsingCount path
  | AllNodesFailed u32

definition node_hp_path :: "path \<Rightarrow> u32 \<Rightarrow> path" where
  "node_hp_path base i = path_join (path_join base (''node'' @ show_word i)) hp_2m_file"

definition allocate_2m_pages_on_node ::
  "'x sysfs \<Rightarrow> path \<Rightarrow> u32 \<Rightarrow> u32 \<Rightarrow> 'x \<Rightarrow> (hugepage_error, u32) result \<times> 'x" where
  "allocate_2m_pages_on_node Y base i count x =
     (let hp_path = node_hp_path base i in
      case sys_write Y hp_path (show_word count) x of
        (Inl e, x') \<Rightarrow> (Err (WritingCount hp_path e), x')
      | (Inr _, x') \<Rightarrow>
          (and_then (map_err (ReadingCount hp_path) (sys_read Y hp_path x')) (\<lambda>s.
             ok_or (parse_u32 (trim s)) (ParsingCount hp_path)), x'))"

text \<open>The loop over the nodes, with its two counters.\<close>

fun reserve_nodes ::
  "'x sysfs \<Rightarrow> path \<Rightarrow> u32 \<Rightarrow> u32 \<Rightarrow> numa_topology \<Rightarrow> u32 \<Rightarrow> u32 \<Rightarrow> 'x \<Rightarrow> numa_topology \<times> u32 \<times> u32 \<times> 'x" where
  "reserve_nodes Y base headroom cap [] failed tried x = ([], failed, tried, x)"
| "reserve_nodes Y base headroom cap (n # ns) failed tried x =
     (let desired = compute_2m_budget (total_ram_mb n) (total_1g_hugepages n) headroom cap in
      if desired = 0 then
        (case reserve_nodes Y base headroom cap ns failed tried x of (ns', r) \<Rightarrow> (n # ns', r))
      else
        case allocate_2m_pages_on_node Y base (node_id n) desired x of
          (Inr actual, x') \<Rightarrow>
            (case reserve_nodes Y base headroom cap ns failed (tried + 1) x' of
               (ns', r) \<Rightarrow> (n\<lparr>total_2m_hugepages := actual\<rparr> # ns', r))
        | (Inl e, x') \<Rightarrow>
            (case reserve_nodes Y base headroom cap ns (failed + 1) (tried + 1) x' of
               (ns', r) \<Rightarrow> (n # ns', r)))"

definition per_node_cap :: "numa_topology \<Rightarrow> u32 option \<Rightarrow> u32" where
  "per_node_cap topology global_limit_mb =
     (case global_limit_mb of None \<Rightarrow> sum_list (map total_ram_mb topology) | Some l \<Rightarrow> l) div of_nat (length topology)"

definition allocate_hugepages ::
  "'x sysfs \<Rightarrow> numa_topology \<Rightarrow> u32 \<Rightarrow> u32 option \<Rightarrow> path \<Rightarrow> 'x \<Rightarrow>
   (hugepage_error, unit) result \<times> numa_topology \<times> 'x" where
  "allocate_hugepages Y topology headroom global_limit base x =
     (if topology = [] then (Ok (), topology, x)
      else
        case reserve_nodes Y base headroom (per_node_cap topology global_limit) topology 0 0 x of
          (topology', failed, tried, x') \<Rightarrow>
            (if failed > 0 \<and> failed = tried then Err (AllNodesFailed failed) else Ok (), topology', x'))"

section \<open>The budget\<close>

lemma budget_nat:
  assumes "unat p1g * 1024 < 2 ^ 32"
  shows "unat (compute_2m_budget ram p1g headroom cap) =
    (min (unat cap) (unat ram - unat headroom) - 1024 * unat p1g) div 2"
proof -
  have "unat (p1g * 1024) = unat p1g * 1024" using assms by (simp add: unat_word_ariths)
  moreover have "unat (min a b) = min (unat a) (unat b)" for a b :: u32
    by (simp add: min_def word_le_nat_alt)
  ultimately show ?thesis
    by (simp add: compute_2m_budget_def Let_def unat_div unat_saturating_sub mult.commute)
qed

text \<open>A kernel that never reserves more pages than it was asked for.\<close>

definition grants_at_most :: "'x sysfs \<Rightarrow> path \<Rightarrow> bool" where
  "grants_at_most Y base \<longleftrightarrow> (\<forall>i count x x' s n. sys_write Y (node_hp_path base i) (show_word count) x = (Ok (), x') \<longrightarrow>
     sys_read Y (node_hp_path base i) x' = Ok s \<longrightarrow> parse_u32 (trim s) = Some n \<longrightarrow> n \<le> (count :: u32))"

lemma allocate_2m_granted:
  assumes "grants_at_most Y base" "allocate_2m_pages_on_node Y base i count x = (Ok n, x')"
  shows "n \<le> count"
  using assms
  by (auto simp: allocate_2m_pages_on_node_def Let_def grants_at_most_def and_then_Ok split: prod.splits sum.splits)

text \<open>
  What may become of a node: it has no budget, the kernel refuses, or pages are reserved. The
  memory in hugepages of a node is in MiB.
\<close>

datatype node_outcome = Skipped | NodeFailed | Reserved

definition hugepage_mb :: "numa_node \<Rightarrow> nat" where
  "hugepage_mb n = 2 * unat (total_2m_hugepages n) + 1024 * unat (total_1g_hugepages n)"

fun outcome_ok :: "'x sysfs \<Rightarrow> path \<Rightarrow> nat \<Rightarrow> nat \<Rightarrow> node_outcome \<Rightarrow> numa_node \<Rightarrow> numa_node \<Rightarrow> bool" where
  "outcome_ok Y base headroom share Skipped n n' \<longleftrightarrow>
     n' = n \<and> min share (unat (total_ram_mb n) - headroom) < 1024 * unat (total_1g_hugepages n) + 2"
| "outcome_ok Y base headroom share NodeFailed n n' \<longleftrightarrow>
     n' = n \<and> (\<exists>count x e x'. allocate_2m_pages_on_node Y base (node_id n) count x = (Err e, x'))"
| "outcome_ok Y base headroom share Reserved n n' \<longleftrightarrow>
     n' = n\<lparr>total_2m_hugepages := total_2m_hugepages n'\<rparr> \<and> hugepage_mb n' + headroom \<le> unat (total_ram_mb n) \<and>
     hugepage_mb n' \<le> share"

text \<open>One turn of the loop: no budget, pages granted, or a failure.\<close>

lemma reserve_Cons_cases:
  assumes "reserve_nodes Y base headroom cap (n # ns) failed tried x = (ns', r)"
  obtains (NoBudget) ns1 where "ns' = n # ns1" "reserve_nodes Y base headroom cap ns failed tried x = (ns1, r)"
      "compute_2m_budget (total_ram_mb n) (total_1g_hugepages n) headroom cap = 0"
  | (Granted) c x1 ns1 where "ns' = n\<lparr>total_2m_hugepages := c\<rparr> # ns1"
      "allocate_2m_pages_on_node Y base (node_id n)
         (compute_2m_budget (total_ram_mb n) (total_1g_hugepages n) headroom cap) x = (Ok c, x1)"
      "reserve_nodes Y base headroom cap ns failed (tried + 1) x1 = (ns1, r)"
      "compute_2m_budget (total_ram_mb n) (total_1g_hugepages n) headroom cap \<noteq> 0"
  | (Failed) e x1 ns1 where "ns' = n # ns1"
      "reserve_nodes Y base headroom cap ns (failed + 1) (tried + 1) x1 = (ns1, r)"
      "allocate_2m_pages_on_node Y base (node_id n)
         (compute_2m_budget (total_ram_mb n) (total_1g_hugepages n) headroom cap) x = (Err e, x1)"
proof (cases "compute_2m_budget (total_ram_mb n) (total_1g_hugepages n) headroom cap = 0")
  case True
  with assms NoBudget show ?thesis by (auto simp: Let_def split: prod.splits)
next
  case False
  obtain q x1 where a: "allocate_2m_pages_on_node Y base (node_id n)
      (compute_2m_budget (total_ram_mb n) (total_1g_hugepages n) headroom cap) x = (q, x1)" by fastforce
  show ?thesis
  proof (cases q)
    case (Inl e)
    with assms False a Failed show ?thesis by (auto simp: Let_def split: prod.splits)
  next
    case (Inr c)
    with assms False a Granted show ?thesis by (auto simp: Let_def split: prod.splits)
  qed
qed

lemma reserve_nodes_outcomes:
  assumes "grants_at_most Y base" "reserve_nodes Y base headroom cap ns failed tried x = (ns', r)"
    and "\<forall>n \<in> set ns. unat (total_1g_hugepages n) * 1024 < 2 ^ 32"
  shows "\<exists>os. length os = length ns \<and> length ns' = length ns \<and>
    (\<forall>i < length ns. outcome_ok Y base (unat headroom) (unat cap) (os ! i) (ns ! i) (ns' ! i))"
  using assms(2,3)
proof (induction ns arbitrary: failed tried x ns' r)
  case (Cons n ns)
  let ?ok = "outcome_ok Y base (unat headroom) (unat cap)"
  have budget: "unat (compute_2m_budget (total_ram_mb n) (total_1g_hugepages n) headroom cap) =
      (min (unat cap) (unat (total_ram_mb n) - unat headroom) - 1024 * unat (total_1g_hugepages n)) div 2"
    using Cons.prems(2) by (intro budget_nat) simp
  have "\<exists>out n1 ns1 failed1 tried1 x1. ns' = n1 # ns1 \<and> ?ok out n n1 \<and>
      reserve_nodes Y base headroom cap ns failed1 tried1 x1 = (ns1, r)"
    using Cons.prems(1)
  proof (cases rule: reserve_Cons_cases)
    case (NoBudget ns1)
    have "?ok Skipped n n" using budget NoBudget(3) by simp
    with NoBudget show ?thesis by blast
  next
    case (Granted c x1 ns1)
    have "0 < unat (compute_2m_budget (total_ram_mb n) (total_1g_hugepages n) headroom cap)"
      using Granted(4) by (simp add: unat_gt_0)
    moreover have "unat c \<le> unat (compute_2m_budget (total_ram_mb n) (total_1g_hugepages n) headroom cap)"
      using allocate_2m_granted [OF assms(1) Granted(2)] by (simp add: word_le_nat_alt)
    ultimately have "?ok Reserved n (n\<lparr>total_2m_hugepages := c\<rparr>)"
      unfolding budget by (auto simp: hugepage_mb_def)
    with Granted show ?thesis by blast
  next
    case (Failed e x1 ns1)
    then have "?ok NodeFailed n n" by auto
    with Failed show ?thesis by blast
  qed
  then obtain out n1 ns1 failed1 tried1 x1 where 1: "ns' = n1 # ns1" "?ok out n n1"
    "reserve_nodes Y base headroom cap ns failed1 tried1 x1 = (ns1, r)" by blast
  obtain os where "length os = length ns" "length ns1 = length ns" "\<forall>i < length ns. ?ok (os ! i) (ns ! i) (ns1 ! i)"
    using Cons.IH [OF 1(3)] Cons.prems(2) by auto
  with 1(1,2) show ?case by (intro exI [of _ "out # os"]) (auto simp: less_Suc_eq_0_disj)
qed simp

text \<open>The counters: of the nodes with a budget, so many were tried and so many of them failed.\<close>

lemma reserve_nodes_counts:
  assumes "reserve_nodes Y base headroom cap ns failed tried x = (ns', failed', tried', x')"
  shows "\<exists>f t. f \<le> t \<and> t \<le> length ns \<and> failed' = failed + of_nat f \<and> tried' = tried + of_nat t \<and>
    (f = t \<longrightarrow> ns' = ns)"
  using assms
proof (induction ns arbitrary: failed tried x ns')
  case (Cons n ns)
  from Cons.prems show ?case
  proof (cases rule: reserve_Cons_cases)
    case (NoBudget ns1)
    with Cons.IH [OF NoBudget(2)] show ?thesis by (metis le_SucI length_Cons)
  next
    case (Granted c x1 ns1)
    from Cons.IH [OF Granted(3)] obtain f t where "f \<le> t" "t \<le> length ns" "failed' = failed + of_nat f"
        "tried' = tried + 1 + of_nat t" by blast
    then show ?thesis by (intro exI [of _ f] exI [of _ "Suc t"]) auto
  next
    case (Failed e x1 ns1)
    from Cons.IH [OF Failed(2)] obtain f t where "f \<le> t" "t \<le> length ns" "failed' = failed + 1 + of_nat f"
        "tried' = tried + 1 + of_nat t" "f = t \<longrightarrow> ns1 = ns" by blast
    with Failed(1) show ?thesis by (intro exI [of _ "Suc f"] exI [of _ "Suc t"]) auto
  qed
qed auto


section \<open>Names and files of the nodes\<close>

lemma trim_newline: "\<forall>c \<in> set s. \<not> is_whitespace c \<Longrightarrow> trim (s @ [CHR 0x0A]) = s"
proof (cases "s = []")
  case False
  assume a: "\<forall>c \<in> set s. \<not> is_whitespace c"
  have "dropWhile is_whitespace (s @ [CHR 0x0A]) = s @ [CHR 0x0A]" using a False by (cases s) auto
  moreover have "dropWhile is_whitespace (rev (s @ [CHR 0x0A])) = rev s"
    using a False by (cases s rule: rev_cases) (auto simp: is_whitespace_def)
  ultimately show ?thesis by (simp add: trim_def trim_start_def trim_end_def)
qed (simp add: trim_def trim_start_def trim_end_def is_whitespace_def)

lemma show_word_newline: "trim (show_word w @ [CHR 0x0A]) = show_word w"
  using show_nat_digits digit_not_whitespace by (intro trim_newline) blast

lemma set_join_with: "set (join_with sep ss) \<subseteq> set sep \<union> (\<Union>s \<in> set ss. set s)"
  by (induction sep ss rule: join_with.induct) auto

lemma cpuset_newline:
  assumes "cpus \<noteq> []"
  shows "trim (format_cpuset cpus @ [CHR 0x0A]) = format_cpuset cpus"
proof -
  obtain c cs where cs: "cpus = c # cs" using assms by (cases cpus) auto
  have "\<not> is_whitespace d" if "d \<in> set (format_cpuset cpus)" for d
    using that set_join_with [of "'',''" "map show_range (cpu_ranges c c cs)"]
    unfolding cs format_cpuset_join by (auto dest!: range_char subsetD simp: is_ascii_digit_def is_whitespace_def)
  then show ?thesis by (intro trim_newline) blast
qed

definition node_dir :: "u32 \<Rightarrow> string" where
  "node_dir i = ''node'' @ show_word i"

lemma node_name_id_dir [simp]: "node_name_id (node_dir i) = Some i"
  unfolding node_name_id_def node_dir_def strip_prefix_append by simp

lemma node_dir_inj [simp]: "node_dir i = node_dir j \<longleftrightarrow> i = j"
  by (metis node_name_id_dir option.inject)

text \<open>The files of a node as the kernel writes them.\<close>

definition shows_node :: "'x sysfs \<Rightarrow> path \<Rightarrow> 'x \<Rightarrow> numa_node \<Rightarrow> bool" where
  "shows_node Y base x n \<longleftrightarrow>
     (let d = path_join base (node_dir (node_id n)) in
      sys_read Y (path_join d ''cpulist'') x = Ok (format_cpuset (node_cpus n) @ [CHR 0x0A]) \<and>
      sys_read Y (path_join d hp_2m_file) x = Ok (show_word (total_2m_hugepages n) @ [CHR 0x0A]) \<and>
      (sys_read Y (path_join d hp_1g_file) x = Ok (show_word (total_1g_hugepages n) @ [CHR 0x0A]) \<or>
       total_1g_hugepages n = 0 \<and> (\<exists>e. sys_read Y (path_join d hp_1g_file) x = Err e)) \<and>
      (\<exists>m kb. sys_read Y (path_join d ''meminfo'') x = Ok m \<and> parse_memtotal_kb m = Ok kb \<and>
         total_ram_mb n = ucast (kb div 1024)))"

lemma zero_text: "parse_u32 (trim ''0'') = Some 0"
proof -
  have "''0'' = show_nat 0" by code_simp
  then have "''0'' = show_word (0 :: u32)" by simp
  moreover have "trim (show_word (0 :: u32)) = show_word (0 :: u32)"
    using show_nat_digits digit_not_whitespace by (intro trim_id) blast
  ultimately show ?thesis by (metis parse_u32_show_word)
qed

lemma read_node_shown:
  assumes "shows_node Y base x n" "node_cpus n \<noteq> []" "sorted_wrt (<) (node_cpus n)"
  shows "read_node Y base (node_dir (node_id n)) x = Ok n"
proof -
  obtain c cs where cs: "node_cpus n = c # cs" using assms(2) by (cases "node_cpus n") auto
  have "parse_cpulist (trim (format_cpuset (node_cpus n) @ [CHR 0x0A])) = Ok (node_cpus n)"
    using parse_format_cpuset [of c cs] assms(2,3) unfolding cs by (simp add: cpuset_newline)
  with assms(1) show ?thesis
    by (auto simp: read_node_def shows_node_def Let_def show_word_newline zero_text)
qed

lemma read_nodes_shown:
  "\<forall>n \<in> set ts. shows_node Y base x n \<and> node_cpus n \<noteq> [] \<and> sorted_wrt (<) (node_cpus n) \<Longrightarrow>
     read_nodes Y base (map (\<lambda>n. node_dir (node_id n)) ts) x = Ok ts"
  by (induction ts) (simp_all add: read_node_shown)

lemma sort_entries:
  assumes "distinct ns" "set ns = set (map node_dir ids)" "sorted_wrt (<) ids"
  shows "sort_key entry_key ns = map node_dir ids"
proof -
  have k: "entry_key (node_dir i) = i" for i by (simp add: entry_key_def)
  have d: "distinct ids" using assms(3) by (simp add: strict_sorted_iff)
  have inj: "inj_on entry_key (set (sort_key entry_key ns) \<union> set (map node_dir ids))"
    using assms(2) by (auto simp: inj_on_def k)
  have e: "map entry_key (map node_dir ids) = ids" by (simp add: k comp_def)
  have "distinct (map entry_key (sort_key entry_key ns))"
    using assms(1) inj_on_subset [OF inj] by (simp add: distinct_map)
  moreover have "set (map entry_key (sort_key entry_key ns)) = set ids"
    using assms(2) by (simp add: image_image k)
  moreover have "sorted ids" using assms(3) by (simp add: strict_sorted_iff)
  ultimately have "map entry_key (sort_key entry_key ns) = ids"
    using d by (intro sorted_distinct_set_unique) simp_all
  then have "map entry_key (sort_key entry_key ns) = map entry_key (map node_dir ids)" by (simp only: e)
  with inj show ?thesis by (simp only: inj_on_map_eq_map)
qed

section \<open>Properties\<close>

text \<open>
  C37: the topology of a host is read exactly: whatever the order of the directory and whatever
  else it holds, if every node of the topology has its directory with the files the kernel
  writes, the result is the nodes in ascending order of their number, with their CPUs, pages
  and memory. A missing pool of 1 GiB pages counts as empty.
\<close>

theorem topology_read_exactly:
  assumes "sys_list Y base x = Ok names" "distinct (List.map_filter (\<lambda>n. n) names)"
    and "{n \<in> set (List.map_filter (\<lambda>n. n) names). starts_with n ''node''} = node_dir ` node_id ` set ts"
    and "sorted_wrt (<) (map node_id ts)"
    and "\<forall>n \<in> set ts. shows_node Y base x n \<and> node_cpus n \<noteq> [] \<and> sorted_wrt (<) (node_cpus n)"
  shows "from_sysfs Y base x = Ok ts"
proof -
  have "node_entries names = map node_dir (map node_id ts)"
    unfolding node_entries_def by (rule sort_entries) (use assms(2-4) in auto)
  then have "node_entries names = map (\<lambda>n. node_dir (node_id n)) ts" by (simp add: comp_def)
  with assms(1) read_nodes_shown [OF assms(5)] show ?thesis by (simp add: from_sysfs_def)
qed


text \<open>The sysfs of a host with two nodes, as files that read back what is written.\<close>

definition file_sysfs :: "(path, string) hmap sysfs" where
  "file_sysfs = \<lparr>sys_list = (\<lambda>p m. Ok [Some ''node1'', Some ''possible'', None, Some ''node0'']),
     sys_read = (\<lambda>p m. ok_or (hm_get m p) NotFound), sys_write = (\<lambda>p s m. (Ok (), hm_insert p s m))\<rparr>"

definition demo_files :: "(path, string) hmap" where
  "demo_files =
     [(''/n/node0/cpulist'', ''0-1'' @ [CHR 0x0A]), (''/n/node1/cpulist'', ''2'' @ [CHR 0x0A]),
      (''/n/node0/hugepages/hugepages-2048kB/nr_hugepages'', ''9'' @ [CHR 0x0A]),
      (''/n/node1/hugepages/hugepages-2048kB/nr_hugepages'', ''0'' @ [CHR 0x0A]),
      (''/n/node0/hugepages/hugepages-1048576kB/nr_hugepages'', ''2'' @ [CHR 0x0A]),
      (''/n/node0/meminfo'', ''Node 0 MemTotal:  9000 kB''), (''/n/node1/meminfo'', ''Node 1 MemTotal:  5000 kB'')]"

definition demo_topology :: numa_topology where
  "demo_topology =
     [\<lparr>node_id = 0, node_cpus = [0, 1], total_2m_hugepages = 9, total_1g_hugepages = 2, total_ram_mb = 8\<rparr>,
      \<lparr>node_id = 1, node_cpus = [2], total_2m_hugepages = 0, total_1g_hugepages = 0, total_ram_mb = 4\<rparr>]"

lemma parse_memtotal_line:
  assumes "split_whitespace m = [a, b, c, v, d]" "contains_str m ''MemTotal:''" "str_lines m = [m]" "parse_u64 v = Some kb"
  shows "parse_memtotal_kb m = Ok kb"
  using assms by (simp add: parse_memtotal_kb_def)

lemma demo_shows: "\<forall>n \<in> set demo_topology. shows_node file_sysfs ''/n'' demo_files n"
proof -
  have m: "parse_memtotal_kb ''Node 0 MemTotal:  9000 kB'' = Ok 9000" "parse_memtotal_kb ''Node 1 MemTotal:  5000 kB'' = Ok 5000"
    using parse_memtotal_line [of "''Node 0 MemTotal:  9000 kB''" "''Node''" "''0''" "''MemTotal:''" "''9000''" "''kB''" 9000]
      parse_memtotal_line [of "''Node 1 MemTotal:  5000 kB''" "''Node''" "''1''" "''MemTotal:''" "''5000''" "''kB''" 5000]
    by (simp_all add: split_whitespace_def is_whitespace_def starts_with_def str_lines_def strip_cr_def parse_u64_def
        parse_uint_def is_ascii_digit_def)
  have d: "show_nat 0 = ''0''" "show_nat 1 = ''1''" "show_nat 2 = ''2''" "show_nat 9 = ''9''"
      "show_nat (Suc 0) = ''1''" by code_simp+
  have f: "format_cpuset [0, 1] = ''0-1''" "format_cpuset [2] = ''2''" by code_simp+
  show ?thesis
    using m by (auto simp: demo_topology_def shows_node_def Let_def node_dir_def d f path_join_def starts_with_def
        hp_2m_file_def hp_1g_file_def file_sysfs_def demo_files_def hm_get_def)
qed

theorem topology_read_exactly_witness: "from_sysfs file_sysfs ''/n'' demo_files = Ok demo_topology"
proof (rule topology_read_exactly)
  show "sys_list file_sysfs ''/n'' demo_files = Ok [Some ''node1'', Some ''possible'', None, Some ''node0'']"
    by (simp add: file_sysfs_def)
  have d: "show_nat 0 = ''0''" "show_nat (Suc 0) = ''1''" by code_simp+
  show "{n \<in> set (List.map_filter (\<lambda>n. n) [Some ''node1'', Some ''possible'', None, Some ''node0'']). starts_with n ''node''} =
      node_dir ` node_id ` set demo_topology"
    by (auto simp: List.map_filter_def demo_topology_def node_dir_def d starts_with_def)
  show "\<forall>n \<in> set demo_topology. shows_node file_sysfs ''/n'' demo_files n \<and> node_cpus n \<noteq> [] \<and> sorted_wrt (<) (node_cpus n)"
    using demo_shows by (simp add: demo_topology_def)
qed (simp_all add: List.map_filter_def demo_topology_def)

lemma empty_cpulist: "parse_cpulist [] = Err InvalidCpuId"
  by (simp add: parse_cpulist_def trim_def trim_start_def trim_end_def parse_u32_def parse_uint_def)

lemma read_nodes_Err: "name \<in> set names \<Longrightarrow> read_node Y base name x = Err e \<Longrightarrow> \<exists>e'. read_nodes Y base names x = Err e'"
  by (induction names) (auto simp: and_then_def split: sum.splits)

text \<open>
  A node without CPUs, as memory-only nodes are, makes the whole detection fail: its empty
  CPU list does not parse.
\<close>

theorem memory_only_node_fails:
  assumes "sys_list Y base x = Ok names" "Some (node_dir i) \<in> set names"
    and "sys_read Y (path_join (path_join base (node_dir i)) ''cpulist'') x = Ok [CHR 0x0A]"
  shows "\<exists>e. from_sysfs Y base x = Err e"
proof -
  have m: "node_dir i \<in> set (node_entries names)"
    using assms(2) by (auto simp: node_entries_def in_map_filter node_dir_def starts_with_def)
  have "trim [CHR 0x0A] = []" by code_simp
  then have f: "read_node Y base (node_dir i) x = Err (BadCpulist InvalidCpuId)"
    using assms(3) by (simp add: read_node_def Let_def empty_cpulist)
  obtain e where "read_nodes Y base (node_entries names) x = Err e"
    using read_nodes_Err [OF m f] by blast
  with assms(1) show ?thesis by (simp add: from_sysfs_def)
qed

theorem memory_only_node_fails_witness:
  "\<exists>e. from_sysfs file_sysfs ''/n'' (hm_insert ''/n/node1/cpulist'' [CHR 0x0A] demo_files) = Err e"
proof (rule memory_only_node_fails [of _ _ _ _ 1])
  have d: "node_dir 1 = ''node1''" by code_simp
  show "sys_list file_sysfs ''/n'' (hm_insert ''/n/node1/cpulist'' [CHR 0x0A] demo_files) =
      Ok [Some ''node1'', Some ''possible'', None, Some ''node0'']" by (simp add: file_sysfs_def)
  show "Some (node_dir 1) \<in> set [Some ''node1'', Some ''possible'', None, Some ''node0'']" by (simp add: d)
  show "sys_read file_sysfs (path_join (path_join ''/n'' (node_dir 1)) ''cpulist'')
      (hm_insert ''/n/node1/cpulist'' [CHR 0x0A] demo_files) = Ok [CHR 0x0A]"
    by (simp add: d file_sysfs_def path_join_def starts_with_def)
qed


text \<open>
  The page budget of a node, computed with saturating and wrapping machine arithmetic,
  is the one of the plain formula: half of what is left, in MiB, of the smaller of the cap
  and the memory less the headroom, after the 1 GiB pages. The only condition is that the size
  of the latter fits the machine word.
\<close>

theorem compute_2m_budget_exact:
  assumes "unat p1g * 1024 < 2 ^ 32"
  shows "unat (compute_2m_budget ram p1g headroom cap) =
    (min (unat cap) (unat ram - unat headroom) - 1024 * unat p1g) div 2"
  using assms by (rule budget_nat)

theorem compute_2m_budget_exact_witness: "unat (compute_2m_budget 64000 4 4096 60000) = 27904"
  using compute_2m_budget_exact [of 4 64000 4096 60000] by simp

text \<open>The memory limit in force: the given one, or all the memory there is.\<close>

definition memory_limit :: "numa_topology \<Rightarrow> u32 option \<Rightarrow> nat" where
  "memory_limit topo limit =
     (case limit of None \<Rightarrow> sum_list (map (\<lambda>n. unat (total_ram_mb n)) topo) | Some l \<Rightarrow> unat l)"

lemma unat_sum_list: "sum_list (map unat ws) < 2 ^ 32 \<Longrightarrow> unat (sum_list ws :: u32) = sum_list (map unat ws)"
  by (induction ws) (simp_all add: unat_add_no_overflow)

lemma per_node_cap_share:
  assumes "memory_limit topo limit < 2 ^ 32" "length topo < 2 ^ 32"
  shows "unat (per_node_cap topo limit) = memory_limit topo limit div length topo"
  using assms unat_sum_list [of "map total_ram_mb topo"]
  by (auto simp: per_node_cap_def memory_limit_def unat_div unat_of_nat comp_def split: option.splits)

text \<open>
  C38: the reservation of hugepages stays within the memory limit. With a kernel that grants at
  most what is asked for, the hugepages of all nodes on which pages were reserved, of both sizes,
  take no more memory together than the limit, and on each of them they leave the headroom free.
  A node keeps the pages it had only when its share of the limit has no room beside its 1 GiB
  pages, or when the kernel refused. Nothing else of the topology changes, and when every node
  failed it is as before.
\<close>

theorem hugepages_within_budget:
  assumes "grants_at_most Y base" "allocate_hugepages Y topo headroom limit base x = (r, topo', x')"
    and "length topo < 2 ^ 32" "\<forall>n \<in> set topo. unat (total_1g_hugepages n) * 1024 < 2 ^ 32" "memory_limit topo limit < 2 ^ 32"
  shows "\<exists>os. length os = length topo \<and> length topo' = length topo \<and>
    (\<forall>i < length topo. outcome_ok Y base (unat headroom) (memory_limit topo limit div length topo) (os ! i) (topo ! i) (topo' ! i)) \<and>
    (\<Sum>i | i < length topo \<and> os ! i = Reserved. hugepage_mb (topo' ! i)) \<le> memory_limit topo limit \<and>
    (\<forall>e. r = Err e \<longrightarrow> topo' = topo)"
proof (cases "topo = []")
  case True
  with assms(2) show ?thesis by (auto simp: allocate_hugepages_def)
next
  case False
  let ?share = "memory_limit topo limit div length topo"
  obtain failed tried where r: "reserve_nodes Y base headroom (per_node_cap topo limit) topo 0 0 x = (topo', failed, tried, x')"
      "r = (if failed > 0 \<and> failed = tried then Err (AllNodesFailed failed) else Ok ())"
    using assms(2) False by (auto simp: allocate_hugepages_def split: prod.splits)
  obtain f t where ft: "f \<le> t" "t \<le> length topo" "failed = of_nat f" "tried = of_nat t" "f = t \<longrightarrow> topo' = topo"
    using reserve_nodes_counts [OF r(1)] by auto
  have "topo' = topo" if "r = Err e" for e
  proof -
    have "failed = tried" using that r(2) by (auto split: if_splits)
    then have "unat (of_nat f :: u32) = unat (of_nat t :: u32)" using ft by simp
    moreover have "f < 2 ^ 32" "t < 2 ^ 32" using ft(1,2) assms(3) by simp_all
    ultimately show ?thesis using ft(5) by (simp add: unat_of_nat)
  qed
  moreover obtain os where os: "length os = length topo" "length topo' = length topo"
    "\<forall>i < length topo. outcome_ok Y base (unat headroom) ?share (os ! i) (topo ! i) (topo' ! i)"
    using reserve_nodes_outcomes [OF assms(1) r(1) assms(4)] per_node_cap_share [OF assms(5,3)] by auto
  moreover have "(\<Sum>i | i < length topo \<and> os ! i = Reserved. hugepage_mb (topo' ! i)) \<le> memory_limit topo limit"
  proof -
    let ?R = "{i. i < length topo \<and> os ! i = Reserved}"
    have "(\<Sum>i \<in> ?R. hugepage_mb (topo' ! i)) \<le> of_nat (card ?R) * ?share"
      by (rule sum_bounded_above) (use os(3) in fastforce)
    also have "\<dots> \<le> length topo * ?share"
      using card_mono [of "{..<length topo}" ?R] by (intro mult_right_mono) auto
    also have "\<dots> \<le> memory_limit topo limit" by (simp add: times_div_less_eq_dividend)
    finally show ?thesis .
  qed
  ultimately show ?thesis by blast
qed

lemma file_sysfs_grants: "grants_at_most file_sysfs base"
proof -
  have "trim (show_word (w :: u32)) = show_word w" for w
    using show_nat_digits digit_not_whitespace by (intro trim_id) blast
  then show ?thesis by (auto simp: grants_at_most_def file_sysfs_def)
qed

theorem hugepages_within_budget_witness:
  "case allocate_hugepages file_sysfs [\<lparr>node_id = 0, node_cpus = [0], total_2m_hugepages = 0, total_1g_hugepages = 0,
       total_ram_mb = 40\<rparr>] 10 None ''/n'' [] of
     (r, topo', x') \<Rightarrow> map total_2m_hugepages topo' = [15] \<and> 2 * unat (total_2m_hugepages (hd topo')) + 10 \<le> (40 :: nat)"
proof -
  let ?n = "\<lparr>node_id = 0, node_cpus = [0], total_2m_hugepages = 0, total_1g_hugepages = 0, total_ram_mb = 40\<rparr>"
  let ?a = "allocate_hugepages file_sysfs [?n] 10 None ''/n'' []"
  obtain r topo' x' where a: "?a = (r, topo', x')" by (cases ?a)
  have "compute_2m_budget 40 0 10 40 = 15" by code_simp
  then have t: "topo' = [?n\<lparr>total_2m_hugepages := 15\<rparr>]"
    using a show_nat_digits [of _ 15] trim_id [of "show_nat 15"] digit_not_whitespace parse_u32_show_word [of 15]
    by (auto simp: allocate_hugepages_def allocate_2m_pages_on_node_def file_sysfs_def Let_def per_node_cap_def
        split: if_splits)
  have m: "memory_limit [?n] None = 40" by (simp add: memory_limit_def)
  obtain os where os: "length os = 1" "outcome_ok file_sysfs ''/n'' 10 40 (os ! 0) ?n (?n\<lparr>total_2m_hugepages := 15\<rparr>)"
    using hugepages_within_budget [OF file_sysfs_grants a] by (auto simp: m t)
  then have "hugepage_mb (?n\<lparr>total_2m_hugepages := 15\<rparr>) + 10 \<le> 40" by (cases "os ! 0") auto
  with a t show ?thesis by (simp add: hugepage_mb_def)
qed

end
