(* ===== verification/Compute_Node.thy ===== *)
theory Compute_Node
  imports Restart Topology
begin

text \<open>
  The compute node as a process (\<^verbatim>\<open>crates/aleph-compute-node/src/main.rs\<close> and
  \<^verbatim>\<open>ComputeNodeServer::serve\<close> of \<^verbatim>\<open>grpc/service.rs\<close>): the command line, the start-up sequence from
  the bridge to the recovery of the VMs, the socket of the service, the calls it serves until a
  signal arrives, and the shutdown. The files of \<^verbatim>\<open>/proc\<close> and \<^verbatim>\<open>/sys\<close> are the kernel's (\<open>sysfs\<close>).
  The calls that arrive before the signal are an argument: they are served one after another.
  The reflection service of tonic is taken to build, and its transport not to fail.
\<close>

section \<open>The command line\<close>

record node_cli =
  cli_grpc_socket :: path
  cli_bridge :: string
  cli_gateway_ip :: ipv4
  cli_run_dir :: path
  cli_state_dir :: path
  cli_amd_product :: string
  cli_dhcp_hostsdir :: "path option"
  cli_ovmf_path :: "string option"
  cli_external_interface :: "string option"
  cli_ipv6_pool :: "ipv6net option"
  cli_use_ndp_proxy :: "bool option"
  cli_memory_limit :: "u32 option"
  cli_hugepage_headroom :: u32

definition node_cli_defaults :: node_cli where
  "node_cli_defaults =
     \<lparr>cli_grpc_socket = ''/run/aleph-cvm/compute.sock'', cli_bridge = ''br-aleph'', cli_gateway_ip = (10, 0, 100, 1),
      cli_run_dir = ''/run/aleph-cvm'', cli_state_dir = ''/var/lib/aleph-cvm/vms'', cli_amd_product = ''Genoa'',
      cli_dhcp_hostsdir = None, cli_ovmf_path = None, cli_external_interface = None, cli_ipv6_pool = None,
      cli_use_ndp_proxy = None, cli_memory_limit = None, cli_hugepage_headroom = 4096\<rparr>"

datatype size_error = BadSize string | SizeOverflow u32

definition or_else :: "'a option \<Rightarrow> 'a option \<Rightarrow> 'a option" where
  "or_else x y = (case x of None \<Rightarrow> y | Some a \<Rightarrow> Some a)"

text \<open>Only ASCII letters have an upper case here; no other letter has \<^verbatim>\<open>G\<close>, \<^verbatim>\<open>M\<close> or \<^verbatim>\<open>B\<close> as its upper case.\<close>

definition parse_size_mb :: "string \<Rightarrow> (size_error, u32) result" where
  "parse_size_mb s0 =
     (let s = to_uppercase (trim s0) in
      case or_else (strip_suffix s ''G'') (strip_suffix s ''GB'') of
        Some gb \<Rightarrow>
          and_then (ok_or (parse_u32 (trim gb)) (BadSize gb)) (\<lambda>g. ok_or (checked_mul g 1024) (SizeOverflow g))
      | None \<Rightarrow>
          (case or_else (strip_suffix s ''M'') (strip_suffix s ''MB'') of
             Some mb \<Rightarrow> ok_or (parse_u32 (trim mb)) (BadSize mb)
           | None \<Rightarrow> ok_or (parse_u32 s) (BadSize s)))"

text \<open>The interface of the default route: the first line with the destination \<^verbatim>\<open>00000000\<close>.\<close>

fun default_route :: "string list \<Rightarrow> string option" where
  "default_route [] = None"
| "default_route (line # ls) =
     (case split_whitespace line of
        iface # dest # _ \<Rightarrow> if dest = ''00000000'' then Some iface else default_route ls
      | _ \<Rightarrow> default_route ls)"

definition detect_default_interface :: "'x sysfs \<Rightarrow> 'x \<Rightarrow> string option" where
  "detect_default_interface Y x =
     (case sys_read Y ''/proc/net/route'' x of
        Inl _ \<Rightarrow> None
      | Inr content \<Rightarrow> default_route (drop 1 (str_lines content)))"

section \<open>Start-up\<close>

datatype start_error =
    BridgeFailed host_error
  | TopologyFailed topology_error
  | NftablesFailed nft_error

definition node_backends :: "node_cli \<Rightarrow> (tee_type, tee_impl) hmap" where
  "node_backends cli =
     (let sev_backend = sev_snp_backend_new (cli_amd_product cli);
          sev_backend = (case cli_ovmf_path cli of None \<Rightarrow> sev_backend | Some p \<Rightarrow> with_ovmf_path sev_backend p)
      in hm_insert NoTee NoTeeImpl (hm_insert SevSnp (SevSnpImpl sev_backend) hm_empty))"

definition node_interface :: "'x sysfs \<Rightarrow> node_cli \<Rightarrow> 'x \<Rightarrow> string" where
  "node_interface Y cli x =
     (case cli_external_interface cli of
        Some i \<Rightarrow> i
      | None \<Rightarrow> unwrap_or (detect_default_interface Y x) ''eth0'')"

definition node_manager :: "'x sysfs \<Rightarrow> node_cli \<Rightarrow> 'x \<Rightarrow> numa_topology \<Rightarrow> mgr" where
  "node_manager Y cli x topology =
     mgr_new (cli_run_dir cli) (cli_state_dir cli) (cli_bridge cli) (cli_gateway_ip cli) (node_backends cli)
       (cli_dhcp_hostsdir cli) (node_interface Y cli x) (cli_ipv6_pool cli)
       (unwrap_or (cli_use_ndp_proxy cli) (cli_ipv6_pool cli \<noteq> None)) topology"

text \<open>
  The sequence of \<^verbatim>\<open>main\<close> up to the service: a failure to enable IPv6 forwarding, to reserve
  hugepages or to recover the VMs is logged and does not stop it.
\<close>

definition start_node ::
  "'x sysfs \<Rightarrow> 'x mgr_env \<Rightarrow> node_cli \<Rightarrow> 'x world \<Rightarrow> (start_error, mgr) result \<times> 'x world" where
  "start_node Y E cli w0 =
     (let sysfs_base = ''/sys/devices/system/node'' in
      bindE (map_prod (map_err BridgeFailed) id (ensure_bridge (e_host E) (cli_bridge cli) (cli_gateway_ip cli) 24 w0)) (\<lambda>_ w.
      let w1 = (if cli_ipv6_pool cli \<noteq> None
                then ignore (on_ext id (sys_write Y ''/proc/sys/net/ipv6/conf/all/forwarding'' ''1'') w) else w) in
      bindE (map_err TopologyFailed (detect_topology Y (w_ext w1)), w1) (\<lambda>topology w.
      case allocate_hugepages Y topology (cli_hugepage_headroom cli) (cli_memory_limit cli) sysfs_base (w_ext w) of
        (_, topology', x') \<Rightarrow>
          let manager = node_manager Y cli (w_ext w0) topology' in
          bindE (map_prod (map_err NftablesFailed) id (setup_nftables E manager (w\<lparr>w_ext := x'\<rparr>))) (\<lambda>_ w.
          case recover_vms E (manager, w) of (_, (manager', w')) \<Rightarrow> (Ok manager', w')))))"

section \<open>The service\<close>

text \<open>The calls of the protocol and their replies, dispatched to the handlers.\<close>

datatype rpc =
    RpcCreateVm create_vm_request
  | RpcGetVm string
  | RpcDeleteVm string
  | RpcListVms
  | RpcAddPortForward port_forward_msg
  | RpcRemovePortForward string u32 string
  | RpcListPortForwards string
  | RpcHealth

datatype rpc_reply =
    VmReply vm_info_msg
  | VmsReply "vm_info_msg list"
  | ForwardReply port_forward_msg
  | ForwardsReply "port_forward_msg list"
  | HealthReply string u32
  | EmptyReply

definition reply_with :: "('a \<Rightarrow> rpc_reply) \<Rightarrow> (status, 'a) result \<Rightarrow> (status, rpc_reply) result" where
  "reply_with f r = and_then r (\<lambda>a. Ok (f a))"

fun dispatch :: "'x mgr_env \<Rightarrow> rpc \<Rightarrow> 'x mstate \<Rightarrow> (status, rpc_reply) result \<times> 'x mstate" where
  "dispatch E (RpcCreateVm req) st = map_prod (reply_with VmReply) id (grpc_create_vm E req st)"
| "dispatch E (RpcGetVm vm_id) st = (reply_with VmReply (grpc_get_vm E vm_id st), st)"
| "dispatch E (RpcDeleteVm vm_id) st = map_prod (reply_with (\<lambda>_. EmptyReply)) id (grpc_delete_vm E vm_id st)"
| "dispatch E RpcListVms st = (Ok (VmsReply (grpc_list_vms E st)), st)"
| "dispatch E (RpcAddPortForward req) st = map_prod (reply_with ForwardReply) id (grpc_add_port_forward E req st)"
| "dispatch E (RpcRemovePortForward vm_id host_port protocol) st =
     map_prod (reply_with (\<lambda>_. EmptyReply)) id (grpc_remove_port_forward E host_port protocol st)"
| "dispatch E (RpcListPortForwards vm_id) st = (Ok (ForwardsReply (grpc_list_port_forwards vm_id st)), st)"
| "dispatch E RpcHealth st = (Ok (case grpc_health E st of (s, n) \<Rightarrow> HealthReply s n), st)"

definition serve_calls :: "'x mgr_env \<Rightarrow> rpc list \<Rightarrow> 'x mstate \<Rightarrow> 'x mstate" where
  "serve_calls E calls st = foldl (\<lambda>st c. snd (dispatch E c st)) st calls"

text \<open>Binding a Unix socket creates its file, and fails if there is one.\<close>

definition bind_socket :: "io_env \<Rightarrow> path \<Rightarrow> filesystem \<Rightarrow> (io_error, unit) result \<times> filesystem" where
  "bind_socket I p fs =
     (if path_exists p fs then (Err (IoError ''Address already in use''), fs) else fs_exec I (Create p) fs)"

definition open_socket :: "io_env \<Rightarrow> path \<Rightarrow> filesystem \<Rightarrow> (io_error, unit) result \<times> filesystem" where
  "open_socket I sock fs =
     bindE (if path_exists sock fs then remove_file I sock fs else (Ok (), fs)) (\<lambda>_ fs.
     bindE (case path_parent sock of Some parent \<Rightarrow> fs_exec I (Mkdir parent) fs | None \<Rightarrow> (Ok (), fs)) (\<lambda>_ fs.
     bindE (bind_socket I sock fs) (\<lambda>_ fs.
     fs_exec I (SetMode sock 384) fs)))"

definition serve :: "'x mgr_env \<Rightarrow> path \<Rightarrow> rpc list \<Rightarrow> 'x mstate \<Rightarrow> (io_error, unit) result \<times> 'x mstate" where
  "serve E sock calls st =
     (let I = h_io (e_host E) in
      case on_fs id (open_socket I sock) (snd st) of
        (Inl e, w) \<Rightarrow> (Err e, (fst st, w))
      | (Inr _, w) \<Rightarrow>
          (case serve_calls E calls (fst st, w) of
             (m', w') \<Rightarrow> (Ok (), (m', ignore (on_fs id (remove_file I sock) w')))))"

datatype node_error = StartFailed start_error | ServeFailed io_error

definition node_main ::
  "'x sysfs \<Rightarrow> 'x mgr_env \<Rightarrow> node_cli \<Rightarrow> rpc list \<Rightarrow> 'x world \<Rightarrow> (node_error, mgr) result \<times> 'x world" where
  "node_main Y E cli calls w =
     (case start_node Y E cli w of
        (Inl e, w') \<Rightarrow> (Err (StartFailed e), w')
      | (Inr m, w') \<Rightarrow>
          (case serve E (cli_grpc_socket cli) calls (m, w') of
             (r, (m', w'')) \<Rightarrow> (and_then (map_err ServeFailed r) (\<lambda>_. Ok m'), w'')))"

section \<open>Sizes\<close>

lemma to_uppercase_append [simp]: "to_uppercase (s @ t) = to_uppercase s @ to_uppercase t"
  by (simp add: to_uppercase_def)

lemma to_uppercase_digits: "to_uppercase (show_nat n) = show_nat n"
proof -
  have "upper_char c = c" if "c \<in> set (show_nat n)" for c
    using show_nat_digits [OF that] by (auto simp: upper_char_def is_ascii_lowercase_def is_ascii_digit_def)
  then show ?thesis by (simp add: to_uppercase_def map_idI)
qed

lemma strip_suffix_last:
  assumes "s \<noteq> []" "p \<noteq> []" "last s \<noteq> last p"
  shows "strip_suffix s p = None"
proof (rule ccontr)
  assume "strip_suffix s p \<noteq> None"
  then have "drop (length s - length p) s = p" by (auto simp: strip_suffix_def split: if_splits)
  with assms show False by (metis last_drop drop_eq_Nil linorder_not_le)
qed

lemma show_nat_last: "last (show_nat n) \<noteq> CHR ''G''" "last (show_nat n) \<noteq> CHR ''B''" "last (show_nat n) \<noteq> CHR ''M''"
  using show_nat_digits [of "last (show_nat n)" n] by (auto simp: is_ascii_digit_def)

definition gigabytes :: "u32 \<Rightarrow> (size_error, u32) result" where
  "gigabytes n = (if unat n * 1024 < 2 ^ 32 then Ok (n * 1024) else Err (SizeOverflow n))"

lemma parse_size_suffix:
  assumes "\<forall>c \<in> set u. \<not> is_whitespace c"
  shows "parse_size_mb (show_word n @ u) =
    (let s = show_word n @ to_uppercase u in
      case or_else (strip_suffix s ''G'') (strip_suffix s ''GB'') of
        Some gb \<Rightarrow>
          and_then (ok_or (parse_u32 (trim gb)) (BadSize gb)) (\<lambda>g. ok_or (checked_mul g 1024) (SizeOverflow g))
      | None \<Rightarrow>
          (case or_else (strip_suffix s ''M'') (strip_suffix s ''MB'') of
             Some mb \<Rightarrow> ok_or (parse_u32 (trim mb)) (BadSize mb)
           | None \<Rightarrow> ok_or (parse_u32 s) (BadSize s)))"
proof -
  have "trim (show_word n @ u) = show_word n @ u"
    using assms show_nat_digits digit_not_whitespace by (intro trim_id) auto
  then show ?thesis by (simp add: parse_size_mb_def to_uppercase_digits Let_def)
qed

lemma parse_u32_trimmed: "parse_u32 (trim (show_word (n :: u32))) = Some n"
proof -
  have "trim (show_word n) = show_word n" using show_nat_digits digit_not_whitespace by (intro trim_id) blast
  then show ?thesis by simp
qed

lemma strip_suffix_snoc: "strip_suffix (s @ [a]) [b] = (if a = b then Some s else None)"
  by (auto simp: strip_suffix_def)

lemma strip_suffix_two: "strip_suffix (s @ [a, b]) [c, d] = (if a = c \<and> b = d then Some s else None)"
  by (auto simp: strip_suffix_def)

lemma strip_two_one: "strip_suffix (s @ [a, b]) [c] = (if b = c then Some (s @ [a]) else None)"
  using strip_suffix_snoc [of "s @ [a]" b c] by simp

lemma strip_one_two: "a \<noteq> d \<Longrightarrow> strip_suffix (s @ [a]) [c, d] = None"
  by (rule strip_suffix_last) simp_all

lemma unit_upper:
  "to_uppercase ''G'' = ''G''" "to_uppercase ''GB'' = ''GB''" "to_uppercase ''g'' = ''G''" "to_uppercase ''gb'' = ''GB''"
  "to_uppercase ''M'' = ''M''" "to_uppercase ''MB'' = ''MB''" "to_uppercase ''m'' = ''M''" "to_uppercase ''mb'' = ''MB''"
  by code_simp+

lemmas size_simps = or_else_def strip_suffix_snoc strip_suffix_two strip_two_one strip_one_two parse_u32_trimmed
  checked_mul_def gigabytes_def Let_def unit_upper

section \<open>The socket\<close>

lemma reliable_exec: "reliable_io I \<Longrightarrow> fs_exec I st fs = fs_apply st fs"
  by (simp add: reliable_io_def fs_exec_def)

lemma remove_file_content:
  "reliable_io I \<Longrightarrow> fs_content (snd (remove_file I p fs)) = (fs_content fs)(p := None)"
  by (auto simp: remove_file_def reliable_exec fs_content_def fun_eq_iff split: option.splits)

lemma open_socket_effect:
  assumes "reliable_io I" "sock \<notin> set (fs_dirs fs)" "path_parent sock \<noteq> Some sock"
  obtains fs' where "open_socket I sock fs = (Ok (), fs')" "fs_content fs' = (fs_content fs)(sock \<mapsto> [])"
proof -
  define fs1 where "fs1 = (if path_exists sock fs then snd (remove_file I sock fs) else fs)"
  have r: "(if path_exists sock fs then remove_file I sock fs else (Ok (), fs)) = (Ok (), fs1)"
    using assms(1,2) by (auto simp: fs1_def path_exists_def remove_file_def reliable_exec fs_content_def split: option.splits)
  have c1: "fs_content fs1 = (fs_content fs)(sock := None)" "fs_dirs fs1 = fs_dirs fs"
  proof -
    show "fs_content fs1 = (fs_content fs)(sock := None)"
      using assms(1) by (auto simp: fs1_def remove_file_content path_exists_def fun_eq_iff)
    show "fs_dirs fs1 = fs_dirs fs" using assms(1) by (auto simp: fs1_def remove_file_def reliable_exec split: option.splits)
  qed
  define fs2 where "fs2 = snd (case path_parent sock of Some parent \<Rightarrow> fs_exec I (Mkdir parent) fs1 | None \<Rightarrow> (Ok (), fs1))"
  have m: "(case path_parent sock of Some parent \<Rightarrow> fs_exec I (Mkdir parent) fs1 | None \<Rightarrow> (Ok (), fs1)) = (Ok (), fs2)"
    using assms(1) by (simp add: fs2_def reliable_exec split: option.splits)
  have c2: "fs_content fs2 = fs_content fs1" "sock \<notin> set (fs_dirs fs2)"
  proof -
    show "fs_content fs2 = fs_content fs1"
      using assms(1) by (auto simp: fs2_def reliable_exec fs_content_def fun_eq_iff split: option.splits)
    show "sock \<notin> set (fs_dirs fs2)"
      using assms c1(2) by (auto simp: fs2_def reliable_exec split: option.splits if_splits)
  qed
  have "bind_socket I sock fs2 = (Ok (), fs_put sock [] fs2)"
    using c1(1) c2 assms(1) by (simp add: bind_socket_def path_exists_def reliable_exec)
  then have "open_socket I sock fs = (Ok (), fs_put sock [] fs2)"
    using assms(1) by (simp add: open_socket_def r m reliable_exec del: fun_upd_apply)
  moreover have "fs_content (fs_put sock [] fs2) = (fs_content fs)(sock \<mapsto> [])" using c1(1) c2(1) by (auto simp: fun_eq_iff)
  ultimately show ?thesis by (rule that)
qed

section \<open>The start-up sequence\<close>

text \<open>What precedes the recovery spares the records of the VMs.\<close>

lemma ensure_bridge_spares:
  assumes "ensure_bridge H br ip plen w = (r, w')" "programs_spare H" "spares a (w_fs w)"
  shows "spares a (w_fs w')"
  using assms(1) unfolding ensure_bridge_def Let_def
  by (rule run_ip_spares [OF _ assms(2)]) (intro run_ip_ignored assms(2,3))

lemma start_node_Ok:
  fixes E :: "'x mgr_env"
  assumes "start_node Y E cli w = (Ok m', w')" "programs_spare (e_host E)"
  obtains topo r and w1 :: "'x world" where "spares (w_fs w) (w_fs w1)"
    "recover_vms E (node_manager Y cli (w_ext w) topo, w1) = (r, m', w')"
proof -
  obtain wb where b: "ensure_bridge (e_host E) (cli_bridge cli) (cli_gateway_ip cli) 24 w = (Ok (), wb)"
    using assms(1)
    by (cases "ensure_bridge (e_host E) (cli_bridge cli) (cli_gateway_ip cli) 24 w";
        cases "fst (ensure_bridge (e_host E) (cli_bridge cli) (cli_gateway_ip cli) 24 w)")
       (auto simp: start_node_def)
  define w1 where "w1 = (if cli_ipv6_pool cli \<noteq> None
      then ignore (on_ext id (sys_write Y ''/proc/sys/net/ipv6/conf/all/forwarding'' ''1'') wb) else wb)"
  obtain topo where t: "detect_topology Y (w_ext w1) = Ok topo"
    using assms(1) b unfolding w1_def
    by (cases "detect_topology Y (w_ext w1)") (auto simp: start_node_def Let_def w1_def)
  obtain h topo' x' where a: "allocate_hugepages Y topo (cli_hugepage_headroom cli) (cli_memory_limit cli)
      ''/sys/devices/system/node'' (w_ext w1) = (h, topo', x')" by (rule prod_cases3)
  let ?m = "node_manager Y cli (w_ext w) topo'"
  obtain q w2 where n: "setup_nftables E ?m (w1\<lparr>w_ext := x'\<rparr>) = (q, w2)" by (rule prod.exhaust)
  obtain r s where rec: "recover_vms E (?m, w2) = (r, s)" by (rule prod.exhaust)
  have "start_node Y E cli w = bindE (map_err NftablesFailed q, w2) (\<lambda>_ w. case recover_vms E (?m, w) of (_, (m', w')) \<Rightarrow> (Ok m', w'))"
    using b t a n by (simp add: start_node_def Let_def w1_def)
  with assms(1) rec have s: "s = (m', w')" by (cases q) (auto split: prod.splits)
  have "w_fs w2 = w_fs w1" using n on_ext_fs [of id "nft_initialize (h_nft (e_host E)) (m_nftables ?m)" "w1\<lparr>w_ext := x'\<rparr>"]
    by (simp add: setup_nftables_def)
  moreover have "w_fs w1 = w_fs wb" by (simp add: w1_def)
  ultimately have "spares (w_fs w) (w_fs w2)" using ensure_bridge_spares [OF b assms(2), of "w_fs w"] by simp
  from that [OF this rec [unfolded s]] show ?thesis .
qed

section \<open>Properties\<close>

text \<open>
  C13: a node that is started again has the VMs of the one before. Whatever the earlier process has
  served, and however often the node was restarted, when the start-up sequence over the same
  state directory and gateway succeeds (with whatever bridge, pages, topology and external
  interface it finds now), its manager holds the same VMs and port forwards, and satisfies the
  invariant of the manager.
\<close>

theorem start_node_restores:
  assumes "durable E" "programs_spare (e_host E)" "clean_dir (cli_state_dir cli)" "no_records (cli_state_dir cli) (w_fs w0)"
    and "m0 = mgr_new rd (cli_state_dir cli) br (cli_gateway_ip cli) be dh ei p6 ndp topo"
    and "node_run E m0 w0 st" "start_node Y E cli (snd st) = (Ok m', w')"
  shows "mgr_inv (e_lib E) m' \<and> (\<forall>v. rel_option same_vm (hm_get (m_vms (fst st)) v) (hm_get (m_vms m') v)) \<and>
    (\<forall>p proto. pf_lookup (m_port_forwards m') p proto = pf_lookup (m_port_forwards (fst st)) p proto)"
proof -
  obtain m w where st: "st = (m, w)" by (cases st)
  note inv = node_run_inv [OF assms(6,1,2,3,5,4), unfolded st fst_conv]
  obtain topo' r w1 where 1: "spares (w_fs w) (w_fs w1)"
      "recover_vms E (node_manager Y cli (w_ext w) topo', w1) = (r, m', w')"
    using assms(7) unfolding st snd_conv by (rule start_node_Ok [OF _ assms(2)])
  have mir: "mirrored E (m, w1)" using inv 1(1) assms(3) by - (rule mirrored_spares [of E m w], simp_all)
  have inv': "mgr_inv (e_lib E) m" "clean_dir (m_state_dir m)" using inv assms(3) by simp_all
  have new: "node_manager Y cli (w_ext w) topo' =
      mgr_new (cli_run_dir cli) (m_state_dir m) (cli_bridge cli) (m_gateway_ip m) (node_backends cli)
        (cli_dhcp_hostsdir cli) (node_interface Y cli (w_ext w)) (cli_ipv6_pool cli)
        (unwrap_or (cli_use_ndp_proxy cli) (cli_ipv6_pool cli \<noteq> None)) topo'"
    using inv by (simp add: node_manager_def)
  from recovery_restores [OF mir inv'(1) assms(1,2) inv'(2) new 1(2)] show ?thesis by (simp add: st)
qed

text \<open>
  With file operations that succeed the service starts also over the socket file a crashed
  process has left, and a shutdown leaves the VMs alone: after the last call nothing happens but
  the removal of the socket file.
\<close>

theorem serve_shutdown_exact:
  assumes "reliable_io (h_io (e_host E))" "sock \<notin> set (fs_dirs (w_fs (snd st)))" "path_parent sock \<noteq> Some sock"
    and "serve E sock calls st = (r, st')"
  shows "r = Ok () \<and> (\<exists>w. fs_content (w_fs w) = (fs_content (w_fs (snd st)))(sock \<mapsto> []) \<and> w_ext w = w_ext (snd st) \<and>
    fst st' = fst (serve_calls E calls (fst st, w)) \<and> w_ext (snd st') = w_ext (snd (serve_calls E calls (fst st, w))) \<and>
    fs_content (w_fs (snd st')) = (fs_content (w_fs (snd (serve_calls E calls (fst st, w)))))(sock := None))"
proof -
  obtain fs where fs: "open_socket (h_io (e_host E)) sock (w_fs (snd st)) = (Ok (), fs)"
      "fs_content fs = (fs_content (w_fs (snd st)))(sock \<mapsto> [])"
    by (rule open_socket_effect [OF assms(1-3)])
  let ?w = "(snd st)\<lparr>w_fs := fs\<rparr>"
  obtain m1 w1 where c: "serve_calls E calls (fst st, ?w) = (m1, w1)" by (rule prod.exhaust)
  have s: "r = Ok ()" "st' = (m1, ignore (on_fs id (remove_file (h_io (e_host E)) sock) w1))"
    using assms(4) fs(1) c by (simp_all add: serve_def Let_def on_fs_def)
  have "w_fs (snd st') = snd (remove_file (h_io (e_host E)) sock (w_fs w1))"
    by (cases "remove_file (h_io (e_host E)) sock (w_fs w1)") (simp add: s(2) ignore_def on_fs_def)
  then have "fs_content (w_fs (snd st')) = (fs_content (w_fs w1))(sock := None)"
    using remove_file_content [OF assms(1)] by simp
  moreover have "w_ext (snd st') = w_ext w1" by (simp add: s(2) ignore_def)
  ultimately show ?thesis using s fs(2) c by (intro conjI exI [of _ ?w]) simp_all
qed

text \<open>
  A size in gigabytes is accepted exactly when it fits 32 bits in megabytes, and then is the
  1024-fold, without wrap-around; a size in megabytes or without a unit is taken as it is. The
  unit may be one letter or two, in either case.
\<close>

theorem parse_size_mb_exact:
  "parse_size_mb (show_word n @ ''G'') = gigabytes n \<and> parse_size_mb (show_word n @ ''GB'') = gigabytes n \<and>
   parse_size_mb (show_word n @ ''g'') = gigabytes n \<and> parse_size_mb (show_word n @ ''gb'') = gigabytes n \<and>
   parse_size_mb (show_word n @ ''M'') = Ok n \<and> parse_size_mb (show_word n @ ''MB'') = Ok n \<and>
   parse_size_mb (show_word n @ ''m'') = Ok n \<and> parse_size_mb (show_word n @ ''mb'') = Ok n \<and>
   parse_size_mb (show_word n) = Ok n \<and>
   (case gigabytes n of Inl e \<Rightarrow> 2 ^ 32 \<le> unat n * 1024 | Inr mb \<Rightarrow> unat mb = unat n * 1024)"
proof -
  have "parse_size_mb (show_word n) = Ok n"
    using parse_size_suffix [of "[]" n] show_nat_last [of "unat n"]
    by (simp add: Let_def or_else_def strip_suffix_last to_uppercase_def)
  moreover have "case gigabytes n of Inl e \<Rightarrow> 2 ^ 32 \<le> unat n * 1024 | Inr mb \<Rightarrow> unat mb = unat n * 1024"
    by (simp add: gigabytes_def unat_word_ariths)
  ultimately show ?thesis
    by (simp add: parse_size_suffix is_whitespace_def size_simps)
qed

text \<open>A host without NUMA nodes and without a default route.\<close>

definition bare_sysfs :: "(json list) sysfs" where
  "bare_sysfs = \<lparr>sys_list = (\<lambda>_ _. Ok []), sys_read = (\<lambda>_ _. Err NotFound), sys_write = (\<lambda>_ _ x. (Ok (), x))\<rparr>"

definition demo_node_cli :: node_cli where
  "demo_node_cli = node_cli_defaults\<lparr>cli_state_dir := ''/s'', cli_gateway_ip := (10, 0, 0, 1)\<rparr>"

lemma is_ok_bindE: "is_ok (fst m) \<Longrightarrow> (\<And>a w. is_ok (fst (k a w))) \<Longrightarrow> is_ok (fst (bindE m k))"
  by (cases m) (auto simp: is_ok_Ex bindE_def)

lemma mem_find_table:
  "hook \<in> {''postrouting'', ''prerouting'', ''forward''} \<Longrightarrow>
     is_ok (fst (find_or_create_table_for_hook mem_nft rs hook f w))"
  by (auto simp: find_or_create_table_for_hook_def base_chain_defaults_def mem_exec split: option.splits)

lemma mem_initialize: "is_ok (fst (nft_initialize mem_nft n w))"
  unfolding nft_initialize_def mem_list mem_exec Let_def
  by (intro is_ok_bindE mem_find_table) (auto intro!: is_ok_bindE mem_find_table)

lemma bare_topology: "detect_topology bare_sysfs x = Ok []"
  by (simp add: detect_topology_def from_sysfs_def bare_sysfs_def node_entries_def)

lemma demo_bridge: "is_ok (fst (ensure_bridge (e_host durable_env) b ip n w))"
  by (simp add: ensure_bridge_def Let_def run_ip_def durable_env_def demo_env_def demo_host_def)

lemma is_ok_map_err [simp]:
  "is_ok (map_err f x) = is_ok x" "is_ok (fst (map_prod (map_err f) id r)) = is_ok (fst r)"
  by (cases x; simp) (cases r; cases "fst r"; simp)

lemma durable_nft: "is_ok (fst (setup_nftables durable_env m w))"
  using mem_initialize [of "m_nftables m" "w_ext w"]
  by (cases "nft_initialize mem_nft (m_nftables m) (w_ext w)")
    (simp add: setup_nftables_def durable_env_def demo_env_def demo_host_def on_ext_def)

lemma bare_start: "is_ok (fst (start_node bare_sysfs durable_env demo_node_cli w))"
  unfolding start_node_def Let_def bare_topology
  by (intro is_ok_bindE) (auto intro!: is_ok_bindE simp: demo_bridge durable_nft split: prod.splits)

theorem start_node_restores_witness:
  "let st = mgr_step durable_env (demo_mgr, demo_world) (CreateVm (demo_config ''a'' NoTee) None None)
   in case start_node bare_sysfs durable_env demo_node_cli (snd st) of
        (Inl e, w') \<Rightarrow> False
      | (Inr m', w') \<Rightarrow> map_option vh_ip (hm_get (m_vms m') ''a'') = Some (10, 0, 0, 2)"
proof -
  define st where "st = mgr_step durable_env (demo_mgr, demo_world) (CreateVm (demo_config ''a'' NoTee) None None)"
  have "is_ok (fst (start_node bare_sysfs durable_env demo_node_cli (snd st)))" by (rule bare_start)
  then obtain m' w' where s: "start_node bare_sysfs durable_env demo_node_cli (snd st) = (Ok m', w')"
    by (cases "start_node bare_sysfs durable_env demo_node_cli (snd st)") (auto simp: is_ok_Ex)
  have a: "admissible durable_env (demo_mgr, demo_world) (CreateVm (demo_config ''a'' NoTee) None None)" by code_simp
  have run: "node_run durable_env demo_mgr demo_world st" unfolding st_def by (rule Serve [OF Boot a])
  have e: "no_records (cli_state_dir demo_node_cli) (w_fs demo_world)" "clean_dir (cli_state_dir demo_node_cli)"
    by (simp_all add: no_records_def demo_world_def empty_fs_def fs_content_def clean_dir_def demo_node_cli_def)
  have m0: "demo_mgr = mgr_new ''/run'' (cli_state_dir demo_node_cli) ''br0'' (cli_gateway_ip demo_node_cli)
      [(NoTee, NoTeeImpl)] None ''eth0'' None False two_nodes" by (simp add: demo_mgr_def demo_node_cli_def)
  from start_node_restores [OF durable_env_laws e(2,1) m0 run s]
  have "rel_option same_vm (hm_get (m_vms (fst st)) ''a'') (hm_get (m_vms m') ''a'')" by blast
  moreover have "map_option vh_ip (hm_get (m_vms (fst st)) ''a'') = Some (10, 0, 0, 2)" unfolding st_def by code_simp
  ultimately have "map_option vh_ip (hm_get (m_vms m') ''a'') = Some (10, 0, 0, 2)"
    by (auto simp: option_rel_Some1 same_vm_def)
  with s show ?thesis by (simp add: st_def Let_def)
qed

theorem serve_shutdown_exact_witness:
  "let r = serve demo_env ''/run/c.sock'' [RpcHealth] (demo_mgr, demo_world\<lparr>w_fs := fs_put ''/run/c.sock'' [] empty_fs\<rparr>)
   in fst r = Ok () \<and> fst (snd r) = demo_mgr \<and> fs_content (w_fs (snd (snd r))) ''/run/c.sock'' = None"
proof -
  let ?st = "(demo_mgr, demo_world\<lparr>w_fs := fs_put ''/run/c.sock'' [] empty_fs\<rparr>)"
  obtain r st' where s: "serve demo_env ''/run/c.sock'' [RpcHealth] ?st = (r, st')" by (rule prod.exhaust)
  have "reliable_io (h_io (e_host demo_env))" by (simp add: demo_env_def demo_host_def quiet_io_def reliable_io_def)
  moreover have "path_parent ''/run/c.sock'' \<noteq> Some ''/run/c.sock''" by code_simp
  moreover have "''/run/c.sock'' \<notin> set (fs_dirs (w_fs (snd ?st)))" by (simp add: empty_fs_def)
  ultimately have "r = Ok ()" "fst st' = demo_mgr" "fs_content (w_fs (snd st')) ''/run/c.sock'' = None"
    using serve_shutdown_exact [OF _ _ _ s] by (auto simp: serve_calls_def)
  with s show ?thesis by (simp add: Let_def)
qed

end
