(* ===== verification/Operator_Cli.thy ===== *)
theory Operator_Cli
  imports Compute_Node
begin

text \<open>
  The operator's command-line client (\<^verbatim>\<open>crates/aleph-cvm-cli/src/main.rs\<close>): its commands, the
  disk specifications, the call each command makes and the JSON it prints. The call goes to the
  node of \<^verbatim>\<open>Compute_Node\<close>; whether the socket can be reached is an argument. An object of the
  output lists its members as the code writes them; the pretty printer is serde_json's.
\<close>

section \<open>Commands\<close>

record create_vm_args =
  ca_vm_id :: string
  ca_kernel :: string
  ca_initrd :: string
  ca_disk :: "string list"
  ca_vcpus :: u32
  ca_memory_mb :: u32
  ca_tee_backend :: "string option"
  ca_ipv6_address :: string
  ca_ipv6_prefix_len :: u32
  ca_encrypted :: bool
  ca_numa_node :: u32

text \<open>The arguments of \<^verbatim>\<open>create-vm\<close> with the three it requires, the others at their defaults.\<close>

definition create_vm_defaults :: "string \<Rightarrow> string \<Rightarrow> string \<Rightarrow> create_vm_args" where
  "create_vm_defaults vm_id kernel_path initrd_path =
     \<lparr>ca_vm_id = vm_id, ca_kernel = kernel_path, ca_initrd = initrd_path, ca_disk = [], ca_vcpus = 1, ca_memory_mb = 512,
      ca_tee_backend = None, ca_ipv6_address = [], ca_ipv6_prefix_len = 0, ca_encrypted = False, ca_numa_node = 0\<rparr>"

datatype cli_command =
    CliHealth
  | CliCreateVm create_vm_args
  | CliGetVm string
  | CliDeleteVm string
  | CliListVms
  | CliAddPortForward string u32 u32 string
  | CliRemovePortForward string u32 string
  | CliListPortForwards string

datatype cli_error =
    CannotConnect io_error
  | InvalidDiskSpec string
  | RpcFailed string status

definition parse_disk :: "string \<Rightarrow> (cli_error, disk_msg) result" where
  "parse_disk spec =
     (let disk = (\<lambda>path format readonly. \<lparr>dm_path = path, dm_readonly = readonly, dm_format = format\<rparr>) in
      case split_on CHR '':'' spec of
        [path] \<Rightarrow> Ok (disk path ''raw'' False)
      | [path, format] \<Rightarrow> Ok (disk path format False)
      | [path, format, mode] \<Rightarrow> Ok (disk path format (mode = ''ro''))
      | _ \<Rightarrow> Err (InvalidDiskSpec spec))"

fun parse_disks :: "string list \<Rightarrow> (cli_error, disk_msg list) result" where
  "parse_disks [] = Ok []"
| "parse_disks (s # ss) = and_then (parse_disk s) (\<lambda>d. and_then (parse_disks ss) (\<lambda>ds. Ok (d # ds)))"

definition create_request :: "create_vm_args \<Rightarrow> disk_msg list \<Rightarrow> create_vm_request" where
  "create_request a disks =
     \<lparr>rq_vm_id = ca_vm_id a, rq_kernel = ca_kernel a, rq_initrd = ca_initrd a, rq_disks = disks,
      rq_vcpus = ca_vcpus a, rq_memory_mb = ca_memory_mb a,
      rq_tee = map_option (\<lambda>backend. \<lparr>tm_backend = backend, tm_policy = []\<rparr>) (ca_tee_backend a),
      rq_encrypted = ca_encrypted a, rq_ipv6_address = ca_ipv6_address a,
      rq_ipv6_prefix_len = ca_ipv6_prefix_len a, rq_numa_node = ca_numa_node a\<rparr>"

text \<open>The call of a command, with the name its error carries.\<close>

fun command_rpc :: "cli_command \<Rightarrow> (cli_error, string \<times> rpc) result" where
  "command_rpc CliHealth = Ok (''Health'', RpcHealth)"
| "command_rpc (CliCreateVm a) =
     and_then (parse_disks (ca_disk a)) (\<lambda>disks. Ok (''CreateVm'', RpcCreateVm (create_request a disks)))"
| "command_rpc (CliGetVm v) = Ok (''GetVm'', RpcGetVm v)"
| "command_rpc (CliDeleteVm v) = Ok (''DeleteVm'', RpcDeleteVm v)"
| "command_rpc CliListVms = Ok (''ListVms'', RpcListVms)"
| "command_rpc (CliAddPortForward v vm_port host_port protocol) =
     Ok (''AddPortForward'', RpcAddPortForward
       \<lparr>pm_vm_id = v, pm_host_port = host_port, pm_vm_port = vm_port, pm_protocol = protocol\<rparr>)"
| "command_rpc (CliRemovePortForward v host_port protocol) =
     Ok (''RemovePortForward'', RpcRemovePortForward v host_port protocol)"
| "command_rpc (CliListPortForwards v) = Ok (''ListPortForwards'', RpcListPortForwards v)"

section \<open>Output\<close>

definition vm_json :: "vm_info_msg \<Rightarrow> json" where
  "vm_json r = JObj [(''vmId'', JStr (vm_msg_id r)), (''status'', JStr (vm_msg_status r)),
     (''ipv4'', JStr (vm_msg_ipv4 r)), (''ipv6'', JStr (vm_msg_ipv6 r)),
     (''teeBackend'', JStr (vm_msg_tee_backend r)), (''uptimeSecs'', enc_word (vm_msg_uptime_secs r)),
     (''numaNode'', enc_word (vm_msg_numa_node r))]"

definition forward_json :: "port_forward_msg \<Rightarrow> json" where
  "forward_json f = JObj [(''vmId'', JStr (pm_vm_id f)), (''hostPort'', enc_word (pm_host_port f)),
     (''vmPort'', enc_word (pm_vm_port f)), (''protocol'', JStr (pm_protocol f))]"

fun reply_json :: "rpc_reply \<Rightarrow> json" where
  "reply_json (VmReply r) = vm_json r"
| "reply_json (VmsReply vms) = JObj [(''vms'', JArr (map vm_json vms))]"
| "reply_json (ForwardReply f) = forward_json f"
| "reply_json (ForwardsReply fs) = JObj [(''forwards'', JArr (map forward_json fs))]"
| "reply_json (HealthReply s n) = JObj [(''status'', JStr s), (''vmCount'', enc_word n)]"
| "reply_json EmptyReply = JObj []"

text \<open>The whole client: it connects first, then reads its arguments, then calls and prints.\<close>

definition cli_main ::
  "'x mgr_env \<Rightarrow> (io_error, unit) result \<Rightarrow> cli_command \<Rightarrow> 'x mstate \<Rightarrow> (cli_error, json) result \<times> 'x mstate" where
  "cli_main E connected command st =
     (case and_then (map_err CannotConnect connected) (\<lambda>_. command_rpc command) of
        Inl e \<Rightarrow> (Err e, st)
      | Inr (name, call) \<Rightarrow>
          (case dispatch E call st of
             (r, st') \<Rightarrow> (and_then (map_err (RpcFailed name) r) (\<lambda>reply. Ok (reply_json reply)), st')))"

section \<open>Disk specifications\<close>

definition disk_spec :: "disk_msg \<Rightarrow> string" where
  "disk_spec d = dm_path d @ '':'' @ dm_format d @ '':'' @ (if dm_readonly d then ''ro'' else ''rw'')"

lemma split_on_length: "length (split_on c s) = Suc (count_list s c)"
  by (induction s) (auto split: list.splits)

lemma parse_disk_spec:
  "CHR '':'' \<notin> set (dm_path d) \<Longrightarrow> CHR '':'' \<notin> set (dm_format d) \<Longrightarrow> parse_disk (disk_spec d) = Ok d"
  by (simp add: parse_disk_def disk_spec_def split_on_append_sep split_on_no_sep Let_def)

lemma parse_disk_cases:
  "parse_disk s = (case split_on CHR '':'' s of
     [p] \<Rightarrow> Ok \<lparr>dm_path = p, dm_readonly = False, dm_format = ''raw''\<rparr>
   | [p, f] \<Rightarrow> Ok \<lparr>dm_path = p, dm_readonly = False, dm_format = f\<rparr>
   | [p, f, m] \<Rightarrow> Ok \<lparr>dm_path = p, dm_readonly = (m = ''ro''), dm_format = f\<rparr>
   | _ \<Rightarrow> Err (InvalidDiskSpec s))"
  by (simp add: parse_disk_def Let_def)

lemma parse_disk_refused: "parse_disk s = Err (InvalidDiskSpec s) \<longleftrightarrow> 2 < count_list s CHR '':''"
  using split_on_length [of "CHR '':''" s] by (auto simp: parse_disk_cases split: list.splits)

lemma split_on_parts: "p \<in> set (split_on c s) \<Longrightarrow> c \<notin> set p"
  by (induction s arbitrary: p) (auto split: list.splits if_splits)

lemma parse_disk_path: "parse_disk s = Ok d \<Longrightarrow> CHR '':'' \<notin> set (dm_path d)"
  using split_on_parts [of _ "CHR '':''" s] by (auto simp: parse_disk_cases split: list.splits)

text \<open>
  Every disk whose path and format have no colon is what its specification
  \<^verbatim>\<open>path:format:ro|rw\<close> is read as; a path alone means a writable raw disk; a specification is
  refused exactly when it has more than two colons, so no disk whose path has a colon in it can
  be given.
\<close>

theorem parse_disk_round_trip:
  assumes "CHR '':'' \<notin> set (dm_path d)" "CHR '':'' \<notin> set (dm_format d)"
  shows "parse_disk (disk_spec d) = Ok d \<and>
    parse_disk (dm_path d) = Ok \<lparr>dm_path = dm_path d, dm_readonly = False, dm_format = ''raw''\<rparr> \<and>
    (\<forall>s. case parse_disk s of
       Inl e \<Rightarrow> e = InvalidDiskSpec s \<and> 2 < count_list s CHR '':''
     | Inr d' \<Rightarrow> count_list s CHR '':'' \<le> 2 \<and> CHR '':'' \<notin> set (dm_path d'))"
proof -
  have "case parse_disk s of
       Inl e \<Rightarrow> e = InvalidDiskSpec s \<and> 2 < count_list s CHR '':''
     | Inr d' \<Rightarrow> count_list s CHR '':'' \<le> 2 \<and> CHR '':'' \<notin> set (dm_path d')" for s
  proof (cases "parse_disk s")
    case (Inl e)
    then have "e = InvalidDiskSpec s" by (auto simp: parse_disk_cases split: list.splits)
    with Inl parse_disk_refused [of s] show ?thesis by simp
  next
    case (Inr d')
    with parse_disk_refused [of s] parse_disk_path [OF Inr] show ?thesis by simp
  qed
  then show ?thesis
    using assms parse_disk_spec [OF assms] by (simp add: parse_disk_cases split_on_no_sep)
qed

theorem parse_disk_round_trip_witness:
  "parse_disk ''/d/r.ext4:raw:ro'' = Ok \<lparr>dm_path = ''/d/r.ext4'', dm_readonly = True, dm_format = ''raw''\<rparr>"
  using parse_disk_round_trip [of "\<lparr>dm_path = ''/d/r.ext4'', dm_readonly = True, dm_format = ''raw''\<rparr>"]
  by (simp add: disk_spec_def)

section \<open>Commands against a node\<close>

lemma cli_run: "command_rpc c = Ok (name, call) \<Longrightarrow>
  cli_main E (Ok ()) c st = (case dispatch E call st of
     (r, st') \<Rightarrow> (and_then (map_err (RpcFailed name) r) (\<lambda>reply. Ok (reply_json reply)), st'))"
  by (simp add: cli_main_def)

lemma cli_get_vm:
  "cli_main E (Ok ()) (CliGetVm v) st =
     (case hm_get (m_vms (fst st)) v of
        None \<Rightarrow> (Err (RpcFailed ''GetVm'' (StatusNotFound (VmNotFound v))), st)
      | Some h \<Rightarrow> (Ok (vm_json (vm_info_to_proto (vm_info_from_handle E (snd st) h))), st))"
  by (simp add: cli_main_def grpc_get_vm_def get_vm_def reply_with_def split: option.splits)

lemma cli_get_vm_Ok:
  "cli_main E (Ok ()) (CliGetVm v) st = (Ok j, st) \<longleftrightarrow>
     (\<exists>h. hm_get (m_vms (fst st)) v = Some h \<and> j = vm_json (vm_info_to_proto (vm_info_from_handle E (snd st) h)))"
  by (auto simp: cli_get_vm split: option.splits)

lemma cli_list_vms:
  "cli_main E (Ok ()) CliListVms st =
     (Ok (JObj [(''vms'', JArr (map (\<lambda>h. vm_json (vm_info_to_proto (vm_info_from_handle E (snd st) h)))
        (hm_values (m_vms (fst st)))))]), st)"
  by (simp add: cli_main_def grpc_list_vms_def list_vms_def)

lemma cli_list_port_forwards:
  "v \<noteq> [] \<Longrightarrow> cli_main E (Ok ()) (CliListPortForwards v) st =
     (Ok (JObj [(''forwards'', JArr (map (forward_json \<circ> forward_to_proto) (list_for_vm (m_port_forwards (fst st)) v)))]), st)"
  by (simp add: cli_main_def grpc_list_port_forwards_def list_port_forwards_def)

lemma create_vm_info:
  assumes "create_vm E config req hint st = (Ok info, st')"
  shows "\<exists>h. hm_get (m_vms (fst st')) (cfg_vm_id config) = Some h \<and> info = vm_info_from_handle E (snd st') h"
  using assms
  by (auto simp: create_vm_def boot_vm_def register_vm_def bindE_Ok Let_def split: if_splits prod.splits)

lemma cli_create_Ok:
  assumes "cli_main E (Ok ()) (CliCreateVm a) st = (Ok out, st')"
  obtains config req hint info where "create_vm E config req hint st = (Ok info, st')" "cfg_vm_id config = ca_vm_id a"
    "out = vm_json (vm_info_to_proto info)" "ca_vm_id a \<noteq> []"
proof -
  obtain disks where d: "parse_disks (ca_disk a) = Ok disks"
    using assms by (cases "parse_disks (ca_disk a)") (simp_all add: cli_main_def)
  let ?t = "translate_create (e_text E) (e_lib E) (w_fs (snd st)) (create_request a disks)"
  obtain config req hint where t: "?t = Ok (config, req, hint)"
    using assms d by (cases ?t) (auto simp: cli_main_def grpc_create_vm_def reply_with_def)
  then have id: "cfg_vm_id config = ca_vm_id a" "ca_vm_id a \<noteq> []"
    by (auto simp: translate_create_def and_then_Ok create_request_def validate_vm_id_Ok split: if_splits)
  obtain r st1 where c: "create_vm E config req hint st = (r, st1)" by (rule prod.exhaust)
  from assms d t c obtain info where "r = Ok info" "st1 = st'" "out = vm_json (vm_info_to_proto info)"
    by (cases r) (auto simp: cli_main_def grpc_create_vm_def reply_with_def)
  with c id show ?thesis by (intro that) simp_all
qed

text \<open>
  C14: what \<^verbatim>\<open>create-vm\<close> prints is what \<^verbatim>\<open>get-vm\<close> prints right after it, and is an entry of what
  \<^verbatim>\<open>list-vms\<close> prints. The identifier was unknown before, and every other VM, and every port
  forward, is as it was.
\<close>

theorem cli_create_then_get:
  assumes "mgr_inv (e_lib E) (fst st)" "cli_main E (Ok ()) (CliCreateVm a) st = (Ok out, st')"
  shows "cli_main E (Ok ()) (CliGetVm (ca_vm_id a)) st' = (Ok out, st') \<and>
    (\<exists>vms. cli_main E (Ok ()) CliListVms st' = (Ok (JObj [(''vms'', JArr vms)]), st') \<and> out \<in> set vms) \<and>
    fst (cli_main E (Ok ()) (CliGetVm (ca_vm_id a)) st) =
      Err (RpcFailed ''GetVm'' (StatusNotFound (VmNotFound (ca_vm_id a)))) \<and>
    (\<forall>v. v \<noteq> ca_vm_id a \<longrightarrow> hm_get (m_vms (fst st')) v = hm_get (m_vms (fst st)) v) \<and>
    m_port_forwards (fst st') = m_port_forwards (fst st)"
proof -
  obtain config req hint info where c: "create_vm E config req hint st = (Ok info, st')"
      "cfg_vm_id config = ca_vm_id a" "out = vm_json (vm_info_to_proto info)"
    by (rule cli_create_Ok [OF assms(2)])
  obtain h where h: "hm_get (m_vms (fst st')) (ca_vm_id a) = Some h" "info = vm_info_from_handle E (snd st') h"
    using create_vm_info [OF c(1)] c(2) by auto
  have "mgr_inv (e_lib E) (fst st')" using create_vm_inv [OF assms(1), of config req hint] c(1) by simp
  then have "h \<in> set (hm_values (m_vms (fst st')))" using h(1) by (auto simp: mgr_inv_def hm_values_get)
  with create_vm_result [where E = E and config = config and req = req and hint = hint and st = st] c h show ?thesis
    by (auto simp: cli_get_vm cli_list_vms)
qed

text \<open>
  \<^verbatim>\<open>list-vms\<close> prints every VM once, each as \<^verbatim>\<open>get-vm\<close> prints it, and \<^verbatim>\<open>health\<close> prints their number.
\<close>

theorem cli_list_exact:
  assumes "mgr_inv (e_lib E) (fst st)"
  shows "\<exists>vms. cli_main E (Ok ()) CliListVms st = (Ok (JObj [(''vms'', JArr vms)]), st) \<and>
    distinct (map (\<lambda>j. jget_str j ''vmId'') vms) \<and>
    (\<forall>j. j \<in> set vms \<longleftrightarrow> (\<exists>v. cli_main E (Ok ()) (CliGetVm v) st = (Ok j, st))) \<and>
    cli_main E (Ok ()) CliHealth st =
      (Ok (JObj [(''status'', JStr ''ok''), (''vmCount'', enc_word (of_nat (length vms) :: u32))]), st)"
proof -
  let ?j = "\<lambda>h. vm_json (vm_info_to_proto (vm_info_from_handle E (snd st) h))"
  let ?vms = "map ?j (hm_values (m_vms (fst st)))"
  have wf: "hm_wf (m_vms (fst st))" and ok: "\<And>v h. hm_get (m_vms (fst st)) v = Some h \<Longrightarrow> cfg_vm_id (vh_config h) = v"
    using assms by (auto simp: mgr_inv_def handle_ok_def)
  have id: "jget_str (?j h) ''vmId'' = Some (cfg_vm_id (vh_config h))" for h
    by (simp add: vm_json_def vm_info_to_proto_def vm_info_from_handle_def jget_str_def)
  have "map (\<lambda>j. jget_str j ''vmId'') ?vms = map Some (map fst (m_vms (fst st)))"
    using wf ok by (auto simp: id hm_values_def hm_get_set [symmetric])
  moreover have "distinct (map Some (map fst (m_vms (fst st))))" using wf by (simp add: hm_wf_def distinct_map inj_on_def)
  moreover have "j \<in> set ?vms \<longleftrightarrow> (\<exists>v. cli_main E (Ok ()) (CliGetVm v) st = (Ok j, st))" for j
    unfolding cli_get_vm_Ok set_map image_iff Bex_def hm_values_get [OF wf] by blast
  moreover have "cli_main E (Ok ()) CliHealth st =
      (Ok (JObj [(''status'', JStr ''ok''), (''vmCount'', enc_word (of_nat (length ?vms) :: u32))]), st)"
    by (simp add: cli_main_def grpc_health_def list_vms_def)
  ultimately show ?thesis by (intro exI [of _ ?vms]) (simp add: cli_list_vms)
qed

text \<open>
  After \<^verbatim>\<open>delete-vm\<close> the VM is unknown and has no forward, whoever asks; every other VM keeps
  its entry and its forwards. Deleting an unknown VM is an error and changes nothing.
\<close>

theorem cli_delete_exact:
  assumes "mgr_inv (e_lib E) (fst st)" "v \<noteq> []"
  shows "case cli_main E (Ok ()) (CliDeleteVm v) st of
      (Inl e, st') \<Rightarrow> e = RpcFailed ''DeleteVm'' (StatusNotFound (VmNotFound v)) \<and> st' = st \<and>
        hm_get (m_vms (fst st)) v = None
    | (Inr out, st') \<Rightarrow> out = JObj [] \<and> hm_get (m_vms (fst st)) v \<noteq> None \<and>
        cli_main E (Ok ()) (CliGetVm v) st' = (Err (RpcFailed ''GetVm'' (StatusNotFound (VmNotFound v))), st') \<and>
        cli_main E (Ok ()) (CliListPortForwards v) st' = (Ok (JObj [(''forwards'', JArr [])]), st') \<and>
        (\<forall>u. u \<noteq> v \<longrightarrow> hm_get (m_vms (fst st')) u = hm_get (m_vms (fst st)) u \<and>
           set (list_for_vm (m_port_forwards (fst st')) u) = set (list_for_vm (m_port_forwards (fst st)) u))"
proof (cases "hm_get (m_vms (fst st)) v")
  case None
  then show ?thesis by (simp add: cli_main_def grpc_delete_vm_def delete_vm_def reply_with_def)
next
  case (Some h)
  from delete_vm_effects [OF assms(1) Some, of E] obtain st' where "delete_vm E v st = (Ok (), st')"
      "\<forall>u. hm_get (m_vms (fst st')) u = (if u = v then None else hm_get (m_vms (fst st)) u)"
      "list_for_vm (m_port_forwards (fst st')) v = []"
      "\<forall>u. u \<noteq> v \<longrightarrow> set (list_for_vm (m_port_forwards (fst st')) u) = set (list_for_vm (m_port_forwards (fst st)) u)"
    by blast
  with Some assms(2) show ?thesis
    by (simp add: cli_run grpc_delete_vm_def reply_with_def cli_get_vm grpc_list_port_forwards_def
        list_port_forwards_def)
qed

lemma cli_add_forward_Ok:
  assumes "cli_main E (Ok ()) (CliAddPortForward v vp hp proto) st = (Ok out, st')"
  obtains q f where "protocol_from_str proto = Ok q" "out = forward_json (forward_to_proto f)" "pf_vm_id f = v"
    "pf_protocol f = q" "is_available (m_port_forwards (fst st)) (pf_host_port f) q"
    "fst st' = (fst st)\<lparr>m_port_forwards := pf_add (m_port_forwards (fst st)) f\<rparr>"
proof -
  obtain q where q: "protocol_from_str proto = Ok q"
    using assms by (cases "protocol_from_str proto") (auto simp: cli_main_def grpc_add_port_forward_def parse_protocol_def reply_with_def)
  show ?thesis
  proof (cases rule: add_port_forward_cases [of E v "ucast hp" "ucast vp" q st])
    case (Err e w)
    with assms q show ?thesis by (simp add: cli_main_def grpc_add_port_forward_def parse_protocol_def reply_with_def)
  next
    case (Ok f w h)
    with assms q show ?thesis
      by (intro that [of q f]) (auto simp: cli_main_def grpc_add_port_forward_def parse_protocol_def reply_with_def)
  qed
qed

lemma list_after_add_remove:
  assumes "pf_inv s" "is_available s (pf_host_port f) (pf_protocol f)"
  shows "set (list_for_vm (snd (pf_remove (pf_add s f) (pf_host_port f) (pf_protocol f))) u) = set (list_for_vm s u)"
proof -
  have inv: "pf_inv (snd (pf_remove (pf_add s f) (pf_host_port f) (pf_protocol f)))"
    by (rule pf_inv_remove [OF pf_inv_add [OF assms(1)]])
  have "pf_lookup (snd (pf_remove (pf_add s f) (pf_host_port f) (pf_protocol f))) p q = pf_lookup s p q" for p q
    using assms(2) by (simp add: is_available_lookup)
  then show ?thesis
    by (intro set_eqI) (simp only: list_for_vm_lookup [OF inv] list_for_vm_lookup [OF assms(1)])
qed

text \<open>
  C15: what \<^verbatim>\<open>add-port-forward\<close> prints is an entry of what \<^verbatim>\<open>list-port-forwards\<close> prints for the VM, and
  removing the printed host port takes exactly it away again, unless nft fails. The VM that
  \<^verbatim>\<open>remove-port-forward\<close> is asked to remove it from plays no role: naming another one removes it
  all the same.
\<close>

theorem cli_forward_lifecycle:
  assumes "mgr_inv (e_lib E) (fst st)" "v \<noteq> []"
    and "cli_main E (Ok ()) (CliAddPortForward v vp hp proto) st = (Ok out, st1)"
  shows "\<exists>port fs. jindex out ''hostPort'' = enc_word port \<and>
    cli_main E (Ok ()) (CliListPortForwards v) st1 = (Ok (JObj [(''forwards'', JArr fs)]), st1) \<and> out \<in> set fs \<and>
    (\<forall>u. case cli_main E (Ok ()) (CliRemovePortForward u port proto) st1 of
       (Inl e, st2) \<Rightarrow> \<exists>x. e = RpcFailed ''RemovePortForward'' (StatusInternal (NftForwardFailed x))
     | (Inr r, st2) \<Rightarrow> r = JObj [] \<and> m_vms (fst st2) = m_vms (fst st) \<and>
         (\<forall>t. set (list_for_vm (m_port_forwards (fst st2)) t) = set (list_for_vm (m_port_forwards (fst st)) t)))"
proof -
  obtain q f where f: "protocol_from_str proto = Ok q" "out = forward_json (forward_to_proto f)" "pf_vm_id f = v"
      "pf_protocol f = q" "is_available (m_port_forwards (fst st)) (pf_host_port f) q"
      "fst st1 = (fst st)\<lparr>m_port_forwards := pf_add (m_port_forwards (fst st)) f\<rparr>"
    by (rule cli_add_forward_Ok [OF assms(3)])
  have inv: "pf_inv (m_port_forwards (fst st))" using assms(1) by (simp add: mgr_inv_def)
  let ?fs = "map (forward_json \<circ> forward_to_proto) (list_for_vm (m_port_forwards (fst st1)) v)"
  let ?p = "ucast (pf_host_port f) :: u32"
  have "f \<in> set (list_for_vm (m_port_forwards (fst st1)) v)"
    using f pf_inv_add [OF inv, of f] by (simp add: list_for_vm_lookup)
  then have "out \<in> set ?fs" using f(2) by simp
  moreover have "case cli_main E (Ok ()) (CliRemovePortForward u ?p proto) st1 of
       (Inl e, st2) \<Rightarrow> \<exists>x. e = RpcFailed ''RemovePortForward'' (StatusInternal (NftForwardFailed x))
     | (Inr r, st2) \<Rightarrow> r = JObj [] \<and> m_vms (fst st2) = m_vms (fst st) \<and>
         (\<forall>t. set (list_for_vm (m_port_forwards (fst st2)) t) = set (list_for_vm (m_port_forwards (fst st)) t))" for u
  proof -
    obtain r st2 where r: "remove_port_forward E (pf_host_port f) q st1 = (r, st2)" by (rule prod.exhaust)
    have p: "ucast ?p = pf_host_port f" by (simp add: ucast_up_ucast_id is_up)
    have m: "fst st2 = (fst st1)\<lparr>m_port_forwards := snd (pf_remove (m_port_forwards (fst st1)) (pf_host_port f) q)\<rparr>"
      using remove_port_forward_mgr [of E "pf_host_port f" q st1] r by simp
    have x: "pf_remove (m_port_forwards (fst st1)) (pf_host_port f) q =
        (Some f, snd (pf_remove (m_port_forwards (fst st1)) (pf_host_port f) q))"
      by (rule prod_eqI) (simp_all add: f(4,6))
    have "case r of Inl e \<Rightarrow> \<exists>x. e = NftForwardFailed x | Inr u \<Rightarrow> True"
      using r x by (auto simp: remove_port_forward_def Let_def split: prod.splits sum.splits)
    then show ?thesis
      using r f m p list_after_add_remove [OF inv, of f]
      by (cases r) (simp_all add: cli_run grpc_remove_port_forward_def parse_protocol_def reply_with_def)
  qed
  moreover have "jindex out ''hostPort'' = enc_word ?p"
    using f(2) by (simp add: forward_json_def forward_to_proto_def jindex_def)
  ultimately show ?thesis
    using cli_list_port_forwards [OF assms(2), of E st1] by (intro exI [of _ ?p] exI [of _ ?fs]) simp
qed

section \<open>A session\<close>

definition demo_args :: create_vm_args where
  "demo_args = (create_vm_defaults ''a'' [] [])\<lparr>ca_disk := [''/d''], ca_tee_backend := Some ''none''\<rparr>"

definition demo_node :: "(json list) mstate" where
  "demo_node = (demo_mgr, ready_world\<lparr>w_fs := fs_put ''/d'' [] empty_fs\<rparr>)"

definition demo_created :: "(json list) mstate" where
  "demo_created = snd (cli_main demo_env (Ok ()) (CliCreateVm demo_args) demo_node)"

lemma demo_node_inv: "mgr_inv (e_lib demo_env) (fst demo_node)"
  using demo_inv [of "[]"] by (simp add: demo_after_def demo_node_def)

lemma demo_cli_create:
  "cli_main demo_env (Ok ()) (CliCreateVm demo_args) demo_node =
     (Ok (JObj [(''vmId'', JStr ''a''), (''status'', JStr ''running''), (''ipv4'', JStr ''10.0.0.2''), (''ipv6'', JStr []),
        (''teeBackend'', JStr ''None''), (''uptimeSecs'', JInt 0), (''numaNode'', JInt 0)]), demo_created)"
proof (rule prod_eqI)
  show "fst (cli_main demo_env (Ok ()) (CliCreateVm demo_args) demo_node) =
     fst (Ok (JObj [(''vmId'', JStr ''a''), (''status'', JStr ''running''), (''ipv4'', JStr ''10.0.0.2''), (''ipv6'', JStr []),
        (''teeBackend'', JStr ''None''), (''uptimeSecs'', JInt 0), (''numaNode'', JInt 0)]), demo_created)"
    by code_simp
qed (simp add: demo_created_def)

lemma demo_created_inv: "mgr_inv (e_lib demo_env) (fst demo_created)"
proof -
  obtain config req hint info where "create_vm demo_env config req hint demo_node = (Ok info, demo_created)"
    by (rule cli_create_Ok [OF demo_cli_create])
  with create_vm_inv [OF demo_node_inv, of config req hint] show ?thesis by simp
qed

theorem cli_create_then_get_witness:
  "\<exists>out. cli_main demo_env (Ok ()) (CliGetVm ''a'') demo_created = (Ok out, demo_created) \<and>
     jget_str out ''ipv4'' = Some ''10.0.0.2''"
  using cli_create_then_get [OF demo_node_inv demo_cli_create] by (simp add: demo_args_def create_vm_defaults_def)

theorem cli_list_exact_witness:
  "\<exists>vms. cli_main demo_env (Ok ()) CliListVms demo_created = (Ok (JObj [(''vms'', JArr vms)]), demo_created) \<and>
     distinct (map (\<lambda>j. jget_str j ''vmId'') vms)"
  using cli_list_exact [OF demo_created_inv] by blast

theorem cli_delete_exact_witness:
  "fst (cli_main demo_env (Ok ()) (CliGetVm ''a'') (snd (cli_main demo_env (Ok ()) (CliDeleteVm ''a'') demo_created))) =
     Err (RpcFailed ''GetVm'' (StatusNotFound (VmNotFound ''a'')))"
proof -
  have "hm_get (m_vms (fst demo_created)) ''a'' \<noteq> None" by code_simp
  with cli_delete_exact [OF demo_created_inv, of "''a''"] show ?thesis by (simp split: prod.splits sum.splits)
qed

theorem cli_forward_lifecycle_witness:
  "\<exists>out port. fst (cli_main demo_env (Ok ()) (CliAddPortForward ''a'' 80 81 ''tcp'') demo_created) = Ok out \<and>
     jindex out ''hostPort'' = enc_word (port :: u32) \<and> port = 81 \<and>
     (let st1 = snd (cli_main demo_env (Ok ()) (CliAddPortForward ''a'' 80 81 ''tcp'') demo_created);
          st2 = snd (cli_main demo_env (Ok ()) (CliRemovePortForward ''z'' port ''tcp'') st1)
      in list_for_vm (m_port_forwards (fst st2)) ''a'' = [])"
proof -
  have c: "fst (cli_main demo_env (Ok ()) (CliAddPortForward ''a'' 80 81 ''tcp'') demo_created) =
     Ok (JObj [(''vmId'', JStr ''a''), (''hostPort'', JInt 81), (''vmPort'', JInt 80), (''protocol'', JStr ''tcp'')])"
    by code_simp
  define st1 where "st1 = snd (cli_main demo_env (Ok ()) (CliAddPortForward ''a'' 80 81 ''tcp'') demo_created)"
  have a: "cli_main demo_env (Ok ()) (CliAddPortForward ''a'' 80 81 ''tcp'') demo_created =
     (Ok (JObj [(''vmId'', JStr ''a''), (''hostPort'', JInt 81), (''vmPort'', JInt 80), (''protocol'', JStr ''tcp'')]), st1)"
    using c by (simp add: st1_def prod_eq_iff)
  have ok: "is_ok (fst (cli_main demo_env (Ok ()) (CliRemovePortForward ''z'' 81 ''tcp'') st1))"
    unfolding st1_def by code_simp
  have e: "list_for_vm (m_port_forwards (fst demo_created)) ''a'' = []" by code_simp
  from cli_forward_lifecycle [OF demo_created_inv _ a] obtain port :: u32 where p: "JInt 81 = enc_word port"
      "case cli_main demo_env (Ok ()) (CliRemovePortForward ''z'' port ''tcp'') st1 of
       (Inl e, st2) \<Rightarrow> \<exists>x. e = RpcFailed ''RemovePortForward'' (StatusInternal (NftForwardFailed x))
     | (Inr r, st2) \<Rightarrow> set (list_for_vm (m_port_forwards (fst st2)) ''a'') = set (list_for_vm (m_port_forwards (fst demo_created)) ''a'')"
    by (auto simp: jindex_def split: prod.splits sum.splits)
  have "port = 81" using p(1) by (simp add: enc_word_def word_uint_eq_iff)
  with p ok e a c show ?thesis
    by (auto simp: st1_def [symmetric] is_ok_Ex jindex_def Let_def split: prod.splits sum.splits)
qed

end
