(* ===== verification/Qmp.thy ===== *)
theory Qmp
  imports Prelude
begin

text \<open>
  The QMP client (\<^verbatim>\<open>crates/aleph-compute-node/src/qemu/qmp.rs\<close>): connecting to the socket of a QEMU
  process with retries, and the four commands. The socket and the protocol library are
  parameters; the world they act on logs nothing of its own.
\<close>

section \<open>Connecting\<close>

text \<open>
  \<open>q_connect\<close> is one attempt on the socket; the four steps after it set the time-outs, clone the
  stream and shake hands, and fail with the name of the step. \<open>q_sleep\<close> is half a second.
\<close>

record ('x, 's) qmp_env =
  q_connect :: "'x \<Rightarrow> (string, 's) result \<times> 'x"
  q_read_timeout :: "'s \<Rightarrow> nat \<Rightarrow> 'x \<Rightarrow> (string, unit) result \<times> 'x"
  q_write_timeout :: "'s \<Rightarrow> nat \<Rightarrow> 'x \<Rightarrow> (string, unit) result \<times> 'x"
  q_try_clone :: "'s \<Rightarrow> 'x \<Rightarrow> (string, 's) result \<times> 'x"
  q_handshake :: "'s \<Rightarrow> 's \<Rightarrow> 'x \<Rightarrow> (string, unit) result \<times> 'x"
  q_execute :: "'s \<Rightarrow> string \<Rightarrow> 'x \<Rightarrow> (string, string) result \<times> 'x"
  q_sleep :: "nat \<Rightarrow> 'x \<Rightarrow> 'x"

datatype qmp_error =
    SetReadTimeout string
  | SetWriteTimeout string
  | CloneStream string
  | HandshakeRefused string
  | ConnectAttempts u32 string
  | CommandFailed string string
  | UnwrapNone

definition qmp_open :: "('x, 's) qmp_env \<Rightarrow> 's \<Rightarrow> 'x \<Rightarrow> (qmp_error, 's) result \<times> 'x" where
  "qmp_open Q stream x =
     bindE (map_prod (map_err SetReadTimeout) id (q_read_timeout Q stream 5 x)) (\<lambda>_ x.
     bindE (map_prod (map_err SetWriteTimeout) id (q_write_timeout Q stream 5 x)) (\<lambda>_ x.
     bindE (map_prod (map_err CloneStream) id (q_try_clone Q stream x)) (\<lambda>reader x.
     bindE (map_prod (map_err HandshakeRefused) id (q_handshake Q reader stream x)) (\<lambda>_ x.
     (Ok stream, x)))))"

text \<open>The loop over the attempts that are left, and its end: the last error is unwrapped.\<close>

fun qmp_attempts ::
  "('x, 's) qmp_env \<Rightarrow> u32 \<Rightarrow> nat list \<Rightarrow> string option \<Rightarrow> 'x \<Rightarrow> (qmp_error, 's) result \<times> 'x" where
  "qmp_attempts Q retries [] last_err x =
     (case last_err of None \<Rightarrow> (Err UnwrapNone, x) | Some e \<Rightarrow> (Err (ConnectAttempts (retries + 1) e), x))"
| "qmp_attempts Q retries (attempt # rest) last_err x =
     (case q_connect Q x of
        (Inr stream, x') \<Rightarrow> qmp_open Q stream x'
      | (Inl e, x') \<Rightarrow>
          qmp_attempts Q retries rest (Some e) (if attempt < unat retries then q_sleep Q 500 x' else x'))"

definition qmp_connect :: "('x, 's) qmp_env \<Rightarrow> u32 \<Rightarrow> 'x \<Rightarrow> (qmp_error, 's) result \<times> 'x" where
  "qmp_connect Q retries x = qmp_attempts Q retries [0..<Suc (unat retries)] None x"

section \<open>Commands\<close>

definition qmp_command :: "('x, 's) qmp_env \<Rightarrow> string \<Rightarrow> 's \<Rightarrow> 'x \<Rightarrow> (qmp_error, string) result \<times> 'x" where
  "qmp_command Q name s x = map_prod (map_err (CommandFailed name)) id (q_execute Q s name x)"

definition query_status :: "('x, 's) qmp_env \<Rightarrow> 's \<Rightarrow> 'x \<Rightarrow> (qmp_error, string) result \<times> 'x" where
  "query_status Q s x = qmp_command Q ''query-status'' s x"

definition qmp_quit :: "('x, 's) qmp_env \<Rightarrow> 's \<Rightarrow> 'x \<Rightarrow> (qmp_error, unit) result \<times> 'x" where
  "qmp_quit Q s x = bindE (qmp_command Q ''quit'' s x) (\<lambda>_ x. (Ok (), x))"

definition qmp_stop :: "('x, 's) qmp_env \<Rightarrow> 's \<Rightarrow> 'x \<Rightarrow> (qmp_error, unit) result \<times> 'x" where
  "qmp_stop Q s x = bindE (qmp_command Q ''stop'' s x) (\<lambda>_ x. (Ok (), x))"

definition qmp_cont :: "('x, 's) qmp_env \<Rightarrow> 's \<Rightarrow> 'x \<Rightarrow> (qmp_error, unit) result \<times> 'x" where
  "qmp_cont Q s x = bindE (qmp_command Q ''cont'' s x) (\<lambda>_ x. (Ok (), x))"

section \<open>The attempts made\<close>

text \<open>The world before the attempt with a number, when every attempt before it has failed.\<close>

fun before_attempt :: "('x, 's) qmp_env \<Rightarrow> u32 \<Rightarrow> nat \<Rightarrow> 'x \<Rightarrow> 'x" where
  "before_attempt Q retries 0 x = x"
| "before_attempt Q retries (Suc n) x =
     (let x' = snd (q_connect Q (before_attempt Q retries n x)) in if n < unat retries then q_sleep Q 500 x' else x')"

definition attempt_at :: "('x, 's) qmp_env \<Rightarrow> u32 \<Rightarrow> nat \<Rightarrow> 'x \<Rightarrow> (string, 's) result \<times> 'x" where
  "attempt_at Q retries n x = q_connect Q (before_attempt Q retries n x)"

lemma qmp_attempts_from:
  assumes "\<forall>k<n. \<not> is_ok (fst (attempt_at Q retries k x))" "n \<le> m"
  shows "qmp_attempts Q retries [n..<m] err (before_attempt Q retries n x) =
    (case List.find (\<lambda>k. is_ok (fst (attempt_at Q retries k x))) [n..<m] of
       Some k \<Rightarrow> qmp_open Q (projr (fst (attempt_at Q retries k x))) (snd (attempt_at Q retries k x))
     | None \<Rightarrow> (case (if n < m then Some (projl (fst (attempt_at Q retries (m - 1) x))) else err) of
          None \<Rightarrow> (Err UnwrapNone, before_attempt Q retries m x)
        | Some e \<Rightarrow> (Err (ConnectAttempts (retries + 1) e), before_attempt Q retries m x)))"
  using assms
proof (induction "m - n" arbitrary: n err)
  case 0
  then show ?case by (simp split: option.split)
next
  case (Suc d)
  then have nm: "n < m" "[n..<m] = n # [Suc n..<m]" by (simp_all add: upt_conv_Cons)
  obtain r x' where c: "attempt_at Q retries n x = (r, x')" by (rule prod.exhaust)
  show ?case
  proof (cases r)
    case (Inr s)
    with c nm show ?thesis by (simp add: attempt_at_def)
  next
    case (Inl e)
    have "\<forall>k<Suc n. \<not> is_ok (fst (attempt_at Q retries k x))"
      using Suc.prems(1) c Inl by (auto simp: less_Suc_eq)
    from Suc.hyps(1) [OF _ this, of "Some e"] Suc.hyps(2) nm(1)
    have "qmp_attempts Q retries [Suc n..<m] (Some e) (before_attempt Q retries (Suc n) x) =
        (case List.find (\<lambda>k. is_ok (fst (attempt_at Q retries k x))) [Suc n..<m] of
           Some k \<Rightarrow> qmp_open Q (projr (fst (attempt_at Q retries k x))) (snd (attempt_at Q retries k x))
         | None \<Rightarrow> (case (if Suc n < m then Some (projl (fst (attempt_at Q retries (m - 1) x))) else Some e) of
              None \<Rightarrow> (Err UnwrapNone, before_attempt Q retries m x)
            | Some e \<Rightarrow> (Err (ConnectAttempts (retries + 1) e), before_attempt Q retries m x)))" by simp
    moreover have "e = projl (fst (attempt_at Q retries (m - Suc 0) x))" if "\<not> Suc n < m"
    proof -
      have "m - Suc 0 = n" using that nm(1) by simp
      with c Inl show ?thesis by simp
    qed
    moreover have "qmp_attempts Q retries [n..<m] err (before_attempt Q retries n x) =
        qmp_attempts Q retries [Suc n..<m] (Some e) (before_attempt Q retries (Suc n) x)"
      using c Inl nm(2) by (simp add: attempt_at_def Let_def)
    ultimately show ?thesis using c Inl nm by simp
  qed
qed

lemma qmp_open_no_unwrap: "fst (qmp_open Q s x) \<noteq> Err UnwrapNone"
  unfolding qmp_open_def
  by (auto simp: bindE_def map_err_def map_prod_def split: prod.splits sum.splits)

text \<open>
  Connecting to a QEMU socket makes its attempts one after another until one succeeds, at
  most one more than the retries asked for, with a pause between two of them and none after the
  last. The first socket that opens decides: what the set-up of that stream and its handshake
  give is the result, and is not tried again. Only if all attempts fail is the error that of the
  last one; the value that is unwrapped there is always present. The number it reports is taken
  in 32 bits: for the largest number of retries it is 0.
\<close>

theorem qmp_connect_exact:
  "qmp_connect Q retries x =
     (case List.find (\<lambda>k. is_ok (fst (attempt_at Q retries k x))) [0..<Suc (unat retries)] of
        Some k \<Rightarrow> qmp_open Q (projr (fst (attempt_at Q retries k x))) (snd (attempt_at Q retries k x))
      | None \<Rightarrow> (Err (ConnectAttempts (retries + 1) (projl (fst (attempt_at Q retries (unat retries) x)))),
                 before_attempt Q retries (Suc (unat retries)) x)) \<and>
   fst (qmp_connect Q retries x) \<noteq> Err UnwrapNone \<and>
   (unat (retries + 1) = Suc (unat retries) \<or> retries = - 1 \<and> retries + 1 = 0)"
proof (intro conjI)
  let ?ok = "\<lambda>k. is_ok (fst (attempt_at Q retries k x))"
  have f: "qmp_connect Q retries x =
     (case List.find ?ok [0..<Suc (unat retries)] of
        Some k \<Rightarrow> qmp_open Q (projr (fst (attempt_at Q retries k x))) (snd (attempt_at Q retries k x))
      | None \<Rightarrow> (Err (ConnectAttempts (retries + 1) (projl (fst (attempt_at Q retries (unat retries) x)))),
                 before_attempt Q retries (Suc (unat retries)) x))"
    using qmp_attempts_from [of 0 Q retries x "Suc (unat retries)" None] unfolding qmp_connect_def
    by (cases "List.find ?ok [0..<Suc (unat retries)]") (simp_all del: upt_Suc before_attempt.simps(2))
  then show "qmp_connect Q retries x =
     (case List.find ?ok [0..<Suc (unat retries)] of
        Some k \<Rightarrow> qmp_open Q (projr (fst (attempt_at Q retries k x))) (snd (attempt_at Q retries k x))
      | None \<Rightarrow> (Err (ConnectAttempts (retries + 1) (projl (fst (attempt_at Q retries (unat retries) x)))),
                 before_attempt Q retries (Suc (unat retries)) x))" .
  show "fst (qmp_connect Q retries x) \<noteq> Err UnwrapNone"
    unfolding f by (simp add: qmp_open_no_unwrap del: upt_Suc split: option.split)
  show "unat (retries + 1) = Suc (unat retries) \<or> retries = - 1 \<and> retries + 1 = 0"
  proof (cases "retries = - 1")
    case False
    then have "1 + retries \<noteq> 0" by (metis add.commute add_eq_0_iff)
    then show ?thesis by (simp add: unatSuc add.commute)
  qed simp
qed

end
