(* ===== verification/Fib_Service.thy ===== *)
theory Fib_Service
  imports Rust_Strings
begin

text \<open>
  The demonstration workload (\<^verbatim>\<open>nix/fib-service/src/main.rs\<close>): Fibonacci numbers in 64 bits with
  saturating addition, and the two handlers.
\<close>

section \<open>The function\<close>

definition saturating_add :: "u64 \<Rightarrow> u64 \<Rightarrow> u64" where
  "saturating_add a b = (if unat a + unat b < 2 ^ 64 then a + b else - 1)"

text \<open>The loop body, as often as the range \<^verbatim>\<open>1..n\<close> has elements.\<close>

definition fib_step :: "u64 \<times> u64 \<Rightarrow> u64 \<times> u64" where
  "fib_step ab = (case ab of (a, b) \<Rightarrow> (b, saturating_add a b))"

definition fibonacci :: "u64 \<Rightarrow> u64" where
  "fibonacci n = (if n = 0 then 0 else snd ((fib_step ^^ (unat n - 1)) (0, 1)))"

datatype fib_reply = FibResponse u64 u64 | HealthResponse string | NotFoundReply

text \<open>A path segment that is no 64-bit number matches no handler's argument.\<close>

definition fib_handler :: "string \<Rightarrow> fib_reply" where
  "fib_handler segment =
     (case parse_u64 segment of None \<Rightarrow> NotFoundReply | Some n \<Rightarrow> FibResponse n (fibonacci n))"

definition health_handler :: fib_reply where
  "health_handler = HealthResponse ''ok''"

section \<open>Equivalence with the Fibonacci numbers\<close>

fun fib :: "nat \<Rightarrow> nat" where
  "fib 0 = 0"
| "fib (Suc 0) = 1"
| "fib (Suc (Suc n)) = fib n + fib (Suc n)"

definition sat64 :: "nat \<Rightarrow> u64" where
  "sat64 n = of_nat (min n (2 ^ 64 - 1))"

lemma unat_sat64 [simp]: "unat (sat64 n) = min n (2 ^ 64 - 1)"
  by (simp add: sat64_def unat_of_nat min_def)

lemma saturating_add_sat64: "saturating_add (sat64 m) (sat64 n) = sat64 (m + n)"
proof -
  have "unat (saturating_add (sat64 m) (sat64 n)) = unat (sat64 (m + n))"
  proof (cases "min m (2 ^ 64 - 1) + min n (2 ^ 64 - 1) < (2 :: nat) ^ 64")
    case True
    then have "unat (sat64 m + sat64 n) = min m (2 ^ 64 - 1) + min n (2 ^ 64 - 1)"
      by (subst unat_plus_simple [THEN iffD1]) (simp_all add: no_olen_add_nat)
    with True show ?thesis by (simp add: saturating_add_def min_def split: if_splits)
  next
    case False
    then show ?thesis by (simp add: saturating_add_def unsigned_minus_1_eq_mask mask_eq_exp_minus_1 min_def split: if_splits)
  qed
  then show ?thesis by (simp add: word_unat_eq_iff)
qed

lemma fib_steps: "(fib_step ^^ k) (0, 1) = (sat64 (fib k), sat64 (fib (Suc k)))"
proof (induction k)
  case 0
  then show ?case by (simp add: sat64_def)
next
  case (Suc k)
  then show ?case by (simp add: fib_step_def saturating_add_sat64)
qed

text \<open>
  The service computes the Fibonacci numbers as far as they fit 64 bits, and the largest
  64-bit number from there on; it never wraps around.
\<close>

theorem fibonacci_saturates: "unat (fibonacci n) = min (fib (unat n)) (2 ^ 64 - 1)"
proof (cases "n = 0")
  case False
  then have "Suc (unat n - 1) = unat n" by (simp add: unat_gt_0 Suc_pred)
  with False show ?thesis by (simp add: fibonacci_def fib_steps)
qed (simp add: fibonacci_def)

end
