(* ===== verification/Spec2Isabelle.thy ===== *)
theory Spec2Isabelle
  imports Overlapping Scheduler_Agent Attest_Cli Operator_Cli Qmp Fib_Service
begin

text \<open>
  \<^bold>\<open>The Aleph confidential VM stack: its programs, their libraries and how they fit together.\<close>

  The repository (Rust, under \<^verbatim>\<open>src/crates\<close>) runs virtual machines, confidential ones on AMD
  SEV-SNP in particular. A compute node (\<^verbatim>\<open>aleph-compute-node\<close>) serves gRPC calls over a Unix
  socket: it validates them (\<^verbatim>\<open>grpc/service.rs\<close>) and hands them to the VM manager
  (\<^verbatim>\<open>vm/manager.rs\<close>), which reserves an IPv4 address, an IPv6 range (\<^verbatim>\<open>aleph-network\<close>), a NUMA node
  (\<^verbatim>\<open>numa.rs\<close>) and host ports, sets up a TAP device, nftables chains and DHCP reservations,
  starts QEMU as a systemd unit and keeps a state file from which it recovers. Two programs call
  the node: the operator's command line (\<^verbatim>\<open>aleph-cvm-cli\<close>) and the scheduler agent
  (\<^verbatim>\<open>aleph-scheduler-agent\<close>), which turns signed allocations of the Aleph network into VMs. Inside
  a confidential VM the attestation agent (\<^verbatim>\<open>aleph-attest-agent\<close>) terminates TLS with a certificate
  that carries an attestation report, answers nonces, takes secrets once and proxies the rest to
  the application; the attestation client (\<^verbatim>\<open>aleph-attest-cli\<close>) verifies all that from outside.
  The library \<^verbatim>\<open>aleph-tee\<close> holds the TEE types, the backends and the verification of reports.

  \<^bold>\<open>Theories\<close>, in the order of their imports.

  \<^item> \<^verbatim>\<open>Prelude\<close>: machine integers, \<^verbatim>\<open>Result\<close> and its combinators, the hash map
    (\<^verbatim>\<open>hmap\<close>, an association list in the map's arbitrary iteration order) and the locales
    \<^verbatim>\<open>kv_store\<close> (a map), \<^verbatim>\<open>exclusive_pool\<close> (resources no two holders share) and
    \<^verbatim>\<open>request_system\<close> (an invariant every request keeps).
  \<^item> \<^verbatim>\<open>Rust_Strings\<close>, \<^verbatim>\<open>Json\<close>, \<^verbatim>\<open>Serde\<close>, \<^verbatim>\<open>Filesystem\<close>: what the code uses of Rust's strings, of
    \<^verbatim>\<open>serde_json::Value\<close>, of derived (de)serialisers (locale \<^verbatim>\<open>json_codec\<close>) and of \<^verbatim>\<open>std::fs\<close> and
    \<^verbatim>\<open>std::path\<close>. Every file operation may fail, and a write may be cut short.
  \<^item> \<^verbatim>\<open>Network_Types\<close>, \<^verbatim>\<open>Port_Forward\<close>, \<^verbatim>\<open>Ipv6_Allocator\<close>: \<^verbatim>\<open>types.rs\<close>, \<^verbatim>\<open>ipv4/port_forward.rs\<close>,
    \<^verbatim>\<open>ipv6/range_allocator.rs\<close>. Automatic allocation finds the lowest free port; IPv6 ranges in use
    never overlap.
  \<^item> \<^verbatim>\<open>Nft_Rules\<close>, \<^verbatim>\<open>Nftables\<close>: \<^verbatim>\<open>nftables/chains.rs\<close>, \<^verbatim>\<open>rules.rs\<close>, \<^verbatim>\<open>mod.rs\<close>. Set-up is idempotent,
    teardown exact, initialisation enough for set-up.
  \<^item> \<^verbatim>\<open>Numa\<close>, \<^verbatim>\<open>Topology\<close>: \<^verbatim>\<open>numa.rs\<close>, \<^verbatim>\<open>hugepages.rs\<close>. The VMs placed on a node never hold more CPUs
    or 1 GiB pages than it has, nor 2 MiB pages until a VM without hugepages was released
    (\<^verbatim>\<open>numa_run\<close>, the allocator with the grants that are live); the cpuset text denotes the CPUs of the
    node; the topology is read from sysfs exactly; the hugepages reserved on all nodes together
    stay within the share of memory asked for.
  \<^item> \<^verbatim>\<open>Tee\<close>, \<^verbatim>\<open>Certs\<close>, \<^verbatim>\<open>Snp_Verify\<close>: the types of \<^verbatim>\<open>aleph-tee\<close>, its backends, the JSON form of reports,
    the certificates and their cache, what a verified report shows, and how the cache can be misused.
  \<^item> \<^verbatim>\<open>Host\<close>, \<^verbatim>\<open>Qemu\<close>, \<^verbatim>\<open>Qmp\<close>, \<^verbatim>\<open>Persistence\<close>, \<^verbatim>\<open>Vm_Record\<close>: \<^verbatim>\<open>bridge.rs\<close>, \<^verbatim>\<open>tap.rs\<close>, \<^verbatim>\<open>ndp_proxy.rs\<close>,
    \<^verbatim>\<open>systemd.rs\<close>; \<^verbatim>\<open>qemu/args.rs\<close>, \<^verbatim>\<open>qemu/process.rs\<close>, \<^verbatim>\<open>verity.rs\<close>, \<^verbatim>\<open>qemu/qmp.rs\<close>; \<^verbatim>\<open>persistence.rs\<close> and
    the JSON of its records. No disk injects a QEMU option; a save is atomic; a record is read back
    as it was written.
  \<^item> \<^verbatim>\<open>Vm_Manager\<close>: the manager. One record holds its locked fields, and an operation maps the
    manager and the host to a result and both of them afterwards. Addresses, ports and ranges are
    exclusive; creation and deletion do exactly what they say, or undo what they did, except where
    a finding says otherwise.
  \<^item> \<^verbatim>\<open>Overlapping\<close>: the same operations as tasks, split where a lock is released, and the step
    relation \<^verbatim>\<open>overlap_run\<close> of their interleavings. A task that runs alone is the operation; however
    tasks interleave, IPv4 addresses stay exclusive; an IPv6 range and a port forward, though, can end
    up with the wrong VM.
  \<^item> \<^verbatim>\<open>Grpc_Service\<close>, \<^verbatim>\<open>Restart\<close>, \<^verbatim>\<open>Compute_Node\<close>: the handlers and their validation; the node over
    restarts (\<^verbatim>\<open>node_run\<close>, a step relation of requests and restarts, under which the state files mirror
    the table of VMs); the process, from its command line to its shutdown.
  \<^item> \<^verbatim>\<open>Operator_Cli\<close>: the operator's commands against a node.
  \<^item> \<^verbatim>\<open>Messages\<close>, \<^verbatim>\<open>Volumes\<close>, \<^verbatim>\<open>Allocations\<close>, \<^verbatim>\<open>Adapter\<close>, \<^verbatim>\<open>Node_Hash\<close>, \<^verbatim>\<open>Scheduler_Agent\<close>: the scheduler
    agent: the JSON of messages, the volume cache, authentication and reconciliation, the translation
    of messages to calls, the discovery of the node's hash, the handlers and commands. A successful
    allocation makes the VMs of the node exactly the allocated ones.
  \<^item> \<^verbatim>\<open>Attested_Tls\<close>, \<^verbatim>\<open>Secrets\<close>, \<^verbatim>\<open>Attest_Client\<close>, \<^verbatim>\<open>Attest_Agent\<close>, \<^verbatim>\<open>Attest_Cli\<close>: the two ends of attested
    TLS, each by itself and then connected: a fresh attestation of a running agent succeeds, and
    injected secrets arrive once. The client follows redirections (\<^verbatim>\<open>follow\<close>), the agent's web library
    decodes paths and limits bodies (\<^verbatim>\<open>g_path\<close>, \<^verbatim>\<open>g_json\<close>, \<^verbatim>\<open>g_bytes\<close>).
  \<^item> \<^verbatim>\<open>Fib_Service\<close>: the demonstration workload under \<^verbatim>\<open>src/nix\<close>.

  \<^bold>\<open>Parameters.\<close> Programs the code runs (\<^verbatim>\<open>nft\<close>, \<^verbatim>\<open>ip\<close>, \<^verbatim>\<open>systemd-run\<close>, \<^verbatim>\<open>veritysetup\<close>), files of the
  kernel (\<^verbatim>\<open>sysfs\<close>), the network and third-party crates (\<^verbatim>\<open>ipnet\<close>, \<^verbatim>\<open>serde_json\<close>'s printer and parser,
  \<^verbatim>\<open>sev\<close>, \<^verbatim>\<open>openssl\<close>, \<^verbatim>\<open>rcgen\<close>, \<^verbatim>\<open>rustls\<close>, \<^verbatim>\<open>hex\<close>, \<^verbatim>\<open>hmac\<close>, \<^verbatim>\<open>reqwest\<close>, \<^verbatim>\<open>actix-web\<close>) are fields of records
  passed to the definitions. What a theorem relies on is a named hypothesis, met by the instance
  its witness uses: what \<^verbatim>\<open>nft\<close> lists after a change (\<^verbatim>\<open>nft_add_law\<close>, \<^verbatim>\<open>nft_delete_law\<close>), that programs leave
  the state files alone (\<^verbatim>\<open>programs_spare\<close>), that file operations succeed (\<^verbatim>\<open>reliable_io\<close>, \<^verbatim>\<open>durable\<close>), that
  texts are read back (\<^verbatim>\<open>hex_ok\<close>, \<^verbatim>\<open>codec_ok\<close>, \<^verbatim>\<open>json_text_ok\<close>, \<^verbatim>\<open>net_text_ok\<close>, \<^verbatim>\<open>json_lib_ok\<close>, \<^verbatim>\<open>x509_lib_ok\<close>,
  \<^verbatim>\<open>extractors_ok\<close>, \<^verbatim>\<open>origin_url\<close>), that certificates carry what they were made with (\<^verbatim>\<open>rcgen_ok\<close>), that
  the firmware honours its report data (\<^verbatim>\<open>firmware_binds\<close>), that the kernel grants no more pages than
  asked for (\<^verbatim>\<open>grants_at_most\<close>), that big numbers are those of their bytes (\<^verbatim>\<open>bn_law\<close>), that a node hash is read back from its text (\<^verbatim>\<open>hash_lib_ok\<close>) and the
  arithmetic of addresses (\<^verbatim>\<open>ipv6_lib_ok\<close>).

  \<^bold>\<open>Loops and fuel.\<close> Loops over data are structural. The draw of an IPv6 address has the code's own
  bound of attempts, as have the retries of the QMP client, and the HTTP library its ten redirections. The discovery of the node's hash polls
  until it succeeds: its fuel is the number of polls, and a theorem states with how many it ends.
  The reader of the text form that witnesses use takes the length of the text as its fuel, and its
  round trip shows that this is enough.

  \<^bold>\<open>Not modelled.\<close> Interleavings inside a phase of an operation: a phase of \<^verbatim>\<open>Overlapping\<close> is one step
  with its rollback, so that \<^verbatim>\<open>try_lock\<close> always succeeds, and outside \<^verbatim>\<open>Overlapping\<close> and \<^verbatim>\<open>Node_Hash\<close> the
  calls of a program are served one after another. Also logging and tracing, the wiring of the
  servers and channels (tonic, actix, clap's parsing), the code generated from the protocol
  definition (its messages are records of \<^verbatim>\<open>Grpc_Service\<close>) and the tests.
\<close>

end
